(* ===== verification/Prelude.thy ===== *)
theory Prelude
  imports Main "HOL-Library.Word" "HOL-Library.Char_ord" "HOL-Library.List_Lexorder"
    "HOL-Library.Product_Lexorder"
begin

text \<open>
  Shared vocabulary of the development.

  \<^item> Fallible code returns \<open>'e + 'a\<close>: \<open>Inl\<close> is a raised exception, \<open>Inr\<close> a returned
    value.  \<open>bindE\<close> sequences two such computations; a \<open>raise\<close> behind a condition is an
    \<open>if\<close> whose first branch is \<open>Inl\<close>.
  \<^item> A Python \<open>str\<close> is a \<open>string\<close>; the characters are the code points below 256, so the text
    operations (\<open>strip\<close>, \<open>upper\<close>, \<open>lower\<close>) are those of Python on that range.
  \<^item> A SQL table is the list of its rows.  \<open>find\<close> is a select of one row, \<open>upd_rows\<close> an
    in-place update of the selected rows, \<open>first_by\<close> an \<open>ORDER BY ... LIMIT 1\<close>.
  \<^item> Instants are integers (microseconds or milliseconds since the epoch, as the component
    says), UUIDs are 128-bit words.
\<close>

named_theorems table_simps "facts about selecting from and updating tables"
named_theorems step_defs "definitions of the operations, unfolded in step proofs"

type_synonym uuid = "128 word"
type_synonym instant = int

subsection \<open>Raising and returning\<close>

definition bindE :: "'e + 'a \<Rightarrow> ('a \<Rightarrow> 'e + 'b) \<Rightarrow> 'e + 'b" where
  "bindE m f = (case m of Inl e \<Rightarrow> Inl e | Inr x \<Rightarrow> f x)"

lemma bindE_simps [simp]:
  "bindE (Inl e) f = Inl e"
  "bindE (Inr x) f = f x"
  by (simp_all add: bindE_def)

lemma bindE_eq_Inr [simp]: "bindE m f = Inr y \<longleftrightarrow> (\<exists>x. m = Inr x \<and> f x = Inr y)"
  by (cases m) (simp_all add: bindE_def)

lemma bindE_eq_Inl [simp]:
  "bindE m f = Inl e \<longleftrightarrow> m = Inl e \<or> (\<exists>x. m = Inr x \<and> f x = Inl e)"
  by (cases m) (simp_all add: bindE_def)

lemma bindE_cong [fundef_cong]:
  "m = m' \<Longrightarrow> (\<And>x. m' = Inr x \<Longrightarrow> f x = g x) \<Longrightarrow> bindE m f = bindE m' g"
  by (cases m') (simp_all add: bindE_def)

lemma if_Inl_eq_Inr [simp]:
  "(if c then Inl e else m) = Inr y \<longleftrightarrow> \<not> c \<and> m = Inr y"
  "(if c then m else Inl e) = Inr y \<longleftrightarrow> c \<and> m = Inr y"
  by simp_all

text \<open>\<open>isInr r\<close>: the computation returned.\<close>

definition isInr :: "'e + 'a \<Rightarrow> bool" where
  "isInr r = (case r of Inl _ \<Rightarrow> False | Inr _ \<Rightarrow> True)"

lemma isInr_simps [simp]: "isInr (Inr x)" "\<not> isInr (Inl e)"
  by (simp_all add: isInr_def)

lemma isInr_iff: "isInr r \<longleftrightarrow> (\<exists>x. r = Inr x)"
  by (cases r) simp_all

subsection \<open>Text\<close>

definition is_digit_char :: "char \<Rightarrow> bool" where
  "is_digit_char c \<longleftrightarrow> 48 \<le> (of_char c :: nat) \<and> (of_char c :: nat) \<le> 57"

definition is_upper_char :: "char \<Rightarrow> bool" where
  "is_upper_char c \<longleftrightarrow> 65 \<le> (of_char c :: nat) \<and> (of_char c :: nat) \<le> 90"

definition is_lower_char :: "char \<Rightarrow> bool" where
  "is_lower_char c \<longleftrightarrow> 97 \<le> (of_char c :: nat) \<and> (of_char c :: nat) \<le> 122"

definition is_alnum_char :: "char \<Rightarrow> bool" where
  "is_alnum_char c \<longleftrightarrow> is_digit_char c \<or> is_upper_char c \<or> is_lower_char c"

text \<open>The classes on the bits of a character, for evaluation.\<close>

lemma is_lower_code [code]: "is_lower_char (Char b0 b1 b2 b3 b4 b5 b6 b7) \<longleftrightarrow>
   \<not> b7 \<and> b6 \<and> b5 \<and> (b0 \<or> b1 \<or> b2 \<or> b3 \<or> b4) \<and> \<not> (b4 \<and> b3 \<and> (b2 \<or> b1 \<and> b0))"
  by (cases b0; cases b1; cases b2; cases b3; cases b4; cases b5; cases b6; cases b7) (simp_all add: is_lower_char_def)

lemma is_upper_code [code]: "is_upper_char (Char b0 b1 b2 b3 b4 b5 b6 b7) \<longleftrightarrow>
   \<not> b7 \<and> b6 \<and> \<not> b5 \<and> (b0 \<or> b1 \<or> b2 \<or> b3 \<or> b4) \<and> \<not> (b4 \<and> b3 \<and> (b2 \<or> b1 \<and> b0))"
  by (cases b0; cases b1; cases b2; cases b3; cases b4; cases b5; cases b6; cases b7) (simp_all add: is_upper_char_def)

lemma is_digit_code [code]: "is_digit_char (Char b0 b1 b2 b3 b4 b5 b6 b7) \<longleftrightarrow>
   \<not> b7 \<and> \<not> b6 \<and> b5 \<and> b4 \<and> \<not> (b3 \<and> (b2 \<or> b1))"
  by (cases b0; cases b1; cases b2; cases b3; cases b4; cases b5; cases b6; cases b7) (simp_all add: is_digit_char_def)

definition is_hex_char :: "char \<Rightarrow> bool" where
  "is_hex_char c \<longleftrightarrow> c \<in> set ''0123456789abcdef''"

text \<open>\<open>str.isspace\<close> on code points below 256, which is what \<open>str.strip\<close> removes.\<close>

definition is_space_char :: "char \<Rightarrow> bool" where
  "is_space_char c \<longleftrightarrow> (let n = (of_char c :: nat) in
     (9 \<le> n \<and> n \<le> 13) \<or> (28 \<le> n \<and> n \<le> 32) \<or> n = 133 \<or> n = 160)"

definition strip :: "string \<Rightarrow> string" where
  "strip s = rev (dropWhile is_space_char (rev (dropWhile is_space_char s)))"

text \<open>
  \<open>str.lower\<close> and \<open>str.upper\<close> below 256.  The micro sign and the y with diaeresis, whose
  upper-case forms lie outside the range, are left alone; the sharp s becomes two letters.
\<close>

definition lower_char :: "char \<Rightarrow> char" where
  "lower_char c = (let n = (of_char c :: nat) in
     if is_upper_char c \<or> (192 \<le> n \<and> n \<le> 222 \<and> n \<noteq> 215) then char_of (n + 32) else c)"

definition upper_char :: "char \<Rightarrow> string" where
  "upper_char c = (let n = (of_char c :: nat) in
     if n = 223 then ''SS''
     else if is_lower_char c \<or> (224 \<le> n \<and> n \<le> 254 \<and> n \<noteq> 247) then [char_of (n - 32)]
     else [c])"

definition py_lower :: "string \<Rightarrow> string" where
  "py_lower s = map lower_char s"

definition py_upper :: "string \<Rightarrow> string" where
  "py_upper s = concat (map upper_char s)"

text \<open>\<open>sub in text\<close> for strings.\<close>

fun has_infix :: "string \<Rightarrow> string \<Rightarrow> bool" where
  "has_infix p [] = (p = [])"
| "has_infix p (c # s) = (take (length p) (c # s) = p \<or> has_infix p s)"

definition starts_with :: "string \<Rightarrow> string \<Rightarrow> bool" where
  "starts_with p s \<longleftrightarrow> take (length p) s = p"

text \<open>\<open>[A-Z][A-Z0-9_]{0,99}\Z\<close>, the pattern of reason and error codes.\<close>

definition is_code_char :: "char \<Rightarrow> bool" where
  "is_code_char c \<longleftrightarrow> is_upper_char c \<or> is_digit_char c \<or> c = CHR ''_''"

definition matches_code :: "string \<Rightarrow> bool" where
  "matches_code s = (case s of [] \<Rightarrow> False
     | c # cs \<Rightarrow> is_upper_char c \<and> length cs \<le> 99 \<and> list_all is_code_char cs)"

text \<open>\<open>[A-Za-z0-9][A-Za-z0-9._:/-]*\Z\<close>, the pattern of identifiers.\<close>

definition is_ident_char :: "char \<Rightarrow> bool" where
  "is_ident_char c \<longleftrightarrow> is_alnum_char c \<or> c \<in> set ''._:/-''"

definition matches_identifier :: "string \<Rightarrow> bool" where
  "matches_identifier s = (case s of [] \<Rightarrow> False
     | c # cs \<Rightarrow> is_alnum_char c \<and> list_all is_ident_char cs)"

text \<open>Decimal numerals, as \<open>str\<close> of an \<open>int\<close> writes them.\<close>

fun dec_nat :: "nat \<Rightarrow> string" where
  "dec_nat n = (if n < 10 then [char_of (48 + n)]
                else dec_nat (n div 10) @ [char_of (48 + n mod 10)])"

declare dec_nat.simps [simp del]

definition dec_int :: "int \<Rightarrow> string" where
  "dec_int i = (if i < 0 then CHR ''-'' # dec_nat (nat (- i)) else dec_nat (nat i))"

text \<open>Lower-case hexadecimal of fixed width, most significant digit first.\<close>

definition hex_digit :: "nat \<Rightarrow> char" where
  "hex_digit n = (if n < 10 then char_of (48 + n) else char_of (87 + n))"

fun hex_fixed :: "nat \<Rightarrow> nat \<Rightarrow> string" where
  "hex_fixed 0 n = []"
| "hex_fixed (Suc k) n = hex_fixed k (n div 16) @ [hex_digit (n mod 16)]"

lemma length_hex_fixed [simp]: "length (hex_fixed k n) = k"
  by (induction k arbitrary: n) simp_all

text \<open>\<open>str(uuid)\<close>: 32 hexadecimal digits in groups of 8, 4, 4, 4 and 12.\<close>

definition uuid_str :: "uuid \<Rightarrow> string" where
  "uuid_str u = (let h = hex_fixed 32 (unat u) in
     take 8 h @ ''-'' @ take 4 (drop 8 h) @ ''-'' @ take 4 (drop 12 h) @ ''-'' @
     take 4 (drop 16 h) @ ''-'' @ drop 20 h)"

lemma length_uuid_str [simp]: "length (uuid_str u) = 36"
  by (simp add: uuid_str_def Let_def)

subsection \<open>Tables\<close>

definition upd_rows :: "('a \<Rightarrow> bool) \<Rightarrow> ('a \<Rightarrow> 'a) \<Rightarrow> 'a list \<Rightarrow> 'a list" where
  "upd_rows P f xs = map (\<lambda>x. if P x then f x else x) xs"

definition first_by :: "('a \<Rightarrow> 'k::linorder) \<Rightarrow> 'a list \<Rightarrow> 'a option" where
  "first_by key xs = (case sort_key key xs of [] \<Rightarrow> None | x # _ \<Rightarrow> Some x)"

text \<open>\<open>SELECT max(...)\<close> over a possibly empty selection, with \<open>or 0\<close>.\<close>

definition max_or_zero :: "int list \<Rightarrow> int" where
  "max_or_zero xs = (if xs = [] then 0 else Max (set xs))"

lemma set_upd_rows [table_simps]:
  "set (upd_rows P f xs) = (\<lambda>x. if P x then f x else x) ` set xs"
  by (simp add: upd_rows_def)

lemma upd_rows_Nil [simp]: "upd_rows P f [] = []"
  by (simp add: upd_rows_def)

lemma upd_rows_Cons [simp]:
  "upd_rows P f (x # xs) = (if P x then f x else x) # upd_rows P f xs"
  by (simp add: upd_rows_def)

lemma length_upd_rows [simp]: "length (upd_rows P f xs) = length xs"
  by (simp add: upd_rows_def)

lemma map_upd_rows [table_simps]:
  "(\<And>x. P x \<Longrightarrow> g (f x) = g x) \<Longrightarrow> map g (upd_rows P f xs) = map g xs"
  by (auto simp: upd_rows_def)

lemma upd_rows_none: "(\<And>x. x \<in> set xs \<Longrightarrow> \<not> P x) \<Longrightarrow> upd_rows P f xs = xs"
  by (auto simp: upd_rows_def intro: map_idI)

lemma find_Some_in: "find P xs = Some x \<Longrightarrow> x \<in> set xs \<and> P x"
  by (induction xs) (auto split: if_splits)

lemma find_None_iff_all: "find P xs = None \<longleftrightarrow> (\<forall>x \<in> set xs. \<not> P x)"
  by (induction xs) auto

lemma find_append: "find P (xs @ ys) = (case find P xs of None \<Rightarrow> find P ys | Some x \<Rightarrow> Some x)"
  by (induction xs) auto

lemma find_upd_rows [table_simps]:
  "(\<And>x. Q x \<Longrightarrow> P (f x) = P x) \<Longrightarrow>
   find P (upd_rows Q f xs) = map_option (\<lambda>x. if Q x then f x else x) (find P xs)"
  by (induction xs) auto

lemma distinct_key_unique:
  "distinct (map k xs) \<Longrightarrow> x \<in> set xs \<Longrightarrow> y \<in> set xs \<Longrightarrow> k x = k y \<Longrightarrow> x = y"
  by (induction xs) (auto simp: image_iff)

lemma find_key:
  "distinct (map k xs) \<Longrightarrow> x \<in> set xs \<Longrightarrow> find (\<lambda>y. k y = k x) xs = Some x"
  by (induction xs) (auto simp: image_iff)

lemma first_by_Some_in: "first_by key xs = Some x \<Longrightarrow> x \<in> set xs"
proof -
  assume "first_by key xs = Some x"
  then obtain ys where "sort_key key xs = x # ys"
    by (auto simp: first_by_def split: list.splits)
  then have "x \<in> set (sort_key key xs)" by simp
  then show ?thesis by simp
qed

lemma first_by_le: "first_by key xs = Some x \<Longrightarrow> y \<in> set xs \<Longrightarrow> key x \<le> key y"
proof -
  assume f: "first_by key xs = Some x" and y: "y \<in> set xs"
  from f obtain ys where s: "sort_key key xs = x # ys"
    by (auto simp: first_by_def split: list.splits)
  have "sorted (map key (x # ys))"
    using sorted_sort_key [of key xs] unfolding s .
  moreover have "y \<in> set (x # ys)" using y s by (metis set_sort)
  ultimately show ?thesis by auto
qed

lemma first_by_None_iff [simp]: "first_by key xs = None \<longleftrightarrow> xs = []"
proof
  assume "first_by key xs = None"
  then have "sort_key key xs = []" by (auto simp: first_by_def split: list.splits)
  then have "length xs = 0" by (metis length_sort list.size(3))
  then show "xs = []" by simp
qed (simp add: first_by_def)

lemma first_by_Nil [simp]: "first_by key [] = None"
  by (simp add: first_by_def)

lemma max_or_zero_ge: "x \<in> set xs \<Longrightarrow> x \<le> max_or_zero xs"
  by (auto simp: max_or_zero_def)

lemma max_or_zero_in: "xs \<noteq> [] \<Longrightarrow> max_or_zero xs \<in> set xs"
  by (simp add: max_or_zero_def)

lemma max_or_zero_upto: "max_or_zero (map int [1..<Suc n]) = int n"
proof (cases "n = 0")
  case False
  have "Max (set (map int [1..<Suc n])) = int n"
    by (rule Max_eqI) (use False in auto)
  then show ?thesis using False by (simp add: max_or_zero_def)
qed (simp add: max_or_zero_def)

lemmas table_elims = find_Some_in first_by_Some_in

end
