(* ===== verification/Json.thy ===== *)
theory Json
  imports Prelude "HOL-Library.Multiset"
begin

text \<open>
  JSON values as the Python code handles them, and \<open>json.dumps\<close> with
  \<open>sort_keys=True, separators=(",", ":"), ensure_ascii=True\<close>, the canonical text every
  fingerprint of the program is computed from (\<open>background_jobs._fingerprint\<close>,
  \<open>task_state_machine._command_fingerprint\<close>, \<open>host_protocol._canonical_json\<close>,
  \<open>journal._encode_result\<close>).  A Python \<open>dict\<close> is an association list without repeated
  keys, in insertion order; a \<open>float\<close> is kept as its printed form, because no component
  computes with one.  The SHA-256 digest is a parameter of the definitions that use it.
\<close>

datatype json =
    JNull
  | JBool bool
  | JInt int
  | JFloat string
  | JStr string
  | JArr "json list"
  | JObj "(string \<times> json) list"

definition jopt :: "('a \<Rightarrow> json) \<Rightarrow> 'a option \<Rightarrow> json" where
  "jopt f x = (case x of None \<Rightarrow> JNull | Some y \<Rightarrow> f y)"

lemma jopt_simps [simp]: "jopt f None = JNull" "jopt f (Some y) = f y"
  by (simp_all add: jopt_def)

definition jget :: "string \<Rightarrow> json \<Rightarrow> json option" where
  "jget k j = (case j of JObj kvs \<Rightarrow> map_of kvs k | _ \<Rightarrow> None)"

definition jkeys :: "json \<Rightarrow> string set" where
  "jkeys j = (case j of JObj kvs \<Rightarrow> fst ` set kvs | _ \<Rightarrow> {})"

definition is_jobj :: "json \<Rightarrow> bool" where
  "is_jobj j = (case j of JObj _ \<Rightarrow> True | _ \<Rightarrow> False)"

text \<open>
  Python's \<open>==\<close> on such values: dictionaries compare without regard to order, and \<open>True\<close>
  and \<open>False\<close> equal \<open>1\<close> and \<open>0\<close>.  Two values are equal when their normal forms are.
\<close>

fun py_norm :: "json \<Rightarrow> json" where
  "py_norm JNull = JNull"
| "py_norm (JBool b) = JInt (if b then 1 else 0)"
| "py_norm (JInt i) = JInt i"
| "py_norm (JFloat s) = JFloat s"
| "py_norm (JStr s) = JStr s"
| "py_norm (JArr xs) = JArr (map py_norm xs)"
| "py_norm (JObj kvs) = JObj (sort_key fst (map (\<lambda>(k, v). (k, py_norm v)) kvs))"

definition py_eq :: "json \<Rightarrow> json \<Rightarrow> bool" where
  "py_eq a b \<longleftrightarrow> py_norm a = py_norm b"

lemma py_eq_refl [simp]: "py_eq a a"
  by (simp add: py_eq_def)

lemma py_eq_sym: "py_eq a b \<Longrightarrow> py_eq b a"
  by (simp add: py_eq_def)

lemma py_eq_trans: "py_eq a b \<Longrightarrow> py_eq b c \<Longrightarrow> py_eq a c"
  by (simp add: py_eq_def)

subsection \<open>Canonical text\<close>

text \<open>\<open>ensure_ascii\<close>: quotes, backslashes and control characters by their short escapes,
  everything outside printable ASCII as \<open>\u00XX\<close>.\<close>

definition json_escape :: "char \<Rightarrow> string" where
  "json_escape c = (let n = (of_char c :: nat) in
     if n = 34 then [char_of (92::nat), char_of (34::nat)]
     else if n = 92 then [char_of (92::nat), char_of (92::nat)]
     else if n = 8 then [char_of (92::nat), CHR ''b'']
     else if n = 9 then [char_of (92::nat), CHR ''t'']
     else if n = 10 then [char_of (92::nat), CHR ''n'']
     else if n = 12 then [char_of (92::nat), CHR ''f'']
     else if n = 13 then [char_of (92::nat), CHR ''r'']
     else if n < 32 \<or> 126 < n then char_of (92::nat) # ''u'' @ hex_fixed 4 n
     else [c])"

definition json_quote :: "string \<Rightarrow> string" where
  "json_quote s = char_of (34::nat) # concat (map json_escape s) @ [char_of (34::nat)]"

fun join_comma :: "string list \<Rightarrow> string" where
  "join_comma [] = []"
| "join_comma [x] = x"
| "join_comma (x # xs) = x @ '','' @ join_comma xs"

fun dumps :: "json \<Rightarrow> string" where
  "dumps JNull = ''null''"
| "dumps (JBool b) = (if b then ''true'' else ''false'')"
| "dumps (JInt i) = dec_int i"
| "dumps (JFloat s) = s"
| "dumps (JStr s) = json_quote s"
| "dumps (JArr xs) = ''['' @ join_comma (map dumps xs) @ '']''"
| "dumps (JObj kvs) = ''{'' @ join_comma (map (\<lambda>(k, s). json_quote k @ '':'' @ s)
     (sort_key fst (map (\<lambda>(k, v). (k, dumps v)) kvs))) @ ''}''"

text \<open>
  Key order does not reach the text: two dictionaries with the same items and no repeated
  key have one canonical text.
\<close>

lemma dumps_perm:
  assumes "distinct (map fst kvs)" "distinct (map fst kvs')" "set kvs = set kvs'"
  shows "dumps (JObj kvs) = dumps (JObj kvs')"
proof -
  let ?f = "map (\<lambda>(k, v). (k, dumps v))"
  have k: "map fst (?f l) = map fst l" for l :: "(string \<times> json) list"
    by (induction l) auto
  have "mset kvs = mset kvs'"
    using assms by (metis distinct_map set_eq_iff_mset_eq_distinct)
  then have m: "mset (?f kvs) = mset (?f kvs')" by simp
  have i: "inj_on fst (set (?f kvs))"
    using assms(1) k [of kvs] distinct_map by metis
  have "sort_key fst (?f kvs) = sort_key fst (?f kvs')"
    by (rule sort_key_inj_key_eq [OF _ i]) (use m in simp_all)
  then show ?thesis by simp
qed

text \<open>The digest of a canonical text, as \<open>hashlib.sha256(...).hexdigest()\<close> of it.\<close>

definition fingerprint :: "(string \<Rightarrow> string) \<Rightarrow> json \<Rightarrow> string" where
  "fingerprint sha256 j = sha256 (dumps j)"

end
