(* ===== verification/Domain_Models.thy ===== *)
theory Domain_Models
  imports Json
begin

text \<open>
  The enumerations and rows of \<open>domain_models.py\<close> that the modelled services read and write,
  and the database state they form.  Every row is a record with one field per column the
  services use; the \<open>created_at\<close>/\<open>updated_at\<close> bookkeeping columns of \<open>RecordContext\<close> are kept
  only where a query orders by them.  The \<open>CHECK\<close> constraints are predicates on rows, the
  \<open>UNIQUE\<close> constraints predicates on a table and a row about to be inserted: an insert that
  breaks one is an \<open>IntegrityError\<close>, as in the database.
\<close>

subsection \<open>Enumerations\<close>

datatype task_state =
    S_INTAKE | S_BRIEFING | S_BRIEF_PENDING_APPROVAL | S_IMPLEMENTING | S_VALIDATING
  | S_REPAIRING | S_PR_ACTIVE | S_READY_FOR_HUMAN_MERGE | S_HANDED_OFF | S_ESCALATED
  | S_FAILED | S_CANCELLED

fun task_state_value :: "task_state \<Rightarrow> string" where
  "task_state_value S_INTAKE = ''INTAKE''"
| "task_state_value S_BRIEFING = ''BRIEFING''"
| "task_state_value S_BRIEF_PENDING_APPROVAL = ''BRIEF_PENDING_APPROVAL''"
| "task_state_value S_IMPLEMENTING = ''IMPLEMENTING''"
| "task_state_value S_VALIDATING = ''VALIDATING''"
| "task_state_value S_REPAIRING = ''REPAIRING''"
| "task_state_value S_PR_ACTIVE = ''PR_ACTIVE''"
| "task_state_value S_READY_FOR_HUMAN_MERGE = ''READY_FOR_HUMAN_MERGE''"
| "task_state_value S_HANDED_OFF = ''HANDED_OFF''"
| "task_state_value S_ESCALATED = ''ESCALATED''"
| "task_state_value S_FAILED = ''FAILED''"
| "task_state_value S_CANCELLED = ''CANCELLED''"

datatype task_outcome = O_AUTOMATION_HANDED_OFF | O_FAILED | O_CANCELLED

fun task_outcome_value :: "task_outcome \<Rightarrow> string" where
  "task_outcome_value O_AUTOMATION_HANDED_OFF = ''AUTOMATION_HANDED_OFF''"
| "task_outcome_value O_FAILED = ''FAILED''"
| "task_outcome_value O_CANCELLED = ''CANCELLED''"

datatype job_status = J_QUEUED | J_RUNNING | J_SUCCEEDED | J_FAILED | J_CANCELLED

datatype effect_status = E_PENDING | E_SUCCEEDED | E_FAILED

datatype dependency_service = D_HOST | D_HERMES | D_GITHUB

fun dependency_service_value :: "dependency_service \<Rightarrow> string" where
  "dependency_service_value D_HOST = ''HOST''"
| "dependency_service_value D_HERMES = ''HERMES''"
| "dependency_service_value D_GITHUB = ''GITHUB''"

datatype process_status = P_RUNNING | P_TERMINATION_REQUESTED | P_TERMINATED | P_GONE

datatype target_kind =
  R_HERMES_RUN | R_HOST_PROCESS | R_BRANCH_HEAD | R_PR_HEAD | R_WEBHOOK_CURSOR

datatype target_status =
    RS_PENDING | RS_CURRENT | RS_UPDATED | RS_QUARANTINED | RS_RETRY_REQUIRED | RS_CANCELLED

subsection \<open>Rows of the task aggregate\<close>

record task_row =
  t_id :: uuid
  t_repository :: string
  t_raw_request :: string
  t_summary :: string
  t_state :: task_state
  t_accepted_brief :: "uuid option"
  t_brief_decision :: "uuid option"
  t_repository_configuration :: "uuid option"
  t_validation_contract :: "uuid option"
  t_retry_count :: int
  t_resume_state :: "task_state option"
  t_outcome :: "string option"
  t_owner :: string
  t_actor :: string
  t_root :: uuid
  t_causation :: "uuid option"
  t_parent :: "uuid option"

record event_row =
  e_id :: uuid
  e_task :: uuid
  e_sequence :: int
  e_type :: string
  e_payload :: json
  e_occurred_at :: instant
  e_transition_id :: "uuid option"
  e_fingerprint :: "string option"
  e_kind :: "string option"
  e_from :: "task_state option"
  e_to :: "task_state option"
  e_reason :: "string option"
  e_policy_lineage :: "string option"
  e_policy_version :: "uuid option"
  e_gate_head :: "string option"
  e_owner :: string
  e_actor :: string
  e_root :: uuid
  e_causation :: "uuid option"
  e_parent :: "uuid option"

record evidence_row =
  v_id :: uuid
  v_task :: "uuid option"
  v_validation_run :: "uuid option"
  v_type :: string
  v_origin :: string
  v_content_hash :: string
  v_content_address :: "string option"
  v_captured_at :: instant
  v_access :: string
  v_retention :: string
  v_correction_of :: "uuid option"
  v_deleted_at :: "instant option"
  v_owner :: string
  v_actor :: string
  v_root :: uuid
  v_causation :: "uuid option"
  v_parent :: "uuid option"

record deletion_row =
  dl_id :: uuid
  dl_evidence :: uuid
  dl_reason :: string
  dl_requested_at :: instant
  dl_owner :: string
  dl_actor :: string
  dl_root :: uuid
  dl_causation :: "uuid option"
  dl_parent :: "uuid option"

record reference_row =
  r_task :: uuid
  r_event :: uuid
  r_evidence :: uuid
  r_position :: int
  r_owner :: string
  r_actor :: string
  r_root :: uuid
  r_causation :: "uuid option"
  r_parent :: "uuid option"

record policy_row =
  p_id :: uuid
  p_lineage :: string
  p_version :: int
  p_thresholds :: json
  p_approved_at :: instant
  p_owner :: string

text \<open>Constraints of \<open>TaskEvent\<close>.\<close>

definition transition_event_type :: string where
  "transition_event_type = ''TASK_STATE_TRANSITION''"

definition all_transition_kinds :: "string list" where
  "all_transition_kinds =
    [''START_BRIEFING'', ''AUTO_ACCEPT_BRIEF'', ''REQUEST_BRIEF_APPROVAL'', ''REVISE_BRIEF'',
     ''APPROVE_EXACT_BRIEF'', ''BEGIN_VALIDATION'', ''BEGIN_REPAIR'', ''REVALIDATE'',
     ''OPEN_VERIFIED_DRAFT_PR'', ''MARK_MERGE_READY'', ''INVALIDATE_READINESS'',
     ''ACKNOWLEDGE_HANDOFF'', ''ESCALATE'', ''RESUME'', ''CANCEL'', ''FAIL'', ''SCOPE_STEER'']"

definition gate_head_kinds :: "string list" where
  "gate_head_kinds = [''OPEN_VERIFIED_DRAFT_PR'', ''MARK_MERGE_READY'', ''ACKNOWLEDGE_HANDOFF'']"

definition event_row_ok :: "event_row \<Rightarrow> bool" where
  "event_row_ok e \<longleftrightarrow>
     0 < e_sequence e \<and>
     (if e_type e = transition_event_type
      then e_transition_id e \<noteq> None \<and> e_fingerprint e \<noteq> None \<and> e_kind e \<noteq> None \<and>
           e_from e \<noteq> None \<and> e_to e \<noteq> None \<and> e_reason e \<noteq> None \<and>
           e_policy_lineage e \<noteq> None \<and> e_policy_version e \<noteq> None
      else e_transition_id e = None \<and> e_fingerprint e = None \<and> e_kind e = None \<and>
           e_from e = None \<and> e_to e = None \<and> e_reason e = None \<and>
           e_policy_lineage e = None \<and> e_policy_version e = None \<and> e_gate_head e = None) \<and>
     (case e_kind e of None \<Rightarrow> True
      | Some k \<Rightarrow> k \<in> set all_transition_kinds \<and>
          (k \<in> set gate_head_kinds \<longleftrightarrow> e_gate_head e \<noteq> None)) \<and>
     (case e_fingerprint e of None \<Rightarrow> True | Some f \<Rightarrow> length f = 64) \<and>
     (case e_gate_head e of None \<Rightarrow> True
      | Some h \<Rightarrow> length h \<in> {40, 64} \<and> list_all is_hex_char h)"

definition event_unique :: "event_row list \<Rightarrow> event_row \<Rightarrow> bool" where
  "event_unique es e \<longleftrightarrow> list_all (\<lambda>x.
     e_id x \<noteq> e_id e \<and>
     \<not> (e_task x = e_task e \<and> e_sequence x = e_sequence e) \<and>
     (e_transition_id e \<noteq> None \<longrightarrow> e_transition_id x \<noteq> e_transition_id e)) es"

subsection \<open>Rows of the durable job queue\<close>

record job_row =
  j_id :: uuid
  j_task :: "uuid option"
  j_type :: string
  j_input :: json
  j_input_fingerprint :: string
  j_status :: job_status
  j_key :: string
  j_attempts :: int
  j_max_attempts :: int
  j_retry_base :: int
  j_retry_max :: int
  j_available_at :: instant
  j_checkpoint :: "json option"
  j_checkpoint_version :: int
  j_lease :: "uuid option"
  j_token :: "int option"
  j_lease_owner :: "string option"
  j_lease_expires :: "instant option"
  j_last_token :: "int option"
  j_last_error :: "string option"
  j_cancel_requested :: "instant option"
  j_completed_at :: "instant option"
  j_created_at :: instant
  j_owner :: string
  j_actor :: string
  j_root :: uuid
  j_causation :: "uuid option"
  j_parent :: "uuid option"

record lease_row =
  l_id :: uuid
  l_job :: uuid
  l_owner :: string
  l_attempt :: int
  l_token :: int
  l_key :: string
  l_claim_fingerprint :: string
  l_heartbeat :: instant
  l_expires :: instant
  l_checkpoint :: "json option"
  l_checkpoint_version :: int
  l_released :: "instant option"
  l_release_reason :: "string option"
  l_retry_at :: "instant option"
  l_failure :: "string option"
  l_cancel_ack :: "instant option"
  l_actor :: string

record checkpoint_row =
  c_id :: uuid
  c_job :: uuid
  c_lease :: uuid
  c_token :: int
  c_sequence :: int
  c_key :: string
  c_fingerprint :: string
  c_payload :: json
  c_recorded_at :: instant

record effect_row =
  f_id :: uuid
  f_job :: uuid
  f_type :: string
  f_key :: string
  f_fingerprint :: string
  f_request :: json
  f_status :: effect_status
  f_started_lease :: uuid
  f_started_token :: int
  f_done_lease :: "uuid option"
  f_done_token :: "int option"
  f_result :: "json option"
  f_started_at :: instant
  f_done_at :: "instant option"

record job_transition_row =
  x_job :: uuid
  x_lease :: uuid
  x_token :: int
  x_task :: uuid
  x_event :: uuid
  x_recorded_at :: instant

record tool_grant_row =
  g_id :: uuid
  g_job :: uuid
  g_lease :: uuid
  g_token :: int
  g_key :: string
  g_scope :: json
  g_issued_at :: instant
  g_revoked_at :: "instant option"
  g_revoke_reason :: "string option"

record process_row =
  h_id :: uuid
  h_job :: uuid
  h_lease :: uuid
  h_token :: int
  h_host :: string
  h_pid :: int
  h_group :: int
  h_birth :: string
  h_nonce :: uuid
  h_status :: process_status
  h_started_at :: instant
  h_requested_at :: "instant option"
  h_terminated_at :: "instant option"

record ignored_row =
  i_id :: uuid
  i_job :: uuid
  i_lease :: uuid
  i_token :: int
  i_effect :: "uuid option"
  i_key :: string
  i_fingerprint :: string
  i_evidence :: uuid
  i_reason :: string
  i_received_at :: instant

record outage_row =
  o_id :: uuid
  o_job :: uuid
  o_lease :: uuid
  o_token :: int
  o_attempt :: int
  o_service :: dependency_service
  o_error :: string
  o_evidence :: uuid
  o_exhausted :: bool
  o_occurred_at :: instant
  o_approval :: "uuid option"
  o_resolved_at :: "instant option"
  o_decision :: "uuid option"
  o_resumed_job :: "uuid option"

record target_row =
  g_target_id :: uuid
  g_target_task :: "uuid option"
  g_target_job :: "uuid option"
  g_target_kind :: target_kind
  g_target_key :: string
  g_target_expected :: json
  g_target_fingerprint :: string
  g_target_status :: target_status
  g_target_version :: int

text \<open>\<open>CHECK\<close> constraints of \<open>BackgroundJob\<close>, \<open>BackgroundJobLease\<close> and \<open>BackgroundJobEffect\<close>.\<close>

definition job_row_ok :: "job_row \<Rightarrow> bool" where
  "job_row_ok j \<longleftrightarrow>
     0 \<le> j_attempts j \<and> 1 \<le> j_max_attempts j \<and> j_max_attempts j \<le> 100 \<and>
     j_attempts j \<le> j_max_attempts j \<and> 0 < j_retry_base j \<and>
     j_retry_base j \<le> j_retry_max j \<and> 0 \<le> j_checkpoint_version j \<and>
     ((j_lease j = None \<and> j_token j = None \<and> j_lease_owner j = None \<and> j_lease_expires j = None) \<or>
      (j_lease j \<noteq> None \<and> j_token j \<noteq> None \<and> j_lease_owner j \<noteq> None \<and> j_lease_expires j \<noteq> None))"

definition lease_reasons :: "string list" where
  "lease_reasons = [''SUPERSEDED'', ''EXPIRED'', ''RETRY'', ''SUCCEEDED'', ''FAILED'', ''CANCELLED'']"

definition lease_row_ok :: "lease_row \<Rightarrow> bool" where
  "lease_row_ok l \<longleftrightarrow>
     0 < l_attempt l \<and> 0 < l_token l \<and> 0 \<le> l_checkpoint_version l \<and>
     l_heartbeat l < l_expires l \<and>
     ((l_released l = None \<and> l_release_reason l = None) \<or>
      (l_released l \<noteq> None \<and> (\<exists>r \<in> set lease_reasons. l_release_reason l = Some r)))"

definition effect_row_ok :: "effect_row \<Rightarrow> bool" where
  "effect_row_ok f \<longleftrightarrow>
     (if f_status f = E_PENDING
      then f_done_at f = None \<and> f_done_lease f = None \<and> f_done_token f = None
      else f_done_at f \<noteq> None \<and> f_done_lease f \<noteq> None \<and> f_done_token f \<noteq> None)"

subsection \<open>The database\<close>

record task_db =
  tasks :: "task_row list"
  events :: "event_row list"
  evidence :: "evidence_row list"
  references :: "reference_row list"
  deletion_requests :: "deletion_row list"
  policies :: "policy_row list"

record job_db = task_db +
  jobs :: "job_row list"
  leases :: "lease_row list"
  checkpoints :: "checkpoint_row list"
  effects :: "effect_row list"
  fencing_counter :: "int option"
  job_transitions :: "job_transition_row list"
  tool_grants :: "tool_grant_row list"
  processes :: "process_row list"
  ignored_results :: "ignored_row list"
  outages :: "outage_row list"
  targets :: "target_row list"

text \<open>
  What the services call outside themselves: the SHA-256 digest, the redaction of
  \<open>evidence.redact_evidence_content\<close> (the redacted value and its manifest), and the part of
  \<open>evidence.load_evidence\<close> that reads the artifact store and checks the stored envelope.
\<close>

record env =
  sha256 :: "string \<Rightarrow> string"
  redact :: "json \<Rightarrow> json \<times> (string \<times> nat) list"
  envelope_ok :: "evidence_row \<Rightarrow> bool"

end
