(* ===== verification/Task_State_Machine.thy ===== *)
theory Task_State_Machine
  imports Domain_Models
begin

text \<open>
  \<open>task_state_machine.py\<close>: the pure transition engine \<open>evaluate_task_transition\<close> with its
  guards, and the audited transaction \<open>_transition_task\<close> that locks a task, recognises a
  replayed command, resolves policy, evidence and gates, appends the event and projects it onto
  the task row.  The gate evaluator is a Python \<open>Protocol\<close>: it is a parameter \<open>gate\<close>.
\<close>

subsection \<open>Vocabulary\<close>

datatype transition_kind =
    K_START_BRIEFING | K_AUTO_ACCEPT_BRIEF | K_REQUEST_BRIEF_APPROVAL | K_REVISE_BRIEF
  | K_APPROVE_EXACT_BRIEF | K_BEGIN_VALIDATION | K_BEGIN_REPAIR | K_REVALIDATE
  | K_OPEN_VERIFIED_DRAFT_PR | K_MARK_MERGE_READY | K_INVALIDATE_READINESS
  | K_ACKNOWLEDGE_HANDOFF | K_ESCALATE | K_RESUME | K_CANCEL | K_FAIL | K_SCOPE_STEER

fun kind_value :: "transition_kind \<Rightarrow> string" where
  "kind_value K_START_BRIEFING = ''START_BRIEFING''"
| "kind_value K_AUTO_ACCEPT_BRIEF = ''AUTO_ACCEPT_BRIEF''"
| "kind_value K_REQUEST_BRIEF_APPROVAL = ''REQUEST_BRIEF_APPROVAL''"
| "kind_value K_REVISE_BRIEF = ''REVISE_BRIEF''"
| "kind_value K_APPROVE_EXACT_BRIEF = ''APPROVE_EXACT_BRIEF''"
| "kind_value K_BEGIN_VALIDATION = ''BEGIN_VALIDATION''"
| "kind_value K_BEGIN_REPAIR = ''BEGIN_REPAIR''"
| "kind_value K_REVALIDATE = ''REVALIDATE''"
| "kind_value K_OPEN_VERIFIED_DRAFT_PR = ''OPEN_VERIFIED_DRAFT_PR''"
| "kind_value K_MARK_MERGE_READY = ''MARK_MERGE_READY''"
| "kind_value K_INVALIDATE_READINESS = ''INVALIDATE_READINESS''"
| "kind_value K_ACKNOWLEDGE_HANDOFF = ''ACKNOWLEDGE_HANDOFF''"
| "kind_value K_ESCALATE = ''ESCALATE''"
| "kind_value K_RESUME = ''RESUME''"
| "kind_value K_CANCEL = ''CANCEL''"
| "kind_value K_FAIL = ''FAIL''"
| "kind_value K_SCOPE_STEER = ''SCOPE_STEER''"

datatype transition_error =
    InvalidTaskTransition | TaskTransitionNotFound | TaskTransitionConflict
  | TransitionIntegrityError

definition terminal_states :: "task_state set" where
  "terminal_states = {S_HANDED_OFF, S_FAILED, S_CANCELLED}"

definition scope_steering_states :: "task_state set" where
  "scope_steering_states = - terminal_states - {S_ESCALATED}"

record draft_gate =
  current_head_sha :: string
  validation_commit_sha :: string
  local_branch_sha :: string
  remote_branch_sha :: string
  pull_request_head_sha :: string
  validation_passed :: bool
  required_artifacts_present :: bool
  branch_clean :: bool
  pull_request_is_draft :: bool
  no_unresolved_approval :: bool
  cancellation_clear :: bool

record readiness_gate =
  readiness_draft :: draft_gate
  required_ci_green :: bool
  no_blocking_review :: bool
  repairs_authorized :: bool

record guards =
  brief_policy_bypass_authorized :: bool
  brief_approval_required :: bool
  brief_revision_request_id :: "uuid option"
  exact_brief_human_approval :: bool
  repair_authorized :: bool
  draft_pr :: "draft_gate option"
  readiness :: "readiness_gate option"
  readiness_invalidation_current :: bool
  human_handoff_acknowledged :: bool
  resume_decision_id :: "uuid option"
  resume_decision_current :: bool
  resume_preconditions_rechecked :: bool
  work_fence_verified :: bool
  scope_decisions_invalidated :: bool

definition no_guards :: guards where
  "no_guards = \<lparr>brief_policy_bypass_authorized = False, brief_approval_required = False,
     brief_revision_request_id = None, exact_brief_human_approval = False,
     repair_authorized = False, draft_pr = None, readiness = None,
     readiness_invalidation_current = False, human_handoff_acknowledged = False,
     resume_decision_id = None, resume_decision_current = False,
     resume_preconditions_rechecked = False, work_fence_verified = False,
     scope_decisions_invalidated = False\<rparr>"

definition closed_evaluator ::
  "'d \<Rightarrow> task_row \<Rightarrow> transition_kind \<Rightarrow> policy_row \<Rightarrow> instant \<Rightarrow> transition_error + guards" where
  "closed_evaluator db t k p now = Inr no_guards"

record snapshot =
  s_state :: task_state
  s_resume :: "task_state option"
  s_verified_head :: "string option"

record plan =
  pl_from :: task_state
  pl_to :: task_state
  pl_kind :: transition_kind
  pl_resume :: "task_state option"
  pl_outcome :: "task_outcome option"
  pl_gate_head :: "string option"
  pl_retry_delta :: int
  pl_invalidate :: bool

subsection \<open>Gates\<close>

definition normalized_git_sha :: "string \<Rightarrow> transition_error + string" where
  "normalized_git_sha value = (let n = py_lower (strip value) in
     if length n \<notin> {40, 64} \<or> \<not> list_all is_hex_char n then Inl InvalidTaskTransition else Inr n)"

record candidate =
  commit_sha :: string
  tree_sha :: string

definition mk_candidate :: "string \<Rightarrow> string \<Rightarrow> transition_error + candidate" where
  "mk_candidate commit tree =
     bindE (normalized_git_sha commit) (\<lambda>c.
     bindE (normalized_git_sha tree) (\<lambda>t. Inr \<lparr>commit_sha = c, tree_sha = t\<rparr>))"

definition verified_draft_head :: "draft_gate \<Rightarrow> transition_error + string" where
  "verified_draft_head d =
     bindE (normalized_git_sha (current_head_sha d)) (\<lambda>current.
     bindE (normalized_git_sha (validation_commit_sha d)) (\<lambda>v.
     bindE (normalized_git_sha (local_branch_sha d)) (\<lambda>l.
     bindE (normalized_git_sha (remote_branch_sha d)) (\<lambda>r.
     bindE (normalized_git_sha (pull_request_head_sha d)) (\<lambda>p.
       if {v, l, r, p} \<noteq> {current} \<or>
          \<not> (validation_passed d \<and> required_artifacts_present d \<and> branch_clean d \<and>
             pull_request_is_draft d \<and> no_unresolved_approval d \<and> cancellation_clear d)
       then Inl InvalidTaskTransition else Inr current)))))"

definition readiness_head :: "snapshot \<Rightarrow> readiness_gate \<Rightarrow> transition_error + string" where
  "readiness_head s r =
     bindE (verified_draft_head (readiness_draft r)) (\<lambda>current.
       case s_verified_head s of None \<Rightarrow> Inl InvalidTaskTransition
       | Some h \<Rightarrow> bindE (normalized_git_sha h) (\<lambda>hn.
           if hn \<noteq> current \<or>
              \<not> (required_ci_green r \<and> no_blocking_review r \<and> repairs_authorized r)
           then Inl InvalidTaskTransition else Inr current))"

subsection \<open>The pure engine\<close>

definition mk_plan :: "snapshot \<Rightarrow> transition_kind \<Rightarrow> task_state \<Rightarrow> plan" where
  "mk_plan s k target = \<lparr>pl_from = s_state s, pl_to = target, pl_kind = k, pl_resume = None,
     pl_outcome = None, pl_gate_head = None, pl_retry_delta = 0, pl_invalidate = False\<rparr>"

text \<open>The \<open>elif\<close> chain of the code: is the edge valid, and where does it lead.\<close>

fun edge_check :: "task_state \<Rightarrow> guards \<Rightarrow> transition_kind \<Rightarrow> bool \<times> task_state" where
  "edge_check c g K_START_BRIEFING = (c = S_INTAKE, S_BRIEFING)"
| "edge_check c g K_AUTO_ACCEPT_BRIEF =
     (c = S_BRIEFING \<and> brief_policy_bypass_authorized g, S_IMPLEMENTING)"
| "edge_check c g K_REQUEST_BRIEF_APPROVAL =
     (c = S_BRIEFING \<and> brief_approval_required g, S_BRIEF_PENDING_APPROVAL)"
| "edge_check c g K_REVISE_BRIEF =
     (c = S_BRIEF_PENDING_APPROVAL \<and> brief_revision_request_id g \<noteq> None, S_BRIEFING)"
| "edge_check c g K_APPROVE_EXACT_BRIEF =
     (c = S_BRIEF_PENDING_APPROVAL \<and> exact_brief_human_approval g, S_IMPLEMENTING)"
| "edge_check c g K_BEGIN_VALIDATION = (c = S_IMPLEMENTING, S_VALIDATING)"
| "edge_check c g K_BEGIN_REPAIR =
     (c \<in> {S_VALIDATING, S_PR_ACTIVE} \<and> repair_authorized g, S_REPAIRING)"
| "edge_check c g K_REVALIDATE = (c = S_REPAIRING, S_VALIDATING)"
| "edge_check c g K_OPEN_VERIFIED_DRAFT_PR = (c = S_VALIDATING \<and> draft_pr g \<noteq> None, S_PR_ACTIVE)"
| "edge_check c g K_MARK_MERGE_READY =
     (c = S_PR_ACTIVE \<and> readiness g \<noteq> None, S_READY_FOR_HUMAN_MERGE)"
| "edge_check c g K_INVALIDATE_READINESS =
     (c = S_READY_FOR_HUMAN_MERGE \<and> readiness_invalidation_current g, S_PR_ACTIVE)"
| "edge_check c g K_ACKNOWLEDGE_HANDOFF =
     (c = S_READY_FOR_HUMAN_MERGE \<and> human_handoff_acknowledged g \<and> readiness g \<noteq> None,
      S_HANDED_OFF)"
| "edge_check c g _ = (False, c)"

definition edge_gate_head ::
  "snapshot \<Rightarrow> transition_kind \<Rightarrow> guards \<Rightarrow> transition_error + string option" where
  "edge_gate_head s k g =
     (if k = K_OPEN_VERIFIED_DRAFT_PR then
        (case draft_pr g of None \<Rightarrow> Inl InvalidTaskTransition
         | Some d \<Rightarrow> bindE (verified_draft_head d) (\<lambda>h. Inr (Some h)))
      else if k \<in> {K_MARK_MERGE_READY, K_ACKNOWLEDGE_HANDOFF} then
        (case readiness g of None \<Rightarrow> Inl InvalidTaskTransition
         | Some r \<Rightarrow> bindE (readiness_head s r) (\<lambda>h. Inr (Some h)))
      else Inr None)"

definition evaluate_task_transition ::
  "snapshot \<Rightarrow> transition_kind \<Rightarrow> guards \<Rightarrow> transition_error + plan" where
  "evaluate_task_transition s k g = (let current = s_state s in
     if current \<in> terminal_states then Inl InvalidTaskTransition
     else if k = K_CANCEL then Inr ((mk_plan s k S_CANCELLED)\<lparr>pl_outcome := Some O_CANCELLED\<rparr>)
     else if k = K_FAIL then Inr ((mk_plan s k S_FAILED)\<lparr>pl_outcome := Some O_FAILED\<rparr>)
     else if k = K_ESCALATE then
       (if current = S_ESCALATED then Inl InvalidTaskTransition
        else Inr ((mk_plan s k S_ESCALATED)\<lparr>pl_resume := Some current\<rparr>))
     else if k = K_RESUME then
       (case s_resume s of None \<Rightarrow> Inl InvalidTaskTransition
        | Some target \<Rightarrow>
            if current \<noteq> S_ESCALATED \<or> target \<in> terminal_states \<or> target = S_ESCALATED \<or>
               resume_decision_id g = None \<or> \<not> resume_decision_current g \<or>
               \<not> resume_preconditions_rechecked g
            then Inl InvalidTaskTransition else Inr (mk_plan s k target))
     else if k = K_SCOPE_STEER then
       (if current \<notin> scope_steering_states \<or> \<not> work_fence_verified g \<or>
           \<not> scope_decisions_invalidated g
        then Inl InvalidTaskTransition
        else Inr ((mk_plan s k S_BRIEFING)\<lparr>pl_invalidate := True\<rparr>))
     else (case edge_check current g k of (valid, target) \<Rightarrow>
       if \<not> valid then Inl InvalidTaskTransition
       else bindE (edge_gate_head s k g) (\<lambda>head.
         Inr ((mk_plan s k target)\<lparr>
           pl_outcome := (if target = S_HANDED_OFF then Some O_AUTOMATION_HANDED_OFF else None),
           pl_gate_head := head,
           pl_retry_delta := (if k = K_BEGIN_REPAIR then 1 else 0)\<rparr>))))"

subsection \<open>Command normalisation\<close>

definition required_actor :: "env \<Rightarrow> string \<Rightarrow> transition_error + string" where
  "required_actor e value = (let n = strip value in
     if n = [] \<or> 255 < length n \<or> \<not> matches_identifier n \<or> has_infix ''://'' n \<or>
        has_infix ''//'' n \<or> has_infix ''..'' n \<or> starts_with ''/'' n \<or>
        snd (redact e (JStr n)) \<noteq> []
     then Inl InvalidTaskTransition else Inr n)"

definition required_reason_code :: "string \<Rightarrow> transition_error + string" where
  "required_reason_code value = (let n = py_upper (strip value) in
     if \<not> matches_code n then Inl InvalidTaskTransition else Inr n)"

text \<open>\<open>tuple(dict.fromkeys(ids))\<close>: first occurrences, in order.\<close>

fun from_keys :: "'a list \<Rightarrow> 'a list" where
  "from_keys [] = []"
| "from_keys (x # xs) = x # removeAll x (from_keys xs)"

record transition_command =
  tc_task :: uuid
  tc_id :: uuid
  tc_expected :: task_state
  tc_kind :: transition_kind
  tc_reason :: string
  tc_actor :: string
  tc_evidence :: "uuid list"
  tc_candidate :: "candidate option"

definition candidate_json :: "candidate \<Rightarrow> json" where
  "candidate_json c = JObj [(''commit_sha'', JStr (commit_sha c)), (''tree_sha'', JStr (tree_sha c))]"

definition command_fingerprint :: "env \<Rightarrow> transition_command \<Rightarrow> string" where
  "command_fingerprint e c = fingerprint (sha256 e) (JObj
     ([(''actor_id'', JStr (tc_actor c)),
       (''evidence_ids'', JArr (map JStr (sort (map uuid_str (tc_evidence c))))),
       (''expected_state'', JStr (task_state_value (tc_expected c))),
       (''kind'', JStr (kind_value (tc_kind c))),
       (''reason_code'', JStr (tc_reason c)),
       (''task_id'', JStr (uuid_str (tc_task c))),
       (''transition_id'', JStr (uuid_str (tc_id c)))] @
      (case tc_candidate c of None \<Rightarrow> []
       | Some v \<Rightarrow> [(''validation_candidate'', candidate_json v)])))"

subsection \<open>Reading durable state\<close>

definition task_events :: "'a task_db_scheme \<Rightarrow> uuid \<Rightarrow> event_row list" where
  "task_events db tid = filter (\<lambda>x. e_task x = tid) (events db)"

definition latest_verified_pr_head ::
  "'a task_db_scheme \<Rightarrow> uuid \<Rightarrow> transition_error + string option" where
  "latest_verified_pr_head db tid =
     (case first_by (\<lambda>x. - e_sequence x)
             (filter (\<lambda>x. e_type x = transition_event_type \<and> e_gate_head x \<noteq> None)
                (task_events db tid)) of
        None \<Rightarrow> Inr None
      | Some x \<Rightarrow> (case normalized_git_sha (the (e_gate_head x)) of
            Inl _ \<Rightarrow> Inl TaskTransitionConflict
          | Inr h \<Rightarrow> Inr (Some h)))"

definition next_event_sequence :: "'a task_db_scheme \<Rightarrow> uuid \<Rightarrow> int" where
  "next_event_sequence db tid = max_or_zero (map e_sequence (task_events db tid)) + 1"

definition policy_authorizes_repository :: "policy_row \<Rightarrow> string \<Rightarrow> bool" where
  "policy_authorizes_repository p repo =
     (case jget ''repository_authority'' (p_thresholds p) of
        None \<Rightarrow> True
      | Some authority \<Rightarrow> authority = JNull \<or>
          py_eq authority (JObj [(''schema_version'', JInt 1), (''repository'', JStr repo)]))"

definition active_policy ::
  "'a task_db_scheme \<Rightarrow> task_row \<Rightarrow> string \<Rightarrow> instant \<Rightarrow> transition_error + policy_row" where
  "active_policy db t lineage now =
     (case first_by (\<lambda>p. - p_version p)
             (filter (\<lambda>p. p_lineage p = lineage \<and> p_owner p = t_owner t \<and> p_approved_at p \<le> now)
                (policies db)) of
        None \<Rightarrow> Inl TaskTransitionNotFound
      | Some p \<Rightarrow> if \<not> policy_authorizes_repository p (t_repository t)
                  then Inl TaskTransitionNotFound else Inr p)"

record transition_result =
  tr_task :: uuid
  tr_id :: uuid
  tr_event :: uuid
  tr_sequence :: int
  tr_from :: task_state
  tr_to :: task_state
  tr_replayed :: bool

definition candidate_matches :: "transition_command \<Rightarrow> json \<Rightarrow> bool" where
  "candidate_matches c payload =
     (if tc_kind c \<in> {K_BEGIN_VALIDATION, K_REVALIDATE}
      then (case (tc_candidate c, jget ''validation_candidate'' payload) of
              (Some v, Some j) \<Rightarrow> is_jobj j \<and> jkeys j = {''commit_sha'', ''tree_sha''} \<and>
                 jget ''commit_sha'' j = Some (JStr (commit_sha v)) \<and>
                 jget ''tree_sha'' j = Some (JStr (tree_sha v))
            | _ \<Rightarrow> False)
      else True)"

definition replayed_result ::
  "event_row \<Rightarrow> transition_command \<Rightarrow> string \<Rightarrow> transition_error + transition_result" where
  "replayed_result x c fp =
     (case (e_from x, e_to x) of
        (Some f, Some t) \<Rightarrow>
          if e_task x \<noteq> tc_task c \<or> e_kind x \<noteq> Some (kind_value (tc_kind c)) \<or>
             \<not> candidate_matches c (e_payload x) \<or> e_fingerprint x \<noteq> Some fp
          then Inl TaskTransitionConflict
          else Inr \<lparr>tr_task = tc_task c, tr_id = tc_id c, tr_event = e_id x,
                    tr_sequence = e_sequence x, tr_from = f, tr_to = t, tr_replayed = True\<rparr>
      | _ \<Rightarrow> Inl TaskTransitionConflict)"

definition load_evidence_ok :: "env \<Rightarrow> 'a task_db_scheme \<Rightarrow> evidence_row \<Rightarrow> bool" where
  "load_evidence_ok e db v \<longleftrightarrow> v_content_address v \<noteq> None \<and> v_deleted_at v = None \<and>
     v_id v \<notin> dl_evidence ` set (deletion_requests db) \<and> envelope_ok e v"

definition evidence_usable :: "env \<Rightarrow> 'a task_db_scheme \<Rightarrow> task_row \<Rightarrow> evidence_row \<Rightarrow> bool" where
  "evidence_usable e db t v \<longleftrightarrow>
     v_task v = Some (t_id t) \<and> v_owner v = t_owner t \<and> v_root v = t_root t \<and>
     \<not> list_ex (\<lambda>w. v_correction_of w = Some (v_id v)) (evidence db) \<and>
     v_id v \<notin> dl_evidence ` set (deletion_requests db) \<and> load_evidence_ok e db v"

fun ordered_evidence ::
  "env \<Rightarrow> 'a task_db_scheme \<Rightarrow> task_row \<Rightarrow> uuid list \<Rightarrow> transition_error + evidence_row list" where
  "ordered_evidence e db t [] = Inr []"
| "ordered_evidence e db t (i # is) =
     (case find (\<lambda>v. v_id v = i) (evidence db) of
        None \<Rightarrow> Inl TaskTransitionNotFound
      | Some v \<Rightarrow> if \<not> evidence_usable e db t v then Inl TaskTransitionNotFound
                  else bindE (ordered_evidence e db t is) (\<lambda>vs. Inr (v # vs)))"

definition verify_transition_evidence ::
  "env \<Rightarrow> 'a task_db_scheme \<Rightarrow> task_row \<Rightarrow> uuid list \<Rightarrow> transition_error + evidence_row list" where
  "verify_transition_evidence e db t ids = ordered_evidence e db t ids"

subsection \<open>The audited transaction\<close>

definition draft_gate_json :: "draft_gate \<Rightarrow> json" where
  "draft_gate_json d = JObj
     [(''current_head_sha'', JStr (current_head_sha d)),
      (''validation_commit_sha'', JStr (validation_commit_sha d)),
      (''local_branch_sha'', JStr (local_branch_sha d)),
      (''remote_branch_sha'', JStr (remote_branch_sha d)),
      (''pull_request_head_sha'', JStr (pull_request_head_sha d)),
      (''validation_passed'', JBool (validation_passed d)),
      (''required_artifacts_present'', JBool (required_artifacts_present d)),
      (''branch_clean'', JBool (branch_clean d)),
      (''pull_request_is_draft'', JBool (pull_request_is_draft d)),
      (''no_unresolved_approval'', JBool (no_unresolved_approval d)),
      (''cancellation_clear'', JBool (cancellation_clear d))]"

definition readiness_gate_json :: "readiness_gate \<Rightarrow> json" where
  "readiness_gate_json r = JObj
     [(''draft_pr'', draft_gate_json (readiness_draft r)),
      (''required_ci_green'', JBool (required_ci_green r)),
      (''no_blocking_review'', JBool (no_blocking_review r)),
      (''repairs_authorized'', JBool (repairs_authorized r))]"

definition guards_json :: "guards \<Rightarrow> json" where
  "guards_json g = JObj
     [(''brief_policy_bypass_authorized'', JBool (brief_policy_bypass_authorized g)),
      (''brief_approval_required'', JBool (brief_approval_required g)),
      (''brief_revision_request_id'', jopt (\<lambda>u. JStr (uuid_str u)) (brief_revision_request_id g)),
      (''exact_brief_human_approval'', JBool (exact_brief_human_approval g)),
      (''repair_authorized'', JBool (repair_authorized g)),
      (''draft_pr'', jopt draft_gate_json (draft_pr g)),
      (''readiness'', jopt readiness_gate_json (readiness g)),
      (''readiness_invalidation_current'', JBool (readiness_invalidation_current g)),
      (''human_handoff_acknowledged'', JBool (human_handoff_acknowledged g)),
      (''resume_decision_id'', jopt (\<lambda>u. JStr (uuid_str u)) (resume_decision_id g)),
      (''resume_decision_current'', JBool (resume_decision_current g)),
      (''resume_preconditions_rechecked'', JBool (resume_preconditions_rechecked g)),
      (''work_fence_verified'', JBool (work_fence_verified g)),
      (''scope_decisions_invalidated'', JBool (scope_decisions_invalidated g))]"

definition handoff_meaning :: string where
  "handoff_meaning = ''Automation responsibility has ended; this does not mean merged, deployed, delivered, or released.''"

definition transition_payload :: "task_row \<Rightarrow> plan \<Rightarrow> guards \<Rightarrow> candidate option \<Rightarrow> json" where
  "transition_payload t pl g cand = JObj
     ([(''schema_version'', JInt 1),
       (''kind'', JStr (kind_value (pl_kind pl))),
       (''gate_facts'', guards_json g),
       (''invalidated_ids'',
          if pl_invalidate pl then JObj
            [(''accepted_brief_id'', jopt (\<lambda>u. JStr (uuid_str u)) (t_accepted_brief t)),
             (''brief_approval_decision_id'', jopt (\<lambda>u. JStr (uuid_str u)) (t_brief_decision t)),
             (''validation_contract_id'', jopt (\<lambda>u. JStr (uuid_str u)) (t_validation_contract t))]
          else JNull),
       (''meaning'', if pl_to pl = S_HANDED_OFF then JStr handoff_meaning else JNull)] @
      (case cand of None \<Rightarrow> [] | Some v \<Rightarrow> [(''validation_candidate'', candidate_json v)]))"

definition transition_event ::
  "task_row \<Rightarrow> transition_command \<Rightarrow> plan \<Rightarrow> guards \<Rightarrow> policy_row \<Rightarrow> string \<Rightarrow> int \<Rightarrow> instant \<Rightarrow>
   uuid \<Rightarrow> event_row" where
  "transition_event t c pl g p fp sequence now eid =
     \<lparr>e_id = eid, e_task = t_id t, e_sequence = sequence, e_type = transition_event_type,
      e_payload = transition_payload t pl g (tc_candidate c), e_occurred_at = now,
      e_transition_id = Some (tc_id c), e_fingerprint = Some fp,
      e_kind = Some (kind_value (pl_kind pl)), e_from = Some (pl_from pl),
      e_to = Some (pl_to pl), e_reason = Some (tc_reason c),
      e_policy_lineage = Some (p_lineage p), e_policy_version = Some (p_id p),
      e_gate_head = pl_gate_head pl, e_owner = t_owner t, e_actor = tc_actor c,
      e_root = t_root t, e_causation = Some (t_id t), e_parent = t_parent t\<rparr>"

definition evidence_references ::
  "task_row \<Rightarrow> event_row \<Rightarrow> string \<Rightarrow> evidence_row list \<Rightarrow> reference_row list" where
  "evidence_references t x actor vs = map (\<lambda>(position, v).
     \<lparr>r_task = t_id t, r_event = e_id x, r_evidence = v_id v, r_position = int position,
      r_owner = t_owner t, r_actor = actor, r_root = t_root t, r_causation = Some (e_id x),
      r_parent = Some (t_id t)\<rparr>) (zip [1..<Suc (length vs)] vs)"

definition project_plan :: "plan \<Rightarrow> string \<Rightarrow> uuid \<Rightarrow> task_row \<Rightarrow> task_row" where
  "project_plan pl actor eid t = (let u = t\<lparr>
       t_state := pl_to pl, t_resume_state := pl_resume pl,
       t_outcome := map_option task_outcome_value (pl_outcome pl),
       t_retry_count := t_retry_count t + pl_retry_delta pl,
       t_actor := actor, t_causation := Some eid\<rparr> in
     if pl_invalidate pl
     then u\<lparr>t_accepted_brief := None, t_brief_decision := None, t_validation_contract := None\<rparr>
     else u)"

definition insert_event :: "'a task_db_scheme \<Rightarrow> event_row \<Rightarrow> transition_error + 'a task_db_scheme" where
  "insert_event db x = (if \<not> event_row_ok x \<or> \<not> event_unique (events db) x
     then Inl TransitionIntegrityError else Inr (db\<lparr>events := events db @ [x]\<rparr>))"

definition commit_plan ::
  "'a task_db_scheme \<Rightarrow> task_row \<Rightarrow> transition_command \<Rightarrow> plan \<Rightarrow> guards \<Rightarrow> policy_row \<Rightarrow>
   evidence_row list \<Rightarrow> string \<Rightarrow> instant \<Rightarrow> uuid \<Rightarrow>
   transition_error + transition_result \<times> 'a task_db_scheme" where
  "commit_plan db t c pl g p vs fp now eid =
     (let sequence = next_event_sequence db (t_id t);
          x = transition_event t c pl g p fp sequence now eid in
      bindE (insert_event db x) (\<lambda>db1.
        Inr (\<lparr>tr_task = t_id t, tr_id = tc_id c, tr_event = eid, tr_sequence = sequence,
              tr_from = pl_from pl, tr_to = pl_to pl, tr_replayed = False\<rparr>,
             db1\<lparr>references := references db1 @ evidence_references t x (tc_actor c) vs,
                 tasks := upd_rows (\<lambda>u. t_id u = t_id t)
                            (project_plan pl (tc_actor c) eid) (tasks db1)\<rparr>)))"

type_synonym 'd gate_evaluator =
  "'d \<Rightarrow> task_row \<Rightarrow> transition_kind \<Rightarrow> policy_row \<Rightarrow> instant \<Rightarrow> transition_error + guards"

text \<open>The checks before the first query: the command with its normalised actor and reason.\<close>

definition prepare_command :: "env \<Rightarrow> transition_command \<Rightarrow> transition_error + transition_command" where
  "prepare_command e c =
     bindE (required_actor e (tc_actor c)) (\<lambda>actor.
     bindE (required_reason_code (tc_reason c)) (\<lambda>reason.
     (let ids = from_keys (tc_evidence c) in
      if ids = [] \<or> length ids \<noteq> length (tc_evidence c) \<or> 100 < length ids
      then Inl InvalidTaskTransition
      else if tc_kind c \<in> {K_BEGIN_VALIDATION, K_REVALIDATE} \<and> tc_candidate c = None
      then Inl InvalidTaskTransition
      else if tc_kind c \<notin> {K_BEGIN_VALIDATION, K_REVALIDATE} \<and> tc_candidate c \<noteq> None
      then Inl InvalidTaskTransition
      else Inr (c\<lparr>tc_actor := actor, tc_reason := reason, tc_evidence := ids\<rparr>))))"

definition transition_task ::
  "env \<Rightarrow> 'a task_db_scheme gate_evaluator \<Rightarrow> string \<Rightarrow> transition_command \<Rightarrow> instant \<Rightarrow> uuid \<Rightarrow>
   'a task_db_scheme \<Rightarrow> transition_error + transition_result \<times> 'a task_db_scheme" where
  "transition_task e gate lineage c0 now eid db =
     bindE (prepare_command e c0) (\<lambda>c.
     (let fp = command_fingerprint e c in
      case find (\<lambda>t. t_id t = tc_task c) (tasks db) of
        None \<Rightarrow> Inl TaskTransitionNotFound
      | Some t \<Rightarrow>
        (case find (\<lambda>x. e_transition_id x = Some (tc_id c)) (events db) of
           Some x \<Rightarrow> bindE (replayed_result x c fp) (\<lambda>r. Inr (r, db))
         | None \<Rightarrow>
           if t_state t \<noteq> tc_expected c then Inl TaskTransitionConflict
           else bindE (active_policy db t lineage now) (\<lambda>p.
             bindE (verify_transition_evidence e db t (tc_evidence c)) (\<lambda>vs.
             bindE (latest_verified_pr_head db (t_id t)) (\<lambda>head.
             bindE (gate db t (tc_kind c) p now) (\<lambda>g.
             bindE (evaluate_task_transition
                      \<lparr>s_state = t_state t, s_resume = t_resume_state t, s_verified_head = head\<rparr>
                      (tc_kind c) g) (\<lambda>pl.
             commit_plan db t c pl g p vs fp now eid))))))))"

text \<open>
  \<open>TaskTransitionService.transition\<close>: the savepoint around \<open>_transition_task\<close> and the recovery
  of an \<open>IntegrityError\<close> by replaying the event that won the race.
\<close>

definition transition_service ::
  "env \<Rightarrow> 'a task_db_scheme gate_evaluator \<Rightarrow> string \<Rightarrow> transition_command \<Rightarrow> instant \<Rightarrow> uuid \<Rightarrow>
   'a task_db_scheme \<Rightarrow> transition_error + transition_result \<times> 'a task_db_scheme" where
  "transition_service e gate lineage c now eid db =
     (case transition_task e gate lineage c now eid db of
        Inl TransitionIntegrityError \<Rightarrow>
          (case find (\<lambda>x. e_transition_id x = Some (tc_id c)) (events db) of
             None \<Rightarrow> Inl TransitionIntegrityError
           | Some x \<Rightarrow> bindE (required_reason_code (tc_reason c)) (\<lambda>reason.
               (let c' = c\<lparr>tc_reason := reason, tc_evidence := from_keys (tc_evidence c)\<rparr> in
                bindE (replayed_result x c' (command_fingerprint e c')) (\<lambda>r. Inr (r, db)))))
      | r \<Rightarrow> r)"

end
