(* ===== verification/Services.thy ===== *)
theory Services
  imports Prelude
begin

text \<open>
  The contracts the durable services share.  A service executes commands against a state; a
  command that raises rolls its transaction back, so the state is the old one.
  \<open>run_service\<close> is a sequence of such commands.
\<close>

fun run_service :: "('c \<Rightarrow> 's \<Rightarrow> 'e + 'r \<times> 's) \<Rightarrow> 'c list \<Rightarrow> 's \<Rightarrow> 's" where
  "run_service exec [] s = s"
| "run_service exec (c # cs) s =
     run_service exec cs (case exec c s of Inl _ \<Rightarrow> s | Inr (_, s') \<Rightarrow> s')"

lemma run_service_append:
  "run_service exec (cs @ ds) s = run_service exec ds (run_service exec cs s)"
  by (induction cs arbitrary: s) simp_all

text \<open>The state after a run satisfies whatever the start satisfies and each command keeps.\<close>

locale transactional_service =
  fixes exec :: "'c \<Rightarrow> 's \<Rightarrow> 'e + 'r \<times> 's"
    and inv :: "'s \<Rightarrow> bool"
  assumes exec_inv: "inv s \<Longrightarrow> exec c s = Inr (r, s') \<Longrightarrow> inv s'"
begin

lemma run_inv: "inv s \<Longrightarrow> inv (run_service exec cs s)"
proof (induction cs arbitrary: s)
  case (Cons c cs)
  then show ?case by (auto split: sum.splits prod.splits intro: exec_inv)
qed simp

end

text \<open>A service with a mark per key that never goes down: a fence, a sequence, a version.\<close>

locale monotone_service = transactional_service exec inv
  for exec :: "'c \<Rightarrow> 's \<Rightarrow> 'e + 'r \<times> 's" and inv :: "'s \<Rightarrow> bool" +
  fixes mark :: "'s \<Rightarrow> 'k \<Rightarrow> int"
  assumes exec_mono: "inv s \<Longrightarrow> exec c s = Inr (r, s') \<Longrightarrow> mark s k \<le> mark s' k"
begin

lemma run_mono: "inv s \<Longrightarrow> mark s k \<le> mark (run_service exec cs s) k"
proof (induction cs arbitrary: s)
  case (Cons c cs)
  show ?case
  proof (cases "exec c s")
    case (Inr p)
    then obtain r s' where p: "exec c s = Inr (r, s')" by (cases p) auto
    have "mark s k \<le> mark s' k" by (rule exec_mono [OF Cons.prems p])
    also have "\<dots> \<le> mark (run_service exec cs s') k"
      by (rule Cons.IH [OF exec_inv [OF Cons.prems p]])
    finally show ?thesis by (simp add: p)
  qed (simp add: Cons)
qed simp

end

text \<open>
  A service whose commands carry idempotency keys.  \<open>stored c s r\<close> says that the durable record
  of command \<open>c\<close> is in \<open>s\<close> with answer \<open>r\<close>: success stores it, nothing removes it, and a command
  whose record is stored is answered from it without touching the state.
\<close>

locale idempotent_service =
  fixes exec :: "'c \<Rightarrow> 's \<Rightarrow> 'e + 'r \<times> 's"
    and same :: "'c \<Rightarrow> 'c \<Rightarrow> bool"
    and stored :: "'c \<Rightarrow> 's \<Rightarrow> 'r \<Rightarrow> bool"
    and replay :: "'r \<Rightarrow> 'r"
  assumes exec_stores: "exec c s = Inr (r, s') \<Longrightarrow> stored c s' (replay r)"
    and stored_kept: "stored c s r \<Longrightarrow> exec d s = Inr (q, s') \<Longrightarrow> stored c s' r"
    and stored_answers: "stored c s r \<Longrightarrow> same c d \<Longrightarrow> exec d s = Inr (r, s)"
begin

lemma stored_run: "stored c s r \<Longrightarrow> stored c (run_service exec cs s) r"
proof (induction cs arbitrary: s)
  case (Cons d cs)
  then show ?case by (auto split: sum.splits prod.splits intro: stored_kept)
qed simp

lemma replay_after_run:
  assumes "exec c s = Inr (r, s')" and "same c d"
  shows "exec d (run_service exec cs s') = Inr (replay r, run_service exec cs s')"
  by (rule stored_answers [OF stored_run [OF exec_stores [OF assms(1)]] assms(2)])

end

end
