(* ===== verification/Task_Transition_Properties.thy ===== *)
theory Task_Transition_Properties
  imports Task_State_Machine Services
begin

text \<open>
  What \<open>task_state_machine.py\<close> guarantees.  The table \<open>legal_edge\<close> is the abstract state
  machine; \<open>task_view\<close> and \<open>apply_event\<close> are the event-sourced reading of a task, which the
  task row refines; \<open>task_inv\<close> is the invariant of every reachable database.
\<close>

subsection \<open>The abstract state machine\<close>

inductive legal_edge :: "task_state \<Rightarrow> transition_kind \<Rightarrow> task_state \<Rightarrow> bool" where
  "legal_edge S_INTAKE K_START_BRIEFING S_BRIEFING"
| "legal_edge S_BRIEFING K_AUTO_ACCEPT_BRIEF S_IMPLEMENTING"
| "legal_edge S_BRIEFING K_REQUEST_BRIEF_APPROVAL S_BRIEF_PENDING_APPROVAL"
| "legal_edge S_BRIEF_PENDING_APPROVAL K_REVISE_BRIEF S_BRIEFING"
| "legal_edge S_BRIEF_PENDING_APPROVAL K_APPROVE_EXACT_BRIEF S_IMPLEMENTING"
| "legal_edge S_IMPLEMENTING K_BEGIN_VALIDATION S_VALIDATING"
| "legal_edge S_VALIDATING K_BEGIN_REPAIR S_REPAIRING"
| "legal_edge S_PR_ACTIVE K_BEGIN_REPAIR S_REPAIRING"
| "legal_edge S_REPAIRING K_REVALIDATE S_VALIDATING"
| "legal_edge S_VALIDATING K_OPEN_VERIFIED_DRAFT_PR S_PR_ACTIVE"
| "legal_edge S_PR_ACTIVE K_MARK_MERGE_READY S_READY_FOR_HUMAN_MERGE"
| "legal_edge S_READY_FOR_HUMAN_MERGE K_INVALIDATE_READINESS S_PR_ACTIVE"
| "legal_edge S_READY_FOR_HUMAN_MERGE K_ACKNOWLEDGE_HANDOFF S_HANDED_OFF"
| cancel: "c \<notin> terminal_states \<Longrightarrow> legal_edge c K_CANCEL S_CANCELLED"
| fail: "c \<notin> terminal_states \<Longrightarrow> legal_edge c K_FAIL S_FAILED"
| escalate: "c \<notin> terminal_states \<Longrightarrow> c \<noteq> S_ESCALATED \<Longrightarrow> legal_edge c K_ESCALATE S_ESCALATED"
| resume: "t \<notin> terminal_states \<Longrightarrow> t \<noteq> S_ESCALATED \<Longrightarrow> legal_edge S_ESCALATED K_RESUME t"
| steer: "c \<in> scope_steering_states \<Longrightarrow> legal_edge c K_SCOPE_STEER S_BRIEFING"

code_pred legal_edge .

inductive_cases legal_edge_terminal: "legal_edge S_HANDED_OFF k t"
inductive_simps legal_edge_kinds:
  "legal_edge c K_RESUME t" "legal_edge c K_ACKNOWLEDGE_HANDOFF t" "legal_edge c K_MARK_MERGE_READY t"
  "legal_edge c k S_HANDED_OFF"

lemma edge_check_legal:
  "edge_check c g k = (True, t) \<Longrightarrow> legal_edge c k t"
  by (cases k) (auto intro: legal_edge.intros)

lemma edge_check_kind:
  "edge_check c g k = (True, t) \<Longrightarrow> k \<notin> {K_CANCEL, K_FAIL, K_ESCALATE, K_RESUME, K_SCOPE_STEER}"
  by (cases k) auto

lemma edge_check_target_active:
  "edge_check c g k = (True, t) \<Longrightarrow> t \<notin> {S_FAILED, S_CANCELLED, S_ESCALATED}"
  by (cases k) auto

text \<open>Inversion of an accepted plan: the three shapes the code builds.\<close>

lemma evaluate_cases:
  assumes "evaluate_task_transition s k g = Inr pl"
  shows "s_state s \<notin> terminal_states \<and> pl_from pl = s_state s \<and> pl_kind pl = k \<and>
    legal_edge (s_state s) k (pl_to pl) \<and>
    (k = K_RESUME \<longrightarrow> s_resume s = Some (pl_to pl)) \<and>
    pl_resume pl = (if k = K_ESCALATE then Some (s_state s) else None) \<and>
    map_option task_outcome_value (pl_outcome pl) =
      (if pl_to pl \<in> terminal_states then
         Some (if pl_to pl = S_HANDED_OFF then ''AUTOMATION_HANDED_OFF''
               else if pl_to pl = S_FAILED then ''FAILED'' else ''CANCELLED'') else None) \<and>
    edge_gate_head s k g = Inr (pl_gate_head pl) \<and>
    pl_retry_delta pl = (if k = K_BEGIN_REPAIR then 1 else 0) \<and>
    pl_invalidate pl = (k = K_SCOPE_STEER)"
proof -
  consider "k \<in> {K_CANCEL, K_FAIL, K_ESCALATE, K_RESUME, K_SCOPE_STEER}"
    | "k \<notin> {K_CANCEL, K_FAIL, K_ESCALATE, K_RESUME, K_SCOPE_STEER}" by blast
  then show ?thesis
  proof cases
    case 1
    then show ?thesis using assms
      by (auto simp: evaluate_task_transition_def Let_def mk_plan_def edge_gate_head_def
          terminal_states_def scope_steering_states_def legal_edge.simps
          split: if_splits option.splits)
  next
    case 2
    obtain v t where e: "edge_check (s_state s) g k = (v, t)" by force
    have v: v using assms 2 by (cases v) (auto simp: evaluate_task_transition_def Let_def e split: if_splits)
    note l = edge_check_legal [of "s_state s" g k t] edge_check_target_active [of "s_state s" g k t]
    show ?thesis using assms 2 e v l
      by (auto simp: evaluate_task_transition_def Let_def mk_plan_def terminal_states_def
          split: if_splits)
  qed
qed

text \<open>Guards that open every gate for one exact head.\<close>

definition open_draft :: "string \<Rightarrow> draft_gate" where
  "open_draft h = \<lparr>current_head_sha = h, validation_commit_sha = h, local_branch_sha = h,
     remote_branch_sha = h, pull_request_head_sha = h, validation_passed = True,
     required_artifacts_present = True, branch_clean = True, pull_request_is_draft = True,
     no_unresolved_approval = True, cancellation_clear = True\<rparr>"

definition open_guards :: "string \<Rightarrow> guards" where
  "open_guards h = \<lparr>brief_policy_bypass_authorized = True, brief_approval_required = True,
     brief_revision_request_id = Some 0, exact_brief_human_approval = True,
     repair_authorized = True, draft_pr = Some (open_draft h),
     readiness = Some \<lparr>readiness_draft = open_draft h, required_ci_green = True,
       no_blocking_review = True, repairs_authorized = True\<rparr>,
     readiness_invalidation_current = True, human_handoff_acknowledged = True,
     resume_decision_id = Some 0, resume_decision_current = True,
     resume_preconditions_rechecked = True, work_fence_verified = True,
     scope_decisions_invalidated = True\<rparr>"

abbreviation sample_head :: string where
  "sample_head \<equiv> replicate 40 (CHR ''a'')"

lemma sample_head_normal: "normalized_git_sha sample_head = Inr sample_head"
  by code_simp

lemma evaluate_complete:
  assumes "legal_edge c k t"
  shows "\<exists>pl. evaluate_task_transition
     \<lparr>s_state = c, s_resume = Some t, s_verified_head = Some sample_head\<rparr> k (open_guards sample_head)
     = Inr pl \<and> pl_to pl = t"
  using assms
  by (cases rule: legal_edge.cases)
    (simp_all add: evaluate_task_transition_def mk_plan_def edge_gate_head_def open_guards_def
      open_draft_def verified_draft_head_def readiness_head_def sample_head_normal
      terminal_states_def scope_steering_states_def del: replicate.simps)

text \<open>
  C1.  The transitions the pure engine can take are exactly the edges of the abstract task state
  machine: an accepted intent follows an edge of the table (so terminal tasks never move and no
  gate is skipped to another state), and every edge of the table is taken under some gate facts.
\<close>

theorem evaluate_edges:
  "legal_edge c k t \<longleftrightarrow>
   (\<exists>s g pl. s_state s = c \<and> evaluate_task_transition s k g = Inr pl \<and> pl_to pl = t)"
proof
  assume "legal_edge c k t"
  then obtain pl where "evaluate_task_transition
      \<lparr>s_state = c, s_resume = Some t, s_verified_head = Some sample_head\<rparr> k (open_guards sample_head)
      = Inr pl" "pl_to pl = t"
    using evaluate_complete by blast
  moreover have "s_state \<lparr>s_state = c, s_resume = Some t, s_verified_head = Some sample_head\<rparr> = c"
    by simp
  ultimately show
    "\<exists>s g pl. s_state s = c \<and> evaluate_task_transition s k g = Inr pl \<and> pl_to pl = t"
    by blast
next
  assume "\<exists>s g pl. s_state s = c \<and> evaluate_task_transition s k g = Inr pl \<and> pl_to pl = t"
  then show "legal_edge c k t" using evaluate_cases by blast
qed

subsection \<open>Gates\<close>

definition is_git_sha :: "string \<Rightarrow> bool" where
  "is_git_sha h \<longleftrightarrow> length h \<in> {40, 64} \<and> list_all is_hex_char h"

lemma hex_char_not_space: "is_hex_char c \<Longrightarrow> \<not> is_space_char c"
  by (auto simp: is_hex_char_def is_space_char_def Let_def)

lemma hex_char_lower: "is_hex_char c \<Longrightarrow> lower_char c = c"
  by (auto simp: is_hex_char_def lower_char_def is_upper_char_def Let_def)

lemma dropWhile_none: "list_all (\<lambda>c. \<not> P c) xs \<Longrightarrow> dropWhile P xs = xs"
  by (cases xs) auto

lemma strip_hex: "list_all is_hex_char h \<Longrightarrow> strip h = h"
  by (simp add: strip_def dropWhile_none list_all_iff hex_char_not_space)

lemma lower_hex: "list_all is_hex_char h \<Longrightarrow> py_lower h = h"
  by (simp add: py_lower_def list_all_iff hex_char_lower map_idI)

lemma normalized_git_sha_Inr:
  "normalized_git_sha v = Inr h \<Longrightarrow> is_git_sha h \<and> h = py_lower (strip v)"
  by (auto simp: normalized_git_sha_def is_git_sha_def Let_def split: if_splits)

lemma normalized_git_sha_fix: "is_git_sha h \<Longrightarrow> normalized_git_sha h = Inr h"
  by (simp add: normalized_git_sha_def is_git_sha_def strip_hex lower_hex)

lemma verified_draft_head_Inr:
  assumes "verified_draft_head d = Inr h"
  shows "is_git_sha h \<and> normalized_git_sha (current_head_sha d) = Inr h \<and>
    normalized_git_sha (validation_commit_sha d) = Inr h \<and>
    normalized_git_sha (local_branch_sha d) = Inr h \<and>
    normalized_git_sha (remote_branch_sha d) = Inr h \<and>
    normalized_git_sha (pull_request_head_sha d) = Inr h \<and>
    validation_passed d \<and> required_artifacts_present d \<and> branch_clean d \<and>
    pull_request_is_draft d \<and> no_unresolved_approval d \<and> cancellation_clear d"
  using assms normalized_git_sha_Inr by (auto simp: verified_draft_head_def)

text \<open>
  C2.  The exact-head gates.  A draft pull request is opened, a task marked ready or handed off
  only if the pull request, both branches and the validated commit name one Git object, the one
  the plan records, with every fact of the draft gate true; for readiness and handoff that head
  is also the last verified one, CI is green, no review blocks and every repair was authorized.
\<close>

theorem gate_exact_head:
  assumes "evaluate_task_transition s k g = Inr pl"
    and "k \<in> {K_OPEN_VERIFIED_DRAFT_PR, K_MARK_MERGE_READY, K_ACKNOWLEDGE_HANDOFF}"
  shows "\<exists>h d. pl_gate_head pl = Some h \<and> is_git_sha h \<and>
    (if k = K_OPEN_VERIFIED_DRAFT_PR then draft_pr g = Some d
     else \<exists>r v. readiness g = Some r \<and> d = readiness_draft r \<and> required_ci_green r \<and>
       no_blocking_review r \<and> repairs_authorized r \<and>
       s_verified_head s = Some v \<and> normalized_git_sha v = Inr h) \<and>
    (\<forall>x \<in> {current_head_sha d, validation_commit_sha d, local_branch_sha d, remote_branch_sha d,
            pull_request_head_sha d}. normalized_git_sha x = Inr h) \<and>
    validation_passed d \<and> required_artifacts_present d \<and> branch_clean d \<and>
    pull_request_is_draft d \<and> no_unresolved_approval d \<and> cancellation_clear d"
proof -
  have "edge_gate_head s k g = Inr (pl_gate_head pl)"
    using evaluate_cases [OF assms(1)] by blast
  then show ?thesis using assms(2)
    by (auto simp: edge_gate_head_def readiness_head_def split: option.splits if_splits
        dest!: verified_draft_head_Inr)
qed

theorem gate_exact_head_witness:
  "\<exists>h d. pl_gate_head (the (Some (case evaluate_task_transition
      \<lparr>s_state = S_VALIDATING, s_resume = None, s_verified_head = None\<rparr> K_OPEN_VERIFIED_DRAFT_PR
      (open_guards sample_head) of Inr pl \<Rightarrow> pl))) = Some h \<and> is_git_sha h \<and>
    draft_pr (open_guards sample_head) = Some d"
proof -
  let ?s = "\<lparr>s_state = S_VALIDATING, s_resume = None, s_verified_head = None\<rparr>"
  have "\<exists>pl. evaluate_task_transition ?s K_OPEN_VERIFIED_DRAFT_PR (open_guards sample_head) = Inr pl"
    by (simp add: evaluate_task_transition_def mk_plan_def edge_gate_head_def open_guards_def
      open_draft_def verified_draft_head_def sample_head_normal terminal_states_def del: replicate.simps)
  then obtain pl where e:
    "evaluate_task_transition ?s K_OPEN_VERIFIED_DRAFT_PR (open_guards sample_head) = Inr pl" ..
  show ?thesis using gate_exact_head [OF e] by (auto simp: e)
qed

subsection \<open>The event-sourced reading of a task\<close>

record task_view =
  w_state :: task_state
  w_resume :: "task_state option"
  w_outcome :: "string option"
  w_retries :: int

definition view_of :: "task_row \<Rightarrow> task_view" where
  "view_of t = \<lparr>w_state = t_state t, w_resume = t_resume_state t, w_outcome = t_outcome t,
     w_retries = t_retry_count t\<rparr>"

definition fresh_view :: task_view where
  "fresh_view = \<lparr>w_state = S_INTAKE, w_resume = None, w_outcome = None, w_retries = 0\<rparr>"

definition terminal_outcome :: "task_state \<Rightarrow> string option" where
  "terminal_outcome s = (if s = S_HANDED_OFF then Some ''AUTOMATION_HANDED_OFF''
     else if s = S_FAILED then Some ''FAILED''
     else if s = S_CANCELLED then Some ''CANCELLED'' else None)"

definition apply_event :: "event_row \<Rightarrow> task_view \<Rightarrow> task_view" where
  "apply_event x v = (case e_to x of None \<Rightarrow> v | Some t \<Rightarrow>
     \<lparr>w_state = t,
      w_resume = (if e_kind x = Some ''ESCALATE'' then e_from x else None),
      w_outcome = terminal_outcome t,
      w_retries = w_retries v + (if e_kind x = Some ''BEGIN_REPAIR'' then 1 else 0)\<rparr>)"

definition history :: "'a task_db_scheme \<Rightarrow> uuid \<Rightarrow> event_row list" where
  "history db tid = filter (\<lambda>x. e_type x = transition_event_type) (task_events db tid)"

text \<open>A history that follows the abstract machine, each event from where the last one led.\<close>

definition event_step :: "task_view \<Rightarrow> event_row \<Rightarrow> bool" where
  "event_step v x \<longleftrightarrow> e_from x = Some (w_state v) \<and>
     (\<exists>k t. e_kind x = Some (kind_value k) \<and> e_to x = Some t \<and> legal_edge (w_state v) k t \<and>
        (k = K_RESUME \<longrightarrow> w_resume v = Some t))"

fun chained :: "task_view \<Rightarrow> event_row list \<Rightarrow> bool" where
  "chained v [] = True"
| "chained v (x # xs) = (event_step v x \<and> chained (apply_event x v) xs)"

text \<open>The last gate head, and the rule that readiness and handoff repeat it.\<close>

definition last_head :: "event_row list \<Rightarrow> string option" where
  "last_head xs = (let ys = filter (\<lambda>x. e_gate_head x \<noteq> None) xs in
     if ys = [] then None else e_gate_head (last ys))"

definition head_step :: "string option \<Rightarrow> event_row \<Rightarrow> bool" where
  "head_step h x \<longleftrightarrow>
     (e_gate_head x \<noteq> None \<longleftrightarrow> (\<exists>k. e_kind x = Some k \<and> k \<in> set gate_head_kinds)) \<and>
     (e_kind x \<in> {Some ''MARK_MERGE_READY'', Some ''ACKNOWLEDGE_HANDOFF''} \<longrightarrow> e_gate_head x = h) \<and>
     (case e_gate_head x of None \<Rightarrow> True | Some g \<Rightarrow> is_git_sha g)"

fun heads_ok :: "string option \<Rightarrow> event_row list \<Rightarrow> bool" where
  "heads_ok h [] = True"
| "heads_ok h (x # xs) =
     (head_step h x \<and> heads_ok (if e_gate_head x = None then h else e_gate_head x) xs)"

lemma last_head_snoc [simp]:
  "last_head (xs @ [x]) = (if e_gate_head x = None then last_head xs else e_gate_head x)"
  by (simp add: last_head_def Let_def)

lemma last_head_Nil [simp]: "last_head [] = None"
  by (simp add: last_head_def)

lemma chained_snoc: "chained v (xs @ [x]) \<longleftrightarrow> chained v xs \<and> event_step (fold apply_event xs v) x"
  by (induction xs arbitrary: v) auto

lemma heads_ok_snoc_gen:
  "heads_ok h (xs @ [x]) \<longleftrightarrow> heads_ok h xs \<and>
     head_step (case last_head xs of None \<Rightarrow> h | Some g \<Rightarrow> Some g) x"
proof (induction xs arbitrary: h)
  case (Cons y ys)
  have "last_head (y # ys) = (case last_head ys of None \<Rightarrow> e_gate_head y | Some g \<Rightarrow> Some g)"
    by (induction ys rule: rev_induct)
      (auto simp: last_head_snoc [of "y # zs" for zs, simplified] last_head_snoc [of "[]", simplified])
  then show ?case by (simp add: Cons.IH split: option.splits)
qed simp

lemma heads_ok_snoc: "heads_ok None (xs @ [x]) \<longleftrightarrow> heads_ok None xs \<and> head_step (last_head xs) x"
  by (simp add: heads_ok_snoc_gen split: option.splits)

subsection \<open>The invariant\<close>

definition sequences_ok :: "'a task_db_scheme \<Rightarrow> bool" where
  "sequences_ok db \<longleftrightarrow> (\<forall>tid. map e_sequence (task_events db tid) =
     map int [1..<Suc (length (task_events db tid))])"

definition task_ok :: "'a task_db_scheme \<Rightarrow> task_row \<Rightarrow> bool" where
  "task_ok db t \<longleftrightarrow> view_of t = fold apply_event (history db (t_id t)) fresh_view \<and>
     chained fresh_view (history db (t_id t)) \<and> heads_ok None (history db (t_id t))"

definition task_inv :: "'a task_db_scheme \<Rightarrow> bool" where
  "task_inv db \<longleftrightarrow> distinct (map t_id (tasks db)) \<and> sequences_ok db \<and> (\<forall>t \<in> set (tasks db). task_ok db t)"

lemma task_events_snoc:
  "task_events (db\<lparr>events := events db @ [x]\<rparr>) tid =
   task_events db tid @ (if e_task x = tid then [x] else [])"
  by (simp add: task_events_def)

lemma history_snoc:
  "history (db\<lparr>events := events db @ [x]\<rparr>) tid =
   history db tid @ (if e_task x = tid \<and> e_type x = transition_event_type then [x] else [])"
  by (simp add: history_def task_events_def)

lemma next_event_sequence_eq:
  "sequences_ok db \<Longrightarrow> next_event_sequence db tid = int (Suc (length (task_events db tid)))"
  using max_or_zero_upto [of "length (task_events db tid)"]
  by (simp add: next_event_sequence_def sequences_ok_def)

text \<open>In a table whose keys increase, the row of the largest key is the last one.\<close>

lemma first_by_neg_last:
  fixes key :: "'a \<Rightarrow> int"
  assumes "sorted_wrt (<) (map key xs)" "xs \<noteq> []"
  shows "first_by (\<lambda>x. - key x) xs = Some (last xs)"
proof -
  obtain y where y: "first_by (\<lambda>x. - key x) xs = Some y"
    using assms(2) by (cases "first_by (\<lambda>x. - key x) xs") auto
  obtain zs z where z: "xs = zs @ [z]" using assms(2) by (metis append_butlast_last_id)
  have le: "key z \<le> key y" using first_by_le [OF y, of z] z by simp
  have "y \<in> set xs" using first_by_Some_in [OF y] .
  moreover have "\<forall>w \<in> set zs. key w < key z" using assms(1) z by (simp add: sorted_wrt_append)
  ultimately have "y = z" using le z by force
  then show ?thesis using y z by simp
qed

lemma sorted_wrt_filter_map:
  "sorted_wrt P (map f xs) \<Longrightarrow> sorted_wrt P (map f (filter Q xs))"
  by (induction xs) auto

lemma sequences_sorted: "sequences_ok db \<Longrightarrow> sorted_wrt (<) (map e_sequence (task_events db tid))"
  by (simp add: sequences_ok_def sorted_wrt_map del: upt_Suc)

lemma heads_ok_sha: "heads_ok h xs \<Longrightarrow> x \<in> set xs \<Longrightarrow> e_gate_head x = Some g \<Longrightarrow> is_git_sha g"
  by (induction xs arbitrary: h) (auto simp: head_step_def)

lemma latest_head_eq:
  assumes "sequences_ok db" "heads_ok None (history db tid)"
  shows "latest_verified_pr_head db tid = Inr (last_head (history db tid))"
proof -
  let ?hs = "filter (\<lambda>x. e_type x = transition_event_type \<and> e_gate_head x \<noteq> None) (task_events db tid)"
  have hs: "filter (\<lambda>x. e_gate_head x \<noteq> None) (history db tid) = ?hs"
    by (simp add: history_def conj_commute)
  show ?thesis
  proof (cases "?hs = []")
    case True
    have "last_head (history db tid) = None"
      unfolding last_head_def hs Let_def using True by simp
    then show ?thesis using True by (simp add: latest_verified_pr_head_def first_by_def)
  next
    case False
    have f: "first_by (\<lambda>x. - e_sequence x) ?hs = Some (last ?hs)"
      by (rule first_by_neg_last [OF sorted_wrt_filter_map [OF sequences_sorted [OF assms(1)]] False])
    have "last ?hs \<in> set ?hs" using False by (rule last_in_set)
    then obtain g where g: "e_gate_head (last ?hs) = Some g" "last ?hs \<in> set (history db tid)"
      using hs by (auto simp: history_def)
    have "normalized_git_sha g = Inr g"
      by (rule normalized_git_sha_fix [OF heads_ok_sha [OF assms(2) g(2,1)]])
    moreover have "last_head (history db tid) = Some g"
      unfolding last_head_def hs Let_def using False g(1) by simp
    ultimately show ?thesis using f g(1) by (simp add: latest_verified_pr_head_def)
  qed
qed

subsection \<open>Every transition keeps the invariant\<close>

lemma kind_value_inject [simp]: "kind_value a = kind_value b \<longleftrightarrow> a = b"
  by (cases a; cases b; simp)

lemma kind_value_literals [simp]:
  "kind_value k = ''ESCALATE'' \<longleftrightarrow> k = K_ESCALATE"
  "kind_value k = ''BEGIN_REPAIR'' \<longleftrightarrow> k = K_BEGIN_REPAIR"
  "kind_value k = ''MARK_MERGE_READY'' \<longleftrightarrow> k = K_MARK_MERGE_READY"
  "kind_value k = ''ACKNOWLEDGE_HANDOFF'' \<longleftrightarrow> k = K_ACKNOWLEDGE_HANDOFF"
  "kind_value k = ''OPEN_VERIFIED_DRAFT_PR'' \<longleftrightarrow> k = K_OPEN_VERIFIED_DRAFT_PR"
  "kind_value k = ''RESUME'' \<longleftrightarrow> k = K_RESUME"
  by (cases k; simp)+

lemma gate_kinds_value:
  "kind_value k \<in> set gate_head_kinds \<longleftrightarrow>
   k \<in> {K_OPEN_VERIFIED_DRAFT_PR, K_MARK_MERGE_READY, K_ACKNOWLEDGE_HANDOFF}"
  by (cases k) (simp_all add: gate_head_kinds_def)

lemma edge_gate_head_shape:
  assumes "edge_gate_head s k g = Inr h"
  shows "(h \<noteq> None \<longleftrightarrow> k \<in> {K_OPEN_VERIFIED_DRAFT_PR, K_MARK_MERGE_READY, K_ACKNOWLEDGE_HANDOFF}) \<and>
    (case h of None \<Rightarrow> True | Some x \<Rightarrow> is_git_sha x) \<and>
    (k \<in> {K_MARK_MERGE_READY, K_ACKNOWLEDGE_HANDOFF} \<longrightarrow>
       (\<exists>v. s_verified_head s = Some v \<and> normalized_git_sha v = Inr (the h)))"
  using assms
  by (auto simp: edge_gate_head_def readiness_head_def split: if_splits option.splits
      dest!: verified_draft_head_Inr)

lemma find_task: "find (\<lambda>t. t_id t = i) (tasks db) = Some t \<Longrightarrow> t \<in> set (tasks db) \<and> t_id t = i"
  using find_Some_in by fastforce

text \<open>Inversion: a transition that returns either replays or commits an evaluated plan.\<close>

lemma transition_task_cases:
  assumes "transition_task e gate lineage c0 now eid db = Inr (r, db')"
  obtains (replay) x c t where "db' = db" "prepare_command e c0 = Inr c"
      "find (\<lambda>t. t_id t = tc_task c) (tasks db) = Some t"
      "find (\<lambda>x. e_transition_id x = Some (tc_id c)) (events db) = Some x"
      "replayed_result x c (command_fingerprint e c) = Inr r"
  | (commit) c t p vs head g pl where "prepare_command e c0 = Inr c"
      "find (\<lambda>t. t_id t = tc_task c) (tasks db) = Some t"
      "find (\<lambda>x. e_transition_id x = Some (tc_id c)) (events db) = None"
      "t_state t = tc_expected c" "active_policy db t lineage now = Inr p"
      "verify_transition_evidence e db t (tc_evidence c) = Inr vs"
      "latest_verified_pr_head db (t_id t) = Inr head" "gate db t (tc_kind c) p now = Inr g"
      "evaluate_task_transition
         \<lparr>s_state = t_state t, s_resume = t_resume_state t, s_verified_head = head\<rparr> (tc_kind c) g = Inr pl"
      "commit_plan db t c pl g p vs (command_fingerprint e c) now eid = Inr (r, db')"
proof -
  obtain c where c: "prepare_command e c0 = Inr c"
    using assms by (auto simp: transition_task_def)
  show thesis
  proof (cases "find (\<lambda>t. t_id t = tc_task c) (tasks db)")
    case None
    then show ?thesis using assms c by (simp add: transition_task_def Let_def)
  next
    case (Some t)
    show ?thesis
    proof (cases "find (\<lambda>x. e_transition_id x = Some (tc_id c)) (events db)")
      case None
      with Some have st: "t_state t = tc_expected c"
        using assms by (simp add: transition_task_def Let_def c split: if_split_asm)
      from None Some have "(\<exists>p vs head g pl.
          active_policy db t lineage now = Inr p \<and>
          verify_transition_evidence e db t (tc_evidence c) = Inr vs \<and>
          latest_verified_pr_head db (t_id t) = Inr head \<and> gate db t (tc_kind c) p now = Inr g \<and>
          evaluate_task_transition
            \<lparr>s_state = t_state t, s_resume = t_resume_state t, s_verified_head = head\<rparr> (tc_kind c) g
            = Inr pl \<and>
          commit_plan db t c pl g p vs (command_fingerprint e c) now eid = Inr (r, db'))"
        using assms by (simp add: transition_task_def Let_def c st)
      then show ?thesis using commit [OF c Some None st] by blast
    next
      case (Some x)
      then have "replayed_result x c (command_fingerprint e c) = Inr r \<and> db' = db"
        using assms \<open>find (\<lambda>t. t_id t = tc_task c) (tasks db) = Some t\<close>
        by (simp add: transition_task_def Let_def c)
      then show ?thesis
        using replay [OF _ c \<open>find (\<lambda>t. t_id t = tc_task c) (tasks db) = Some t\<close> Some] by blast
    qed
  qed
qed

lemma transition_event_simps [simp]:
  "e_id (transition_event t c pl g p fp n now eid) = eid"
  "e_task (transition_event t c pl g p fp n now eid) = t_id t"
  "e_type (transition_event t c pl g p fp n now eid) = transition_event_type"
  "e_sequence (transition_event t c pl g p fp n now eid) = n"
  "e_transition_id (transition_event t c pl g p fp n now eid) = Some (tc_id c)"
  "e_fingerprint (transition_event t c pl g p fp n now eid) = Some fp"
  "e_kind (transition_event t c pl g p fp n now eid) = Some (kind_value (pl_kind pl))"
  "e_from (transition_event t c pl g p fp n now eid) = Some (pl_from pl)"
  "e_to (transition_event t c pl g p fp n now eid) = Some (pl_to pl)"
  "e_gate_head (transition_event t c pl g p fp n now eid) = pl_gate_head pl"
  "e_payload (transition_event t c pl g p fp n now eid) = transition_payload t pl g (tc_candidate c)"
  by (simp_all add: transition_event_def)

lemma commit_plan_Inr:
  assumes "commit_plan db t c pl g p vs fp now eid = Inr (r, db')"
  shows "\<exists>x. x = transition_event t c pl g p fp (next_event_sequence db (t_id t)) now eid \<and>
    event_row_ok x \<and> event_unique (events db) x \<and>
    r = \<lparr>tr_task = t_id t, tr_id = tc_id c, tr_event = eid, tr_sequence = e_sequence x,
         tr_from = pl_from pl, tr_to = pl_to pl, tr_replayed = False\<rparr> \<and>
    db' = db\<lparr>events := events db @ [x],
             references := references db @ evidence_references t x (tc_actor c) vs,
             tasks := upd_rows (\<lambda>u. t_id u = t_id t) (project_plan pl (tc_actor c) eid) (tasks db)\<rparr>"
  using assms
  by (simp add: commit_plan_def insert_event_def Let_def split: if_split_asm)

lemma project_plan_id [simp]: "t_id (project_plan pl a eid t) = t_id t"
  by (simp add: project_plan_def Let_def)

lemma view_of_project_plan:
  "view_of (project_plan pl a eid t) =
     \<lparr>w_state = pl_to pl, w_resume = pl_resume pl,
      w_outcome = map_option task_outcome_value (pl_outcome pl),
      w_retries = t_retry_count t + pl_retry_delta pl\<rparr>"
  by (simp add: view_of_def project_plan_def Let_def)

lemma event_matches_plan:
  assumes "evaluate_task_transition
      \<lparr>s_state = t_state t, s_resume = t_resume_state t, s_verified_head = head\<rparr> (tc_kind c) g = Inr pl"
    and "x = transition_event t c pl g p fp n now eid" and "view_of t = v"
  shows "apply_event x v = view_of (project_plan pl a eid t)" and "event_step v x"
proof -
  note e = evaluate_cases [OF assms(1), simplified]
  have v: "w_state v = t_state t" "w_resume v = t_resume_state t" "w_retries v = t_retry_count t"
    using assms(3) by (auto simp: view_of_def)
  have k: "pl_kind pl = tc_kind c" "pl_from pl = t_state t"
    and out: "map_option task_outcome_value (pl_outcome pl) = terminal_outcome (pl_to pl)"
    using e by (simp_all add: terminal_outcome_def terminal_states_def)
  have "apply_event x v = \<lparr>w_state = pl_to pl,
      w_resume = (if tc_kind c = K_ESCALATE then Some (t_state t) else None),
      w_outcome = terminal_outcome (pl_to pl),
      w_retries = t_retry_count t + (if tc_kind c = K_BEGIN_REPAIR then 1 else 0)\<rparr>"
    by (simp add: apply_event_def assms(2) k v)
  then show "apply_event x v = view_of (project_plan pl a eid t)"
    using e by (simp add: view_of_project_plan out)
  have "legal_edge (t_state t) (tc_kind c) (pl_to pl) \<and>
      (tc_kind c = K_RESUME \<longrightarrow> t_resume_state t = Some (pl_to pl))"
    using e by blast
  then show "event_step v x" by (simp add: event_step_def assms(2) k v)
qed

lemma head_matches_plan:
  assumes "evaluate_task_transition
      \<lparr>s_state = st, s_resume = rs, s_verified_head = head\<rparr> (tc_kind c) g = Inr pl"
    and "x = transition_event t c pl g p fp n now eid"
    and "case head of None \<Rightarrow> True | Some h \<Rightarrow> is_git_sha h"
  shows "head_step head x"
proof -
  note e = evaluate_cases [OF assms(1), simplified]
  have k: "e_kind x = Some (kind_value (tc_kind c))" and h: "e_gate_head x = pl_gate_head pl"
    using e assms(2) by simp_all
  have s: "edge_gate_head \<lparr>s_state = st, s_resume = rs, s_verified_head = head\<rparr> (tc_kind c) g
      = Inr (pl_gate_head pl)" using e by blast
  show ?thesis using edge_gate_head_shape [OF s] assms(3)
    by (auto simp: head_step_def k h gate_kinds_value normalized_git_sha_fix)
qed

lemma last_head_sha:
  "heads_ok None xs \<Longrightarrow> case last_head xs of None \<Rightarrow> True | Some h \<Rightarrow> is_git_sha h"
proof (induction xs rule: rev_induct)
  case (snoc x xs)
  then show ?case by (auto simp: heads_ok_snoc head_step_def)
qed simp

lemma commit_keeps_task_inv:
  assumes inv: "task_inv db" and t: "t \<in> set (tasks db)"
    and head: "latest_verified_pr_head db (t_id t) = Inr head"
    and ev: "evaluate_task_transition
      \<lparr>s_state = t_state t, s_resume = t_resume_state t, s_verified_head = head\<rparr> (tc_kind c) g = Inr pl"
    and com: "commit_plan db t c pl g p vs fp now eid = Inr (r, db')"
  shows "task_inv db'"
proof -
  define x where "x = transition_event t c pl g p fp (next_event_sequence db (t_id t)) now eid"
  define db1 where "db1 = db\<lparr>events := events db @ [x]\<rparr>"
  have db': "db' = db1\<lparr>references := references db @ evidence_references t x (tc_actor c) vs,
      tasks := upd_rows (\<lambda>u. t_id u = t_id t) (project_plan pl (tc_actor c) eid) (tasks db)\<rparr>"
    using commit_plan_Inr [OF com] by (simp add: x_def db1_def)
  have x: "e_task x = t_id t" "e_type x = transition_event_type"
    "e_sequence x = next_event_sequence db (t_id t)"
    by (simp_all add: x_def)
  have hist: "history db' tid = history db tid @ (if tid = t_id t then [x] else [])" for tid
    using history_snoc [of db x tid] x by (auto simp: db' db1_def history_def task_events_def)
  have tev: "task_events db' tid = task_events db tid @ (if tid = t_id t then [x] else [])" for tid
    using task_events_snoc [of db x tid] x by (auto simp: db' db1_def task_events_def)
  have seq: "sequences_ok db" and ok: "task_ok db t" and dist: "distinct (map t_id (tasks db))"
    using inv t by (auto simp: task_inv_def)
  have "sequences_ok db'"
    using seq by (auto simp: sequences_ok_def tev x next_event_sequence_eq [OF seq])
  moreover have "distinct (map t_id (tasks db'))"
    using dist by (simp add: db' map_upd_rows)
  moreover have "task_ok db' u" if u: "u \<in> set (tasks db')" for u
  proof (cases "t_id u = t_id t")
    case False
    then have "u \<in> set (tasks db)" using u by (auto simp: db' set_upd_rows)
    then show ?thesis using False inv by (simp add: task_inv_def task_ok_def hist)
  next
    case True
    then have "u = project_plan pl (tc_actor c) eid t"
      using u t distinct_key_unique [OF dist] by (auto simp: db' set_upd_rows)
    moreover have "head = last_head (history db (t_id t))"
      using head latest_head_eq [OF seq] ok by (simp add: task_ok_def)
    ultimately show ?thesis
      using ok event_matches_plan [OF ev x_def refl] head_matches_plan [OF ev x_def] last_head_sha
      by (simp add: task_ok_def hist chained_snoc heads_ok_snoc)
  qed
  ultimately show ?thesis by (simp add: task_inv_def)
qed

lemma transition_task_inv:
  assumes "task_inv db" "transition_task e gate lineage c now eid db = Inr (r, db')"
  shows "task_inv db'"
  using assms(2)
proof (cases rule: transition_task_cases)
  case (commit c t p vs head g pl)
  then show ?thesis using commit_keeps_task_inv [OF assms(1)] find_task by blast
qed (use assms in simp)

lemma replayed_result_flag:
  "replayed_result x c fp = Inr r \<Longrightarrow> tr_replayed r \<and> tr_task r = tc_task c \<and> tr_id r = tc_id c \<and>
     tr_event r = e_id x \<and> tr_sequence r = e_sequence x \<and> e_fingerprint x = Some fp"
  by (auto simp: replayed_result_def split: option.split_asm if_split_asm)

lemma prepare_command_Inr:
  "prepare_command e c0 = Inr c \<Longrightarrow> tc_task c = tc_task c0 \<and> tc_id c = tc_id c0 \<and>
     tc_kind c = tc_kind c0 \<and> tc_candidate c = tc_candidate c0 \<and> tc_expected c = tc_expected c0 \<and>
     (tc_kind c \<in> {K_BEGIN_VALIDATION, K_REVALIDATE} \<longleftrightarrow> tc_candidate c \<noteq> None)"
  by (auto simp: prepare_command_def Let_def split: if_split_asm)

lemma no_integrity_before_insert [simp]:
  "required_actor e v \<noteq> Inl TransitionIntegrityError"
  "required_reason_code v \<noteq> Inl TransitionIntegrityError"
  "prepare_command e c \<noteq> Inl TransitionIntegrityError"
  "replayed_result x c fp \<noteq> Inl TransitionIntegrityError"
  by (auto simp: required_actor_def required_reason_code_def prepare_command_def replayed_result_def
      Let_def split: option.split)

lemma transition_task_known:
  assumes "prepare_command e c0 = Inr c"
    and "find (\<lambda>x. e_transition_id x = Some (tc_id c)) (events db) = Some x"
  shows "transition_task e gate lineage c0 now eid db =
    (case find (\<lambda>t. t_id t = tc_task c) (tasks db) of None \<Rightarrow> Inl TaskTransitionNotFound
     | Some t \<Rightarrow> bindE (replayed_result x c (command_fingerprint e c)) (\<lambda>r. Inr (r, db)))"
  using assms by (simp add: transition_task_def Let_def split: option.split)

text \<open>
  With the task row locked an \<open>IntegrityError\<close> never hides a stored event of the same transition:
  the service returns exactly when the transaction does.
\<close>

lemma transition_service_returns:
  "transition_service e gate lineage c now eid db = Inr q \<longleftrightarrow>
   transition_task e gate lineage c now eid db = Inr q"
proof (cases "transition_task e gate lineage c now eid db = Inl TransitionIntegrityError")
  case True
  have "find (\<lambda>x. e_transition_id x = Some (tc_id c)) (events db) = None"
  proof (rule ccontr)
    assume "\<not> ?thesis"
    then obtain x where x: "find (\<lambda>x. e_transition_id x = Some (tc_id c)) (events db) = Some x" by blast
    obtain c' where c': "prepare_command e c = Inr c'"
      using True by (auto simp: transition_task_def)
    show False using True transition_task_known [OF c', of db x] x prepare_command_Inr [OF c']
      by (simp split: option.split_asm)
  qed
  then show ?thesis using True by (simp add: transition_service_def)
next
  case False
  then show ?thesis
    by (auto simp: transition_service_def split: sum.split transition_error.split)
qed

lemma transition_service_inv:
  "task_inv db \<Longrightarrow> transition_service e gate lineage c now eid db = Inr (r, db') \<Longrightarrow> task_inv db'"
  by (simp add: transition_service_returns transition_task_inv)

subsection \<open>The service, its runs and its contracts\<close>

type_synonym service_command = "transition_command \<times> instant \<times> uuid"

definition exec_transition ::
  "env \<Rightarrow> 'a task_db_scheme gate_evaluator \<Rightarrow> string \<Rightarrow> service_command \<Rightarrow>
   'a task_db_scheme \<Rightarrow> transition_error + transition_result \<times> 'a task_db_scheme" where
  "exec_transition e gate lineage cmd db =
     (case cmd of (c, now, eid) \<Rightarrow> transition_service e gate lineage c now eid db)"

text \<open>The durable record of a command: its task and an event that answers it.\<close>

definition transition_stored ::
  "env \<Rightarrow> service_command \<Rightarrow> 'a task_db_scheme \<Rightarrow> transition_result \<Rightarrow> bool" where
  "transition_stored e cmd db r \<longleftrightarrow> (\<exists>c t x. prepare_command e (fst cmd) = Inr c \<and>
     find (\<lambda>t. t_id t = tc_task c) (tasks db) = Some t \<and>
     find (\<lambda>x. e_transition_id x = Some (tc_id c)) (events db) = Some x \<and>
     replayed_result x c (command_fingerprint e c) = Inr r)"

lemma candidate_in_payload:
  assumes "tc_kind c \<in> {K_BEGIN_VALIDATION, K_REVALIDATE} \<longleftrightarrow> tc_candidate c \<noteq> None"
  shows "candidate_matches c (transition_payload t pl g (tc_candidate c))"
  using assms
  by (cases "tc_candidate c")
    (auto simp: candidate_matches_def transition_payload_def jget_def candidate_json_def
      is_jobj_def jkeys_def)

text \<open>What a transition leaves behind, whichever way it returned.\<close>

lemma transition_task_shape:
  assumes "transition_task e gate lineage c0 now eid db = Inr (r, db')"
  shows "\<exists>xs rs f. db' = db\<lparr>events := events db @ xs, references := references db @ rs,
      tasks := upd_rows (\<lambda>u. t_id u = tc_task c0 \<and> xs \<noteq> []) f (tasks db)\<rparr> \<and>
    (\<forall>u. t_id (f u) = t_id u) \<and> length xs \<le> 1 \<and> (tr_replayed r \<longleftrightarrow> xs = [])"
  using assms
proof (cases rule: transition_task_cases)
  case (replay x c t)
  then have "db' = db\<lparr>events := events db @ [], references := references db @ [],
      tasks := upd_rows (\<lambda>u. t_id u = tc_task c0 \<and> [] \<noteq> []) id (tasks db)\<rparr>"
    by (simp add: upd_rows_none)
  then show ?thesis using replay replayed_result_flag by fastforce
next
  case (commit c t p vs head g pl)
  have "t_id t = tc_task c0" using commit(1,2) find_task prepare_command_Inr by metis
  then obtain x rs where
    "db' = db\<lparr>events := events db @ [x], references := references db @ rs,
       tasks := upd_rows (\<lambda>u. t_id u = tc_task c0 \<and> [x] \<noteq> []) (project_plan pl (tc_actor c) eid) (tasks db)\<rparr>"
    and "\<not> tr_replayed r"
    using commit_plan_Inr [OF commit(10)] by force
  then show ?thesis by (intro exI [of _ "[x]"] exI [of _ rs] exI [of _ "project_plan pl (tc_actor c) eid"]) simp
qed

lemma find_upd_id:
  "(\<And>u. t_id (f u) = t_id u) \<Longrightarrow>
   find (\<lambda>t. t_id t = i) (upd_rows P f ts) = map_option (\<lambda>u. if P u then f u else u) (find (\<lambda>t. t_id t = i) ts)"
  by (rule find_upd_rows) simp

lemma stored_after_shape:
  assumes "transition_stored e cmd db r"
    and "db' = db\<lparr>events := events db @ xs, references := rs, tasks := upd_rows P f (tasks db)\<rparr>"
    and "\<forall>u. t_id (f u) = t_id u"
  shows "transition_stored e cmd db' r"
  using assms by (auto simp: transition_stored_def find_append find_upd_id)

lemma exec_transition_stores:
  assumes "exec_transition e gate lineage cmd db = Inr (r, db')"
  shows "transition_stored e cmd db' (r\<lparr>tr_replayed := True\<rparr>)"
proof -
  obtain c0 now eid where cmd: "cmd = (c0, now, eid)" by (cases cmd) auto
  have "transition_task e gate lineage c0 now eid db = Inr (r, db')"
    using assms by (simp add: exec_transition_def cmd transition_service_returns)
  then show ?thesis
  proof (cases rule: transition_task_cases)
    case (replay x c t)
    have "r\<lparr>tr_replayed := True\<rparr> = r" using replayed_result_flag [OF replay(5)] by (cases r) simp
    then show ?thesis using replay by (auto simp: transition_stored_def cmd)
  next
    case (commit c t p vs head g pl)
    obtain x where x: "x = transition_event t c pl g p (command_fingerprint e c)
          (next_event_sequence db (t_id t)) now eid"
      "events db' = events db @ [x]"
      "tasks db' = upd_rows (\<lambda>u. t_id u = t_id t) (project_plan pl (tc_actor c) eid) (tasks db)"
      "r = \<lparr>tr_task = t_id t, tr_id = tc_id c, tr_event = eid, tr_sequence = e_sequence x,
         tr_from = pl_from pl, tr_to = pl_to pl, tr_replayed = False\<rparr>"
      using commit_plan_Inr [OF commit(10)] by auto
    have "find (\<lambda>t. t_id t = tc_task c) (tasks db') \<noteq> None"
      using commit(2) by (simp add: x find_upd_id)
    moreover have "find (\<lambda>x. e_transition_id x = Some (tc_id c)) (events db') = Some x"
      using commit(3) by (simp add: x find_append)
    moreover have "replayed_result x c (command_fingerprint e c) = Inr (r\<lparr>tr_replayed := True\<rparr>)"
    proof -
      have "candidate_matches c (transition_payload t pl g (tc_candidate c))"
        using prepare_command_Inr [OF commit(1)] by (intro candidate_in_payload) blast
      moreover have "pl_kind pl = tc_kind c" "t_id t = tc_task c"
        using evaluate_cases [OF commit(9)] find_task [OF commit(2)] by blast+
      ultimately show ?thesis by (simp add: replayed_result_def x)
    qed
    ultimately show ?thesis using commit(1) by (auto simp: transition_stored_def cmd)
  qed
qed

interpretation transitions: transactional_service "exec_transition e gate lineage" task_inv
  for e gate lineage
  by unfold_locales (auto simp: exec_transition_def split: prod.splits intro: transition_service_inv)

interpretation transition_log: monotone_service "exec_transition e gate lineage" task_inv
  "\<lambda>db tid. int (length (task_events db tid))" for e gate lineage
proof unfold_locales
  fix db db' :: "'a task_db_scheme" and c r k
  assume "exec_transition e gate lineage c db = Inr (r, db')"
  then obtain xs where "events db' = events db @ xs"
    by (auto simp: exec_transition_def transition_service_returns dest!: transition_task_shape
        split: prod.splits)
  then show "int (length (task_events db k)) \<le> int (length (task_events db' k))"
    by (simp add: task_events_def)
qed

interpretation transition_replay: idempotent_service "exec_transition e gate lineage"
  "\<lambda>c d. fst c = fst d" "transition_stored e" "\<lambda>r. r\<lparr>tr_replayed := True\<rparr>" for e gate lineage
proof unfold_locales
  fix c d :: service_command and db db' :: "'a task_db_scheme" and r q
  show "exec_transition e gate lineage c db = Inr (r, db') \<Longrightarrow>
      transition_stored e c db' (r\<lparr>tr_replayed := True\<rparr>)"
    by (rule exec_transition_stores)
  show "transition_stored e c db r \<Longrightarrow> exec_transition e gate lineage d db = Inr (q, db') \<Longrightarrow>
      transition_stored e c db' r"
    by (auto simp: exec_transition_def transition_service_returns split: prod.splits
        dest!: transition_task_shape intro: stored_after_shape)
  show "transition_stored e c db r \<Longrightarrow> fst c = fst d \<Longrightarrow> exec_transition e gate lineage d db = Inr (r, db)"
    by (cases d) (auto simp: transition_stored_def exec_transition_def transition_service_returns
        transition_task_def Let_def)
qed

subsection \<open>A concrete task, for the witnesses\<close>

definition sample_env :: env where
  "sample_env = \<lparr>sha256 = (\<lambda>_. replicate 64 (CHR ''0'')), redact = (\<lambda>j. (j, [])),
     envelope_ok = (\<lambda>_. True)\<rparr>"

definition sample_task :: task_row where
  "sample_task = \<lparr>t_id = 1, t_repository = ''o/r'', t_raw_request = ''request'', t_summary = ''summary'', t_state = S_INTAKE, t_accepted_brief = None,
     t_brief_decision = None, t_repository_configuration = None, t_validation_contract = None,
     t_retry_count = 0, t_resume_state = None, t_outcome = None, t_owner = ''owner'',
     t_actor = ''owner'', t_root = 2, t_causation = None, t_parent = None\<rparr>"

definition sample_evidence :: evidence_row where
  "sample_evidence = \<lparr>v_id = 3, v_task = Some 1, v_validation_run = None, v_type = ''note'', v_origin = ''test'',
     v_content_hash = ''a'', v_content_address = Some ''a'', v_captured_at = 0, v_access = ''TASK_OWNER'',
     v_retention = ''AUDIT'', v_correction_of = None, v_deleted_at = None,
     v_owner = ''owner'', v_actor = ''owner'', v_root = 2, v_causation = None, v_parent = None\<rparr>"

definition sample_policy :: policy_row where
  "sample_policy = \<lparr>p_id = 4, p_lineage = ''mvp'', p_version = 1, p_thresholds = JObj [],
     p_approved_at = 0, p_owner = ''owner''\<rparr>"

definition sample_db :: task_db where
  "sample_db = \<lparr>tasks = [sample_task], events = [], evidence = [sample_evidence],
     references = [], deletion_requests = [], policies = [sample_policy]\<rparr>"

definition sample_command :: "transition_kind \<Rightarrow> task_state \<Rightarrow> uuid \<Rightarrow> transition_command" where
  "sample_command k s i = \<lparr>tc_task = 1, tc_id = i, tc_expected = s, tc_kind = k, tc_reason = ''test'',
     tc_actor = ''control-plane'', tc_evidence = [3], tc_candidate =
       (if k \<in> {K_BEGIN_VALIDATION, K_REVALIDATE}
        then Some \<lparr>commit_sha = sample_head, tree_sha = sample_head\<rparr> else None)\<rparr>"

definition open_evaluator :: "'d gate_evaluator" where
  "open_evaluator db t k p now = Inr (open_guards sample_head)"

abbreviation sample_exec :: "service_command \<Rightarrow> task_db \<Rightarrow> transition_error + transition_result \<times> task_db" where
  "sample_exec \<equiv> exec_transition sample_env open_evaluator ''mvp''"

end
