(* ===== verification/Task_Run_Properties.thy ===== *)
theory Task_Run_Properties
  imports Task_Transition_Properties
begin

text \<open>
  What every run of the transition service guarantees, from a database of new tasks on: the
  event log determines the task rows, escalation resumes where it began, a handoff rests on the
  head of the last verified draft, a command takes effect once, and with the fail-closed gate
  evaluator no task gets past the brief.  The first section is a concrete task with a step lemma, from
  which the witnesses build whole runs.
\<close>

subsection \<open>Steps of the sample task\<close>

lemma sample_fingerprint [simp]: "command_fingerprint sample_env c = replicate 64 (CHR ''0'')"
  by (simp add: command_fingerprint_def fingerprint_def sample_env_def)

lemma sample_prepare:
  "prepare_command sample_env (sample_command k s i) = Inr ((sample_command k s i)\<lparr>tc_reason := ''TEST''\<rparr>)"
proof -
  have "required_actor sample_env ''control-plane'' = Inr ''control-plane''"
    and "required_reason_code ''test'' = Inr ''TEST''"
    by code_simp+
  then show ?thesis by (simp add: prepare_command_def sample_command_def)
qed

lemma sample_command_simps [simp]:
  "tc_task (sample_command k s i) = 1" "tc_id (sample_command k s i) = i"
  "tc_expected (sample_command k s i) = s" "tc_kind (sample_command k s i) = k"
  "tc_actor (sample_command k s i) = ''control-plane''" "tc_evidence (sample_command k s i) = [3]"
  by (simp_all add: sample_command_def)

text \<open>A database in which the sample task stands in state \<open>st\<close> with the given resume state.\<close>

definition sample_at ::
  "task_db \<Rightarrow> task_state \<Rightarrow> task_state option \<Rightarrow> string option \<Rightarrow> uuid list \<Rightarrow> uuid list \<Rightarrow> bool" where
  "sample_at db st rs h es xs \<longleftrightarrow> task_inv db \<and> evidence db = [sample_evidence] \<and>
     deletion_requests db = [] \<and> policies db = [sample_policy] \<and>
     last_head (history db 1) = h \<and> map e_id (events db) = es \<and>
     map e_transition_id (events db) = map Some xs \<and> list_all (\<lambda>x. e_task x = 1) (events db) \<and>
     (\<exists>t. tasks db = [t] \<and> t_id t = 1 \<and> t_owner t = ''owner'' \<and> t_root t = 2 \<and> t_state t = st \<and>
        t_resume_state t = rs)"

lemma open_evaluates:
  assumes "legal_edge c k t" "k = K_RESUME \<Longrightarrow> rs = Some t"
    and "k \<in> {K_MARK_MERGE_READY, K_ACKNOWLEDGE_HANDOFF} \<Longrightarrow> vh = Some sample_head"
  shows "\<exists>pl. evaluate_task_transition \<lparr>s_state = c, s_resume = rs, s_verified_head = vh\<rparr> k
      (open_guards sample_head) = Inr pl \<and> pl_to pl = t \<and>
    pl_gate_head pl = (if k \<in> {K_OPEN_VERIFIED_DRAFT_PR, K_MARK_MERGE_READY, K_ACKNOWLEDGE_HANDOFF}
      then Some sample_head else None)"
  using assms
  by (cases rule: legal_edge.cases)
    (simp_all add: evaluate_task_transition_def mk_plan_def edge_gate_head_def open_guards_def
      open_draft_def verified_draft_head_def readiness_head_def sample_head_normal
      terminal_states_def scope_steering_states_def del: replicate.simps)

lemma sample_policy_active: "policies db = [sample_policy] \<Longrightarrow> t_owner t = ''owner'' \<Longrightarrow>
    active_policy db t ''mvp'' 5 = Inr sample_policy"
  by (simp add: active_policy_def first_by_def policy_authorizes_repository_def jget_def sample_policy_def)

lemma sample_evidence_ok:
  "evidence db = [sample_evidence] \<Longrightarrow> deletion_requests db = [] \<Longrightarrow> t_owner t = ''owner'' \<Longrightarrow>
   t_root t = 2 \<Longrightarrow> t_id t = 1 \<Longrightarrow> verify_transition_evidence sample_env db t [3] = Inr [sample_evidence]"
  by (simp add: verify_transition_evidence_def evidence_usable_def load_evidence_ok_def sample_env_def
      sample_evidence_def)

lemma kinds_ok: "kind_value k \<in> set all_transition_kinds"
  by (cases k) (simp_all add: all_transition_kinds_def)

lemma transition_event_audit [simp]:
  "e_reason (transition_event t c pl g p fp n now eid) = Some (tc_reason c)"
  "e_policy_lineage (transition_event t c pl g p fp n now eid) = Some (p_lineage p)"
  "e_policy_version (transition_event t c pl g p fp n now eid) = Some (p_id p)"
  "e_occurred_at (transition_event t c pl g p fp n now eid) = now"
  by (simp_all add: transition_event_def)

text \<open>Any legal edge can be taken by the sample service under fresh ids.\<close>

lemma sample_step:
  assumes at: "sample_at db st rs h es xs"
    and edge: "legal_edge st k to" "k = K_RESUME \<Longrightarrow> rs = Some to"
      "k \<in> {K_MARK_MERGE_READY, K_ACKNOWLEDGE_HANDOFF} \<Longrightarrow> h = Some sample_head"
    and fresh: "eid \<notin> set es" "i \<notin> set xs"
  shows "\<exists>r db'. sample_exec (sample_command k st i, 5, eid) db = Inr (r, db') \<and>
    tr_replayed r = False \<and> tr_from r = st \<and> tr_to r = to \<and> tr_id r = i \<and>
    sample_at db' to (if k = K_ESCALATE then Some st else None)
      (if k \<in> {K_OPEN_VERIFIED_DRAFT_PR, K_MARK_MERGE_READY, K_ACKNOWLEDGE_HANDOFF}
       then Some sample_head else h) (es @ [eid]) (xs @ [i])"
proof -
  obtain t where t: "tasks db = [t]" "t_id t = 1" "t_owner t = ''owner''" "t_root t = 2"
      "t_state t = st" "t_resume_state t = rs"
    and db: "task_inv db" "evidence db = [sample_evidence]" "deletion_requests db = []"
      "policies db = [sample_policy]" "last_head (history db 1) = h" "map e_id (events db) = es"
      "map e_transition_id (events db) = map Some xs" "list_all (\<lambda>x. e_task x = 1) (events db)"
    using at by (auto simp: sample_at_def)
  have seqs: "sequences_ok db" and ok: "heads_ok None (history db 1)"
    using db(1) t by (auto simp: task_inv_def task_ok_def)
  note head = latest_head_eq [OF seqs ok]
  obtain pl where pl: "evaluate_task_transition \<lparr>s_state = st, s_resume = rs, s_verified_head = h\<rparr> k
      (open_guards sample_head) = Inr pl" "pl_to pl = to"
    "pl_gate_head pl = (if k \<in> {K_OPEN_VERIFIED_DRAFT_PR, K_MARK_MERGE_READY, K_ACKNOWLEDGE_HANDOFF}
      then Some sample_head else None)"
    using open_evaluates [OF edge] by blast
  note ev = evaluate_cases [OF pl(1), simplified]
  define c where "c = (sample_command k st i)\<lparr>tc_reason := ''TEST''\<rparr>"
  define n where "n = next_event_sequence db 1"
  define x where "x = transition_event t c pl (open_guards sample_head) sample_policy
      (replicate 64 (CHR ''0'')) n 5 eid"
  have n: "n = int (Suc (length (events db)))"
    using next_event_sequence_eq [OF seqs, of 1] db(8)
    by (simp add: n_def task_events_def list_all_iff filter_id_conv)
  have row: "event_row_ok x"
    using ev pl(3) edge kinds_ok sample_head_normal
    by (simp add: event_row_ok_def x_def n gate_kinds_value list_all_iff is_hex_char_def c_def del: replicate.simps)
  have None_i: "Some i \<notin> set (map e_transition_id (events db))"
    using db(7) fresh(2) by auto
  have "task_events db 1 = events db"
    using db(8) by (simp add: task_events_def list_all_iff filter_id_conv)
  then have "map e_sequence (events db) = map int [1..<Suc (length (events db))]"
    using seqs by (metis sequences_ok_def)
  then have "e_sequence ` set (events db) = int ` {1..<Suc (length (events db))}"
    by (metis list.set_map set_upt)
  then have seq_lt: "e_sequence y \<noteq> n" if "y \<in> set (events db)" for y
    using imageI [OF that, of e_sequence] by (auto simp: n)
  have uniq: "event_unique (events db) x"
  proof -
    have "e_id y \<noteq> eid \<and> e_transition_id y \<noteq> Some i \<and> e_sequence y \<noteq> n"
      if "y \<in> set (events db)" for y
      using that None_i fresh(1) db(6) seq_lt by (auto simp: image_iff)
    then show ?thesis by (simp add: event_unique_def x_def list_all_iff c_def)
  qed
  have find_i: "find (\<lambda>x. e_transition_id x = Some i) (events db) = None"
    using None_i by (force simp: find_None_iff_all)
  define db' where "db' = db\<lparr>events := events db @ [x],
      references := references db @ evidence_references t x ''control-plane'' [sample_evidence],
      tasks := [project_plan pl ''control-plane'' eid t]\<rparr>"
  define r where "r = \<lparr>tr_task = 1, tr_id = i, tr_event = eid, tr_sequence = n,
      tr_from = st, tr_to = to, tr_replayed = False\<rparr>"
  have com: "commit_plan db t c pl (open_guards sample_head) sample_policy [sample_evidence]
      (replicate 64 (CHR ''0'')) 5 eid = Inr (r, db')"
    using row uniq ev pl t
    by (simp add: commit_plan_def insert_event_def Let_def r_def db'_def n_def x_def c_def)
  have exec: "sample_exec (sample_command k st i, 5, eid) db = Inr (r, db')"
    using com t head db find_i pl(1) sample_policy_active [OF db(4) t(3)]
      sample_evidence_ok [OF db(2,3) t(3,4,2)]
    by (simp add: exec_transition_def transition_service_returns transition_task_def sample_prepare
        Let_def open_evaluator_def c_def)
  have inv: "task_inv db'"
    using transitions.exec_inv [OF db(1) exec] .
  have "history db' 1 = history db 1 @ [x]"
    by (simp add: history_def task_events_def db'_def x_def t)
  then have "last_head (history db' 1) = (if k \<in> {K_OPEN_VERIFIED_DRAFT_PR, K_MARK_MERGE_READY,
      K_ACKNOWLEDGE_HANDOFF} then Some sample_head else h)"
    using pl(3) db(5) by (simp add: x_def del: replicate.simps)
  then have "sample_at db' to (if k = K_ESCALATE then Some st else None)
      (if k \<in> {K_OPEN_VERIFIED_DRAFT_PR, K_MARK_MERGE_READY, K_ACKNOWLEDGE_HANDOFF}
       then Some sample_head else h) (es @ [eid]) (xs @ [i])"
    using inv db t ev pl(2)
    by (simp add: sample_at_def db'_def x_def c_def project_plan_def Let_def del: replicate.simps)
  with exec show ?thesis by (auto simp: r_def)
qed



subsection \<open>Runs from new tasks\<close>

definition fresh_db :: "'a task_db_scheme \<Rightarrow> bool" where
  "fresh_db db \<longleftrightarrow> distinct (map t_id (tasks db)) \<and> events db = [] \<and>
     (\<forall>t \<in> set (tasks db). view_of t = fresh_view)"

lemma fresh_inv: "fresh_db db \<Longrightarrow> task_inv db"
  by (simp add: fresh_db_def task_inv_def sequences_ok_def task_ok_def history_def task_events_def)

lemma run_task_inv:
  "fresh_db db \<Longrightarrow> task_inv (run_service (exec_transition e gate lineage) cs db)"
  by (rule transitions.run_inv [OF fresh_inv])

lemma sample_fresh: "fresh_db sample_db" "sample_at sample_db S_INTAKE None None [] []"
proof -
  show f: "fresh_db sample_db"
    by (simp add: fresh_db_def sample_db_def sample_task_def view_of_def fresh_view_def)
  show "sample_at sample_db S_INTAKE None None [] []"
    using fresh_inv [OF f]
    by (simp add: sample_at_def sample_db_def sample_task_def history_def task_events_def)
qed

text \<open>
  C3.  Event sourcing.  Whatever commands run against new tasks, in any order and with any
  failures, the row of a task is what its stored events say: state, resume state, outcome and
  retry count are the fold of the task's events, each event starts where the previous one ended
  and follows the abstract state machine, and the event numbers of the task are 1, 2, 3, ...
\<close>

theorem event_sourcing:
  assumes "fresh_db db0" and "db = run_service (exec_transition e gate lineage) cs db0"
    and "t \<in> set (tasks db)"
  shows "view_of t = fold apply_event (history db (t_id t)) fresh_view \<and>
    chained fresh_view (history db (t_id t)) \<and>
    map e_sequence (task_events db (t_id t)) = map int [1..<Suc (length (task_events db (t_id t)))]"
  using run_task_inv [OF assms(1), of e gate lineage cs] assms(2,3)
  by (simp add: task_inv_def task_ok_def sequences_ok_def)

abbreviation first_command :: service_command where
  "first_command \<equiv> (sample_command K_START_BRIEFING S_INTAKE 10, 5, 11)"

lemma sample_first:
  "\<exists>r db. sample_exec first_command sample_db = Inr (r, db) \<and> tr_replayed r = False \<and>
     tr_from r = S_INTAKE \<and> tr_to r = S_BRIEFING \<and> tr_id r = 10 \<and>
     sample_at db S_BRIEFING None None [11] [10]"
  using sample_step [OF sample_fresh(2), of K_START_BRIEFING S_BRIEFING 11 10]
  by (simp add: legal_edge.intros)

theorem event_sourcing_witness:
  "\<exists>t. t \<in> set (tasks (run_service sample_exec [first_command] sample_db)) \<and>
     t_state t = S_BRIEFING \<and>
     w_state (fold apply_event (history (run_service sample_exec [first_command] sample_db) (t_id t))
       fresh_view) = S_BRIEFING"
proof -
  obtain r db where x: "sample_exec first_command sample_db = Inr (r, db)"
    and "sample_at db S_BRIEFING None None [11] [10]" using sample_first by blast
  then obtain t where t: "t \<in> set (tasks db)" "t_state t = S_BRIEFING"
    by (auto simp: sample_at_def)
  have run: "db = run_service sample_exec [first_command] sample_db" by (simp add: x)
  have "view_of t = fold apply_event (history db (t_id t)) fresh_view"
    using event_sourcing [OF sample_fresh(1) run t(1)] by blast
  then have "w_state (fold apply_event (history db (t_id t)) fresh_view) = S_BRIEFING"
    using t(2) by (metis view_of_def task_view.select_convs(1))
  then show ?thesis unfolding run [symmetric] using t by blast
qed

subsection \<open>Escalation and resumption\<close>

lemma legal_edge_escalated: "legal_edge c k S_ESCALATED \<Longrightarrow> k = K_ESCALATE"
  by (erule legal_edge.cases) (auto simp: scope_steering_states_def)

lemma legal_edge_handed_off: "legal_edge c k S_HANDED_OFF \<Longrightarrow> k = K_ACKNOWLEDGE_HANDOFF"
  by (erule legal_edge.cases) (auto simp: terminal_states_def)

lemma history_last:
  assumes "task_ok db t" "t_state t \<noteq> S_INTAKE"
  obtains xs x where "history db (t_id t) = xs @ [x]"
    "event_step (fold apply_event xs fresh_view) x"
    "view_of t = apply_event x (fold apply_event xs fresh_view)" "e_to x = Some (t_state t)"
    "heads_ok None (xs @ [x])"
proof -
  have v: "view_of t = fold apply_event (history db (t_id t)) fresh_view"
    and c: "chained fresh_view (history db (t_id t))" and h: "heads_ok None (history db (t_id t))"
    using assms(1) by (auto simp: task_ok_def)
  have "history db (t_id t) \<noteq> []"
    using v assms(2) by (auto simp: view_of_def fresh_view_def)
  then obtain xs x where x: "history db (t_id t) = xs @ [x]" by (metis append_butlast_last_id)
  have step: "event_step (fold apply_event xs fresh_view) x" using c x by (simp add: chained_snoc)
  moreover have "e_to x = Some (t_state t)"
    using v step x by (auto simp: event_step_def apply_event_def view_of_def)
  ultimately show thesis using that [OF x] v x h by simp
qed

lemma resume_target:
  assumes "task_inv db" "exec_transition e gate lineage cmd db = Inr (r, db')"
    "tc_kind (fst cmd) = K_RESUME" "\<not> tr_replayed r"
  obtains t where "find (\<lambda>t. t_id t = tr_task r) (tasks db) = Some t" "t_state t = S_ESCALATED"
    "t_resume_state t = Some (tr_to r)" "tr_from r = S_ESCALATED"
proof -
  obtain c0 now eid where cmd: "cmd = (c0, now, eid)" by (cases cmd) auto
  have "transition_task e gate lineage c0 now eid db = Inr (r, db')"
    using assms(2) by (simp add: exec_transition_def cmd transition_service_returns)
  then show thesis
  proof (cases rule: transition_task_cases)
    case (replay x c t)
    then show ?thesis using assms(4) replayed_result_flag by blast
  next
    case (commit c t p vs head g pl)
    have k: "tc_kind c = K_RESUME" using prepare_command_Inr [OF commit(1)] assms(3) cmd by simp
    have r: "tr_task r = t_id t" "tr_to r = pl_to pl" "tr_from r = pl_from pl"
      using commit_plan_Inr [OF commit(10)] by auto
    note e = evaluate_cases [OF commit(9), simplified]
    have "t_state t = S_ESCALATED" using e k by (auto simp: legal_edge_kinds)
    then show ?thesis using that [of t] e k r commit(2) find_task [OF commit(2)] by simp
  qed
qed

text \<open>
  C4.  Resumption returns to the interrupted state.  When, after any run from new tasks, a
  \<open>RESUME\<close> takes effect, the task was escalated, its last event is the escalation, and the task
  goes back exactly to the state that escalation left.
\<close>

theorem resume_returns:
  assumes "fresh_db db0" and "db = run_service (exec_transition e gate lineage) cs db0"
    and "exec_transition e gate lineage cmd db = Inr (r, db')"
    and "tc_kind (fst cmd) = K_RESUME" and "\<not> tr_replayed r"
  shows "\<exists>xs x. history db (tr_task r) = xs @ [x] \<and> e_kind x = Some ''ESCALATE'' \<and>
    e_to x = Some S_ESCALATED \<and> tr_from r = S_ESCALATED \<and> e_from x = Some (tr_to r)"
proof -
  have inv: "task_inv db" using run_task_inv [OF assms(1)] assms(2) by blast
  obtain t where t: "find (\<lambda>t. t_id t = tr_task r) (tasks db) = Some t" "t_state t = S_ESCALATED"
      "t_resume_state t = Some (tr_to r)" "tr_from r = S_ESCALATED"
    using resume_target [OF inv assms(3-5)] by blast
  have "task_ok db t" and id: "t_id t = tr_task r"
    using find_task [OF t(1)] inv by (auto simp: task_inv_def)
  then obtain xs x where x: "history db (t_id t) = xs @ [x]"
      "event_step (fold apply_event xs fresh_view) x"
      "view_of t = apply_event x (fold apply_event xs fresh_view)" "e_to x = Some (t_state t)"
    using t(2) by (elim history_last) auto
  have k: "e_kind x = Some ''ESCALATE''"
    using x(2,4) t(2) legal_edge_escalated by (auto simp: event_step_def)
  moreover have "e_from x = Some (tr_to r)"
    using x(3,4) t(3) k by (simp add: apply_event_def view_of_def)
  ultimately show ?thesis using x(1,4) t(2,4) id by auto
qed

theorem resume_returns_witness:
  "\<exists>db r db'. db = run_service sample_exec [first_command,
       (sample_command K_ESCALATE S_BRIEFING 12, 5, 13)] sample_db \<and>
     sample_exec (sample_command K_RESUME S_ESCALATED 14, 5, 15) db = Inr (r, db') \<and>
     tr_to r = S_BRIEFING \<and>
     (\<exists>xs x. history db (tr_task r) = xs @ [x] \<and> e_from x = Some (tr_to r))"
proof -
  obtain r1 db1 where 1: "sample_exec first_command sample_db = Inr (r1, db1)"
    "sample_at db1 S_BRIEFING None None [11] [10]" using sample_first by blast
  obtain r2 db2 where 2: "sample_exec (sample_command K_ESCALATE S_BRIEFING 12, 5, 13) db1 = Inr (r2, db2)"
    "sample_at db2 S_ESCALATED (Some S_BRIEFING) None [11, 13] [10, 12]"
    using sample_step [OF 1(2), of K_ESCALATE S_ESCALATED 13 12]
    by (auto simp: legal_edge.intros terminal_states_def)
  obtain r3 db3 where 3: "sample_exec (sample_command K_RESUME S_ESCALATED 14, 5, 15) db2 = Inr (r3, db3)"
    "tr_replayed r3 = False" "tr_to r3 = S_BRIEFING"
    using sample_step [OF 2(2), of K_RESUME S_BRIEFING 15 14]
    by (auto simp: legal_edge.intros terminal_states_def)
  have run: "db2 = run_service sample_exec [first_command,
       (sample_command K_ESCALATE S_BRIEFING 12, 5, 13)] sample_db"
    by (simp add: 1 2)
  have "\<exists>xs x. history db2 (tr_task r3) = xs @ [x] \<and> e_from x = Some (tr_to r3)"
    using resume_returns [OF sample_fresh(1) run 3(1)] 3(2) by auto
  then show ?thesis using run 3 by blast
qed

subsection \<open>Handoff\<close>

lemma last_head_origin:
  "heads_ok None xs \<Longrightarrow> last_head xs = Some h \<Longrightarrow>
   \<exists>pre x mid. xs = pre @ [x] @ mid \<and> e_kind x = Some ''OPEN_VERIFIED_DRAFT_PR'' \<and>
     e_gate_head x = Some h \<and> (\<forall>y \<in> set mid. e_kind y \<noteq> Some ''OPEN_VERIFIED_DRAFT_PR'')"
proof (induction xs rule: rev_induct)
  case (snoc y ys)
  have ok: "heads_ok None ys" and step: "head_step (last_head ys) y"
    using snoc.prems(1) by (auto simp: heads_ok_snoc)
  show ?case
  proof (cases "e_kind y = Some ''OPEN_VERIFIED_DRAFT_PR''")
    case True
    then have "e_gate_head y \<noteq> None" using step by (simp add: head_step_def gate_head_kinds_def)
    then show ?thesis using True snoc.prems(2) by (intro exI [of _ ys] exI [of _ y] exI [of _ "[]"]) auto
  next
    case False
    then have "last_head ys = Some h"
      using step snoc.prems(2) by (auto simp: head_step_def gate_head_kinds_def split: if_splits)
    then obtain pre x mid where "ys = pre @ [x] @ mid" "e_kind x = Some ''OPEN_VERIFIED_DRAFT_PR''"
        "e_gate_head x = Some h" "\<forall>y \<in> set mid. e_kind y \<noteq> Some ''OPEN_VERIFIED_DRAFT_PR''"
      using snoc.IH [OF ok] by blast
    then show ?thesis using False by (intro exI [of _ pre] exI [of _ x] exI [of _ "mid @ [y]"]) auto
  qed
qed simp

text \<open>
  C5.  A handoff is of the verified head.  If a task is handed off after any run from new tasks,
  its last event is the handoff acknowledgement, and the head it records is a Git object name
  and the head under which the draft pull request was last opened.
\<close>

theorem handoff_of_verified_head:
  assumes "fresh_db db0" and "db = run_service (exec_transition e gate lineage) cs db0"
    and "t \<in> set (tasks db)" and "t_state t = S_HANDED_OFF"
  shows "\<exists>pre x mid y h. history db (t_id t) = pre @ [x] @ mid @ [y] \<and>
    e_kind y = Some ''ACKNOWLEDGE_HANDOFF'' \<and> e_gate_head y = Some h \<and>
    e_kind x = Some ''OPEN_VERIFIED_DRAFT_PR'' \<and> e_gate_head x = Some h \<and>
    (\<forall>z \<in> set mid. e_kind z \<noteq> Some ''OPEN_VERIFIED_DRAFT_PR'') \<and> is_git_sha h"
proof -
  have "task_ok db t"
    using run_task_inv [OF assms(1), of e gate lineage cs] assms(2,3) by (simp add: task_inv_def)
  then obtain xs y where y: "history db (t_id t) = xs @ [y]"
      "event_step (fold apply_event xs fresh_view) y" "e_to y = Some (t_state t)"
      "heads_ok None (xs @ [y])"
    using assms(4) by (elim history_last) auto
  have k: "e_kind y = Some ''ACKNOWLEDGE_HANDOFF''"
    using y(2,3) assms(4) legal_edge_handed_off by (auto simp: event_step_def)
  have xs: "heads_ok None xs" and s: "head_step (last_head xs) y" using y(4) by (auto simp: heads_ok_snoc)
  obtain h where h: "e_gate_head y = Some h" "last_head xs = Some h" "is_git_sha h"
    using s k by (auto simp: head_step_def gate_head_kinds_def)
  obtain pre x mid where "xs = pre @ [x] @ mid" "e_kind x = Some ''OPEN_VERIFIED_DRAFT_PR''"
      "e_gate_head x = Some h" "\<forall>z \<in> set mid. e_kind z \<noteq> Some ''OPEN_VERIFIED_DRAFT_PR''"
    using last_head_origin [OF xs h(2)] by blast
  then show ?thesis using y(1) k h by auto
qed

abbreviation delivery_commands :: "service_command list" where
  "delivery_commands \<equiv> [(sample_command K_AUTO_ACCEPT_BRIEF S_BRIEFING 12, 5, 13),
     (sample_command K_BEGIN_VALIDATION S_IMPLEMENTING 14, 5, 15),
     (sample_command K_OPEN_VERIFIED_DRAFT_PR S_VALIDATING 16, 5, 17),
     (sample_command K_MARK_MERGE_READY S_PR_ACTIVE 18, 5, 19),
     (sample_command K_ACKNOWLEDGE_HANDOFF S_READY_FOR_HUMAN_MERGE 20, 5, 21)]"

lemma sample_delivery:
  "sample_at (run_service sample_exec (first_command # delivery_commands) sample_db)
     S_HANDED_OFF None (Some sample_head) [11, 13, 15, 17, 19, 21] [10, 12, 14, 16, 18, 20]"
proof -
  obtain r1 db1 where 1: "sample_exec first_command sample_db = Inr (r1, db1)"
    "sample_at db1 S_BRIEFING None None [11] [10]" using sample_first by blast
  obtain r2 db2 where 2: "sample_exec (sample_command K_AUTO_ACCEPT_BRIEF S_BRIEFING 12, 5, 13) db1 = Inr (r2, db2)"
    "sample_at db2 S_IMPLEMENTING None None [11, 13] [10, 12]"
    using sample_step [OF 1(2), of K_AUTO_ACCEPT_BRIEF S_IMPLEMENTING 13 12]
    by (auto simp: legal_edge.intros)
  obtain r3 db3 where 3: "sample_exec (sample_command K_BEGIN_VALIDATION S_IMPLEMENTING 14, 5, 15) db2 = Inr (r3, db3)"
    "sample_at db3 S_VALIDATING None None [11, 13, 15] [10, 12, 14]"
    using sample_step [OF 2(2), of K_BEGIN_VALIDATION S_VALIDATING 15 14]
    by (auto simp: legal_edge.intros)
  obtain r4 db4 where 4: "sample_exec (sample_command K_OPEN_VERIFIED_DRAFT_PR S_VALIDATING 16, 5, 17) db3 = Inr (r4, db4)"
    "sample_at db4 S_PR_ACTIVE None (Some sample_head) [11, 13, 15, 17] [10, 12, 14, 16]"
    using sample_step [OF 3(2), of K_OPEN_VERIFIED_DRAFT_PR S_PR_ACTIVE 17 16]
    by (auto simp: legal_edge.intros simp del: replicate.simps)
  obtain r5 db5 where 5: "sample_exec (sample_command K_MARK_MERGE_READY S_PR_ACTIVE 18, 5, 19) db4 = Inr (r5, db5)"
    "sample_at db5 S_READY_FOR_HUMAN_MERGE None (Some sample_head)
       [11, 13, 15, 17, 19] [10, 12, 14, 16, 18]"
    using sample_step [OF 4(2), of K_MARK_MERGE_READY S_READY_FOR_HUMAN_MERGE 19 18]
    by (auto simp: legal_edge.intros simp del: replicate.simps)
  obtain r6 db6 where 6: "sample_exec (sample_command K_ACKNOWLEDGE_HANDOFF S_READY_FOR_HUMAN_MERGE 20, 5, 21) db5 = Inr (r6, db6)"
    "sample_at db6 S_HANDED_OFF None (Some sample_head) [11, 13, 15, 17, 19, 21] [10, 12, 14, 16, 18, 20]"
    using sample_step [OF 5(2), of K_ACKNOWLEDGE_HANDOFF S_HANDED_OFF 21 20]
    by (auto simp: legal_edge.intros simp del: replicate.simps)
  then show ?thesis by (simp add: 1(1) 2(1) 3(1) 4(1) 5(1))
qed

theorem handoff_of_verified_head_witness:
  "\<exists>pre x mid y h. history (run_service sample_exec (first_command # delivery_commands) sample_db) 1 =
     pre @ [x] @ mid @ [y] \<and> e_gate_head x = Some h \<and> e_gate_head y = Some h \<and> is_git_sha h"
proof -
  obtain t where "t \<in> set (tasks (run_service sample_exec (first_command # delivery_commands) sample_db))"
    "t_state t = S_HANDED_OFF" "t_id t = 1"
    using sample_delivery by (auto simp: sample_at_def simp del: run_service.simps)
  then show ?thesis
    using handoff_of_verified_head [OF sample_fresh(1) refl] by metis
qed

subsection \<open>One effect per command\<close>

text \<open>
  C6.  Idempotency.  Once a command has succeeded, giving it again, at any time, under any event
  id and after any other commands, succeeds with the same answer, marked as a replay, and
  changes nothing.
\<close>

theorem transition_idempotent:
  assumes "exec_transition e gate lineage (c, now, eid) db = Inr (r, db1)"
    and "db2 = run_service (exec_transition e gate lineage) cs db1"
  shows "exec_transition e gate lineage (c, now', eid') db2 = Inr (r\<lparr>tr_replayed := True\<rparr>, db2)"
  using transition_replay.replay_after_run [OF assms(1)] assms(2) by simp

theorem transition_idempotent_witness:
  "\<exists>r db. sample_exec first_command sample_db = Inr (r, db) \<and>
     sample_exec (sample_command K_START_BRIEFING S_INTAKE 10, 90, 91)
       (run_service sample_exec delivery_commands db)
     = Inr (r\<lparr>tr_replayed := True\<rparr>, run_service sample_exec delivery_commands db)"
proof -
  obtain r db where "sample_exec first_command sample_db = Inr (r, db)" using sample_first by blast
  then show ?thesis using transition_idempotent [OF _ refl] by blast
qed

text \<open>
  C7.  At most one effect per transition id.  If a command succeeded, then any later success
  under the same transition id, whatever ran in between, is a replay of the first: the same
  task, event, number and edge, and no change of the database.
\<close>

theorem transition_applied_once:
  assumes "exec_transition e gate lineage c db = Inr (r1, db1)"
    and "db2 = run_service (exec_transition e gate lineage) cs db1"
    and "exec_transition e gate lineage d db2 = Inr (r2, db3)"
    and "tc_id (fst c) = tc_id (fst d)"
  shows "db3 = db2 \<and> r2 = r1\<lparr>tr_replayed := True\<rparr>"
proof -
  obtain c1 t x where c: "prepare_command e (fst c) = Inr c1"
      "find (\<lambda>x. e_transition_id x = Some (tc_id c1)) (events db2) = Some x"
      "replayed_result x c1 (command_fingerprint e c1) = Inr (r1\<lparr>tr_replayed := True\<rparr>)"
    using transition_replay.stored_run [OF transition_replay.exec_stores [OF assms(1)],
        where gate = gate and lineage = lineage and cs = cs] assms(2)
    by (auto simp: transition_stored_def)
  obtain d0 now eid where d0: "d = (d0, now, eid)" by (cases d) auto
  have t: "transition_task e gate lineage d0 now eid db2 = Inr (r2, db3)"
    using assms(3) by (simp add: exec_transition_def d0 transition_service_returns)
  then obtain d1 where d: "prepare_command e d0 = Inr d1"
    by (auto simp: transition_task_def)
  have "tc_id d1 = tc_id c1"
    using prepare_command_Inr [OF d] prepare_command_Inr [OF c(1)] assms(4) d0 by simp
  then have x: "find (\<lambda>x. e_transition_id x = Some (tc_id d1)) (events db2) = Some x" using c(2) by simp
  have "db3 = db2 \<and> replayed_result x d1 (command_fingerprint e d1) = Inr r2"
    using t transition_task_known [OF d x] by (auto split: option.splits)
  then show ?thesis using c(3) \<open>tc_id d1 = tc_id c1\<close>
    by (cases r1) (auto simp: replayed_result_def split: option.split_asm if_split_asm)
qed

theorem transition_applied_once_witness:
  "\<exists>r db. sample_exec first_command sample_db = Inr (r, db) \<and>
     run_service sample_exec delivery_commands db =
       (case sample_exec (sample_command K_START_BRIEFING S_INTAKE 10, 7, 70)
              (run_service sample_exec delivery_commands db) of Inr (_, db') \<Rightarrow> db')"
proof -
  obtain r db where 1: "sample_exec first_command sample_db = Inr (r, db)" using sample_first by blast
  let ?d = "(sample_command K_START_BRIEFING S_INTAKE 10, 7, 70) :: service_command"
  let ?db2 = "run_service sample_exec delivery_commands db"
  obtain r2 db3 where 2: "sample_exec ?d ?db2 = Inr (r2, db3)"
    using transition_replay.replay_after_run [OF 1, where d = ?d and cs = delivery_commands] by auto
  have "db3 = ?db2" using transition_applied_once [OF 1 refl 2] by simp
  then show ?thesis using 1 2 by auto
qed

subsection \<open>The effect of one transition\<close>

lemma length_removeAll_le: "length (removeAll x xs) \<le> length xs"
  by (simp add: removeAll_filter_not_eq)

lemma length_from_keys: "length (from_keys xs) \<le> length xs"
proof (induction xs)
  case (Cons x xs)
  show ?case using le_trans [OF length_removeAll_le Cons.IH] by simp
qed simp

lemma from_keys_all: "length (from_keys xs) = length xs \<Longrightarrow> from_keys xs = xs"
proof (induction xs)
  case (Cons x xs)
  have l: "length (from_keys xs) = length xs"
    by (rule le_antisym [OF length_from_keys]) (use Cons.prems length_removeAll_le in \<open>metis from_keys.simps(2) length_Cons nat.inject\<close>)
  then have "\<not> length (removeAll x (from_keys xs)) < length (from_keys xs)" using Cons.prems by simp
  then have "x \<notin> set (from_keys xs)" using length_removeAll_less by metis
  then show ?case using Cons.IH l by simp
qed simp

lemma distinct_from_keys: "distinct (from_keys xs)"
  by (induction xs) (auto simp: distinct_removeAll)

lemma prepare_command_evidence:
  "prepare_command e c0 = Inr c \<Longrightarrow> tc_evidence c = tc_evidence c0 \<and> distinct (tc_evidence c0) \<and> tc_evidence c0 \<noteq> []"
  using from_keys_all [of "tc_evidence c0"] distinct_from_keys [of "tc_evidence c0"]
  by (auto simp: prepare_command_def Let_def split: if_split_asm)

lemma ordered_evidence_Inr:
  "ordered_evidence e db t is = Inr vs \<Longrightarrow> map v_id vs = is \<and>
     (\<forall>v \<in> set vs. v \<in> set (evidence db) \<and> evidence_usable e db t v)"
proof (induction "is" arbitrary: vs)
  case (Cons i ids)
  then show ?case using find_Some_in by (fastforce split: option.split_asm if_split_asm)
qed simp

lemma references_evidence: "map r_evidence (evidence_references t x a vs) = map v_id vs"
proof -
  have "map r_evidence (evidence_references t x a vs) = map v_id (map snd (zip [1..<Suc (length vs)] vs))"
    by (simp add: evidence_references_def split_def comp_def del: upt_Suc map_snd_zip)
  then show ?thesis by (simp del: upt_Suc)
qed

text \<open>
  C8.  The effect of a transition that is not a replay.  It was issued for the state the task is
  in; it appends one event, under a new id, the command's transition id and the next number of
  the task, with one reference per piece of evidence in the order of the command, every one of
  them usable evidence of this task; it moves this task and no other; evidence and policies stay.
\<close>

theorem transition_effect:
  assumes "exec_transition e gate lineage (c, now, eid) db = Inr (r, db')" and "\<not> tr_replayed r"
  shows "\<exists>t x rs f. find (\<lambda>t. t_id t = tc_task c) (tasks db) = Some t \<and> t_state t = tc_expected c \<and>
    events db' = events db @ [x] \<and> event_row_ok x \<and> eid \<notin> e_id ` set (events db) \<and>
    (e_id x, e_task x, e_sequence x, e_occurred_at x, e_transition_id x, e_kind x, e_from x, e_to x) =
      (eid, tc_task c, next_event_sequence db (tc_task c), now, Some (tc_id c),
       Some (kind_value (tc_kind c)), Some (tc_expected c), Some (tr_to r)) \<and>
    references db' = references db @ rs \<and> map r_evidence rs = tc_evidence c \<and>
    (\<forall>i \<in> set (tc_evidence c). \<exists>v \<in> set (evidence db). v_id v = i \<and> evidence_usable e db t v) \<and>
    tasks db' = upd_rows (\<lambda>u. t_id u = tc_task c) f (tasks db) \<and> t_id (f t) = tc_task c \<and>
    t_state (f t) = tr_to r \<and> evidence db' = evidence db \<and> policies db' = policies db"
proof -
  have "transition_task e gate lineage c now eid db = Inr (r, db')"
    using assms(1) by (simp add: exec_transition_def transition_service_returns)
  then show ?thesis
  proof (cases rule: transition_task_cases)
    case (replay x c' t)
    then show ?thesis using replayed_result_flag assms(2) by blast
  next
    case (commit c' t p vs head g pl)
    define x where "x = transition_event t c' pl g p (command_fingerprint e c')
        (next_event_sequence db (t_id t)) now eid"
    have row: "event_row_ok x" "event_unique (events db) x" and r: "tr_to r = pl_to pl"
      and db': "events db' = events db @ [x]"
        "references db' = references db @ evidence_references t x (tc_actor c') vs"
        "tasks db' = upd_rows (\<lambda>u. t_id u = t_id t) (project_plan pl (tc_actor c') eid) (tasks db)"
        "evidence db' = evidence db" "policies db' = policies db"
      using commit_plan_Inr [OF commit(10)] by (auto simp: x_def)
    note c = prepare_command_Inr [OF commit(1)] prepare_command_evidence [OF commit(1)]
    have id: "t_id t = tc_task c" using find_task [OF commit(2)] c by simp
    have vs: "map v_id vs = tc_evidence c"
        "\<forall>v \<in> set vs. v \<in> set (evidence db) \<and> evidence_usable e db t v"
      using ordered_evidence_Inr [of e db t "tc_evidence c'" vs] commit(6) c
      by (auto simp: verify_transition_evidence_def)
    have evs: "\<forall>i \<in> set (tc_evidence c). \<exists>v \<in> set (evidence db). v_id v = i \<and> evidence_usable e db t v"
      using vs(2) unfolding vs(1) [symmetric] by auto
    have fresh: "eid \<notin> e_id ` set (events db)"
      using row(2) by (auto simp: event_unique_def list_all_iff x_def)
    have pl: "pl_kind pl = tc_kind c" "pl_from pl = tc_expected c"
      using evaluate_cases [OF commit(9), simplified] commit(4) c by auto
    have "t_state (project_plan pl (tc_actor c') eid t) = pl_to pl"
      by (simp add: project_plan_def Let_def)
    then show ?thesis using commit(2,4) c row(1) db' r id vs(1) evs fresh pl
      by (intro exI [of _ t] exI [of _ x] exI [of _ "evidence_references t x (tc_actor c') vs"]
          exI [of _ "project_plan pl (tc_actor c') eid"])
        (simp add: references_evidence x_def)
  qed
qed

theorem transition_effect_witness:
  "\<exists>r db x rs. sample_exec first_command sample_db = Inr (r, db) \<and> events db = [x] \<and> e_id x = 11 \<and>
     e_from x = Some S_INTAKE \<and> e_to x = Some S_BRIEFING \<and> references db = rs \<and>
     map r_evidence rs = [3]"
proof -
  obtain r db where 1: "sample_exec first_command sample_db = Inr (r, db)" "\<not> tr_replayed r"
    "tr_to r = S_BRIEFING" using sample_first by auto
  show ?thesis using transition_effect [OF 1(1,2)] 1 by (auto simp: sample_db_def)
qed

subsection \<open>The fail-closed default\<close>

definition closed_states :: "task_state set" where
  "closed_states = {S_INTAKE, S_BRIEFING, S_ESCALATED, S_FAILED, S_CANCELLED}"

lemma closed_plan:
  assumes "evaluate_task_transition s k no_guards = Inr pl" "s_state s \<in> closed_states"
  shows "pl_to pl \<in> closed_states"
  using assms
  by (cases k) (auto simp: evaluate_task_transition_def no_guards_def mk_plan_def closed_states_def Let_def
      edge_gate_head_def split: if_splits option.splits)

interpretation closed_transitions: transactional_service "exec_transition e closed_evaluator lineage"
  "\<lambda>db. \<forall>t \<in> set (tasks db). t_state t \<in> closed_states" for e lineage
proof unfold_locales
  fix db db' :: "'a task_db_scheme" and cmd r
  assume inv: "\<forall>t \<in> set (tasks db). t_state t \<in> closed_states"
    and x: "exec_transition e closed_evaluator lineage cmd db = Inr (r, db')"
  obtain c now eid where cmd: "cmd = (c, now, eid)" by (cases cmd) auto
  have "transition_task e closed_evaluator lineage c now eid db = Inr (r, db')"
    using x by (simp add: exec_transition_def cmd transition_service_returns)
  then show "\<forall>t \<in> set (tasks db'). t_state t \<in> closed_states"
  proof (cases rule: transition_task_cases)
    case (commit c t p vs head g pl)
    have "pl_to pl \<in> closed_states"
      by (rule closed_plan) (use commit find_task [OF commit(2)] inv in \<open>auto simp: closed_evaluator_def\<close>)
    then show ?thesis using commit_plan_Inr [OF commit(10)] inv
      by (auto simp: set_upd_rows project_plan_def Let_def)
  qed (use inv in simp)
qed

text \<open>
  C9.  Fail closed.  With the default gate evaluator, which proves nothing, no sequence of
  commands moves a new task past its brief: it can be briefed, escalated, failed or cancelled,
  and never implemented, validated, published or handed off.
\<close>

theorem closed_gates_never_pass:
  assumes "fresh_db db" and "t \<in> set (tasks (run_service (exec_transition e closed_evaluator lineage) cs db))"
  shows "t_state t \<in> {S_INTAKE, S_BRIEFING, S_ESCALATED, S_FAILED, S_CANCELLED}"
proof -
  have "\<forall>t \<in> set (tasks db). t_state t \<in> closed_states"
    using assms(1) by (auto simp: fresh_db_def view_of_def fresh_view_def closed_states_def)
  from closed_transitions.run_inv [OF this, of e lineage cs] assms(2) show ?thesis
    by (auto simp: closed_states_def)
qed

theorem closed_gates_never_pass_witness:
  "list_all (\<lambda>t. t_state t \<in> {S_INTAKE, S_BRIEFING, S_ESCALATED, S_FAILED, S_CANCELLED})
     (tasks (run_service (exec_transition sample_env closed_evaluator ''mvp'')
       (first_command # delivery_commands) sample_db))"
  unfolding list_all_iff using closed_gates_never_pass [OF sample_fresh(1)] by blast

end
