(* ===== verification/Background_Jobs.thy ===== *)
theory Background_Jobs
  imports Task_State_Machine "HOL-Library.Log_Nat"
begin

text \<open>
  \<open>background_jobs.py\<close>: the durable job queue.  A job is scheduled under an idempotency key,
  claimed under a time-bounded lease with a fencing token from one global counter, and changed
  only through that lease: every operation of a worker goes through \<open>current_lease\<close>.  Instants
  and durations are integers of microseconds; \<open>now\<close> is the reading of the service's clock,
  \<open>p\<close> its principal, and the UUIDs a transaction draws are arguments.  \<open>save_job\<close> and
  \<open>save_lease\<close> are the flush of a changed row.
\<close>

subsection \<open>Errors and the retry policy\<close>

datatype job_error =
    InvalidBackgroundJob | BackgroundJobNotFound | BackgroundJobConflict
  | BackgroundJobLeaseLost | AmbiguousBackgroundJobEffect | JobIntegrityError
  | JobTransitionError transition_error

definition max_lease_seconds :: int where "max_lease_seconds = 300"
definition max_retry_seconds :: int where "max_retry_seconds = 86400"
definition max_job_identifier_length :: nat where "max_job_identifier_length = 100"
definition max_idempotency_key_length :: nat where "max_idempotency_key_length = 255"
definition max_recovery_batch_size :: int where "max_recovery_batch_size = 1000"

record retry_policy =
  rp_attempts :: int
  rp_base :: int
  rp_max :: int

definition mk_retry_policy :: "int \<Rightarrow> int \<Rightarrow> int \<Rightarrow> job_error + retry_policy" where
  "mk_retry_policy attempts base maxi =
     (if \<not> (1 \<le> attempts \<and> attempts \<le> 100) then Inl InvalidBackgroundJob
      else if \<not> (1 \<le> base \<and> base \<le> max_retry_seconds) then Inl InvalidBackgroundJob
      else if \<not> (base \<le> maxi \<and> maxi \<le> max_retry_seconds) then Inl InvalidBackgroundJob
      else Inr \<lparr>rp_attempts = attempts, rp_base = base, rp_max = maxi\<rparr>)"

definition default_retry_policy :: retry_policy where
  "default_retry_policy = \<lparr>rp_attempts = 5, rp_base = 1, rp_max = 300\<rparr>"

record grant =
  gr_job :: uuid
  gr_task :: uuid
  gr_lease :: uuid
  gr_worker :: string
  gr_attempt :: int
  gr_token :: int
  gr_expires :: instant
  gr_type :: string
  gr_input :: json
  gr_checkpoint :: "json option"
  gr_version :: int
  gr_recovered :: bool

subsection \<open>Normalisation\<close>

definition required_identifier :: "nat \<Rightarrow> string \<Rightarrow> job_error + string" where
  "required_identifier maxi value = (let n = strip value in
     if n = [] \<or> maxi < length n \<or> \<not> matches_identifier n \<or> has_infix ''://'' n \<or>
        has_infix ''//'' n \<or> has_infix ''..'' n \<or> starts_with ''/'' n
     then Inl InvalidBackgroundJob else Inr n)"

definition required_error_code :: "string \<Rightarrow> job_error + string" where
  "required_error_code value = (let n = py_upper (strip value) in
     if \<not> matches_code n then Inl InvalidBackgroundJob else Inr n)"

definition safe_payload :: "env \<Rightarrow> json \<Rightarrow> job_error + json" where
  "safe_payload e value = (case redact e value of (j, manifest) \<Rightarrow>
     if manifest \<noteq> [] then Inl InvalidBackgroundJob
     else if \<not> is_jobj j then Inl InvalidBackgroundJob
     else if 1024 * 1024 < length (dumps j) then Inl InvalidBackgroundJob
     else Inr j)"

text \<open>\<open>datetime.isoformat(timespec="microseconds")\<close> in UTC with a final \<open>Z\<close>: the civil date
  of a day number (days since 1970-01-01) in the proleptic Gregorian calendar, and the time of
  day, in zero-padded decimal.\<close>

definition civil :: "int \<Rightarrow> int \<times> int \<times> int" where
  "civil days = (let z = days + 719468; era = z div 146097; doe = z mod 146097;
     yoe = (doe - doe div 1460 + doe div 36524 - doe div 146096) div 365;
     doy = doe - (365 * yoe + yoe div 4 - yoe div 100);
     mp = (5 * doy + 2) div 153;
     d = doy - (153 * mp + 2) div 5 + 1;
     m = (if mp < 10 then mp + 3 else mp - 9);
     y = yoe + era * 400 + (if m \<le> 2 then 1 else 0) in (y, m, d))"

definition pad :: "nat \<Rightarrow> int \<Rightarrow> string" where
  "pad w i = (let s = dec_int i in replicate (w - length s) (CHR ''0'') @ s)"

definition timestamp :: "instant \<Rightarrow> string" where
  "timestamp t = (let day = 86400 * 1000000; (y, m, d) = civil (t div day); r = t mod day;
     s = r div 1000000 in
     pad 4 y @ ''-'' @ pad 2 m @ ''-'' @ pad 2 d @ ''T'' @ pad 2 (s div 3600) @ '':'' @
     pad 2 (s div 60 mod 60) @ '':'' @ pad 2 (s mod 60) @ ''.'' @ pad 6 (r mod 1000000) @ ''Z'')"

definition schedule_fingerprint ::
  "env \<Rightarrow> uuid \<Rightarrow> string \<Rightarrow> json \<Rightarrow> retry_policy \<Rightarrow> instant option \<Rightarrow> string" where
  "schedule_fingerprint e task type payload policy available = fingerprint (sha256 e) (JObj
     [(''task_id'', JStr (uuid_str task)), (''job_type'', JStr type), (''payload'', payload),
      (''retry_policy'', JObj
         [(''max_attempts'', JInt (rp_attempts policy)),
          (''base_delay_seconds'', JInt (rp_base policy)),
          (''max_delay_seconds'', JInt (rp_max policy))]),
      (''available_at'', jopt (\<lambda>t. JStr (timestamp t)) available)])"

text \<open>\<open>int.from_bytes(digest[:8], "big")\<close> of a hexadecimal digest.\<close>

definition hex_digit_value :: "char \<Rightarrow> int" where
  "hex_digit_value c = (let n = (of_char c :: int) in if n \<le> 57 then n - 48 else n - 87)"

definition hex_value :: "string \<Rightarrow> int" where
  "hex_value s = fold (\<lambda>c acc. 16 * acc + hex_digit_value c) s 0"

definition deterministic_retry_delay ::
  "env \<Rightarrow> uuid \<Rightarrow> int \<Rightarrow> retry_policy \<Rightarrow> job_error + int" where
  "deterministic_retry_delay e job attempt policy =
     (if attempt < 1 then Inl InvalidBackgroundJob
      else (let exponent = min (attempt - 1) 63;
                cap_seconds = min (rp_max policy) (rp_base policy * 2 ^ nat exponent);
                cap_milliseconds = cap_seconds * 1000;
                digest = sha256 e (uuid_str job @ '':'' @ dec_int attempt @ '':'' @
                  dec_int (rp_attempts policy) @ '':'' @ dec_int (rp_base policy) @ '':'' @
                  dec_int (rp_max policy)) in
            Inr (hex_value (take 16 digest) mod (cap_milliseconds + 1) * 1000)))"

text \<open>
  \<open>_lease_duration\<close> goes through floating point: \<open>total_seconds()\<close> rounds the exact quotient to
  the nearest double, the product with \<open>1_000_000\<close> is rounded again and then truncated.
  \<open>half_even n d\<close> is \<open>n / d\<close> rounded to the nearest integer, ties to even; a double in
  \<open>[2^e, 2^(e+1))\<close> is a multiple of \<open>2^(e-52)\<close>.
\<close>

definition half_even :: "int \<Rightarrow> int \<Rightarrow> int" where
  "half_even n d = (let q = n div d; r = n mod d in
     if 2 * r < d then q else if d < 2 * r then q + 1 else if even q then q else q + 1)"

definition truncated_microseconds :: "int \<Rightarrow> int" where
  "truncated_microseconds n =
     (let k = 53 - floorlog 2 (nat (n div 1000000));
          seconds = half_even (n * 2 ^ k) 1000000;
          product = seconds * 1000000;
          k' = 53 - floorlog 2 (nat (product div 2 ^ k));
          rounded = half_even (product * 2 ^ k') (2 ^ k) in
      rounded div 2 ^ k')"

definition lease_duration :: "int \<Rightarrow> job_error + int" where
  "lease_duration value =
     (if value < 1000000 \<or> max_lease_seconds * 1000000 < value then Inl InvalidBackgroundJob
      else Inr (truncated_microseconds value))"

subsection \<open>Rows\<close>

definition find_job :: "uuid \<Rightarrow> 'a job_db_scheme \<Rightarrow> job_row option" where
  "find_job i db = find (\<lambda>j. j_id j = i) (jobs db)"

definition save_job :: "job_row \<Rightarrow> 'a job_db_scheme \<Rightarrow> 'a job_db_scheme" where
  "save_job j db = db\<lparr>jobs := upd_rows (\<lambda>x. j_id x = j_id j) (\<lambda>_. j) (jobs db)\<rparr>"

definition save_lease :: "lease_row \<Rightarrow> 'a job_db_scheme \<Rightarrow> 'a job_db_scheme" where
  "save_lease l db = db\<lparr>leases := upd_rows (\<lambda>x. l_id x = l_id l) (\<lambda>_. l) (leases db)\<rparr>"

definition insert_job :: "job_row \<Rightarrow> 'a job_db_scheme \<Rightarrow> job_error + 'a job_db_scheme" where
  "insert_job j db =
     (if \<not> job_row_ok j \<or> list_ex (\<lambda>x. j_id x = j_id j \<or> j_key x = j_key j) (jobs db)
      then Inl JobIntegrityError else Inr (db\<lparr>jobs := jobs db @ [j]\<rparr>))"

definition insert_lease :: "lease_row \<Rightarrow> 'a job_db_scheme \<Rightarrow> job_error + 'a job_db_scheme" where
  "insert_lease l db =
     (if \<not> lease_row_ok l \<or> list_ex (\<lambda>x. l_id x = l_id l \<or>
           (l_job x = l_job l \<and> l_attempt x = l_attempt l) \<or> l_token x = l_token l \<or>
           l_key x = l_key l) (leases db)
      then Inl JobIntegrityError else Inr (db\<lparr>leases := leases db @ [l]\<rparr>))"

definition digest_ok :: "string \<Rightarrow> bool" where
  "digest_ok s \<longleftrightarrow> length s = 64 \<and> list_all is_hex_char s"

definition insert_checkpoint ::
  "checkpoint_row \<Rightarrow> 'a job_db_scheme \<Rightarrow> job_error + 'a job_db_scheme" where
  "insert_checkpoint c db =
     (if \<not> (0 < c_sequence c \<and> 0 < c_token c \<and> digest_ok (c_fingerprint c)) \<or>
         list_ex (\<lambda>x. c_id x = c_id c \<or> (c_job x = c_job c \<and> c_sequence x = c_sequence c) \<or>
           c_key x = c_key c) (checkpoints db)
      then Inl JobIntegrityError else Inr (db\<lparr>checkpoints := checkpoints db @ [c]\<rparr>))"

definition insert_effect :: "effect_row \<Rightarrow> 'a job_db_scheme \<Rightarrow> job_error + 'a job_db_scheme" where
  "insert_effect f db =
     (if \<not> (effect_row_ok f \<and> digest_ok (f_fingerprint f)) \<or>
         list_ex (\<lambda>x. f_id x = f_id f \<or> f_key x = f_key f) (effects db)
      then Inl JobIntegrityError else Inr (db\<lparr>effects := effects db @ [f]\<rparr>))"

definition ensure_fencing_counter :: "'a job_db_scheme \<Rightarrow> int \<times> 'a job_db_scheme" where
  "ensure_fencing_counter db = (case fencing_counter db of
     Some n \<Rightarrow> (n, db) | None \<Rightarrow> (1, db\<lparr>fencing_counter := Some 1\<rparr>))"

definition lease_fingerprint :: "env \<Rightarrow> job_row \<Rightarrow> uuid \<Rightarrow> string \<Rightarrow> int \<Rightarrow> int \<Rightarrow> string" where
  "lease_fingerprint e j lid worker attempt token = fingerprint (sha256 e) (JObj
     [(''job_id'', JStr (uuid_str (j_id j))), (''lease_id'', JStr (uuid_str lid)),
      (''worker_id'', JStr worker), (''attempt'', JInt attempt),
      (''fencing_token'', JInt token), (''input_fingerprint'', JStr (j_input_fingerprint j))])"

definition mk_grant :: "job_row \<Rightarrow> lease_row \<Rightarrow> bool \<Rightarrow> job_error + grant" where
  "mk_grant j l recovered = (case j_task j of None \<Rightarrow> Inl BackgroundJobConflict
     | Some t \<Rightarrow> Inr \<lparr>gr_job = j_id j, gr_task = t, gr_lease = l_id l, gr_worker = l_owner l,
         gr_attempt = l_attempt l, gr_token = l_token l, gr_expires = l_expires l,
         gr_type = j_type j, gr_input = j_input j, gr_checkpoint = j_checkpoint j,
         gr_version = j_checkpoint_version j, gr_recovered = recovered\<rparr>)"

definition finish_job ::
  "job_status \<Rightarrow> string option \<Rightarrow> int \<Rightarrow> instant \<Rightarrow> string \<Rightarrow> job_row \<Rightarrow> job_row" where
  "finish_job status code token completed p j = j\<lparr>j_status := status, j_lease := None,
     j_token := None, j_lease_owner := None, j_lease_expires := None,
     j_last_token := Some token, j_last_error := code, j_completed_at := Some completed,
     j_actor := p\<rparr>"

definition require_no_pending_effects :: "uuid \<Rightarrow> 'a job_db_scheme \<Rightarrow> job_error + unit" where
  "require_no_pending_effects i db =
     (if list_ex (\<lambda>f. f_job f = i \<and> f_status f = E_PENDING) (effects db)
      then Inl AmbiguousBackgroundJobEffect else Inr ())"

subsection \<open>Scheduling\<close>

definition unrunnable_states :: "task_state set" where
  "unrunnable_states = {S_BRIEF_PENDING_APPROVAL, S_ESCALATED, S_HANDED_OFF, S_FAILED, S_CANCELLED}"

text \<open>An exhausted, unresolved outage of any job of the task.\<close>

definition unresolved_outage :: "uuid \<Rightarrow> 'a job_db_scheme \<Rightarrow> bool" where
  "unresolved_outage tid db \<longleftrightarrow> list_ex (\<lambda>a. o_exhausted a \<and> o_resolved_at a = None \<and>
     list_ex (\<lambda>j. j_id j = o_job a \<and> j_task j = Some tid) (jobs db)) (outages db)"

definition matching_schedule ::
  "job_row \<Rightarrow> uuid \<Rightarrow> string \<Rightarrow> string \<Rightarrow> job_error + uuid \<times> bool" where
  "matching_schedule j task type fp =
     (if j_task j \<noteq> Some task \<or> j_type j \<noteq> type \<or> j_input_fingerprint j \<noteq> fp
      then Inl BackgroundJobConflict else Inr (j_id j, True))"

record schedule_command =
  sc_task :: uuid
  sc_type :: string
  sc_key :: string
  sc_input :: json
  sc_policy :: retry_policy
  sc_available :: "instant option"

definition scheduled_row ::
  "string \<Rightarrow> task_row \<Rightarrow> string \<Rightarrow> string \<Rightarrow> json \<Rightarrow> string \<Rightarrow> retry_policy \<Rightarrow> instant \<Rightarrow>
   instant \<Rightarrow> uuid \<Rightarrow> job_row" where
  "scheduled_row p t type key payload fp policy due created jid =
     \<lparr>j_id = jid, j_task = Some (t_id t), j_type = type, j_input = payload,
      j_input_fingerprint = fp, j_status = J_QUEUED, j_key = key, j_attempts = 0,
      j_max_attempts = rp_attempts policy, j_retry_base = rp_base policy,
      j_retry_max = rp_max policy, j_available_at = due, j_checkpoint = None,
      j_checkpoint_version = 0, j_lease = None, j_token = None, j_lease_owner = None,
      j_lease_expires = None, j_last_token = None, j_last_error = None,
      j_cancel_requested = None, j_completed_at = None, j_created_at = created,
      j_owner = t_owner t, j_actor = p, j_root = t_root t, j_causation = None, j_parent = None\<rparr>"

text \<open>The caller's \<open>task_validator\<close> is the parameter \<open>validate\<close>; it may raise.\<close>

definition schedule ::
  "env \<Rightarrow> string \<Rightarrow> ('a job_db_scheme \<Rightarrow> task_row \<Rightarrow> job_error + unit) \<Rightarrow> schedule_command \<Rightarrow>
   instant \<Rightarrow> uuid \<Rightarrow> 'a job_db_scheme \<Rightarrow> job_error + (uuid \<times> bool) \<times> 'a job_db_scheme" where
  "schedule e p validate c now jid db =
     bindE (required_identifier max_job_identifier_length (sc_type c)) (\<lambda>type.
     bindE (required_identifier max_idempotency_key_length (sc_key c)) (\<lambda>key.
     bindE (safe_payload e (sc_input c)) (\<lambda>payload.
     (let fp = schedule_fingerprint e (sc_task c) type payload (sc_policy c) (sc_available c);
          due = (case sc_available c of None \<Rightarrow> now | Some t \<Rightarrow> t) in
      case find (\<lambda>t. t_id t = sc_task c) (tasks db) of
        None \<Rightarrow> Inl BackgroundJobNotFound
      | Some t \<Rightarrow> bindE (validate db t) (\<lambda>_.
          case find (\<lambda>j. j_key j = key) (jobs db) of
            Some j \<Rightarrow> bindE (matching_schedule j (sc_task c) type fp) (\<lambda>r. Inr (r, db))
          | None \<Rightarrow>
              if t_state t \<in> unrunnable_states then Inl BackgroundJobConflict
              else if unresolved_outage (t_id t) db then Inl BackgroundJobConflict
              else (let db1 = snd (ensure_fencing_counter db);
                        j = scheduled_row p t type key payload fp (sc_policy c) due now jid in
                case insert_job j db1 of
                  Inr db2 \<Rightarrow> Inr ((jid, False), db2)
                | Inl err \<Rightarrow> (case find (\<lambda>j. j_key j = key) (jobs db1) of
                    None \<Rightarrow> Inl err
                  | Some x \<Rightarrow> bindE (matching_schedule x (sc_task c) type fp)
                                (\<lambda>r. Inr (r, db1)))))))))"

subsection \<open>Claiming\<close>

definition reconciliation_blocked :: "job_row \<Rightarrow> 'a job_db_scheme \<Rightarrow> bool" where
  "reconciliation_blocked j db \<longleftrightarrow> list_ex (\<lambda>g.
     (g_target_job g = Some (j_id j) \<or> (g_target_task g \<noteq> None \<and> g_target_task g = j_task j)) \<and>
     g_target_status g \<in> {RS_UPDATED, RS_RETRY_REQUIRED, RS_QUARANTINED}) (targets db)"

definition restart_fenced :: "job_row \<Rightarrow> instant \<Rightarrow> 'a job_db_scheme \<Rightarrow> bool" where
  "restart_fenced j scan db \<longleftrightarrow> list_ex (\<lambda>g. g_target_status g = RS_PENDING \<and>
     list_ex (\<lambda>r. g_target_job g = Some (j_id r) \<and> j_task r = j_task j \<and>
       j_status r = J_RUNNING \<and> (\<exists>x. j_lease_expires r = Some x \<and> x \<le> scan)) (jobs db))
     (targets db)"

definition lease_expired :: "instant \<Rightarrow> job_row \<Rightarrow> bool" where
  "lease_expired t j \<longleftrightarrow> (case j_lease_expires j of None \<Rightarrow> False | Some x \<Rightarrow> x \<le> t)"

definition claimable :: "string list \<Rightarrow> instant \<Rightarrow> 'a job_db_scheme \<Rightarrow> job_row \<Rightarrow> bool" where
  "claimable types scan db j \<longleftrightarrow>
     (case j_task j of None \<Rightarrow> False
      | Some tid \<Rightarrow>
          list_ex (\<lambda>t. t_id t = tid \<and> t_state t \<notin> unrunnable_states) (tasks db) \<and>
          \<not> unresolved_outage tid db) \<and>
     j_cancel_requested j = None \<and>
     \<not> reconciliation_blocked j db \<and> \<not> restart_fenced j scan db \<and>
     ((j_status j = J_QUEUED \<and> j_attempts j < j_max_attempts j \<and> j_available_at j \<le> scan) \<or>
      (j_status j = J_RUNNING \<and> lease_expired scan j)) \<and>
     (types = [] \<or> j_type j \<in> set types)"

definition next_claim :: "string list \<Rightarrow> instant \<Rightarrow> 'a job_db_scheme \<Rightarrow> job_row option" where
  "next_claim types scan db = first_by (\<lambda>j. (j_available_at j, j_created_at j, j_id j))
     (filter (claimable types scan db) (jobs db))"

definition leased_by :: "job_row \<Rightarrow> lease_row \<Rightarrow> bool" where
  "leased_by j l \<longleftrightarrow> j_lease j = Some (l_id l) \<and> l_job l = j_id j \<and> j_token j = Some (l_token l)"

definition next_lease_attempt :: "uuid \<Rightarrow> 'a job_db_scheme \<Rightarrow> int" where
  "next_lease_attempt i db = max_or_zero (map l_attempt (filter (\<lambda>l. l_job l = i) (leases db))) + 1"

definition claimed_lease ::
  "env \<Rightarrow> string \<Rightarrow> job_row \<Rightarrow> uuid \<Rightarrow> string \<Rightarrow> int \<Rightarrow> int \<Rightarrow> instant \<Rightarrow> instant \<Rightarrow> lease_row" where
  "claimed_lease e p j lid worker attempt token now expires =
     \<lparr>l_id = lid, l_job = j_id j, l_owner = worker, l_attempt = attempt, l_token = token,
      l_key = uuid_str (j_id j) @ '':lease:'' @ dec_int attempt,
      l_claim_fingerprint = lease_fingerprint e j lid worker attempt token,
      l_heartbeat = now, l_expires = expires, l_checkpoint = j_checkpoint j,
      l_checkpoint_version = j_checkpoint_version j, l_released = None,
      l_release_reason = None, l_retry_at = None, l_failure = None, l_cancel_ack = None,
      l_actor = p\<rparr>"

text \<open>The second half of a claim: the token, the lease and the job's projection of it.\<close>

definition grant_lease ::
  "env \<Rightarrow> string \<Rightarrow> string \<Rightarrow> int \<Rightarrow> uuid \<Rightarrow> instant \<Rightarrow> job_row \<Rightarrow> bool \<Rightarrow> 'a job_db_scheme \<Rightarrow>
   job_error + grant \<times> 'a job_db_scheme" where
  "grant_lease e p worker duration lid now j recovered db =
     (case ensure_fencing_counter db of (token, db1) \<Rightarrow>
      (let db2 = db1\<lparr>fencing_counter := Some (token + 1)\<rparr>;
           attempt = next_lease_attempt (j_id j) db2;
           l = claimed_lease e p j lid worker attempt token now (now + duration) in
       bindE (insert_lease l db2) (\<lambda>db3.
       (let j' = j\<lparr>j_status := J_RUNNING, j_attempts := j_attempts j + 1, j_lease := Some lid,
              j_token := Some token, j_lease_owner := Some worker,
              j_lease_expires := Some (now + duration), j_last_token := Some token,
              j_last_error := None, j_actor := p\<rparr> in
        bindE (mk_grant j' l recovered) (\<lambda>g. Inr (g, save_job j' db3))))))"

datatype 'd claim_outcome = Nothing_claimed 'd | Exhausted 'd | Claimed grant 'd

definition release_lease :: "string \<Rightarrow> instant \<Rightarrow> string \<Rightarrow> lease_row \<Rightarrow> lease_row" where
  "release_lease p now reason l = l\<lparr>l_released := Some now, l_release_reason := Some reason, l_actor := p\<rparr>"

text \<open>One turn of the \<open>while True\<close> of \<open>claim_next\<close>, with its three clock readings.\<close>

definition claim_step ::
  "env \<Rightarrow> string \<Rightarrow> string \<Rightarrow> int \<Rightarrow> string list \<Rightarrow> uuid \<Rightarrow> instant \<Rightarrow> instant \<Rightarrow> instant \<Rightarrow>
   'a job_db_scheme \<Rightarrow> job_error + 'a job_db_scheme claim_outcome" where
  "claim_step e p worker duration types lid scan now now2 db =
     (case next_claim types scan db of
        None \<Rightarrow> Inr (Nothing_claimed db)
      | Some j \<Rightarrow>
          if j_status j = J_RUNNING then
            (case find (leased_by j) (leases db) of
               None \<Rightarrow> Inl BackgroundJobConflict
             | Some previous \<Rightarrow>
                 if \<not> lease_expired now j then Inr (Nothing_claimed db)
                 else if j_max_attempts j \<le> j_attempts j then
                   Inr (Exhausted (save_job
                     (finish_job J_FAILED (Some ''LEASE_EXPIRED_ATTEMPTS_EXHAUSTED'')
                        (l_token previous) now p j)
                     (save_lease ((release_lease p now ''EXPIRED'' previous)\<lparr>
                        l_failure := Some ''LEASE_EXPIRED_ATTEMPTS_EXHAUSTED''\<rparr>) db)))
                 else bindE (grant_lease e p worker duration lid now2 j True
                        (save_lease (release_lease p now ''SUPERSEDED'' previous) db))
                        (\<lambda>(g, db'). Inr (Claimed g db')))
          else bindE (grant_lease e p worker duration lid now2 j False db)
                 (\<lambda>(g, db'). Inr (Claimed g db')))"

definition running_jobs :: "'a job_db_scheme \<Rightarrow> job_row list" where
  "running_jobs db = filter (\<lambda>j. j_status j = J_RUNNING) (jobs db)"

lemma next_claim_Some:
  "next_claim types scan db = Some j \<Longrightarrow> j \<in> set (jobs db) \<and> claimable types scan db j"
  using first_by_Some_in by (fastforce simp: next_claim_def)

lemma length_filter_upd_rows:
  "(\<And>x. P x \<Longrightarrow> \<not> Q (f x)) \<Longrightarrow> x \<in> set xs \<Longrightarrow> P x \<Longrightarrow> Q x \<Longrightarrow>
   length (filter Q (upd_rows P f xs)) < length (filter Q xs)"
proof (induction xs)
  case (Cons y ys)
  have le: "length (filter Q (upd_rows P f zs)) \<le> length (filter Q zs)" for zs
    using Cons.prems(1) by (induction zs) auto
  show ?case using Cons le [of ys] by (auto simp: le_imp_less_Suc)
qed simp

lemma save_job_jobs [simp]: "jobs (save_job j db) = upd_rows (\<lambda>x. j_id x = j_id j) (\<lambda>_. j) (jobs db)"
  "leases (save_job j db) = leases db" "jobs (save_lease l db) = jobs db"
  "leases (save_lease l db) = upd_rows (\<lambda>x. l_id x = l_id l) (\<lambda>_. l) (leases db)"
  by (simp_all add: save_job_def save_lease_def)

lemma finish_job_simps [simp]:
  "j_id (finish_job s c k t p j) = j_id j" "j_status (finish_job s c k t p j) = s"
  by (simp_all add: finish_job_def)

lemma claim_step_exhausts:
  assumes "claim_step e p worker duration types lid scan now now2 db = Inr (Exhausted db')"
  shows "length (running_jobs db') < length (running_jobs db)"
proof -
  obtain j where j: "next_claim types scan db = Some j"
    using assms by (auto simp: claim_step_def split: option.split_asm)
  have r: "j_status j = J_RUNNING"
    using assms j by (auto simp: claim_step_def split: if_split_asm)
  then obtain l where "find (leased_by j) (leases db) = Some l"
    using assms j by (cases "find (leased_by j) (leases db)") (auto simp: claim_step_def)
  then have "jobs db' = upd_rows (\<lambda>x. j_id x = j_id j)
      (\<lambda>_. finish_job J_FAILED (Some ''LEASE_EXPIRED_ATTEMPTS_EXHAUSTED'') (l_token l) now p j) (jobs db)"
    using assms j r by (auto simp: claim_step_def split: if_split_asm)
  then show ?thesis
    using next_claim_Some [OF j] r by (auto simp: running_jobs_def intro!: length_filter_upd_rows)
qed

text \<open>\<open>clk\<close> gives the readings of the clock from \<open>i\<close> on; a turn that fails an exhausted job has
  read it twice.\<close>

function claim_loop ::
  "env \<Rightarrow> string \<Rightarrow> string \<Rightarrow> int \<Rightarrow> string list \<Rightarrow> uuid \<Rightarrow> (nat \<Rightarrow> instant) \<Rightarrow> nat \<Rightarrow>
   'a job_db_scheme \<Rightarrow> job_error + grant option \<times> 'a job_db_scheme" where
  "claim_loop e p worker duration types lid clk i db =
     (case claim_step e p worker duration types lid (clk i) (clk (i + 1)) (clk (i + 2)) db of
        Inl err \<Rightarrow> Inl err
      | Inr (Nothing_claimed db') \<Rightarrow> Inr (None, db')
      | Inr (Exhausted db') \<Rightarrow> claim_loop e p worker duration types lid clk (i + 2) db'
      | Inr (Claimed g db') \<Rightarrow> Inr (Some g, db'))"
  by pat_completeness auto

termination claim_loop
  by (relation "measure (\<lambda>(e, p, w, d, ts, lid, clk, i, db). length (running_jobs db))")
    (auto dest: claim_step_exhausts)

declare claim_loop.simps [simp del]

fun normalized_types :: "string list \<Rightarrow> job_error + string list" where
  "normalized_types [] = Inr []"
| "normalized_types (t # ts) =
     bindE (required_identifier max_job_identifier_length t) (\<lambda>n.
     bindE (normalized_types ts) (\<lambda>ns. Inr (n # ns)))"

definition claim_next ::
  "env \<Rightarrow> string \<Rightarrow> string \<Rightarrow> int \<Rightarrow> string list \<Rightarrow> (nat \<Rightarrow> instant) \<Rightarrow> uuid \<Rightarrow>
   'a job_db_scheme \<Rightarrow> job_error + grant option \<times> 'a job_db_scheme" where
  "claim_next e p worker_id duration job_types clk lid db =
     bindE (required_identifier 255 worker_id) (\<lambda>worker.
     bindE (lease_duration duration) (\<lambda>d.
     bindE (normalized_types job_types) (\<lambda>types.
     claim_loop e p worker d types lid clk 0 db)))"

subsection \<open>The lease fence\<close>

definition current_lease ::
  "grant \<Rightarrow> instant \<Rightarrow> 'a job_db_scheme \<Rightarrow> job_error + job_row \<times> lease_row" where
  "current_lease g now db =
     (case find_job (gr_job g) db of
        None \<Rightarrow> Inl BackgroundJobLeaseLost
      | Some j \<Rightarrow>
          if j_status j \<noteq> J_RUNNING \<or> j_task j \<noteq> Some (gr_task g) \<or>
             j_lease j \<noteq> Some (gr_lease g) \<or> j_token j \<noteq> Some (gr_token g) \<or>
             j_lease_owner j \<noteq> Some (gr_worker g) \<or> j_lease_expires j = None \<or>
             j_cancel_requested j \<noteq> None
          then Inl BackgroundJobLeaseLost
          else (case find (\<lambda>l. l_id l = gr_lease g \<and> l_job l = gr_job g \<and>
                       l_owner l = gr_worker g \<and> l_attempt l = gr_attempt g \<and>
                       l_token l = gr_token g) (leases db) of
                  None \<Rightarrow> Inl BackgroundJobLeaseLost
                | Some l \<Rightarrow>
                    if l_released l \<noteq> None \<or> lease_expired now j \<or> l_expires l \<le> now
                    then Inl BackgroundJobLeaseLost else Inr (j, l)))"

definition require_current_job_lease :: "grant \<Rightarrow> instant \<Rightarrow> 'a job_db_scheme \<Rightarrow> job_error + unit" where
  "require_current_job_lease g now db = bindE (current_lease g now db) (\<lambda>_. Inr ())"

definition heartbeat ::
  "string \<Rightarrow> grant \<Rightarrow> int \<Rightarrow> instant \<Rightarrow> 'a job_db_scheme \<Rightarrow> job_error + grant \<times> 'a job_db_scheme" where
  "heartbeat p g duration now db =
     bindE (lease_duration duration) (\<lambda>d.
     bindE (current_lease g now db) (\<lambda>(j, l).
     (let expires = max (l_expires l) (now + d);
          l' = l\<lparr>l_heartbeat := now, l_expires := expires, l_actor := p\<rparr>;
          j' = j\<lparr>j_lease_expires := Some expires, j_last_token := Some (gr_token g), j_actor := p\<rparr> in
      bindE (mk_grant j' l' (gr_recovered g)) (\<lambda>g'.
        Inr (g', save_job j' (save_lease l' db))))))"

subsection \<open>Checkpoints and effects\<close>

record checkpoint_result =
  cr_id :: uuid
  cr_sequence :: int
  cr_replayed :: bool

definition checkpointed_job :: "string \<Rightarrow> json \<Rightarrow> int \<Rightarrow> int \<Rightarrow> job_row \<Rightarrow> job_row" where
  "checkpointed_job p payload version token j = j\<lparr>j_checkpoint := Some payload,
     j_checkpoint_version := version, j_last_token := Some token, j_actor := p\<rparr>"

definition checkpointed_lease :: "string \<Rightarrow> json \<Rightarrow> int \<Rightarrow> lease_row \<Rightarrow> lease_row" where
  "checkpointed_lease p payload version l = l\<lparr>l_checkpoint := Some payload,
     l_checkpoint_version := version, l_actor := p\<rparr>"

definition append_checkpoint ::
  "string \<Rightarrow> job_row \<Rightarrow> lease_row \<Rightarrow> int \<Rightarrow> string \<Rightarrow> json \<Rightarrow> string \<Rightarrow> instant \<Rightarrow> uuid \<Rightarrow>
   'a job_db_scheme \<Rightarrow> job_error + checkpoint_result \<times> 'a job_db_scheme" where
  "append_checkpoint p j l expected key payload fp now cid db =
     (let target = expected + 1 in
      case find (\<lambda>c. c_key c = key) (checkpoints db) of
        Some c \<Rightarrow>
          if c_job c \<noteq> j_id j \<or> c_sequence c \<noteq> target \<or> c_fingerprint c \<noteq> fp \<or>
             \<not> py_eq (c_payload c) payload
          then Inl BackgroundJobConflict
          else Inr (\<lparr>cr_id = c_id c, cr_sequence = c_sequence c, cr_replayed = True\<rparr>, db)
      | None \<Rightarrow>
          if j_checkpoint_version j \<noteq> expected then Inl BackgroundJobConflict
          else bindE (insert_checkpoint \<lparr>c_id = cid, c_job = j_id j, c_lease = l_id l,
                 c_token = l_token l, c_sequence = target, c_key = key, c_fingerprint = fp,
                 c_payload = payload, c_recorded_at = now\<rparr> db) (\<lambda>db1.
               Inr (\<lparr>cr_id = cid, cr_sequence = target, cr_replayed = False\<rparr>,
                 save_lease (checkpointed_lease p payload target l)
                   (save_job (checkpointed_job p payload target (l_token l) j) db1))))"

definition checkpoint ::
  "env \<Rightarrow> string \<Rightarrow> grant \<Rightarrow> int \<Rightarrow> string \<Rightarrow> json \<Rightarrow> instant \<Rightarrow> uuid \<Rightarrow> 'a job_db_scheme \<Rightarrow>
   job_error + checkpoint_result \<times> 'a job_db_scheme" where
  "checkpoint e p g expected key payload now cid db =
     bindE (required_identifier max_idempotency_key_length key) (\<lambda>k.
     bindE (safe_payload e payload) (\<lambda>v.
     bindE (current_lease g now db) (\<lambda>(j, l).
     append_checkpoint p j l expected k v (fingerprint (sha256 e) v) now cid db)))"

record prepared_effect =
  pe_id :: uuid
  pe_key :: string
  pe_type :: string
  pe_request :: json
  pe_status :: effect_status
  pe_result :: "json option"
  pe_created :: bool
  pe_reconcile :: bool

definition mk_prepared :: "effect_row \<Rightarrow> bool \<Rightarrow> bool \<Rightarrow> prepared_effect" where
  "mk_prepared f created reconcile = \<lparr>pe_id = f_id f, pe_key = f_key f, pe_type = f_type f,
     pe_request = f_request f, pe_status = f_status f, pe_result = f_result f,
     pe_created = created, pe_reconcile = reconcile\<rparr>"

definition pending_of :: "uuid \<Rightarrow> 'a job_db_scheme \<Rightarrow> effect_row list" where
  "pending_of i db = filter (\<lambda>f. f_job f = i \<and> f_status f = E_PENDING) (effects db)"

definition effect_fingerprint :: "env \<Rightarrow> string \<Rightarrow> string \<Rightarrow> json \<Rightarrow> string" where
  "effect_fingerprint e type key payload = fingerprint (sha256 e) (JObj
     [(''effect_type'', JStr type), (''effect_key'', JStr key), (''request_payload'', payload)])"

definition prepare_effect ::
  "env \<Rightarrow> grant \<Rightarrow> string \<Rightarrow> string \<Rightarrow> json \<Rightarrow> instant \<Rightarrow> uuid \<Rightarrow> 'a job_db_scheme \<Rightarrow>
   job_error + prepared_effect \<times> 'a job_db_scheme" where
  "prepare_effect e g effect_key effect_type request now fid db =
     bindE (required_identifier max_job_identifier_length effect_key) (\<lambda>key.
     bindE (required_identifier max_job_identifier_length effect_type) (\<lambda>type.
     bindE (safe_payload e request) (\<lambda>payload.
     (let fp = effect_fingerprint e type key payload in
      bindE (current_lease g now db) (\<lambda>(j, l).
      (let provider = uuid_str (j_id j) @ '':'' @ key;
           pending = first_by (\<lambda>f. (f_started_at f, f_id f)) (pending_of (j_id j) db) in
       if (case pending of None \<Rightarrow> False | Some f \<Rightarrow> f_key f \<noteq> provider)
       then Inl AmbiguousBackgroundJobEffect
       else (case (case pending of Some f \<Rightarrow> Some f
                   | None \<Rightarrow> find (\<lambda>f. f_key f = provider) (effects db)) of
               Some f \<Rightarrow>
                 if f_job f \<noteq> j_id j \<or> f_type f \<noteq> type \<or> f_fingerprint f \<noteq> fp \<or>
                    \<not> py_eq (f_request f) payload
                 then Inl BackgroundJobConflict
                 else Inr (mk_prepared f False (f_status f = E_PENDING), db)
             | None \<Rightarrow>
                 (let f = \<lparr>f_id = fid, f_job = j_id j, f_type = type, f_key = provider,
                    f_fingerprint = fp, f_request = payload, f_status = E_PENDING,
                    f_started_lease = l_id l, f_started_token = l_token l, f_done_lease = None,
                    f_done_token = None, f_result = None, f_started_at = now,
                    f_done_at = None\<rparr> in
                  bindE (insert_effect f db) (\<lambda>db1. Inr (mk_prepared f True False, db1))))))))))"

definition save_effect :: "effect_row \<Rightarrow> 'a job_db_scheme \<Rightarrow> 'a job_db_scheme" where
  "save_effect f db = db\<lparr>effects := upd_rows (\<lambda>x. f_id x = f_id f) (\<lambda>_. f) (effects db)\<rparr>"

record effect_result =
  er_succeeded :: bool
  er_payload :: json

text \<open>A pending effect takes the observation; a settled one must agree with it.\<close>

definition settle_effect ::
  "effect_row \<Rightarrow> effect_status \<Rightarrow> json \<Rightarrow> lease_row \<Rightarrow> instant \<Rightarrow> 'a job_db_scheme \<Rightarrow>
   job_error + 'a job_db_scheme" where
  "settle_effect f target r l now db =
     (if f_status f \<noteq> E_PENDING then
        (if f_status f \<noteq> target \<or> (case f_result f of None \<Rightarrow> True | Some q \<Rightarrow> \<not> py_eq q r)
         then Inl BackgroundJobConflict else Inr db)
      else Inr (save_effect (f\<lparr>f_status := target, f_done_lease := Some (l_id l),
             f_done_token := Some (l_token l), f_result := Some r, f_done_at := Some now\<rparr>) db))"

definition record_effect_result ::
  "env \<Rightarrow> string \<Rightarrow> grant \<Rightarrow> uuid \<Rightarrow> effect_result \<Rightarrow> int \<Rightarrow> string \<Rightarrow> json \<Rightarrow> instant \<Rightarrow> uuid \<Rightarrow>
   'a job_db_scheme \<Rightarrow> job_error + checkpoint_result \<times> 'a job_db_scheme" where
  "record_effect_result e p g effect_id result expected key payload now cid db =
     bindE (required_identifier max_idempotency_key_length key) (\<lambda>k.
     bindE (safe_payload e (er_payload result)) (\<lambda>r.
     bindE (safe_payload e payload) (\<lambda>v.
     bindE (current_lease g now db) (\<lambda>(j, l).
       case find (\<lambda>f. f_id f = effect_id \<and> f_job f = j_id j) (effects db) of
         None \<Rightarrow> Inl BackgroundJobNotFound
       | Some f \<Rightarrow>
           bindE (settle_effect f (if er_succeeded result then E_SUCCEEDED else E_FAILED) r l now db)
             (\<lambda>db1. append_checkpoint p j l expected k v (fingerprint (sha256 e) v) now cid db1)))))"

definition pending_effects ::
  "grant \<Rightarrow> instant \<Rightarrow> 'a job_db_scheme \<Rightarrow> job_error + prepared_effect list" where
  "pending_effects g now db =
     bindE (current_lease g now db) (\<lambda>(j, l).
       Inr (map (\<lambda>f. mk_prepared f False True)
              (sort_key (\<lambda>f. (f_started_at f, f_id f)) (pending_of (j_id j) db))))"

subsection \<open>Ending an attempt\<close>

text \<open>The optional last checkpoint: the job and lease rows as they are after it.\<close>

definition final_rows ::
  "env \<Rightarrow> string \<Rightarrow> job_row \<Rightarrow> lease_row \<Rightarrow> int \<Rightarrow> (string \<times> json) option \<Rightarrow> instant \<Rightarrow> uuid \<Rightarrow>
   'a job_db_scheme \<Rightarrow> job_error + job_row \<times> lease_row \<times> 'a job_db_scheme" where
  "final_rows e p j l expected final now cid db = (case final of
     None \<Rightarrow> if j_checkpoint_version j \<noteq> expected then Inl BackgroundJobConflict else Inr (j, l, db)
   | Some (key, payload) \<Rightarrow>
       bindE (required_identifier max_idempotency_key_length key) (\<lambda>k.
       bindE (safe_payload e payload) (\<lambda>v.
       bindE (append_checkpoint p j l expected k v (fingerprint (sha256 e) v) now cid db) (\<lambda>(r, db1).
         if cr_replayed r then Inr (j, l, db1)
         else Inr (checkpointed_job p v (expected + 1) (l_token l) j,
                   checkpointed_lease p v (expected + 1) l, db1)))))"

definition complete ::
  "env \<Rightarrow> string \<Rightarrow> grant \<Rightarrow> int \<Rightarrow> string option \<Rightarrow> json option \<Rightarrow> instant \<Rightarrow> uuid \<Rightarrow>
   'a job_db_scheme \<Rightarrow> job_error + unit \<times> 'a job_db_scheme" where
  "complete e p g expected final_key final_payload now cid db =
     (if (final_key = None) \<noteq> (final_payload = None) then Inl InvalidBackgroundJob
      else bindE (current_lease g now db) (\<lambda>(j, l).
        bindE (require_no_pending_effects (j_id j) db) (\<lambda>_.
        bindE (final_rows e p j l expected
                 (case (final_key, final_payload) of (Some k, Some v) \<Rightarrow> Some (k, v) | _ \<Rightarrow> None)
                 now cid db) (\<lambda>(j1, l1, db1).
        Inr ((), save_job (finish_job J_SUCCEEDED None (gr_token g) now p j1)
                  (save_lease (release_lease p now ''SUCCEEDED'' l1) db1))))))"

record disposition =
  di_status :: job_status
  di_next :: "instant option"
  di_exhausted :: bool
  di_delay :: "int option"

definition failed_lease :: "string \<Rightarrow> string \<Rightarrow> instant option \<Rightarrow> instant \<Rightarrow> lease_row \<Rightarrow> lease_row" where
  "failed_lease p code retry_at now l =
     (release_lease p now (if retry_at = None then ''FAILED'' else ''RETRY'') l)\<lparr>
        l_retry_at := retry_at, l_failure := Some code\<rparr>"

definition failed_job ::
  "string \<Rightarrow> string \<Rightarrow> int \<Rightarrow> instant option \<Rightarrow> instant \<Rightarrow> job_row \<Rightarrow> job_row" where
  "failed_job p code token retry_at now j =
     (case retry_at of
        Some t \<Rightarrow> j\<lparr>j_status := J_QUEUED, j_available_at := t, j_completed_at := None\<rparr>
      | None \<Rightarrow> j\<lparr>j_status := J_FAILED, j_completed_at := Some now\<rparr>)\<lparr>
        j_lease := None, j_token := None, j_lease_owner := None, j_lease_expires := None,
        j_last_token := Some token, j_last_error := Some code, j_actor := p\<rparr>"

definition release_failed_attempt ::
  "env \<Rightarrow> string \<Rightarrow> grant \<Rightarrow> string \<Rightarrow> bool \<Rightarrow> instant \<Rightarrow> job_row \<Rightarrow> lease_row \<Rightarrow>
   'a job_db_scheme \<Rightarrow> job_error + disposition \<times> 'a job_db_scheme" where
  "release_failed_attempt e p g code retryable now j l db =
     bindE (mk_retry_policy (j_max_attempts j) (j_retry_base j) (j_retry_max j)) (\<lambda>policy.
     (let can_retry = (retryable \<and> j_attempts j < j_max_attempts j) in
      bindE (if can_retry
             then bindE (deterministic_retry_delay e (j_id j) (j_attempts j) policy) (\<lambda>d. Inr (Some d))
             else Inr None) (\<lambda>delay.
      (let retry_at = map_option (\<lambda>d. now + d) delay in
       Inr (\<lparr>di_status = (if can_retry then J_QUEUED else J_FAILED), di_next = retry_at,
             di_exhausted = (retryable \<and> \<not> can_retry), di_delay = delay\<rparr>,
            save_job (failed_job p code (gr_token g) retry_at now j)
              (save_lease (failed_lease p code retry_at now l) db))))))"

definition fail_attempt ::
  "env \<Rightarrow> string \<Rightarrow> grant \<Rightarrow> string \<Rightarrow> bool \<Rightarrow> instant \<Rightarrow> 'a job_db_scheme \<Rightarrow>
   job_error + disposition \<times> 'a job_db_scheme" where
  "fail_attempt e p g error_code retryable now db =
     bindE (required_error_code error_code) (\<lambda>code.
     bindE (current_lease g now db) (\<lambda>(j, l).
     release_failed_attempt e p g code retryable now j l db))"

definition paused_job :: "string \<Rightarrow> string \<Rightarrow> int \<Rightarrow> instant \<Rightarrow> job_row \<Rightarrow> job_row" where
  "paused_job p code token now j = j\<lparr>j_status := J_QUEUED, j_attempts := max 0 (j_attempts j - 1),
     j_available_at := now, j_lease := None, j_token := None, j_lease_owner := None,
     j_lease_expires := None, j_last_token := Some token, j_last_error := Some code, j_actor := p\<rparr>"

definition pause_attempt ::
  "string \<Rightarrow> grant \<Rightarrow> string \<Rightarrow> instant \<Rightarrow> 'a job_db_scheme \<Rightarrow> job_error + unit \<times> 'a job_db_scheme" where
  "pause_attempt p g error_code now db =
     bindE (required_error_code error_code) (\<lambda>code.
     bindE (current_lease g now db) (\<lambda>(j, l).
     Inr ((), save_job (paused_job p code (gr_token g) now j)
               (save_lease (release_lease p now ''RETRY'' l) db))))"

subsection \<open>Recovery of expired leases\<close>

definition expired_jobs :: "instant \<Rightarrow> 'a job_db_scheme \<Rightarrow> job_row list" where
  "expired_jobs now db = sort_key (\<lambda>j. (the (j_lease_expires j), j_created_at j, j_id j))
     (filter (\<lambda>j. j_status j = J_RUNNING \<and> lease_expired now j) (jobs db))"

definition recover_job ::
  "string \<Rightarrow> instant \<Rightarrow> job_row \<Rightarrow> 'a job_db_scheme \<Rightarrow> job_error + 'a job_db_scheme" where
  "recover_job p now j db =
     (case find (leased_by j) (leases db) of
        None \<Rightarrow> Inl BackgroundJobConflict
      | Some l \<Rightarrow>
          if l_released l \<noteq> None then Inl BackgroundJobConflict
          else (let cancelled = (j_cancel_requested j \<noteq> None);
                    exhausted = (j_max_attempts j \<le> j_attempts j);
                    code = (if cancelled then ''CANCELLATION_REQUESTED''
                            else if exhausted then ''LEASE_EXPIRED_ATTEMPTS_EXHAUSTED''
                            else ''LEASE_EXPIRED'');
                    l' = (release_lease p now (if cancelled then ''CANCELLED'' else ''EXPIRED'') l)\<lparr>
                           l_failure := Some code,
                           l_cancel_ack := (if cancelled then Some now else None)\<rparr>;
                    j' = (if cancelled
                          then finish_job J_CANCELLED (Some code) (l_token l) now p j
                          else if exhausted
                          then finish_job J_FAILED (Some code) (l_token l) now p j
                          else (finish_job J_QUEUED (Some code) (l_token l) now p
                                 (j\<lparr>j_available_at := now\<rparr>))\<lparr>j_completed_at := None\<rparr>) in
                Inr (save_job j' (save_lease l' db))))"

fun recover_jobs ::
  "string \<Rightarrow> instant \<Rightarrow> job_row list \<Rightarrow> 'a job_db_scheme \<Rightarrow> job_error + 'a job_db_scheme" where
  "recover_jobs p now [] db = Inr db"
| "recover_jobs p now (j # js) db = bindE (recover_job p now j db) (recover_jobs p now js)"

definition reconcile_expired_leases ::
  "string \<Rightarrow> int \<Rightarrow> instant \<Rightarrow> 'a job_db_scheme \<Rightarrow> job_error + uuid list \<times> 'a job_db_scheme" where
  "reconcile_expired_leases p limit now db =
     (if \<not> (1 \<le> limit \<and> limit \<le> max_recovery_batch_size) then Inl InvalidBackgroundJob
      else (let js = take (nat limit) (expired_jobs now db) in
            bindE (recover_jobs p now js db) (\<lambda>db'. Inr (map j_id js, db'))))"

subsection \<open>What a lease may own\<close>

definition insert_tool_grant ::
  "tool_grant_row \<Rightarrow> 'a job_db_scheme \<Rightarrow> job_error + 'a job_db_scheme" where
  "insert_tool_grant r db =
     (if \<not> 0 < g_token r \<or>
         list_ex (\<lambda>x. g_id x = g_id r \<or> (g_job x = g_job r \<and> g_key x = g_key r)) (tool_grants db)
      then Inl JobIntegrityError else Inr (db\<lparr>tool_grants := tool_grants db @ [r]\<rparr>))"

definition issue_tool_grant ::
  "env \<Rightarrow> grant \<Rightarrow> string \<Rightarrow> json \<Rightarrow> instant \<Rightarrow> uuid \<Rightarrow> 'a job_db_scheme \<Rightarrow>
   job_error + (uuid \<times> bool) \<times> 'a job_db_scheme" where
  "issue_tool_grant e g grant_key scope now gid db =
     bindE (required_identifier max_idempotency_key_length grant_key) (\<lambda>key.
     bindE (safe_payload e scope) (\<lambda>v.
     bindE (current_lease g now db) (\<lambda>(j, l).
       case find (\<lambda>x. g_job x = j_id j \<and> g_key x = key) (tool_grants db) of
         Some x \<Rightarrow>
           if g_lease x \<noteq> l_id l \<or> g_token x \<noteq> l_token l \<or> \<not> py_eq (g_scope x) v
           then Inl BackgroundJobConflict else Inr ((g_id x, True), db)
       | None \<Rightarrow>
           bindE (insert_tool_grant \<lparr>g_id = gid, g_job = j_id j, g_lease = l_id l,
             g_token = l_token l, g_key = key, g_scope = v, g_issued_at = now,
             g_revoked_at = None, g_revoke_reason = None\<rparr> db) (\<lambda>db1. Inr ((gid, False), db1)))))"

definition insert_process ::
  "process_row \<Rightarrow> 'a job_db_scheme \<Rightarrow> job_error + 'a job_db_scheme" where
  "insert_process r db =
     (if \<not> (1 < h_pid r \<and> 1 < h_group r \<and> 0 < h_token r) \<or>
         list_ex (\<lambda>x. h_id x = h_id r \<or> h_nonce x = h_nonce r \<or>
           (h_host x = h_host r \<and> h_pid x = h_pid r \<and> h_birth x = h_birth r)) (processes db)
      then Inl JobIntegrityError else Inr (db\<lparr>processes := processes db @ [r]\<rparr>))"

definition insert_target :: "target_row \<Rightarrow> 'a job_db_scheme \<Rightarrow> job_error + 'a job_db_scheme" where
  "insert_target r db =
     (if \<not> (digest_ok (g_target_fingerprint r) \<and> 0 \<le> g_target_version r) \<or>
         list_ex (\<lambda>x. g_target_id x = g_target_id r \<or>
           (g_target_kind x = g_target_kind r \<and> g_target_key x = g_target_key r)) (targets db)
      then Inl JobIntegrityError else Inr (db\<lparr>targets := targets db @ [r]\<rparr>))"

record process_identity =
  pi_host :: string
  pi_pid :: int
  pi_group :: int
  pi_birth :: string
  pi_nonce :: uuid

definition process_payload :: "process_row \<Rightarrow> json" where
  "process_payload r = JObj
     [(''birth_token'', JStr (h_birth r)), (''host_id'', JStr (h_host r)),
      (''job_id'', JStr (uuid_str (h_job r))),
      (''ownership_nonce'', JStr (uuid_str (h_nonce r))), (''pid'', JInt (h_pid r)),
      (''process_group_id'', JInt (h_group r))]"

definition register_owned_process ::
  "env \<Rightarrow> grant \<Rightarrow> process_identity \<Rightarrow> instant \<Rightarrow> uuid \<Rightarrow> uuid \<Rightarrow> 'a job_db_scheme \<Rightarrow>
   job_error + (uuid \<times> uuid \<times> bool) \<times> 'a job_db_scheme" where
  "register_owned_process e g ident now hid gid db =
     bindE (required_identifier 255 (pi_host ident)) (\<lambda>host.
     bindE (required_identifier 255 (pi_birth ident)) (\<lambda>birth.
     if pi_pid ident \<le> 1 \<or> pi_group ident \<le> 1 then Inl InvalidBackgroundJob
     else bindE (current_lease g now db) (\<lambda>(j, l).
       case find (\<lambda>x. h_nonce x = pi_nonce ident) (processes db) of
         Some x \<Rightarrow>
           if h_job x \<noteq> j_id j \<or> h_lease x \<noteq> l_id l \<or> h_token x \<noteq> l_token l \<or>
              h_host x \<noteq> host \<or> h_pid x \<noteq> pi_pid ident \<or> h_group x \<noteq> pi_group ident \<or>
              h_birth x \<noteq> birth
           then Inl BackgroundJobConflict else Inr ((h_id x, h_nonce x, True), db)
       | None \<Rightarrow>
           (let r = \<lparr>h_id = hid, h_job = j_id j, h_lease = l_id l, h_token = l_token l,
                h_host = host, h_pid = pi_pid ident, h_group = pi_group ident, h_birth = birth,
                h_nonce = pi_nonce ident, h_status = P_RUNNING, h_started_at = now,
                h_requested_at = None, h_terminated_at = None\<rparr> in
            bindE (insert_process r db) (\<lambda>db1.
            bindE (insert_target \<lparr>g_target_id = gid, g_target_task = j_task j,
                g_target_job = Some (j_id j), g_target_kind = R_HOST_PROCESS,
                g_target_key = ''process:'' @ uuid_str hid,
                g_target_expected = process_payload r,
                g_target_fingerprint = fingerprint (sha256 e) (process_payload r),
                g_target_status = RS_PENDING, g_target_version = 0\<rparr> db1) (\<lambda>db2.
            Inr ((hid, pi_nonce ident, False), db2)))))))"

definition register_reconciliation_target ::
  "env \<Rightarrow> grant \<Rightarrow> target_kind \<Rightarrow> string \<Rightarrow> json \<Rightarrow> instant \<Rightarrow> uuid \<Rightarrow> 'a job_db_scheme \<Rightarrow>
   job_error + (uuid \<times> bool) \<times> 'a job_db_scheme" where
  "register_reconciliation_target e g kind target_key expected now gid db =
     bindE (required_identifier max_idempotency_key_length target_key) (\<lambda>key.
     bindE (safe_payload e expected) (\<lambda>v.
     (let fp = fingerprint (sha256 e) v in
      bindE (current_lease g now db) (\<lambda>(j, l).
        case find (\<lambda>x. g_target_kind x = kind \<and> g_target_key x = key) (targets db) of
          Some x \<Rightarrow>
            if g_target_task x \<noteq> j_task j \<or> g_target_job x \<noteq> Some (j_id j) \<or>
               g_target_fingerprint x \<noteq> fp \<or> \<not> py_eq (g_target_expected x) v
            then Inl BackgroundJobConflict else Inr ((g_target_id x, True), db)
        | None \<Rightarrow>
            bindE (insert_target \<lparr>g_target_id = gid, g_target_task = j_task j,
                g_target_job = Some (j_id j), g_target_kind = kind, g_target_key = key,
                g_target_expected = v, g_target_fingerprint = fp,
                g_target_status = RS_PENDING, g_target_version = 0\<rparr> db) (\<lambda>db1.
            Inr ((gid, False), db1))))))"

subsection \<open>Task transitions under a lease\<close>

record job_transition_command =
  jt_id :: uuid
  jt_expected :: task_state
  jt_kind :: transition_kind
  jt_reason :: string
  jt_evidence :: "uuid list"
  jt_candidate :: "candidate option"
  jt_lineage :: string

definition lift_transition :: "transition_error + 'r \<Rightarrow> job_error + 'r" where
  "lift_transition r = (case r of Inl err \<Rightarrow> Inl (JobTransitionError err) | Inr x \<Rightarrow> Inr x)"

definition job_transition_task ::
  "env \<Rightarrow> string \<Rightarrow> 'a job_db_scheme gate_evaluator \<Rightarrow> grant \<Rightarrow> job_transition_command \<Rightarrow>
   instant \<Rightarrow> uuid \<Rightarrow> 'a job_db_scheme \<Rightarrow> job_error + transition_result \<times> 'a job_db_scheme" where
  "job_transition_task e p gate g c now eid db =
     (if jt_kind c \<in> {K_BEGIN_VALIDATION, K_REVALIDATE} \<and> jt_candidate c = None
      then Inl InvalidBackgroundJob
      else if jt_kind c \<notin> {K_BEGIN_VALIDATION, K_REVALIDATE} \<and> jt_candidate c \<noteq> None
      then Inl InvalidBackgroundJob
      else (case find (\<lambda>t. t_id t = gr_task g) (tasks db) of
        None \<Rightarrow> Inl BackgroundJobNotFound
      | Some t \<Rightarrow> bindE (current_lease g now db) (\<lambda>(j, l).
          if j_task j = None \<or> j_task j \<noteq> Some (gr_task g) then Inl BackgroundJobConflict
          else bindE (require_no_pending_effects (j_id j) db) (\<lambda>_.
          bindE (lift_transition (transition_task e gate (jt_lineage c)
              \<lparr>tc_task = gr_task g, tc_id = jt_id c, tc_expected = jt_expected c,
               tc_kind = jt_kind c, tc_reason = jt_reason c, tc_actor = p,
               tc_evidence = jt_evidence c, tc_candidate = jt_candidate c\<rparr> now eid db)) (\<lambda>(r, db1).
          if tr_replayed r then
            (case find (\<lambda>x. x_event x = tr_event r) (job_transitions db1) of
               None \<Rightarrow> Inl BackgroundJobConflict
             | Some x \<Rightarrow> if x_job x \<noteq> j_id j \<or> x_task x \<noteq> gr_task g
                         then Inl BackgroundJobConflict else Inr (r, db1))
          else if list_ex (\<lambda>x. x_event x = tr_event r) (job_transitions db1)
          then Inl JobIntegrityError
          else Inr (r, db1\<lparr>job_transitions := job_transitions db1 @ [\<lparr>x_job = j_id j,
                 x_lease = l_id l, x_token = l_token l, x_task = gr_task g,
                 x_event = tr_event r, x_recorded_at = now\<rparr>]\<rparr>))))))"

end
