(* ===== verification/Job_Lease_Properties.thy ===== *)
theory Job_Lease_Properties
  imports Background_Jobs Task_Transition_Properties
begin

text \<open>
  The invariant of the job queue and its preservation by every operation.  \<open>job_inv\<close> ties the
  job rows to the lease rows: a job is RUNNING exactly when it projects one live lease, fencing
  tokens are issued in increasing order below the counter, and the last token of a job is the
  largest of its leases.  Two update lemmas carry all operations: a change of a job together
  with the lease it projects, and the grant of a new lease.
\<close>

subsection \<open>The invariant\<close>

definition next_token :: "'a job_db_scheme \<Rightarrow> int" where
  "next_token db = (case fencing_counter db of None \<Rightarrow> 1 | Some n \<Rightarrow> n)"

definition held :: "lease_row list \<Rightarrow> job_row \<Rightarrow> bool" where
  "held ls j \<longleftrightarrow> (\<exists>l \<in> set ls. leased_by j l \<and> l_released l = None \<and>
     j_lease_owner j = Some (l_owner l) \<and> j_lease_expires j = Some (l_expires l))"

definition job_shape :: "lease_row list \<Rightarrow> job_row \<Rightarrow> bool" where
  "job_shape ls j \<longleftrightarrow> job_row_ok j \<and> j_retry_max j \<le> max_retry_seconds \<and> j_task j \<noteq> None \<and>
     (if j_status j = J_RUNNING
      then held ls j \<and> 1 \<le> j_attempts j \<and> j_completed_at j = None \<and> j_last_token j = j_token j
      else j_lease j = None \<and> (j_completed_at j = None \<longleftrightarrow> j_status j = J_QUEUED))"

definition job_tokens :: "lease_row list \<Rightarrow> uuid \<Rightarrow> int set" where
  "job_tokens ls i = {l_token l |l. l \<in> set ls \<and> l_job l = i}"

definition tokens_below :: "lease_row list \<Rightarrow> job_row \<Rightarrow> bool" where
  "tokens_below ls j \<longleftrightarrow>
     (\<forall>t \<in> job_tokens ls (j_id j). \<exists>u. j_last_token j = Some u \<and> t \<le> u) \<and>
     (\<forall>t. j_last_token j = Some t \<longrightarrow> t \<in> job_tokens ls (j_id j))"

definition lease_shape :: "job_row list \<Rightarrow> int \<Rightarrow> lease_row \<Rightarrow> bool" where
  "lease_shape js n l \<longleftrightarrow> lease_row_ok l \<and> l_token l < n \<and>
     (\<exists>j \<in> set js. j_id j = l_job l) \<and>
     (l_released l = None \<longrightarrow> (\<exists>j \<in> set js. leased_by j l \<and> j_status j = J_RUNNING))"

definition job_inv :: "'a job_db_scheme \<Rightarrow> bool" where
  "job_inv db \<longleftrightarrow> distinct (map j_id (jobs db)) \<and> distinct (map j_key (jobs db)) \<and>
     distinct (map l_id (leases db)) \<and> sorted_wrt (<) (map l_token (leases db)) \<and>
     1 \<le> next_token db \<and>
     (\<forall>j \<in> set (jobs db). job_shape (leases db) j \<and> tokens_below (leases db) j) \<and>
     (\<forall>l \<in> set (leases db). lease_shape (jobs db) (next_token db) l)"

lemma job_invD:
  assumes "job_inv db"
  shows "distinct (map j_id (jobs db))" "distinct (map l_id (leases db))"
    "sorted_wrt (<) (map l_token (leases db))" "1 \<le> next_token db"
    "j \<in> set (jobs db) \<Longrightarrow> job_shape (leases db) j"
    "j \<in> set (jobs db) \<Longrightarrow> tokens_below (leases db) j"
    "l \<in> set (leases db) \<Longrightarrow> lease_shape (jobs db) (next_token db) l"
  using assms by (auto simp: job_inv_def)

text \<open>The invariant only reads the jobs, the leases and the counter.\<close>

lemma job_inv_frame:
  "job_inv db \<Longrightarrow> jobs db' = jobs db \<Longrightarrow> leases db' = leases db \<Longrightarrow>
   next_token db' = next_token db \<Longrightarrow> job_inv db'"
  by (simp add: job_inv_def)

lemma sorted_wrt_less_distinct: "sorted_wrt (<) (xs :: int list) \<Longrightarrow> distinct xs"
  by (induction xs) auto

lemma token_unique:
  "job_inv db \<Longrightarrow> l \<in> set (leases db) \<Longrightarrow> m \<in> set (leases db) \<Longrightarrow> l_token l = l_token m \<Longrightarrow> l = m"
  using distinct_key_unique [of l_token "leases db" l m] sorted_wrt_less_distinct job_invD(3) by metis

lemma lease_id_unique:
  "job_inv db \<Longrightarrow> l \<in> set (leases db) \<Longrightarrow> m \<in> set (leases db) \<Longrightarrow> l_id l = l_id m \<Longrightarrow> l = m"
  using distinct_key_unique [of l_id "leases db" l m] job_invD(2) by metis

lemma job_id_unique:
  "job_inv db \<Longrightarrow> j \<in> set (jobs db) \<Longrightarrow> k \<in> set (jobs db) \<Longrightarrow> j_id j = j_id k \<Longrightarrow> j = k"
  using distinct_key_unique [of j_id "jobs db" j k] job_invD(1) by metis

subsection \<open>Changing a job with its lease\<close>

text \<open>The identity columns that no operation touches.\<close>

definition same_job :: "job_row \<Rightarrow> job_row \<Rightarrow> bool" where
  "same_job j j' \<longleftrightarrow> j_id j' = j_id j \<and> j_task j' = j_task j \<and> j_type j' = j_type j \<and>
     j_key j' = j_key j \<and> j_input j' = j_input j \<and> j_input_fingerprint j' = j_input_fingerprint j \<and>
     j_max_attempts j' = j_max_attempts j \<and> j_retry_base j' = j_retry_base j \<and>
     j_retry_max j' = j_retry_max j \<and> j_owner j' = j_owner j \<and> j_root j' = j_root j \<and>
     j_created_at j' = j_created_at j"

definition same_lease :: "lease_row \<Rightarrow> lease_row \<Rightarrow> bool" where
  "same_lease l l' \<longleftrightarrow> l_id l' = l_id l \<and> l_job l' = l_job l \<and> l_owner l' = l_owner l \<and>
     l_attempt l' = l_attempt l \<and> l_token l' = l_token l \<and> l_key l' = l_key l \<and>
     l_claim_fingerprint l' = l_claim_fingerprint l"

definition row_leases :: "lease_row \<Rightarrow> lease_row list \<Rightarrow> lease_row list" where
  "row_leases l ls = upd_rows (\<lambda>x. l_id x = l_id l) (\<lambda>_. l) ls"

definition row_jobs :: "job_row \<Rightarrow> job_row list \<Rightarrow> job_row list" where
  "row_jobs j js = upd_rows (\<lambda>x. j_id x = j_id j) (\<lambda>_. j) js"

lemma map_row_leases [simp]: "g l = g l0 \<Longrightarrow> l_id l = l_id l0 \<Longrightarrow> distinct (map l_id ls) \<Longrightarrow> l0 \<in> set ls \<Longrightarrow>
    map g (row_leases l ls) = map g ls"
  by (auto simp: row_leases_def upd_rows_def) (metis distinct_key_unique)

lemma map_row_jobs: "g j = g j0 \<Longrightarrow> j_id j = j_id j0 \<Longrightarrow> distinct (map j_id js) \<Longrightarrow> j0 \<in> set js \<Longrightarrow>
    map g (row_jobs j js) = map g js"
  by (auto simp: row_jobs_def upd_rows_def) (metis distinct_key_unique)

lemma set_row_jobs:
  "distinct (map j_id js) \<Longrightarrow> j0 \<in> set js \<Longrightarrow> j_id j = j_id j0 \<Longrightarrow>
   set (row_jobs j js) = insert j (set js - {j0})"
  by (auto simp: row_jobs_def set_upd_rows image_iff) (metis distinct_key_unique)+

lemma set_row_leases:
  "distinct (map l_id ls) \<Longrightarrow> l0 \<in> set ls \<Longrightarrow> l_id l = l_id l0 \<Longrightarrow>
   set (row_leases l ls) = insert l (set ls - {l0})"
  by (auto simp: row_leases_def set_upd_rows image_iff) (metis distinct_key_unique)+

lemma pair_update_inv:
  assumes inv: "job_inv db"
    and j: "j \<in> set (jobs db)" "j_status j = J_RUNNING" and l: "l \<in> set (leases db)" "leased_by j l"
    and sj: "same_job j j'" and sl: "same_lease l l'"
    and rows: "job_row_ok j'" "lease_row_ok l'" "j_last_token j' = Some (l_token l)"
    and kind: "if j_status j' = J_RUNNING
      then leased_by j' l' \<and> l_released l' = None \<and> j_lease_owner j' = Some (l_owner l') \<and>
        j_lease_expires j' = Some (l_expires l') \<and> 1 \<le> j_attempts j' \<and> j_completed_at j' = None
      else l_released l' \<noteq> None \<and> j_lease j' = None \<and> (j_completed_at j' = None \<longleftrightarrow> j_status j' = J_QUEUED)"
    and db': "jobs db' = row_jobs j' (jobs db)" "leases db' = row_leases l' (leases db)"
      "next_token db' = next_token db"
  shows "job_inv db'"
proof -
  have id: "j_id j' = j_id j" "l_id l' = l_id l" "l_token l' = l_token l" "l_job l' = l_job l"
    "j_key j' = j_key j"
    using sj sl by (auto simp: same_job_def same_lease_def)
  note dj = job_invD(1) [OF inv] and dl = job_invD(2) [OF inv]
  have js: "set (jobs db') = insert j' (set (jobs db) - {j})"
    by (simp add: db' set_row_jobs [OF dj j(1) id(1)])
  have ls: "set (leases db') = insert l' (set (leases db) - {l})"
    by (simp add: db' set_row_leases [OF dl l(1) id(2)])
  note next' = db'(3)
  have lj: "l_job l = j_id j" using l(2) by (simp add: leased_by_def)
  have tok: "leased_by j' l' \<Longrightarrow> j_token j' = Some (l_token l)" using id by (simp add: leased_by_def)
  have shape: "job_shape (leases db) j" and below: "tokens_below (leases db) j"
    using job_invD(5,6) [OF inv j(1)] by auto
  have J: "job_shape (leases db') k \<and> tokens_below (leases db') k" if k: "k \<in> set (jobs db')" for k
  proof (cases "k = j'")
    case True
    have "job_tokens (leases db') (j_id j) = job_tokens (leases db) (j_id j)"
      using l(1) id by (auto simp: job_tokens_def ls) metis+
    moreover have "j_last_token j = j_token j" "j_token j = Some (l_token l)"
      using shape j(2) l(2) by (auto simp: job_shape_def leased_by_def)
    ultimately have "tokens_below (leases db') j'"
      using below rows(3) id by (simp add: tokens_below_def)
    moreover have "job_shape (leases db') j'"
      using shape sj rows kind tok by (auto simp: job_shape_def ls held_def same_job_def)
    ultimately show ?thesis using True by simp
  next
    case False
    then have k: "k \<in> set (jobs db)" "k \<noteq> j" using k js by auto
    then have kid: "j_id k \<noteq> j_id j" using job_id_unique [OF inv k(1) j(1)] by blast
    have "job_tokens (leases db') (j_id k) = job_tokens (leases db) (j_id k)"
      using kid lj id by (auto simp: job_tokens_def ls)
    then have "tokens_below (leases db') k" using job_invD(6) [OF inv k(1)]
      by (simp add: tokens_below_def)
    moreover have "held (leases db') k" if h: "held (leases db) k"
    proof -
      obtain m where m: "m \<in> set (leases db)" "leased_by k m" "l_released m = None"
        "j_lease_owner k = Some (l_owner m)" "j_lease_expires k = Some (l_expires m)"
        using h by (auto simp: held_def)
      then have "m \<noteq> l" using kid lj by (auto simp: leased_by_def)
      then show ?thesis using m by (auto simp: held_def ls)
    qed
    ultimately show ?thesis using job_invD(5) [OF inv k(1)] by (auto simp: job_shape_def)
  qed
  have L: "lease_shape (jobs db') (next_token db') m" if m: "m \<in> set (leases db')" for m
  proof (cases "m = l'")
    case True
    then show ?thesis using job_invD(7) [OF inv l(1)] rows(2) id lj kind
      by (auto simp: lease_shape_def next' js split: if_split_asm)
  next
    case False
    then have m: "m \<in> set (leases db)" "m \<noteq> l" using m ls by auto
    then have "l_id m \<noteq> l_id l" using lease_id_unique [OF inv m(1) l(1)] by blast
    then have "\<not> leased_by j m" using l(2) by (auto simp: leased_by_def)
    then show ?thesis using job_invD(7) [OF inv m(1)] id
      by (auto simp: lease_shape_def next' js)
  qed
  have "map l_id (leases db') = map l_id (leases db)" "map l_token (leases db') = map l_token (leases db)"
    using dl l(1) id by (simp_all add: db')
  moreover have "map j_id (jobs db') = map j_id (jobs db)" "map j_key (jobs db') = map j_key (jobs db)"
    using map_row_jobs [OF _ id(1) dj j(1)] id by (simp_all add: db')
  ultimately show ?thesis using inv J L by (simp add: job_inv_def next')
qed

subsection \<open>Granting a lease\<close>

lemma insert_lease_Inr:
  "insert_lease l db = Inr db' \<Longrightarrow> db' = db\<lparr>leases := leases db @ [l]\<rparr> \<and> lease_row_ok l \<and>
     l_id l \<notin> l_id ` set (leases db)"
  by (auto simp: insert_lease_def list_ex_iff split: if_split_asm)

text \<open>
  \<open>db1\<close> is the database before the grant, in which the lease the job may still project has been
  released: \<open>l0\<close> is that lease, if any.
\<close>

lemma grant_update_inv:
  assumes inv: "job_inv db" and j: "j \<in> set (jobs db)"
    and ls1: "ls1 = (case l0 of None \<Rightarrow> leases db | Some l \<Rightarrow> row_leases l (leases db))"
    and l0: "case l0 of None \<Rightarrow> j_status j \<noteq> J_RUNNING
      | Some l \<Rightarrow> \<exists>k \<in> set (leases db). leased_by j k \<and> same_lease k l \<and> lease_row_ok l \<and> l_released l \<noteq> None"
    and l: "lease_row_ok l" "l_token l = next_token db" "l_job l = j_id j" "l_released l = None"
      "l_id l \<notin> l_id ` set ls1"
    and j': "same_job j j'" "job_row_ok j'" "leased_by j' l" "j_status j' = J_RUNNING"
      "j_lease_owner j' = Some (l_owner l)" "j_lease_expires j' = Some (l_expires l)"
      "1 \<le> j_attempts j'" "j_completed_at j' = None" "j_last_token j' = Some (l_token l)"
    and db': "jobs db' = row_jobs j' (jobs db)" "leases db' = ls1 @ [l]"
      "next_token db' = next_token db + 1"
  shows "job_inv db'"
proof -
  have id: "j_id j' = j_id j" "j_key j' = j_key j" using j'(1) by (auto simp: same_job_def)
  note dj = job_invD(1) [OF inv] and dl = job_invD(2) [OF inv]
  have js: "set (jobs db') = insert j' (set (jobs db) - {j})"
    by (simp add: db' set_row_jobs [OF dj j id(1)])
  note n = db'(3)
  have old: "job_tokens ls1 i = job_tokens (leases db) i" for i
  proof (cases l0)
    case (Some r)
    then obtain k where k: "k \<in> set (leases db)" "same_lease k r" using l0 by auto
    then have "set ls1 = insert r (set (leases db) - {k})" "l_job r = l_job k" "l_token r = l_token k"
      using ls1 Some set_row_leases [OF dl k(1)] by (auto simp: same_lease_def)
    then show ?thesis using k(1) by (auto simp: job_tokens_def) metis+
  qed (simp add: ls1)
  have kept: "m \<in> set ls1" if "m \<in> set (leases db)" "\<not> leased_by j m" for m
    using that l0 ls1 set_row_leases [OF dl] by (fastforce split: option.splits simp: same_lease_def)
  have new: "lease_row_ok m \<and> l_token m < next_token db \<and> (\<exists>k \<in> set (jobs db). j_id k = l_job m) \<and>
      (l_released m = None \<longrightarrow> m \<in> set (leases db) \<and> \<not> leased_by j m)" if m: "m \<in> set ls1" for m
  proof (cases l0)
    case None
    then have mm: "m \<in> set (leases db)" using m ls1 by simp
    have "\<not> leased_by j m" using None l0 job_invD(5) [OF inv j] by (auto simp: job_shape_def leased_by_def)
    then show ?thesis using mm job_invD(7) [OF inv mm] by (auto simp: lease_shape_def)
  next
    case (Some r)
    then obtain k where k: "k \<in> set (leases db)" "leased_by j k" "same_lease k r" "lease_row_ok r" "l_released r \<noteq> None"
      using l0 by auto
    have "set ls1 = insert r (set (leases db) - {k})"
      using ls1 Some set_row_leases [OF dl k(1)] k(3) by (auto simp: same_lease_def)
    moreover have "\<not> leased_by j m" if "m \<in> set (leases db)" "m \<noteq> k" for m
      using that k(1,2) lease_id_unique [OF inv that(1) k(1)] by (auto simp: leased_by_def)
    ultimately show ?thesis using m k job_invD(7) [OF inv k(1)] job_invD(7) [OF inv, of m]
      by (auto simp: lease_shape_def same_lease_def)
  qed
  have J: "job_shape (leases db') k \<and> tokens_below (leases db') k" if k: "k \<in> set (jobs db')" for k
  proof (cases "k = j'")
    case True
    have "job_tokens (leases db') (j_id j) = insert (l_token l) (job_tokens ls1 (j_id j))"
      using l(3) by (auto simp: job_tokens_def db')
    moreover have "\<forall>t \<in> job_tokens ls1 (j_id j). t \<le> l_token l"
      using new l(2) by (auto simp: job_tokens_def less_imp_le)
    ultimately have "tokens_below (leases db') j'" using j'(9) id by (simp add: tokens_below_def)
    moreover have "held (leases db') j'" using j' l by (auto simp: held_def db')
    ultimately show ?thesis using True j' job_invD(5) [OF inv j] l(2)
      by (auto simp: job_shape_def same_job_def leased_by_def)
  next
    case False
    then have k: "k \<in> set (jobs db)" "k \<noteq> j" using k js by auto
    then have kid: "j_id k \<noteq> j_id j" using job_id_unique [OF inv k(1) j] by blast
    have "job_tokens (leases db') (j_id k) = job_tokens ls1 (j_id k)"
      using kid l(3) by (auto simp: job_tokens_def db')
    then have "tokens_below (leases db') k" using job_invD(6) [OF inv k(1)] old
      by (simp add: tokens_below_def)
    moreover have "held (leases db') k" if h: "held (leases db) k"
    proof -
      obtain m where "m \<in> set (leases db)" "leased_by k m" "l_released m = None"
        "j_lease_owner k = Some (l_owner m)" "j_lease_expires k = Some (l_expires m)"
        using h by (auto simp: held_def)
      moreover from this have "\<not> leased_by j m" using kid by (auto simp: leased_by_def)
      ultimately show ?thesis using kept by (auto simp: held_def db')
    qed
    ultimately show ?thesis using job_invD(5) [OF inv k(1)] by (auto simp: job_shape_def)
  qed
  have L: "lease_shape (jobs db') (next_token db') m" if m: "m \<in> set (leases db')" for m
  proof (cases "m = l")
    case True
    then show ?thesis using l j' id by (auto simp: lease_shape_def n js)
  next
    case False
    then have m: "m \<in> set ls1" using m by (simp add: db')
    have "\<exists>k \<in> set (jobs db'). leased_by k m \<and> j_status k = J_RUNNING" if r: "l_released m = None"
    proof -
      have mm: "m \<in> set (leases db)" "\<not> leased_by j m" using new [OF m] r by auto
      then obtain k where "k \<in> set (jobs db)" "leased_by k m" "j_status k = J_RUNNING"
        using job_invD(7) [OF inv mm(1)] r by (auto simp: lease_shape_def)
      then show ?thesis using js mm(2) by auto
    qed
    then show ?thesis using new [OF m] id js by (auto simp: lease_shape_def n)
  qed
  have "map l_id ls1 = map l_id (leases db)" "map l_token ls1 = map l_token (leases db)"
    using dl l0 by (auto simp: ls1 same_lease_def split: option.splits)
  moreover have "\<forall>x \<in> set (map l_token (leases db)). x < l_token l"
    using job_invD(7) [OF inv] l(2) by (auto simp: lease_shape_def)
  moreover have "l_id l \<notin> set (map l_id ls1)" using l(5) by simp
  ultimately have "distinct (map l_id (leases db'))" "sorted_wrt (<) (map l_token (leases db'))"
    using dl job_invD(3) [OF inv] by (auto simp: db' sorted_wrt_append)
  moreover have "map j_id (jobs db') = map j_id (jobs db)" "map j_key (jobs db') = map j_key (jobs db)"
    using map_row_jobs [OF _ id(1) dj j] id by (simp_all add: db')
  ultimately show ?thesis using inv J L n by (simp add: job_inv_def)
qed

subsection \<open>The moves of the queue\<close>

text \<open>
  The abstract queue: whatever an operation does, its effect on jobs, leases and counter is a
  sequence of these moves.  A \<open>work\<close> move changes a running job together with the live lease it
  projects; a \<open>grant\<close> move issues the next token, releasing the lease of a job that was running.
\<close>

definition lease_key :: "uuid \<Rightarrow> int \<Rightarrow> string" where
  "lease_key i attempt = uuid_str i @ '':lease:'' @ dec_int attempt"

inductive lease_move :: "'a job_db_scheme \<Rightarrow> 'a job_db_scheme \<Rightarrow> bool" where
  frame: "jobs db' = jobs db \<Longrightarrow> leases db' = leases db \<Longrightarrow> next_token db' = next_token db \<Longrightarrow>
    lease_move db db'"
| enqueue: "jobs db' = jobs db @ [j] \<Longrightarrow> leases db' = leases db \<Longrightarrow> next_token db' = next_token db \<Longrightarrow>
    j_id j \<notin> j_id ` set (jobs db) \<Longrightarrow> j_key j \<notin> j_key ` set (jobs db) \<Longrightarrow> job_row_ok j \<Longrightarrow>
    j_retry_max j \<le> max_retry_seconds \<Longrightarrow> j_task j \<noteq> None \<Longrightarrow> j_status j = J_QUEUED \<Longrightarrow>
    j_lease j = None \<Longrightarrow> j_completed_at j = None \<Longrightarrow> j_last_token j = None \<Longrightarrow> j_attempts j = 0 \<Longrightarrow>
    lease_move db db'"
| work: "j \<in> set (jobs db) \<Longrightarrow> j_status j = J_RUNNING \<Longrightarrow> l \<in> set (leases db) \<Longrightarrow> leased_by j l \<Longrightarrow>
    same_job j j' \<Longrightarrow> same_lease l l' \<Longrightarrow> job_row_ok j' \<Longrightarrow> lease_row_ok l' \<Longrightarrow>
    j_last_token j' = Some (l_token l) \<Longrightarrow>
    (if j_status j' = J_RUNNING
     then leased_by j' l' \<and> l_released l' = None \<and> j_lease_owner j' = Some (l_owner l') \<and>
       j_lease_expires j' = Some (l_expires l') \<and> 1 \<le> j_attempts j' \<and> j_completed_at j' = None
     else l_released l' \<noteq> None \<and> j_lease j' = None \<and> (j_completed_at j' = None \<longleftrightarrow> j_status j' = J_QUEUED)) \<Longrightarrow>
    jobs db' = row_jobs j' (jobs db) \<Longrightarrow> leases db' = row_leases l' (leases db) \<Longrightarrow>
    next_token db' = next_token db \<Longrightarrow> lease_move db db'"
| grant: "j \<in> set (jobs db) \<Longrightarrow>
    ls1 = (case l0 of None \<Rightarrow> leases db | Some l \<Rightarrow> row_leases l (leases db)) \<Longrightarrow>
    (case l0 of None \<Rightarrow> j_status j \<noteq> J_RUNNING
     | Some l \<Rightarrow> \<exists>k \<in> set (leases db). leased_by j k \<and> same_lease k l \<and> lease_row_ok l \<and> l_released l \<noteq> None) \<Longrightarrow>
    lease_row_ok l \<Longrightarrow> l_token l = next_token db \<Longrightarrow> l_job l = j_id j \<Longrightarrow> l_released l = None \<Longrightarrow>
    l_id l \<notin> l_id ` set ls1 \<Longrightarrow> same_job j j' \<Longrightarrow> job_row_ok j' \<Longrightarrow> leased_by j' l \<Longrightarrow>
    j_status j' = J_RUNNING \<Longrightarrow> j_lease_owner j' = Some (l_owner l) \<Longrightarrow>
    j_lease_expires j' = Some (l_expires l) \<Longrightarrow> 1 \<le> j_attempts j' \<Longrightarrow> j_completed_at j' = None \<Longrightarrow>
    j_last_token j' = Some (l_token l) \<Longrightarrow>
    l_attempt l = next_lease_attempt (j_id j) db \<Longrightarrow> l_key l = lease_key (j_id j) (l_attempt l) \<Longrightarrow>
    jobs db' = row_jobs j' (jobs db) \<Longrightarrow> leases db' = ls1 @ [l] \<Longrightarrow>
    next_token db' = next_token db + 1 \<Longrightarrow> lease_move db db'"

lemma enqueue_inv:
  assumes "job_inv db" "jobs db' = jobs db @ [j]" "leases db' = leases db" "next_token db' = next_token db"
    "j_id j \<notin> j_id ` set (jobs db)" "j_key j \<notin> j_key ` set (jobs db)" "job_row_ok j"
    "j_retry_max j \<le> max_retry_seconds" "j_task j \<noteq> None" "j_status j = J_QUEUED" "j_lease j = None"
    "j_completed_at j = None" "j_last_token j = None"
  shows "job_inv db'"
proof -
  have "l_job l \<noteq> j_id j" if l: "l \<in> set (leases db)" for l
  proof -
    obtain k where "k \<in> set (jobs db)" "j_id k = l_job l"
      using job_invD(7) [OF assms(1) l] by (auto simp: lease_shape_def)
    then show ?thesis using assms(5) by (metis imageI)
  qed
  then have "job_shape (leases db) j \<and> tokens_below (leases db) j"
    using assms by (auto simp: job_shape_def tokens_below_def job_tokens_def)
  moreover have "lease_shape (jobs db') n l" if "lease_shape (jobs db) n l" for l n
    using that by (auto simp: lease_shape_def assms(2))
  ultimately show ?thesis using assms by (auto simp: job_inv_def)
qed

lemma lease_move_inv: "lease_move db db' \<Longrightarrow> job_inv db \<Longrightarrow> job_inv db'"
proof (induction rule: lease_move.induct)
  case (frame db' db)
  then show ?case using job_inv_frame by blast
next
  case (enqueue db' db j)
  then show ?case using enqueue_inv by metis
next
  case (work j db l j' l' db')
  then show ?case by (intro pair_update_inv [of db j l j' l' db'])
next
  case (grant j db ls1 l0 l j' db')
  then show ?case by (intro grant_update_inv [of db j ls1 l0 l j' db'])
qed

lemma lease_moves_inv: "lease_move\<^sup>*\<^sup>* db db' \<Longrightarrow> job_inv db \<Longrightarrow> job_inv db'"
  by (induction rule: rtranclp_induct) (auto intro: lease_move_inv)

subsection \<open>Every operation is a sequence of moves\<close>

lemma current_lease_Inr:
  assumes "current_lease g now db = Inr (j, l)"
  shows "j \<in> set (jobs db)" "l \<in> set (leases db)" "leased_by j l" "j_status j = J_RUNNING"
    "find_job (gr_job g) db = Some j" "j_id j = gr_job g" "j_task j = Some (gr_task g)"
    "j_token j = Some (gr_token g)" "l_token l = gr_token g" "l_id l = gr_lease g" "l_job l = gr_job g"
    "l_owner l = gr_worker g" "j_lease_owner j = Some (gr_worker g)" "l_attempt l = gr_attempt g"
    "l_released l = None" "j_cancel_requested j = None" "now < l_expires l" "\<not> lease_expired now j"
proof -
  have f: "find_job (gr_job g) db = Some j" and c: "\<not> (j_status j \<noteq> J_RUNNING \<or> j_task j \<noteq> Some (gr_task g) \<or>
      j_lease j \<noteq> Some (gr_lease g) \<or> j_token j \<noteq> Some (gr_token g) \<or>
      j_lease_owner j \<noteq> Some (gr_worker g) \<or> j_lease_expires j = None \<or> j_cancel_requested j \<noteq> None)"
    and fl: "find (\<lambda>l. l_id l = gr_lease g \<and> l_job l = gr_job g \<and> l_owner l = gr_worker g \<and>
      l_attempt l = gr_attempt g \<and> l_token l = gr_token g) (leases db) = Some l"
    and r: "l_released l = None" "\<not> lease_expired now j" "\<not> l_expires l \<le> now"
    using assms by (auto simp: current_lease_def split: option.split_asm if_split_asm)
  have j: "j \<in> set (jobs db)" "j_id j = gr_job g" using f find_Some_in by (fastforce simp: find_job_def)+
  have l: "l \<in> set (leases db)" "l_id l = gr_lease g" "l_job l = gr_job g" "l_owner l = gr_worker g"
      "l_attempt l = gr_attempt g" "l_token l = gr_token g"
    using find_Some_in [OF fl] by auto
  show "j \<in> set (jobs db)" "l \<in> set (leases db)" "leased_by j l" "j_status j = J_RUNNING"
    "find_job (gr_job g) db = Some j" "j_id j = gr_job g" "j_task j = Some (gr_task g)"
    "j_token j = Some (gr_token g)" "l_token l = gr_token g" "l_id l = gr_lease g" "l_job l = gr_job g"
    "l_owner l = gr_worker g" "j_lease_owner j = Some (gr_worker g)" "l_attempt l = gr_attempt g"
    "l_released l = None" "j_cancel_requested j = None" "now < l_expires l" "\<not> lease_expired now j"
    using f c r j l by (auto simp: leased_by_def)
qed

lemma held_lease:
  assumes "job_inv db" "j \<in> set (jobs db)" "j_status j = J_RUNNING" "l \<in> set (leases db)" "leased_by j l"
  shows "l_released l = None" "j_lease_owner j = Some (l_owner l)" "j_lease_expires j = Some (l_expires l)"
    "1 \<le> j_attempts j" "j_completed_at j = None" "j_last_token j = Some (l_token l)"
    "job_row_ok j" "lease_row_ok l"
proof -
  have s: "job_shape (leases db) j" using job_invD(5) [OF assms(1,2)] .
  then obtain m where m: "m \<in> set (leases db)" "leased_by j m" "l_released m = None"
      "j_lease_owner j = Some (l_owner m)" "j_lease_expires j = Some (l_expires m)"
    using assms(3) by (auto simp: job_shape_def held_def)
  have "m = l" by (rule lease_id_unique [OF assms(1) m(1) assms(4)])
      (use m(2) assms(5) in \<open>simp add: leased_by_def\<close>)
  then show "l_released l = None" "j_lease_owner j = Some (l_owner l)"
    "j_lease_expires j = Some (l_expires l)" "1 \<le> j_attempts j" "j_completed_at j = None"
    "j_last_token j = Some (l_token l)" "job_row_ok j" "lease_row_ok l"
    using m s assms(3,5) job_invD(7) [OF assms(1,4)] by (auto simp: job_shape_def lease_shape_def leased_by_def)
qed

lemma save_rows [simp]:
  "jobs (save_job j db) = row_jobs j (jobs db)" "leases (save_lease l db) = row_leases l (leases db)"
  "next_token (save_job j db) = next_token db" "next_token (save_lease l db) = next_token db"
  "next_token (save_effect f db) = next_token db" "jobs (save_effect f db) = jobs db"
  "leases (save_effect f db) = leases db"
  by (simp_all add: row_jobs_def row_leases_def next_token_def save_job_def save_lease_def save_effect_def)

declare save_job_jobs(1,4) [simp del]

lemma row_jobs_twice [simp]: "j_id j = j_id k \<Longrightarrow> row_jobs j (row_jobs k js) = row_jobs j js"
  by (simp add: row_jobs_def upd_rows_def comp_def)

lemma row_leases_twice [simp]: "l_id l = l_id m \<Longrightarrow> row_leases l (row_leases m ls) = row_leases l ls"
  by (simp add: row_leases_def upd_rows_def comp_def)

text \<open>A fenced write that keeps the lease alive, and one that releases it.\<close>

lemma alive_move:
  assumes inv: "job_inv db" and cur: "current_lease g now db = Inr (j, l)"
    and j': "same_job j j'" "j_status j' = J_RUNNING" "j_lease j' = j_lease j" "j_token j' = j_token j"
      "j_lease_owner j' = j_lease_owner j" "j_lease_expires j' = Some (l_expires l')"
      "j_last_token j' = Some (gr_token g)" "j_attempts j' = j_attempts j" "j_completed_at j' = j_completed_at j"
      "0 \<le> j_checkpoint_version j'"
    and l': "same_lease l l'" "l_released l' = None" "lease_row_ok l'"
    and db': "jobs db' = row_jobs j' (jobs db)" "leases db' = row_leases l' (leases db)"
      "next_token db' = next_token db"
  shows "lease_move db db'"
proof -
  note c = current_lease_Inr [OF cur]
  note h = held_lease [OF inv c(1,4,2,3)]
  have "job_row_ok j'" using h(7) j' c(8) by (auto simp: job_row_ok_def same_job_def)
  then show ?thesis
    by (intro lease_move.work [of j db l j' l']) (use c h j' l' db' in \<open>auto simp: leased_by_def same_job_def same_lease_def\<close>)
qed

lemma release_move:
  assumes inv: "job_inv db" and run: "j \<in> set (jobs db)" "j_status j = J_RUNNING" "l \<in> set (leases db)" "leased_by j l"
    and j': "same_job j j'" "j_status j' \<noteq> J_RUNNING" "j_lease j' = None" "j_token j' = None"
      "j_lease_owner j' = None" "j_lease_expires j' = None" "j_last_token j' = Some (l_token l)"
      "0 \<le> j_attempts j'" "j_attempts j' \<le> j_attempts j" "0 \<le> j_checkpoint_version j'"
      "j_completed_at j' = None \<longleftrightarrow> j_status j' = J_QUEUED"
    and l': "same_lease l l'" "l_released l' \<noteq> None" "lease_row_ok l'"
    and db': "jobs db' = row_jobs j' (jobs db)" "leases db' = row_leases l' (leases db)"
      "next_token db' = next_token db"
  shows "lease_move db db'"
proof -
  note h = held_lease [OF inv run]
  have "job_row_ok j'" using h(7) j' by (auto simp: job_row_ok_def same_job_def)
  then show ?thesis
    by (intro lease_move.work [of j db l j' l']) (use run h j' l' db' in auto)
qed

lemma released_ok: "lease_row_ok l \<Longrightarrow> r \<in> set lease_reasons \<Longrightarrow> lease_row_ok (release_lease p now r l)"
  by (auto simp: lease_row_ok_def release_lease_def)

lemma release_lease_simps [simp]:
  "same_lease l (release_lease p now r l)" "l_released (release_lease p now r l) = Some now"
  "l_id (release_lease p now r l) = l_id l"
  by (simp_all add: release_lease_def same_lease_def)

text \<open>Rounding keeps a duration between the whole seconds around it.\<close>

lemma half_even_ge: "0 < d \<Longrightarrow> a * d \<le> n \<Longrightarrow> a \<le> half_even n d"
proof -
  assume "0 < d" "a * d \<le> n"
  then have "a * d div d \<le> n div d" by (intro zdiv_mono1)
  then have "a \<le> n div d" using \<open>0 < d\<close> by simp
  then show ?thesis by (auto simp: half_even_def Let_def)
qed

lemma half_even_le:
  assumes "0 < d" "n \<le> b * d"
  shows "half_even n d \<le> b"
proof (cases "n = b * d")
  case True
  then show ?thesis using assms(1) by (simp add: half_even_def)
next
  case False
  then have "n < b * d" using assms(2) by simp
  then have "n div d < b" using assms(1) by (smt (verit) minus_mod_eq_mult_div mult.commute mult_less_cancel_left_pos pos_mod_sign)
  then show ?thesis by (auto simp: half_even_def Let_def)
qed

lemma truncated_microseconds_bounds:
  assumes "a * 1000000 \<le> n" "n \<le> b * 1000000"
  shows "a * 1000000 \<le> truncated_microseconds n" "truncated_microseconds n \<le> b * 1000000"
proof -
  define k where "k = 53 - floorlog 2 (nat (n div 1000000))"
  define s where "s = half_even (n * 2 ^ k) 1000000"
  define k' where "k' = 53 - floorlog 2 (nat (s * 1000000 div 2 ^ k))"
  define r where "r = half_even (s * 1000000 * 2 ^ k') (2 ^ k)"
  have t: "truncated_microseconds n = r div 2 ^ k'"
    by (simp add: truncated_microseconds_def k_def s_def k'_def r_def Let_def)
  have s: "a * 2 ^ k \<le> s" "s \<le> b * 2 ^ k"
    unfolding s_def by (rule half_even_ge half_even_le; use assms in simp)+
  have "a * 1000000 * 2 ^ k' \<le> r" unfolding r_def
  proof (rule half_even_ge)
    have "a * 2 ^ k * (1000000 * 2 ^ k') \<le> s * (1000000 * 2 ^ k')" using s(1) by (rule mult_right_mono) simp
    then show "a * 1000000 * 2 ^ k' * 2 ^ k \<le> s * 1000000 * 2 ^ k'" by (simp add: algebra_simps)
  qed simp
  then have "a * 1000000 * 2 ^ k' div 2 ^ k' \<le> r div 2 ^ k'" by (rule zdiv_mono1) simp
  then show "a * 1000000 \<le> truncated_microseconds n" by (simp add: t)
  have "r \<le> b * 1000000 * 2 ^ k'" unfolding r_def
  proof (rule half_even_le)
    have "s * (1000000 * 2 ^ k') \<le> b * 2 ^ k * (1000000 * 2 ^ k')" using s(2) by (rule mult_right_mono) simp
    then show "s * 1000000 * 2 ^ k' \<le> b * 1000000 * 2 ^ k' * 2 ^ k" by (simp add: algebra_simps)
  qed simp
  then have "r div 2 ^ k' \<le> b * 1000000 * 2 ^ k' div 2 ^ k'" by (rule zdiv_mono1) simp
  then show "truncated_microseconds n \<le> b * 1000000" by (simp add: t)
qed

lemma lease_duration_bounds:
  assumes "lease_duration v = Inr d"
  shows "1000000 \<le> d \<and> d \<le> max_lease_seconds * 1000000"
  using assms truncated_microseconds_bounds [of 1 v max_lease_seconds]
  by (simp add: lease_duration_def split: if_split_asm)

lemma heartbeat_move:
  assumes "job_inv db" "heartbeat p g duration now db = Inr (g', db')"
  shows "lease_move db db'"
proof -
  obtain d j l where d: "lease_duration duration = Inr d" and cur: "current_lease g now db = Inr (j, l)"
    and db': "db' = save_job (j\<lparr>j_lease_expires := Some (max (l_expires l) (now + d)),
        j_last_token := Some (gr_token g), j_actor := p\<rparr>)
      (save_lease (l\<lparr>l_heartbeat := now, l_expires := max (l_expires l) (now + d), l_actor := p\<rparr>) db)"
    using assms(2) by (auto simp: heartbeat_def Let_def)
  note c = current_lease_Inr [OF cur] and h = held_lease [OF assms(1) current_lease_Inr(1,4,2,3) [OF cur]]
  have "0 < d" using lease_duration_bounds [OF d] by simp
  then show ?thesis
    by (intro alive_move [OF assms(1) cur,
          where j' = "j\<lparr>j_lease_expires := Some (max (l_expires l) (now + d)), j_last_token := Some (gr_token g), j_actor := p\<rparr>"
            and l' = "l\<lparr>l_heartbeat := now, l_expires := max (l_expires l) (now + d), l_actor := p\<rparr>"])
      (use c h in \<open>auto simp: db' same_job_def same_lease_def job_row_ok_def lease_row_ok_def\<close>)
qed

lemma insert_checkpoint_Inr:
  "insert_checkpoint c db = Inr db' \<Longrightarrow> db' = db\<lparr>checkpoints := checkpoints db @ [c]\<rparr> \<and>
     0 < c_sequence c \<and> digest_ok (c_fingerprint c) \<and> (\<forall>x \<in> set (checkpoints db). c_id x \<noteq> c_id c \<and>
       \<not> (c_job x = c_job c \<and> c_sequence x = c_sequence c) \<and> c_key x \<noteq> c_key c)"
  by (auto simp: insert_checkpoint_def list_ex_iff split: if_split_asm)

text \<open>What an accepted checkpoint does: nothing when it is replayed, else a row and its projection.\<close>

lemma append_checkpoint_Inr:
  assumes "append_checkpoint p j l expected key payload fp now cid db = Inr (r, db')"
  shows "if cr_replayed r
    then db' = db \<and> (\<exists>c. find (\<lambda>c. c_key c = key) (checkpoints db) = Some c \<and> c_job c = j_id j \<and>
      c_sequence c = expected + 1 \<and> c_fingerprint c = fp \<and> py_eq (c_payload c) payload \<and>
      cr_id r = c_id c \<and> cr_sequence r = c_sequence c)
    else \<exists>c. c = \<lparr>c_id = cid, c_job = j_id j, c_lease = l_id l, c_token = l_token l,
        c_sequence = expected + 1, c_key = key, c_fingerprint = fp, c_payload = payload,
        c_recorded_at = now\<rparr> \<and> j_checkpoint_version j = expected \<and> 0 < expected + 1 \<and>
      cr_id r = cid \<and> cr_sequence r = expected + 1 \<and>
      (\<forall>x \<in> set (checkpoints db). c_id x \<noteq> cid \<and> c_key x \<noteq> key \<and>
        \<not> (c_job x = j_id j \<and> c_sequence x = expected + 1)) \<and>
      db' = save_lease (checkpointed_lease p payload (expected + 1) l)
        (save_job (checkpointed_job p payload (expected + 1) (l_token l) j)
          (db\<lparr>checkpoints := checkpoints db @ [c]\<rparr>))"
  using assms
  by (auto simp: append_checkpoint_def Let_def split: option.split_asm if_split_asm
      dest!: insert_checkpoint_Inr)

lemma next_token_updates [simp]:
  "next_token (db\<lparr>checkpoints := x\<rparr>) = next_token db" "next_token (db\<lparr>effects := y\<rparr>) = next_token db"
  "next_token (db\<lparr>tool_grants := z\<rparr>) = next_token db" "next_token (db\<lparr>processes := u\<rparr>) = next_token db"
  "next_token (db\<lparr>targets := v\<rparr>) = next_token db" "next_token (db\<lparr>job_transitions := w\<rparr>) = next_token db"
  "next_token (db\<lparr>jobs := a\<rparr>) = next_token db" "next_token (db\<lparr>leases := b\<rparr>) = next_token db"
  "next_token (db\<lparr>fencing_counter := Some n\<rparr>) = n"
  "next_token (db\<lparr>fencing_counter := Some n, leases := b\<rparr>) = n"
  by (simp_all add: next_token_def)

lemma append_checkpoint_move:
  assumes "job_inv db" "current_lease g now db = Inr (j, l)"
    and "append_checkpoint p j l expected key payload fp now cid db1 = Inr (r, db')"
    and "jobs db1 = jobs db" "leases db1 = leases db" "next_token db1 = next_token db"
  shows "lease_move db db'"
proof (cases "cr_replayed r")
  case True
  then show ?thesis using append_checkpoint_Inr [OF assms(3)] assms(4-6) by (auto intro: lease_move.frame)
next
  case False
  note a = append_checkpoint_Inr [OF assms(3)]
  note c = current_lease_Inr [OF assms(2)]
  note h = held_lease [OF assms(1) c(1,4,2,3)]
  let ?j = "checkpointed_job p payload (expected + 1) (l_token l) j"
  let ?l = "checkpointed_lease p payload (expected + 1) l"
  show ?thesis
    by (rule alive_move [OF assms(1,2), where j' = ?j and l' = ?l])
      (use a False c h assms(4-6) in \<open>auto simp: same_job_def same_lease_def lease_row_ok_def
        checkpointed_job_def checkpointed_lease_def\<close>)
qed

lemma checkpoint_move:
  "job_inv db \<Longrightarrow> checkpoint e p g expected key payload now cid db = Inr (r, db') \<Longrightarrow> lease_move db db'"
  by (auto simp: checkpoint_def intro: append_checkpoint_move)

lemma insert_frame:
  "insert_effect f db = Inr db' \<Longrightarrow> db' = db\<lparr>effects := effects db @ [f]\<rparr> \<and>
     effect_row_ok f \<and> (\<forall>x \<in> set (effects db). f_id x \<noteq> f_id f \<and> f_key x \<noteq> f_key f)"
  "insert_tool_grant r db = Inr db' \<Longrightarrow> db' = db\<lparr>tool_grants := tool_grants db @ [r]\<rparr>"
  "insert_process q db = Inr db' \<Longrightarrow> db' = db\<lparr>processes := processes db @ [q]\<rparr>"
  "insert_target t db = Inr db' \<Longrightarrow> db' = db\<lparr>targets := targets db @ [t]\<rparr>"
  by (auto simp: insert_effect_def insert_tool_grant_def insert_process_def insert_target_def list_ex_iff
      split: if_split_asm)

lemma prepare_effect_cases:
  assumes "prepare_effect e g key type request now fid db = Inr (r, db')"
  obtains (found) j l f where "current_lease g now db = Inr (j, l)" "db' = db" "f \<in> set (effects db)"
      "f_job f = j_id j" "r = mk_prepared f False (f_status f = E_PENDING)"
      "pending_of (j_id j) db = [] \<or> f_status f = E_PENDING"
    | (created) j l k ty v f where "current_lease g now db = Inr (j, l)"
      "required_identifier max_job_identifier_length key = Inr k"
      "required_identifier max_job_identifier_length type = Inr ty" "safe_payload e request = Inr v"
      "pending_of (j_id j) db = []" "f = \<lparr>f_id = fid, f_job = j_id j, f_type = ty,
         f_key = uuid_str (j_id j) @ '':'' @ k, f_fingerprint = effect_fingerprint e ty k v,
         f_request = v, f_status = E_PENDING, f_started_lease = l_id l,
         f_started_token = l_token l, f_done_lease = None, f_done_token = None,
         f_result = None, f_started_at = now, f_done_at = None\<rparr>"
      "insert_effect f db = Inr db'" "r = mk_prepared f True False"
proof -
  obtain k ty v j l where n: "required_identifier max_job_identifier_length key = Inr k"
      "required_identifier max_job_identifier_length type = Inr ty" "safe_payload e request = Inr v"
      "current_lease g now db = Inr (j, l)"
    using assms by (auto simp: prepare_effect_def Let_def)
  let ?p = "first_by (\<lambda>f. (f_started_at f, f_id f)) (pending_of (j_id j) db)"
  let ?q = "find (\<lambda>f. f_key f = uuid_str (j_id j) @ '':'' @ k) (effects db)"
  show thesis
  proof (cases ?p)
    case (Some f)
    then have "f \<in> set (pending_of (j_id j) db)" by (rule first_by_Some_in)
    then have "f \<in> set (effects db)" "f_job f = j_id j" "f_status f = E_PENDING" by (auto simp: pending_of_def)
    then show ?thesis using found [OF n(4)] assms n Some
      by (auto simp: prepare_effect_def Let_def split: if_split_asm)
  next
    case None
    then have none: "pending_of (j_id j) db = []" by simp
    show ?thesis
    proof (cases ?q)
      case (Some f)
      then have "f \<in> set (effects db)" using find_Some_in by fastforce
      then show ?thesis using found [OF n(4)] assms n None Some none
        by (auto simp: prepare_effect_def Let_def split: if_split_asm)
    next
      case q: None
      then show ?thesis using created [OF n(4) n(1-3) none refl] assms n None
        by (auto simp: prepare_effect_def Let_def)
    qed
  qed
qed

lemma prepare_effect_move:
  "prepare_effect e g key type request now fid db = Inr (r, db') \<Longrightarrow> lease_move db db'"
  by (erule prepare_effect_cases) (auto intro!: lease_move.frame dest!: insert_frame)

lemma settle_effect_Inr:
  "settle_effect f target r l now db = Inr db' \<Longrightarrow>
   if f_status f = E_PENDING
   then db' = save_effect (f\<lparr>f_status := target, f_done_lease := Some (l_id l),
     f_done_token := Some (l_token l), f_result := Some r, f_done_at := Some now\<rparr>) db
   else db' = db \<and> f_status f = target \<and> (\<exists>q. f_result f = Some q \<and> py_eq q r)"
  by (auto simp: settle_effect_def split: if_split_asm option.split_asm)

lemma record_effect_result_Inr:
  assumes "record_effect_result e p g eid result expected key payload now cid db = Inr (r, db')"
  obtains k v q j l f db1 where "current_lease g now db = Inr (j, l)"
    "safe_payload e (er_payload result) = Inr q" "safe_payload e payload = Inr v"
    "find (\<lambda>f. f_id f = eid \<and> f_job f = j_id j) (effects db) = Some f"
    "settle_effect f (if er_succeeded result then E_SUCCEEDED else E_FAILED) q l now db = Inr db1"
    "append_checkpoint p j l expected k v (fingerprint (sha256 e) v) now cid db1 = Inr (r, db')"
  using assms unfolding record_effect_result_def by (auto split: option.split_asm)

lemma settle_effect_frame:
  "settle_effect f target r l now db = Inr db' \<Longrightarrow>
   jobs db' = jobs db \<and> leases db' = leases db \<and> next_token db' = next_token db"
  by (drule settle_effect_Inr) (auto split: if_split_asm)

lemma record_effect_result_move:
  assumes "job_inv db" "record_effect_result e p g eid result expected key payload now cid db = Inr (r, db')"
  shows "lease_move db db'"
  using assms(2)
proof (rule record_effect_result_Inr)
  fix k v q j l f db1
  assume "current_lease g now db = Inr (j, l)"
    "append_checkpoint p j l expected k v (fingerprint (sha256 e) v) now cid db1 = Inr (r, db')"
    and s: "settle_effect f (if er_succeeded result then E_SUCCEEDED else E_FAILED) q l now db = Inr db1"
  then show ?thesis using append_checkpoint_move [OF assms(1)] settle_effect_frame [OF s] by blast
qed

lemma finish_job_same [simp]: "same_job j (finish_job s c k t p j)"
  by (simp add: same_job_def finish_job_def)

lemma same_job_trans: "same_job i j \<Longrightarrow> same_job j k \<Longrightarrow> same_job i k"
  by (simp add: same_job_def)

lemma same_lease_trans: "same_lease i j \<Longrightarrow> same_lease j k \<Longrightarrow> same_lease i k"
  by (simp add: same_lease_def)

lemma same_refl [simp]: "same_job j j" "same_lease l l"
  by (simp_all add: same_job_def same_lease_def)

lemma final_rows_Inr:
  assumes "final_rows e p j l expected final now cid db = Inr (j1, l1, db1)"
  shows "same_job j j1 \<and> same_lease l l1 \<and> j_attempts j1 = j_attempts j \<and>
    j_status j1 = j_status j \<and> (lease_row_ok l \<longrightarrow> 0 \<le> j_checkpoint_version j \<longrightarrow>
      lease_row_ok l1 \<and> 0 \<le> j_checkpoint_version j1) \<and>
    next_token db1 = next_token db \<and> effects db1 = effects db \<and>
    (\<forall>x. j_id x = j_id j \<longrightarrow> row_jobs x (jobs db1) = row_jobs x (jobs db)) \<and>
    (\<forall>x. l_id x = l_id l \<longrightarrow> row_leases x (leases db1) = row_leases x (leases db))"
proof (cases final)
  case None
  then show ?thesis using assms by (auto simp: final_rows_def split: if_split_asm)
next
  case (Some kp)
  then obtain key payload where kp: "final = Some (key, payload)" by (cases kp) auto
  then obtain k v r where a: "append_checkpoint p j l expected k v (fingerprint (sha256 e) v) now cid db = Inr (r, db1)"
    and rows: "j1 = (if cr_replayed r then j else checkpointed_job p v (expected + 1) (l_token l) j)"
      "l1 = (if cr_replayed r then l else checkpointed_lease p v (expected + 1) l)"
    using assms by (auto simp: final_rows_def split: if_split_asm)
  show ?thesis using append_checkpoint_Inr [OF a] rows
    by (auto simp: checkpointed_job_def checkpointed_lease_def same_job_def same_lease_def
        lease_row_ok_def save_job_def save_lease_def row_jobs_def row_leases_def upd_rows_def next_token_def
        split: if_split_asm)
qed

lemma complete_Inr:
  assumes "complete e p g expected fk fp now cid db = Inr (u, db')"
  obtains j l final j1 l1 db1 where "current_lease g now db = Inr (j, l)"
    "require_no_pending_effects (j_id j) db = Inr ()"
    "final_rows e p j l expected final now cid db = Inr (j1, l1, db1)"
    "db' = save_job (finish_job J_SUCCEEDED None (gr_token g) now p j1)
        (save_lease (release_lease p now ''SUCCEEDED'' l1) db1)"
  using assms unfolding complete_def by (auto split: if_split_asm)

lemma finish_job_fields [simp]:
  "j_lease (finish_job s c k t p j) = None" "j_token (finish_job s c k t p j) = None"
  "j_lease_owner (finish_job s c k t p j) = None" "j_lease_expires (finish_job s c k t p j) = None"
  "j_last_token (finish_job s c k t p j) = Some k" "j_attempts (finish_job s c k t p j) = j_attempts j"
  "j_checkpoint_version (finish_job s c k t p j) = j_checkpoint_version j"
  "j_completed_at (finish_job s c k t p j) = Some t"
  by (simp_all add: finish_job_def)

lemma complete_move:
  assumes inv: "job_inv db" and c: "complete e p g expected fk fp now cid db = Inr (u, db')"
  shows "lease_move db db'"
  using c
proof (rule complete_Inr)
  fix j l final j1 l1 db1
  assume cur: "current_lease g now db = Inr (j, l)"
    and f: "final_rows e p j l expected final now cid db = Inr (j1, l1, db1)"
    and db': "db' = save_job (finish_job J_SUCCEEDED None (gr_token g) now p j1)
        (save_lease (release_lease p now ''SUCCEEDED'' l1) db1)"
  note cu = current_lease_Inr [OF cur]
  note h = held_lease [OF inv cu(1,4,2,3)]
  have ok: "0 \<le> j_checkpoint_version j" "0 \<le> j_attempts j" using h(7) by (auto simp: job_row_ok_def)
  note fr = final_rows_Inr [OF f]
  have l1: "lease_row_ok (release_lease p now ''SUCCEEDED'' l1)"
    using fr h(8) ok by (intro released_ok) (auto simp: lease_reasons_def)
  have sj: "same_job j (finish_job J_SUCCEEDED None (gr_token g) now p j1)"
    and sl: "same_lease l (release_lease p now ''SUCCEEDED'' l1)"
    using fr same_job_trans [OF _ finish_job_same] same_lease_trans [OF _ release_lease_simps(1)] by blast+
  have id: "j_id (finish_job J_SUCCEEDED None (gr_token g) now p j1) = j_id j"
    "l_id (release_lease p now ''SUCCEEDED'' l1) = l_id l"
    using sj sl by (auto simp: same_job_def same_lease_def)
  show ?thesis
    by (rule release_move [OF inv cu(1,4,2,3) sj _ _ _ _ _ _ _ _ _ _ sl _ l1])
      (use fr ok cu(9) h(8) id in \<open>simp_all add: db'\<close>)
qed

lemma release_failed_attempt_Inr:
  assumes "release_failed_attempt e p g code retryable now j l db = Inr (d, db')"
  obtains retry_at where
    "retry_at = None \<longleftrightarrow> \<not> (retryable \<and> j_attempts j < j_max_attempts j)"
    "db' = save_job (failed_job p code (gr_token g) retry_at now j) (save_lease (failed_lease p code retry_at now l) db)"
    "di_status d = (if retry_at = None then J_FAILED else J_QUEUED)" "di_next d = retry_at"
    "di_exhausted d \<longleftrightarrow> retryable \<and> retry_at = None"
    "case di_delay d of None \<Rightarrow> retry_at = None | Some w \<Rightarrow> retry_at = Some (now + w) \<and>
       (\<exists>policy. mk_retry_policy (j_max_attempts j) (j_retry_base j) (j_retry_max j) = Inr policy \<and>
          deterministic_retry_delay e (j_id j) (j_attempts j) policy = Inr w)"
proof (cases "retryable \<and> j_attempts j < j_max_attempts j")
  case True
  then obtain policy w where "mk_retry_policy (j_max_attempts j) (j_retry_base j) (j_retry_max j) = Inr policy"
      "deterministic_retry_delay e (j_id j) (j_attempts j) policy = Inr w"
    using assms by (auto simp: release_failed_attempt_def Let_def)
  then show ?thesis using that [of "Some (now + w)"] assms True
    by (auto simp: release_failed_attempt_def Let_def)
next
  case False
  then show ?thesis using that [of None] assms by (auto simp: release_failed_attempt_def Let_def)
qed

lemma failed_job_simps [simp]:
  "same_job j (failed_job p code k r now j)" "j_lease (failed_job p code k r now j) = None"
  "j_token (failed_job p code k r now j) = None" "j_lease_owner (failed_job p code k r now j) = None"
  "j_lease_expires (failed_job p code k r now j) = None" "j_last_token (failed_job p code k r now j) = Some k"
  "j_attempts (failed_job p code k r now j) = j_attempts j"
  "j_checkpoint_version (failed_job p code k r now j) = j_checkpoint_version j"
  "j_status (failed_job p code k r now j) = (if r = None then J_FAILED else J_QUEUED)"
  "j_completed_at (failed_job p code k r now j) = (if r = None then Some now else None)"
  by (auto simp: failed_job_def same_job_def split: option.split)

lemma failed_lease_simps [simp]:
  "same_lease l (failed_lease p code r now l)" "l_released (failed_lease p code r now l) = Some now"
  "l_id (failed_lease p code r now l) = l_id l"
  "lease_row_ok l \<Longrightarrow> lease_row_ok (failed_lease p code r now l)"
  by (auto simp: failed_lease_def release_lease_def same_lease_def lease_row_ok_def lease_reasons_def)

lemma fail_attempt_Inr:
  assumes "fail_attempt e p g code retryable now db = Inr (d, db')"
  obtains n j l where "current_lease g now db = Inr (j, l)" "required_error_code code = Inr n"
    "release_failed_attempt e p g n retryable now j l db = Inr (d, db')"
  using assms by (auto simp: fail_attempt_def)

lemma fail_attempt_move:
  assumes inv: "job_inv db" and f: "fail_attempt e p g code retryable now db = Inr (d, db')"
  shows "lease_move db db'"
proof -
  obtain n j l where cur: "current_lease g now db = Inr (j, l)"
    and r: "release_failed_attempt e p g n retryable now j l db = Inr (d, db')"
    using f by (rule fail_attempt_Inr)
  note cu = current_lease_Inr [OF cur]
  note h = held_lease [OF inv cu(1,4,2,3)]
  obtain retry_at where db': "db' = save_job (failed_job p n (gr_token g) retry_at now j)
      (save_lease (failed_lease p n retry_at now l) db)"
    using r by (rule release_failed_attempt_Inr)
  show ?thesis
    by (rule release_move [OF inv cu(1,4,2,3) failed_job_simps(1) _ _ _ _ _ _ _ _ _ _ failed_lease_simps(1) _
          failed_lease_simps(4) [OF h(8)]])
      (use h(7) cu(9) in \<open>auto simp: db' job_row_ok_def\<close>)
qed

lemma pause_attempt_Inr:
  assumes "pause_attempt p g code now db = Inr (u, db')"
  obtains n j l where "current_lease g now db = Inr (j, l)" "required_error_code code = Inr n"
    "db' = save_job (paused_job p n (gr_token g) now j) (save_lease (release_lease p now ''RETRY'' l) db)"
  using assms by (auto simp: pause_attempt_def)

lemma pause_attempt_move:
  assumes inv: "job_inv db" and f: "pause_attempt p g code now db = Inr (u, db')"
  shows "lease_move db db'"
proof -
  obtain n j l where cur: "current_lease g now db = Inr (j, l)"
    and db': "db' = save_job (paused_job p n (gr_token g) now j) (save_lease (release_lease p now ''RETRY'' l) db)"
    using f by (rule pause_attempt_Inr)
  note cu = current_lease_Inr [OF cur]
  note h = held_lease [OF inv cu(1,4,2,3)]
  have "same_job j (paused_job p n (gr_token g) now j)" by (simp add: paused_job_def same_job_def)
  moreover have "lease_row_ok (release_lease p now ''RETRY'' l)"
    using h(8) by (intro released_ok) (simp_all add: lease_reasons_def)
  ultimately show ?thesis
    by (intro release_move [OF inv cu(1,4,2,3), where j' = "paused_job p n (gr_token g) now j"
          and l' = "release_lease p now ''RETRY'' l"])
      (use h cu(9) db' in \<open>auto simp: paused_job_def job_row_ok_def\<close>)
qed

lemma binding_moves:
  "issue_tool_grant e g key scope now gid db = Inr (a, db') \<Longrightarrow> lease_move db db'"
  "register_owned_process e g ident now hid tid db = Inr (b, db') \<Longrightarrow> lease_move db db'"
  "register_reconciliation_target e g kind tkey v now tid db = Inr (c, db') \<Longrightarrow> lease_move db db'"
  by (auto simp: issue_tool_grant_def register_owned_process_def register_reconciliation_target_def Let_def
      intro!: lease_move.frame split: option.split_asm if_split_asm dest!: insert_frame)

lemma transition_task_frame:
  assumes "transition_task e gate lineage c now eid db = Inr (r, db')"
  shows "\<exists>ev rf ts. db' = db\<lparr>events := ev, references := rf, tasks := ts\<rparr>"
  using assms
proof (cases rule: transition_task_cases)
  case (replay x c t)
  then show ?thesis by (intro exI [of _ "events db"] exI [of _ "references db"] exI [of _ "tasks db"]) simp
next
  case (commit c t p vs head g pl)
  then show ?thesis using commit_plan_Inr [OF commit(10)] by blast
qed

lemma job_transition_task_Inr:
  assumes "job_transition_task e p gate g c now eid db = Inr (r, db')"
  obtains j l db1 where "current_lease g now db = Inr (j, l)"
    "require_no_pending_effects (j_id j) db = Inr ()"
    "transition_task e gate (jt_lineage c)
      \<lparr>tc_task = gr_task g, tc_id = jt_id c, tc_expected = jt_expected c,
       tc_kind = jt_kind c, tc_reason = jt_reason c, tc_actor = p,
       tc_evidence = jt_evidence c, tc_candidate = jt_candidate c\<rparr> now eid db = Inr (r, db1)"
    "if tr_replayed r
     then db' = db1 \<and> (\<exists>x \<in> set (job_transitions db1). x_event x = tr_event r \<and> x_job x = j_id j)
     else db' = db1\<lparr>job_transitions := job_transitions db1 @ [\<lparr>x_job = j_id j, x_lease = l_id l,
       x_token = l_token l, x_task = gr_task g, x_event = tr_event r, x_recorded_at = now\<rparr>]\<rparr>"
proof -
  have lift: "lift_transition m = Inr y \<longleftrightarrow> m = Inr y" for m :: "transition_error + 'x" and y
    by (cases m) (auto simp: lift_transition_def)
  obtain j l db1 where 1: "current_lease g now db = Inr (j, l)" "require_no_pending_effects (j_id j) db = Inr ()"
    "transition_task e gate (jt_lineage c)
      \<lparr>tc_task = gr_task g, tc_id = jt_id c, tc_expected = jt_expected c,
       tc_kind = jt_kind c, tc_reason = jt_reason c, tc_actor = p,
       tc_evidence = jt_evidence c, tc_candidate = jt_candidate c\<rparr> now eid db = Inr (r, db1)"
    and 2: "(if tr_replayed r then
            (case find (\<lambda>x. x_event x = tr_event r) (job_transitions db1) of
               None \<Rightarrow> Inl BackgroundJobConflict
             | Some x \<Rightarrow> if x_job x \<noteq> j_id j \<or> x_task x \<noteq> gr_task g
                         then Inl BackgroundJobConflict else Inr (r, db1))
          else if list_ex (\<lambda>x. x_event x = tr_event r) (job_transitions db1)
          then Inl JobIntegrityError
          else Inr (r, db1\<lparr>job_transitions := job_transitions db1 @ [\<lparr>x_job = j_id j,
                 x_lease = l_id l, x_token = l_token l, x_task = gr_task g,
                 x_event = tr_event r, x_recorded_at = now\<rparr>]\<rparr>)) = Inr (r, db')"
    using assms unfolding job_transition_task_def by (auto simp: lift split: if_split_asm option.split_asm)
  show thesis
  proof (cases "tr_replayed r")
    case True
    then obtain x where x: "find (\<lambda>x. x_event x = tr_event r) (job_transitions db1) = Some x"
      using 2 by (cases "find (\<lambda>x. x_event x = tr_event r) (job_transitions db1)") auto
    show thesis by (rule that [OF 1]) (use 2 True x find_Some_in [OF x] in \<open>auto split: if_split_asm\<close>)
  next
    case False
    then show thesis by (intro that [OF 1]) (use 2 in \<open>auto split: if_split_asm\<close>)
  qed
qed

lemma job_transition_task_move:
  assumes "job_transition_task e p gate g c now eid db = Inr (r, db')"
  shows "lease_move db db'"
  using assms
proof (rule job_transition_task_Inr)
  fix j l db1
  assume "transition_task e gate (jt_lineage c)
      \<lparr>tc_task = gr_task g, tc_id = jt_id c, tc_expected = jt_expected c,
       tc_kind = jt_kind c, tc_reason = jt_reason c, tc_actor = p,
       tc_evidence = jt_evidence c, tc_candidate = jt_candidate c\<rparr> now eid db = Inr (r, db1)"
  then obtain ev rf ts where "db1 = db\<lparr>events := ev, references := rf, tasks := ts\<rparr>"
    using transition_task_frame by blast
  moreover assume "if tr_replayed r
     then db' = db1 \<and> (\<exists>x \<in> set (job_transitions db1). x_event x = tr_event r \<and> x_job x = j_id j)
     else db' = db1\<lparr>job_transitions := job_transitions db1 @ [\<lparr>x_job = j_id j, x_lease = l_id l,
       x_token = l_token l, x_task = gr_task g, x_event = tr_event r, x_recorded_at = now\<rparr>]\<rparr>"
  ultimately show ?thesis by (auto intro!: lease_move.frame simp: next_token_def split: if_split_asm)
qed

lemma find_leased:
  "find (leased_by j) (leases db) = Some l \<Longrightarrow> l \<in> set (leases db) \<and> leased_by j l"
  using find_Some_in by fastforce

lemma recover_job_move:
  assumes inv: "job_inv db" and j: "j \<in> set (jobs db)" "j_status j = J_RUNNING"
    and r: "recover_job p now j db = Inr db'"
  shows "lease_move db db'"
proof -
  obtain l where l: "find (leased_by j) (leases db) = Some l"
    using r by (cases "find (leased_by j) (leases db)") (auto simp: recover_job_def)
  then have run: "l \<in> set (leases db)" "leased_by j l" using find_leased by blast+
  note h = held_lease [OF inv j run]
  have ok: "0 \<le> j_attempts j" "0 \<le> j_checkpoint_version j" using h(7) by (auto simp: job_row_ok_def)
  define why where "why = (if j_cancel_requested j \<noteq> None then ''CANCELLED'' else ''EXPIRED'')"
  obtain code ack j' where db': "db' = save_job j' (save_lease
      ((release_lease p now why l)\<lparr>l_failure := code, l_cancel_ack := ack\<rparr>) db)"
    and j': "same_job j j'" "j_status j' \<noteq> J_RUNNING" "j_lease j' = None" "j_token j' = None"
      "j_lease_owner j' = None" "j_lease_expires j' = None" "j_last_token j' = Some (l_token l)"
      "j_attempts j' = j_attempts j" "j_checkpoint_version j' = j_checkpoint_version j"
      "j_completed_at j' = None \<longleftrightarrow> j_status j' = J_QUEUED"
  proof (cases "j_cancel_requested j \<noteq> None")
    case True
    then show thesis
      by (intro that [of "finish_job J_CANCELLED (Some ''CANCELLATION_REQUESTED'') (l_token l) now p j"
            "Some now" "Some ''CANCELLATION_REQUESTED''"])
        (use r l h(1) in \<open>auto simp: recover_job_def why_def Let_def\<close>)
  next
    case False
    show thesis
    proof (cases "j_max_attempts j \<le> j_attempts j")
      case True
      then show thesis
        by (intro that [of "finish_job J_FAILED (Some ''LEASE_EXPIRED_ATTEMPTS_EXHAUSTED'') (l_token l) now p j"
              None "Some ''LEASE_EXPIRED_ATTEMPTS_EXHAUSTED''"])
          (use r l h(1) False in \<open>auto simp: recover_job_def why_def Let_def\<close>)
    next
      case f: False
      show thesis
        by (rule that [of "(finish_job J_QUEUED (Some ''LEASE_EXPIRED'') (l_token l) now p
                (j\<lparr>j_available_at := now\<rparr>))\<lparr>j_completed_at := None\<rparr>" None "Some ''LEASE_EXPIRED''"])
          (use r l h(1) False f in \<open>auto simp: recover_job_def why_def Let_def finish_job_def same_job_def\<close>)
    qed
  qed
  have "lease_row_ok ((release_lease p now why l)\<lparr>l_failure := code, l_cancel_ack := ack\<rparr>)"
    using h(8) by (auto simp: lease_row_ok_def release_lease_def lease_reasons_def why_def)
  then show ?thesis
    by (intro release_move [OF inv j run j'(1-7), where l' = "(release_lease p now why l)\<lparr>l_failure := code, l_cancel_ack := ack\<rparr>"])
      (use db' ok j' in \<open>auto simp: same_lease_def release_lease_def\<close>)
qed

text \<open>Recovering one job leaves the others as they are.\<close>

lemma recover_job_others:
  "recover_job p now j db = Inr db' \<Longrightarrow> k \<in> set (jobs db) \<Longrightarrow> j_id k \<noteq> j_id j \<Longrightarrow> k \<in> set (jobs db')"
  by (auto simp: recover_job_def Let_def row_jobs_def set_upd_rows split: option.split_asm if_split_asm)

lemma recover_jobs_moves:
  assumes "job_inv db" "recover_jobs p now js db = Inr db'" "distinct (map j_id js)"
    "\<forall>j \<in> set js. j \<in> set (jobs db) \<and> j_status j = J_RUNNING"
  shows "lease_move\<^sup>*\<^sup>* db db'"
  using assms
proof (induction js arbitrary: db)
  case (Cons j js)
  obtain db1 where d: "recover_job p now j db = Inr db1" "recover_jobs p now js db1 = Inr db'"
    using Cons.prems(2) by auto
  have m: "lease_move db db1" using recover_job_move [OF Cons.prems(1) _ _ d(1)] Cons.prems(4) by simp
  have "\<forall>k \<in> set js. k \<in> set (jobs db1) \<and> j_status k = J_RUNNING"
    using Cons.prems(3,4) recover_job_others [OF d(1)] by (auto simp: image_iff)
  then have "lease_move\<^sup>*\<^sup>* db1 db'"
    using Cons.IH [OF lease_move_inv [OF m Cons.prems(1)] d(2)] Cons.prems(3) by simp
  then show ?case using m by (rule converse_rtranclp_into_rtranclp [rotated])
qed simp

lemma expired_jobs_props:
  assumes "job_inv db"
  shows "distinct (map j_id (take n (expired_jobs now db)))"
    "\<forall>j \<in> set (take n (expired_jobs now db)). j \<in> set (jobs db) \<and> j_status j = J_RUNNING \<and> lease_expired now j"
proof -
  have d: "distinct (map j_id (filter P (jobs db)))" for P
    using job_invD(1) [OF assms] by (rule distinct_map_filter)
  have "mset (map j_id (expired_jobs now db)) =
      mset (map j_id (filter (\<lambda>j. j_status j = J_RUNNING \<and> lease_expired now j) (jobs db)))"
    by (simp add: expired_jobs_def)
  then have "distinct (map j_id (expired_jobs now db))"
    using d by (metis mset_eq_imp_distinct_iff)
  then show "distinct (map j_id (take n (expired_jobs now db)))" by (simp add: take_map [symmetric])
  show "\<forall>j \<in> set (take n (expired_jobs now db)). j \<in> set (jobs db) \<and> j_status j = J_RUNNING \<and> lease_expired now j"
    by (auto simp: expired_jobs_def dest!: in_set_takeD)
qed

lemma reconcile_expired_leases_moves:
  "job_inv db \<Longrightarrow> reconcile_expired_leases p limit now db = Inr (is, db') \<Longrightarrow> lease_move\<^sup>*\<^sup>* db db'"
  using expired_jobs_props [of db "nat limit" now]
  by (auto simp: reconcile_expired_leases_def Let_def intro: recover_jobs_moves split: if_split_asm)

text \<open>The row a grant leaves in the jobs table, given the running or queued row before it.\<close>

definition claimed_job :: "string \<Rightarrow> string \<Rightarrow> int \<Rightarrow> uuid \<Rightarrow> instant \<Rightarrow> job_row \<Rightarrow> job_row" where
  "claimed_job p worker token lid expires j = j\<lparr>j_status := J_RUNNING, j_attempts := j_attempts j + 1,
     j_lease := Some lid, j_token := Some token, j_lease_owner := Some worker,
     j_lease_expires := Some expires, j_last_token := Some token, j_last_error := None, j_actor := p\<rparr>"

lemma grant_lease_Inr:
  assumes "grant_lease e p worker d lid now j recovered db = Inr (g, db')"
  shows "\<exists>l. l = claimed_lease e p j lid worker (next_lease_attempt (j_id j) db) (next_token db) now (now + d) \<and>
    lease_row_ok l \<and> (\<forall>x \<in> set (leases db). l_id x \<noteq> lid \<and> l_token x \<noteq> next_token db) \<and>
    mk_grant (claimed_job p worker (next_token db) lid (now + d) j) l recovered = Inr g \<and>
    db' = save_job (claimed_job p worker (next_token db) lid (now + d) j)
      (db\<lparr>fencing_counter := Some (next_token db + 1), leases := leases db @ [l]\<rparr>)"
proof -
  have c: "ensure_fencing_counter db = (next_token db, db\<lparr>fencing_counter := Some (next_token db)\<rparr>)"
    by (cases "fencing_counter db") (simp_all add: ensure_fencing_counter_def next_token_def)
  have a: "next_lease_attempt (j_id j) (db\<lparr>fencing_counter := x\<rparr>) = next_lease_attempt (j_id j) db" for x
    by (simp add: next_lease_attempt_def)
  show ?thesis using assms
    by (auto simp: grant_lease_def c a Let_def claimed_job_def insert_lease_def list_ex_iff claimed_lease_def
        split: if_split_asm)
qed

lemma claimed_lease_simps [simp]:
  "l_id (claimed_lease e p j lid w a t now x) = lid" "l_job (claimed_lease e p j lid w a t now x) = j_id j"
  "l_token (claimed_lease e p j lid w a t now x) = t" "l_owner (claimed_lease e p j lid w a t now x) = w"
  "l_released (claimed_lease e p j lid w a t now x) = None" "l_attempt (claimed_lease e p j lid w a t now x) = a"
  "l_expires (claimed_lease e p j lid w a t now x) = x" "l_heartbeat (claimed_lease e p j lid w a t now x) = now"
  "l_key (claimed_lease e p j lid w a t now x) = lease_key (j_id j) a"
  by (simp_all add: claimed_lease_def lease_key_def)

lemma next_attempt_released:
  assumes "distinct (map l_id (leases db))" "k \<in> set (leases db)" "same_lease k l"
  shows "next_lease_attempt i (save_lease l db) = next_lease_attempt i db"
proof -
  have "map (\<lambda>l. (l_job l, l_attempt l)) (row_leases l (leases db)) = map (\<lambda>l. (l_job l, l_attempt l)) (leases db)"
    by (rule map_row_leases [of _ l k]) (use assms in \<open>auto simp: same_lease_def\<close>)
  then have "filter (\<lambda>x. fst x = i) (map (\<lambda>l. (l_job l, l_attempt l)) (row_leases l (leases db))) =
      filter (\<lambda>x. fst x = i) (map (\<lambda>l. (l_job l, l_attempt l)) (leases db))" by simp
  then have "map snd (filter (\<lambda>x. fst x = i) (map (\<lambda>l. (l_job l, l_attempt l)) (row_leases l (leases db)))) =
      map snd (filter (\<lambda>x. fst x = i) (map (\<lambda>l. (l_job l, l_attempt l)) (leases db)))" by simp
  then show ?thesis by (simp add: next_lease_attempt_def filter_map comp_def)
qed

lemma grant_lease_move:
  assumes inv: "job_inv db" and j: "j \<in> set (jobs db)" "j_attempts j < j_max_attempts j" "j_completed_at j = None"
    and prev: "case l0 of None \<Rightarrow> j_status j \<noteq> J_RUNNING
      | Some l \<Rightarrow> \<exists>k \<in> set (leases db). leased_by j k \<and> same_lease k l \<and> lease_row_ok l \<and> l_released l \<noteq> None"
    and db1: "db1 = (case l0 of None \<Rightarrow> db | Some l \<Rightarrow> save_lease l db)"
    and g: "grant_lease e p worker d lid now j recovered db1 = Inr (g, db')"
  shows "lease_move db db'"
proof -
  obtain l where l: "l = claimed_lease e p j lid worker (next_lease_attempt (j_id j) db1) (next_token db1) now (now + d)"
    "lease_row_ok l" "\<forall>x \<in> set (leases db1). l_id x \<noteq> lid"
    "db' = save_job (claimed_job p worker (next_token db1) lid (now + d) j)
      (db1\<lparr>fencing_counter := Some (next_token db1 + 1), leases := leases db1 @ [l]\<rparr>)"
    using grant_lease_Inr [OF g] by blast
  have n: "next_token db1 = next_token db" "jobs db1 = jobs db"
    "leases db1 = (case l0 of None \<Rightarrow> leases db | Some l \<Rightarrow> row_leases l (leases db))"
    by (auto simp: db1 split: option.split)
  have a: "next_lease_attempt (j_id j) db1 = next_lease_attempt (j_id j) db"
    using prev next_attempt_released [OF job_invD(2) [OF inv]] by (auto simp: db1 split: option.splits)
  have ok: "job_row_ok j" using job_invD(5) [OF inv j(1)] by (simp add: job_shape_def)
  let ?j = "claimed_job p worker (next_token db) lid (now + d) j"
  have "job_row_ok ?j" using ok j(2) by (auto simp: job_row_ok_def claimed_job_def)
  moreover have "0 \<le> j_attempts j" using ok by (simp add: job_row_ok_def)
  ultimately show ?thesis
    by (intro lease_move.grant [OF j(1) n(3) prev, of l ?j])
      (use l n a j(3) in \<open>auto simp: same_job_def claimed_job_def leased_by_def\<close>)
qed

text \<open>A claimable job has not been completed.\<close>

lemma claimable_open:
  assumes "job_inv db" "j \<in> set (jobs db)" "claimable types scan db j"
  shows "j_completed_at j = None" "j_status j = J_RUNNING \<or> (j_status j = J_QUEUED \<and> j_attempts j < j_max_attempts j)"
  using job_invD(5) [OF assms(1,2)] assms(3) by (auto simp: job_shape_def claimable_def split: if_split_asm)

lemma claim_step_move:
  assumes inv: "job_inv db" and s: "claim_step e p worker d types lid scan now now2 db = Inr out"
  shows "case out of Nothing_claimed db' \<Rightarrow> db' = db | Exhausted db' \<Rightarrow> lease_move db db'
    | Claimed g db' \<Rightarrow> lease_move db db'"
proof (cases "next_claim types scan db")
  case None
  then show ?thesis using s by (auto simp: claim_step_def)
next
  case (Some j)
  then have j: "j \<in> set (jobs db)" "claimable types scan db j" using next_claim_Some by blast+
  note op = claimable_open [OF inv j]
  show ?thesis
  proof (cases "j_status j = J_RUNNING")
    case False
    then obtain g db' where out: "out = Claimed g db'"
      and g: "grant_lease e p worker d lid now2 j False db = Inr (g, db')"
      using s Some by (auto simp: claim_step_def)
    then show ?thesis
      using grant_lease_move [OF inv j(1) _ op(1), of None] False op(2) by auto
  next
    case True
    then obtain l where l: "find (leased_by j) (leases db) = Some l"
      using s Some by (cases "find (leased_by j) (leases db)") (auto simp: claim_step_def)
    then have run: "l \<in> set (leases db)" "leased_by j l" using find_leased by blast+
    note h = held_lease [OF inv j(1) True run]
    show ?thesis
    proof (cases "lease_expired now j")
      case f: False
      then show ?thesis using s Some True l by (auto simp: claim_step_def)
    next
      case e: True
      show ?thesis
      proof (cases "j_max_attempts j \<le> j_attempts j")
        case x: True
        let ?l = "(release_lease p now ''EXPIRED'' l)\<lparr>l_failure := Some ''LEASE_EXPIRED_ATTEMPTS_EXHAUSTED''\<rparr>"
        let ?j = "finish_job J_FAILED (Some ''LEASE_EXPIRED_ATTEMPTS_EXHAUSTED'') (l_token l) now p j"
        have "out = Exhausted (save_job ?j (save_lease ?l db))"
          using s Some True l e x by (simp add: claim_step_def)
        moreover have "lease_row_ok ?l" using h(8)
          by (auto simp: lease_row_ok_def release_lease_def lease_reasons_def)
        ultimately show ?thesis using h(7)
          by (auto intro!: release_move [OF inv j(1) True run, where j' = ?j and l' = ?l]
              simp: job_row_ok_def same_lease_def release_lease_def)
      next
        case x: False
        let ?l = "release_lease p now ''SUPERSEDED'' l"
        obtain g db' where out: "out = Claimed g db'"
          and g: "grant_lease e p worker d lid now2 j True (save_lease ?l db) = Inr (g, db')"
          using s Some True l e x by (auto simp: claim_step_def)
        have "lease_row_ok ?l" by (rule released_ok [OF h(8)]) (simp add: lease_reasons_def)
        then have "lease_move db db'"
          using x by (intro grant_lease_move [OF inv j(1) _ op(1) _ _ g, of "Some ?l"]) (use run in auto)
        then show ?thesis by (simp add: out)
      qed
    qed
  qed
qed

lemma claim_loop_moves:
  "job_inv db \<Longrightarrow> claim_loop e p worker d types lid clk i db = Inr (g, db') \<Longrightarrow> lease_move\<^sup>*\<^sup>* db db'"
proof (induction e p worker d types lid clk i db rule: claim_loop.induct)
  case (1 e p worker d types lid clk i db)
  obtain out where out: "claim_step e p worker d types lid (clk i) (clk (i + 1)) (clk (i + 2)) db = Inr out"
    using "1.prems"(2) by (subst (asm) claim_loop.simps) (auto split: sum.split_asm)
  note m = claim_step_move [OF "1.prems"(1) out]
  show ?case
  proof (cases out)
    case (Exhausted db1)
    then have "claim_loop e p worker d types lid clk (i + 2) db1 = Inr (g, db')"
      using "1.prems"(2) out by (subst (asm) claim_loop.simps) simp
    moreover have "lease_move db db1" using m Exhausted by simp
    moreover have "job_inv db1" using lease_move_inv [OF \<open>lease_move db db1\<close> "1.prems"(1)] .
    ultimately show ?thesis using "1.IH" [OF out Exhausted] by (metis converse_rtranclp_into_rtranclp)
  next
    case (Nothing_claimed db1)
    then show ?thesis using "1.prems"(2) out m by (simp add: claim_loop.simps [of e p worker d types lid clk i db])
  next
    case (Claimed g1 db1)
    then show ?thesis using "1.prems"(2) out m by (auto simp: claim_loop.simps [of e p worker d types lid clk i db])
  qed
qed

lemma claim_next_moves:
  "job_inv db \<Longrightarrow> claim_next e p w d types clk lid db = Inr (g, db') \<Longrightarrow> lease_move\<^sup>*\<^sup>* db db'"
  by (auto simp: claim_next_def intro: claim_loop_moves)

lemma schedule_cases:
  assumes "schedule e p validate c now jid db = Inr (r, db')"
  obtains (replay) ty key payload t j where "required_identifier max_job_identifier_length (sc_type c) = Inr ty"
      "required_identifier max_idempotency_key_length (sc_key c) = Inr key"
      "safe_payload e (sc_input c) = Inr payload"
      "find (\<lambda>t. t_id t = sc_task c) (tasks db) = Some t" "validate db t = Inr ()"
      "find (\<lambda>j. j_key j = key) (jobs db) = Some j"
      "matching_schedule j (sc_task c) ty
         (schedule_fingerprint e (sc_task c) ty payload (sc_policy c) (sc_available c)) = Inr r" "db' = db"
    | (created) ty key payload t j where "required_identifier max_job_identifier_length (sc_type c) = Inr ty"
      "required_identifier max_idempotency_key_length (sc_key c) = Inr key"
      "safe_payload e (sc_input c) = Inr payload"
      "find (\<lambda>t. t_id t = sc_task c) (tasks db) = Some t" "validate db t = Inr ()"
      "find (\<lambda>j. j_key j = key) (jobs db) = None" "t_state t \<notin> unrunnable_states"
      "\<not> unresolved_outage (t_id t) db"
      "j = scheduled_row p t ty key payload
         (schedule_fingerprint e (sc_task c) ty payload (sc_policy c) (sc_available c)) (sc_policy c)
         (case sc_available c of None \<Rightarrow> now | Some t \<Rightarrow> t) now jid"
      "job_row_ok j" "\<forall>x \<in> set (jobs db). j_id x \<noteq> jid \<and> j_key x \<noteq> key" "r = (jid, False)"
      "db' = (snd (ensure_fencing_counter db))\<lparr>jobs := jobs db @ [j]\<rparr>"
proof -
  have f: "jobs (snd (ensure_fencing_counter db)) = jobs db"
    by (cases "fencing_counter db") (simp_all add: ensure_fencing_counter_def)
  obtain ty key payload t where n: "required_identifier max_job_identifier_length (sc_type c) = Inr ty"
      "required_identifier max_idempotency_key_length (sc_key c) = Inr key"
      "safe_payload e (sc_input c) = Inr payload"
      "find (\<lambda>t. t_id t = sc_task c) (tasks db) = Some t" "validate db t = Inr ()"
    using assms by (auto simp: schedule_def Let_def split: option.split_asm)
  show thesis
  proof (cases "find (\<lambda>j. j_key j = key) (jobs db)")
    case (Some j)
    then show ?thesis using replay [OF n Some] assms n by (auto simp: schedule_def Let_def)
  next
    case None
    define j where "j = scheduled_row p t ty key payload
         (schedule_fingerprint e (sc_task c) ty payload (sc_policy c) (sc_available c)) (sc_policy c)
         (case sc_available c of None \<Rightarrow> now | Some t \<Rightarrow> t) now jid"
    have k: "j_id j = jid" "j_key j = key" by (simp_all add: j_def scheduled_row_def)
    have 1: "t_state t \<notin> unrunnable_states \<and> \<not> unresolved_outage (t_id t) db \<and>
        insert_job j (snd (ensure_fencing_counter db)) = Inr db' \<and> r = (jid, False)"
      using assms n None f
      by (auto simp: schedule_def Let_def j_def [symmetric] split: if_split_asm sum.split_asm)
    then have "job_row_ok j" "\<forall>x \<in> set (jobs db). j_id x \<noteq> jid \<and> j_key x \<noteq> key"
      "db' = (snd (ensure_fencing_counter db))\<lparr>jobs := jobs db @ [j]\<rparr>"
      by (auto simp: insert_job_def k f list_ex_iff split: if_split_asm)
    then show ?thesis using created [OF n None _ _ j_def] 1 by blast
  qed
qed

lemma ensure_counter_simps [simp]:
  "jobs (snd (ensure_fencing_counter db)) = jobs db" "leases (snd (ensure_fencing_counter db)) = leases db"
  "next_token (snd (ensure_fencing_counter db)) = next_token db"
  by (cases "fencing_counter db"; simp add: ensure_fencing_counter_def next_token_def)+

lemma schedule_move:
  assumes "schedule e p validate c now jid db = Inr (r, db')" "rp_max (sc_policy c) \<le> max_retry_seconds"
  shows "lease_move db db'"
  using assms(1)
proof (cases rule: schedule_cases)
  case (replay ty key payload t j)
  then show ?thesis by (auto intro: lease_move.frame)
next
  case (created ty key payload t j)
  then show ?thesis using assms(2)
    by (intro lease_move.enqueue [of db' db j]) (auto simp: scheduled_row_def)
qed

end
