(* ===== verification/Job_Run_Properties.thy ===== *)
theory Job_Run_Properties
  imports Job_Lease_Properties
begin

text \<open>
  What every run of the job service guarantees.  A run is any sequence of the modelled commands,
  by any workers, with any clock readings and UUID draws; a command that raises leaves the
  database as it was.
\<close>

subsection \<open>Commands and runs\<close>

datatype job_command =
    Schedule_job uuid string string json "int \<times> int \<times> int" "instant option" instant uuid
  | Claim_next string int "string list" "nat \<Rightarrow> instant" uuid
  | Reconcile_expired int instant
  | Heartbeat grant int instant
  | Checkpoint grant int string json instant uuid
  | Prepare_effect grant string string json instant uuid
  | Record_effect grant uuid effect_result int string json instant uuid
  | Complete grant int "string option" "json option" instant uuid
  | Fail_attempt grant string bool instant
  | Pause_attempt grant string instant
  | Issue_tool_grant grant string json instant uuid
  | Register_process grant process_identity instant uuid uuid
  | Register_target grant target_kind string json instant uuid
  | Transition_task grant job_transition_command instant uuid

datatype job_answer =
    A_scheduled uuid bool | A_claimed "grant option" | A_recovered "uuid list" | A_lease grant
  | A_checkpoint checkpoint_result | A_prepared prepared_effect | A_done | A_failed disposition
  | A_process uuid uuid bool | A_bound uuid bool | A_transition transition_result

definition answer :: "('r \<Rightarrow> job_answer) \<Rightarrow> job_error + 'r \<times> 'd \<Rightarrow> job_error + job_answer \<times> 'd" where
  "answer f m = bindE m (\<lambda>(r, db). Inr (f r, db))"

lemma answer_Inr [simp]: "answer f m = Inr (a, db) \<longleftrightarrow> (\<exists>r. m = Inr (r, db) \<and> a = f r)"
  by (cases m) (auto simp: answer_def)

fun exec_job ::
  "env \<Rightarrow> string \<Rightarrow> ('a job_db_scheme \<Rightarrow> task_row \<Rightarrow> job_error + unit) \<Rightarrow> 'a job_db_scheme gate_evaluator \<Rightarrow>
   job_command \<Rightarrow> 'a job_db_scheme \<Rightarrow> job_error + job_answer \<times> 'a job_db_scheme" where
  "exec_job e p validate gate (Schedule_job task ty key input (a, b, m) available now jid) db =
     bindE (mk_retry_policy a b m) (\<lambda>policy. answer (\<lambda>(i, r). A_scheduled i r)
       (schedule e p validate \<lparr>sc_task = task, sc_type = ty, sc_key = key, sc_input = input,
          sc_policy = policy, sc_available = available\<rparr> now jid db))"
| "exec_job e p validate gate (Claim_next w d types clk lid) db =
     answer A_claimed (claim_next e p w d types clk lid db)"
| "exec_job e p validate gate (Reconcile_expired limit now) db =
     answer A_recovered (reconcile_expired_leases p limit now db)"
| "exec_job e p validate gate (Heartbeat g d now) db = answer A_lease (heartbeat p g d now db)"
| "exec_job e p validate gate (Checkpoint g v key payload now cid) db =
     answer A_checkpoint (checkpoint e p g v key payload now cid db)"
| "exec_job e p validate gate (Prepare_effect g key ty request now fid) db =
     answer A_prepared (prepare_effect e g key ty request now fid db)"
| "exec_job e p validate gate (Record_effect g i r v key payload now cid) db =
     answer A_checkpoint (record_effect_result e p g i r v key payload now cid db)"
| "exec_job e p validate gate (Complete g v key payload now cid) db =
     answer (\<lambda>_. A_done) (complete e p g v key payload now cid db)"
| "exec_job e p validate gate (Fail_attempt g code retryable now) db =
     answer A_failed (fail_attempt e p g code retryable now db)"
| "exec_job e p validate gate (Pause_attempt g code now) db =
     answer (\<lambda>_. A_done) (pause_attempt p g code now db)"
| "exec_job e p validate gate (Issue_tool_grant g key scope now gid) db =
     answer (\<lambda>(i, r). A_bound i r) (issue_tool_grant e g key scope now gid db)"
| "exec_job e p validate gate (Register_process g ident now hid tid) db =
     answer (\<lambda>(i, n, r). A_process i n r) (register_owned_process e g ident now hid tid db)"
| "exec_job e p validate gate (Register_target g kind key v now tid) db =
     answer (\<lambda>(i, r). A_bound i r) (register_reconciliation_target e g kind key v now tid db)"
| "exec_job e p validate gate (Transition_task g c now eid) db =
     answer A_transition (job_transition_task e p gate g c now eid db)"

text \<open>The lease a command acts under and the time at which it is checked.\<close>

fun worker_grant :: "job_command \<Rightarrow> (grant \<times> instant) option" where
  "worker_grant (Heartbeat g d now) = Some (g, now)"
| "worker_grant (Checkpoint g v key payload now cid) = Some (g, now)"
| "worker_grant (Prepare_effect g key ty request now fid) = Some (g, now)"
| "worker_grant (Record_effect g i r v key payload now cid) = Some (g, now)"
| "worker_grant (Complete g v key payload now cid) = Some (g, now)"
| "worker_grant (Fail_attempt g code retryable now) = Some (g, now)"
| "worker_grant (Pause_attempt g code now) = Some (g, now)"
| "worker_grant (Issue_tool_grant g key scope now gid) = Some (g, now)"
| "worker_grant (Register_process g ident now hid tid) = Some (g, now)"
| "worker_grant (Register_target g kind key v now tid) = Some (g, now)"
| "worker_grant (Transition_task g c now eid) = Some (g, now)"
| "worker_grant _ = None"

lemma worker_current:
  assumes "exec_job e p validate gate c db = Inr (a, db')" "worker_grant c = Some (g, now)"
  shows "\<exists>j l. current_lease g now db = Inr (j, l)"
  using assms
  by (cases c)
    (auto elim!: prepare_effect_cases simp: heartbeat_def checkpoint_def record_effect_result_def complete_def
      fail_attempt_def pause_attempt_def issue_tool_grant_def register_owned_process_def
      register_reconciliation_target_def job_transition_task_def Let_def
      split: if_split_asm option.split_asm)

lemma exec_job_moves:
  assumes "job_inv db" "exec_job e p validate gate c db = Inr (a, db')"
  shows "lease_move\<^sup>*\<^sup>* db db'"
proof (cases c)
  case (Schedule_job t ty k v pol av now jid)
  obtain x y z where "pol = (x, y, z)" by (cases pol) auto
  then show ?thesis using assms Schedule_job schedule_move [of e p validate]
    by (fastforce simp: mk_retry_policy_def split: if_split_asm)
next
  case (Claim_next w d types clk lid)
  then show ?thesis using assms claim_next_moves by fastforce
next
  case (Reconcile_expired limit now)
  then show ?thesis using assms reconcile_expired_leases_moves by fastforce
qed (use assms in \<open>auto intro!: r_into_rtranclp intro: heartbeat_move checkpoint_move
      prepare_effect_move record_effect_result_move complete_move fail_attempt_move pause_attempt_move
      binding_moves job_transition_task_move\<close>)

definition last_mark :: "'a job_db_scheme \<Rightarrow> uuid \<Rightarrow> int" where
  "last_mark db i = (case find_job i db of None \<Rightarrow> 0
     | Some j \<Rightarrow> (case j_last_token j of None \<Rightarrow> 0 | Some t \<Rightarrow> t))"

lemma find_row_jobs:
  "find (\<lambda>j. j_id j = i) (row_jobs j' js) =
   (case find (\<lambda>j. j_id j = i) js of None \<Rightarrow> None | Some k \<Rightarrow> Some (if i = j_id j' then j' else k))"
  by (induction js) (auto simp: row_jobs_def split: option.splits)

lemma last_mark_row:
  assumes "jobs db' = row_jobs j' (jobs db)" "job_inv db" "j \<in> set (jobs db)" "j_id j' = j_id j"
    and "\<And>t. j_last_token j = Some t \<Longrightarrow> t \<le> u" "j_last_token j' = Some u" "0 \<le> u"
  shows "last_mark db i \<le> last_mark db' i"
proof -
  have f: "find (\<lambda>k. j_id k = j_id j) (jobs db) = Some j"
    by (rule find_key [OF job_invD(1) [OF assms(2)] assms(3)])
  show ?thesis
    using assms f by (auto simp: last_mark_def find_job_def find_row_jobs split: option.splits)
qed

lemma lease_token_pos: "lease_row_ok l \<Longrightarrow> 0 < l_token l"
  by (simp add: lease_row_ok_def)

lemma lease_move_mono: "lease_move db db' \<Longrightarrow> job_inv db \<Longrightarrow> last_mark db i \<le> last_mark db' i"
proof (induction rule: lease_move.induct)
  case (frame db' db)
  then show ?case by (simp add: last_mark_def find_job_def)
next
  case (enqueue db' db j)
  then show ?case by (auto simp: last_mark_def find_job_def find_append split: option.split)
next
  case (work j db l j' l' db')
  then show ?case
    using held_lease(6,8) [OF work.prems work.hyps(1-4)] lease_token_pos
    by (intro last_mark_row [of db' j' db j "l_token l"]) (auto simp: same_job_def less_imp_le)
next
  case (grant j db ls1 l0 l j' db')
  have "t \<le> l_token l" if "j_last_token j = Some t" for t
  proof -
    have "t \<in> job_tokens (leases db) (j_id j)"
      using job_invD(6) [OF grant.prems grant.hyps(1)] that by (simp add: tokens_below_def)
    then show ?thesis using job_invD(7) [OF grant.prems] grant.hyps(5)
      by (auto simp: job_tokens_def lease_shape_def less_imp_le)
  qed
  then show ?case using grant lease_token_pos [OF grant.hyps(4)]
    by (intro last_mark_row [of db' j' db j "l_token l"]) (auto simp: same_job_def less_imp_le)
qed

lemma lease_moves_mono: "lease_move\<^sup>*\<^sup>* db db' \<Longrightarrow> job_inv db \<Longrightarrow> last_mark db i \<le> last_mark db' i"
proof (induction rule: rtranclp_induct)
  case (step y z)
  have "last_mark db i \<le> last_mark y i" using step by blast
  also have "\<dots> \<le> last_mark z i"
    using lease_move_mono [OF step.hyps(2)] lease_moves_inv [OF step.hyps(1)] step.prems by blast
  finally show ?case .
qed simp

interpretation job_service: transactional_service "exec_job e p validate gate" job_inv
  for e p validate gate
  by unfold_locales (meson exec_job_moves lease_moves_inv)

interpretation job_fence: monotone_service "exec_job e p validate gate" job_inv last_mark
  for e p validate gate
  by unfold_locales (meson exec_job_moves lease_moves_mono)

definition empty_queue :: "'a job_db_scheme \<Rightarrow> bool" where
  "empty_queue db \<longleftrightarrow> jobs db = [] \<and> leases db = [] \<and> checkpoints db = [] \<and> effects db = [] \<and>
     1 \<le> next_token db"

lemma empty_queue_inv: "empty_queue db \<Longrightarrow> job_inv db"
  by (simp add: empty_queue_def job_inv_def)

lemma run_job_inv:
  "empty_queue db \<Longrightarrow> job_inv (run_service (exec_job e p validate gate) cs db)"
  by (rule job_service.run_inv [OF empty_queue_inv])

end
