(* ===== verification/Job_Log_Properties.thy ===== *)
theory Job_Log_Properties
  imports Job_Run_Properties
begin

text \<open>
  The checkpoint log and the external effects of a job.  \<open>quiet\<close> operations touch neither;
  the others append one checkpoint, prepare one effect or settle one.
\<close>

subsection \<open>Operations that leave log and effects alone\<close>

definition log_key :: "job_row \<Rightarrow> uuid \<times> int \<times> json option" where
  "log_key j = (j_id j, j_checkpoint_version j, j_checkpoint j)"

definition quiet :: "'a job_db_scheme \<Rightarrow> 'a job_db_scheme \<Rightarrow> bool" where
  "quiet db db' \<longleftrightarrow> checkpoints db' = checkpoints db \<and> effects db' = effects db \<and>
     map log_key (jobs db') = map log_key (jobs db) \<and>
     (\<forall>j \<in> set (jobs db'). j_status j = J_SUCCEEDED \<longrightarrow> j \<in> set (jobs db))"

lemma quiet_refl [simp]: "quiet db db"
  by (simp add: quiet_def)

lemma quiet_trans: "quiet a b \<Longrightarrow> quiet b c \<Longrightarrow> quiet a c"
  by (auto simp: quiet_def)

lemma quiet_frame:
  "checkpoints db' = checkpoints db \<Longrightarrow> effects db' = effects db \<Longrightarrow> jobs db' = jobs db \<Longrightarrow> quiet db db'"
  by (simp add: quiet_def)

lemma quiet_row:
  assumes "distinct (map j_id (jobs db))" "j \<in> set (jobs db)" "log_key j' = log_key j"
    and "j_status j' \<noteq> J_SUCCEEDED" "checkpoints db' = checkpoints db" "effects db' = effects db"
    and "jobs db' = row_jobs j' (jobs db)"
  shows "quiet db db'"
proof -
  have id: "j_id j' = j_id j" using assms(3) by (simp add: log_key_def)
  show ?thesis using assms set_row_jobs [OF assms(1,2) id] map_row_jobs [OF assms(3) id assms(1,2)]
    by (auto simp: quiet_def)
qed

lemma saves_log [simp]:
  "checkpoints (save_job j db) = checkpoints db" "effects (save_job j db) = effects db"
  "checkpoints (save_lease l db) = checkpoints db" "effects (save_lease l db) = effects db"
  by (simp_all add: save_job_def save_lease_def)

lemma current_job: "job_inv db \<Longrightarrow> current_lease g now db = Inr (j, l) \<Longrightarrow>
    distinct (map j_id (jobs db)) \<and> j \<in> set (jobs db)"
  using current_lease_Inr(1) job_invD(1) by blast

lemma heartbeat_quiet:
  assumes inv: "job_inv db" and h: "heartbeat p g d now db = Inr (r, db')"
  shows "quiet db db'"
proof -
  obtain j l x lx where cur: "current_lease g now db = Inr (j, l)" and
    db': "db' = save_job (j\<lparr>j_lease_expires := x, j_last_token := Some (gr_token g), j_actor := p\<rparr>) (save_lease lx db)"
    using h by (auto simp: heartbeat_def Let_def)
  show ?thesis using current_job [OF inv cur] current_lease_Inr(4) [OF cur]
    by (intro quiet_row [of db j "j\<lparr>j_lease_expires := x, j_last_token := Some (gr_token g), j_actor := p\<rparr>"])
      (simp_all add: db' log_key_def)
qed

lemma fail_attempt_quiet:
  assumes inv: "job_inv db" and f: "fail_attempt e p g code retryable now db = Inr (d, db')"
  shows "quiet db db'"
proof -
  obtain n j l where cur: "current_lease g now db = Inr (j, l)"
    and r: "release_failed_attempt e p g n retryable now j l db = Inr (d, db')"
    using f by (rule fail_attempt_Inr)
  obtain retry_at where db': "db' = save_job (failed_job p n (gr_token g) retry_at now j)
      (save_lease (failed_lease p n retry_at now l) db)"
    using r by (rule release_failed_attempt_Inr)
  have "log_key (failed_job p n (gr_token g) retry_at now j) = log_key j"
    by (auto simp: log_key_def failed_job_def split: option.split)
  then show ?thesis using current_job [OF inv cur]
    by (intro quiet_row [of db j "failed_job p n (gr_token g) retry_at now j"]) (auto simp: db')
qed

lemma pause_attempt_quiet:
  assumes inv: "job_inv db" and f: "pause_attempt p g code now db = Inr (u, db')"
  shows "quiet db db'"
proof -
  obtain n j l where cur: "current_lease g now db = Inr (j, l)"
    and db': "db' = save_job (paused_job p n (gr_token g) now j) (save_lease (release_lease p now ''RETRY'' l) db)"
    using f by (rule pause_attempt_Inr)
  then show ?thesis using current_job [OF inv cur]
    by (intro quiet_row [of db j "paused_job p n (gr_token g) now j"]) (auto simp: paused_job_def log_key_def)
qed

lemma binding_quiet:
  "issue_tool_grant e g key scope now gid db = Inr (a, db') \<Longrightarrow> quiet db db'"
  "register_owned_process e g ident now hid tid db = Inr (b, db') \<Longrightarrow> quiet db db'"
  "register_reconciliation_target e g kind tkey v now tid db = Inr (c, db') \<Longrightarrow> quiet db db'"
  by (auto simp: issue_tool_grant_def register_owned_process_def register_reconciliation_target_def Let_def
      intro!: quiet_frame split: option.split_asm if_split_asm dest!: insert_frame)

lemma job_transition_task_quiet:
  assumes "job_transition_task e p gate g c now eid db = Inr (r, db')"
  shows "quiet db db'"
  using assms
proof (rule job_transition_task_Inr)
  fix j l db1
  assume "transition_task e gate (jt_lineage c)
      \<lparr>tc_task = gr_task g, tc_id = jt_id c, tc_expected = jt_expected c,
       tc_kind = jt_kind c, tc_reason = jt_reason c, tc_actor = p,
       tc_evidence = jt_evidence c, tc_candidate = jt_candidate c\<rparr> now eid db = Inr (r, db1)"
  then obtain ev rf ts where "db1 = db\<lparr>events := ev, references := rf, tasks := ts\<rparr>"
    using transition_task_frame by blast
  moreover assume "if tr_replayed r
     then db' = db1 \<and> (\<exists>x \<in> set (job_transitions db1). x_event x = tr_event r \<and> x_job x = j_id j)
     else db' = db1\<lparr>job_transitions := job_transitions db1 @ [\<lparr>x_job = j_id j, x_lease = l_id l,
       x_token = l_token l, x_task = gr_task g, x_event = tr_event r, x_recorded_at = now\<rparr>]\<rparr>"
  ultimately show ?thesis by (auto intro!: quiet_frame split: if_split_asm)
qed

lemma recover_job_quiet:
  assumes "distinct (map j_id (jobs db))" "j \<in> set (jobs db)" "recover_job p now j db = Inr db'"
  shows "quiet db db'"
proof -
  obtain l where "find (leased_by j) (leases db) = Some l" "l_released l = None"
    using assms(3) by (cases "find (leased_by j) (leases db)") (auto simp: recover_job_def split: if_split_asm)
  then obtain j' l' where "db' = save_job j' (save_lease l' db)" "log_key j' = log_key j" "j_status j' \<noteq> J_SUCCEEDED"
    using assms(3) unfolding recover_job_def
    by (cases "j_cancel_requested j = None"; cases "j_max_attempts j \<le> j_attempts j")
      (auto simp: Let_def finish_job_def log_key_def)
  then show ?thesis using quiet_row [OF assms(1,2), of j'] by simp
qed

lemma recover_jobs_quiet:
  assumes "job_inv db" "recover_jobs p now js db = Inr db'" "distinct (map j_id js)"
    "\<forall>j \<in> set js. j \<in> set (jobs db) \<and> j_status j = J_RUNNING"
  shows "quiet db db'"
  using assms
proof (induction js arbitrary: db)
  case (Cons j js)
  obtain db1 where d: "recover_job p now j db = Inr db1" "recover_jobs p now js db1 = Inr db'"
    using Cons.prems(2) by auto
  have m: "lease_move db db1" using recover_job_move [OF Cons.prems(1) _ _ d(1)] Cons.prems(4) by simp
  have "\<forall>k \<in> set js. k \<in> set (jobs db1) \<and> j_status k = J_RUNNING"
    using Cons.prems(3,4) recover_job_others [OF d(1)] by (auto simp: image_iff)
  then have "quiet db1 db'"
    using Cons.IH [OF lease_move_inv [OF m Cons.prems(1)] d(2)] Cons.prems(3) by simp
  moreover have "quiet db db1"
    using recover_job_quiet [OF job_invD(1) [OF Cons.prems(1)] _ d(1)] Cons.prems(4) by simp
  ultimately show ?case by (rule quiet_trans [rotated])
qed simp

lemma reconcile_quiet:
  "job_inv db \<Longrightarrow> reconcile_expired_leases p limit now db = Inr (is, db') \<Longrightarrow> quiet db db'"
  using expired_jobs_props [of db "nat limit" now]
  by (auto simp: reconcile_expired_leases_def Let_def intro: recover_jobs_quiet split: if_split_asm)

lemma grant_lease_quiet:
  assumes "distinct (map j_id (jobs db))" "j \<in> set (jobs db)" "jobs db1 = jobs db"
    "checkpoints db1 = checkpoints db" "effects db1 = effects db"
    "grant_lease e p worker d lid now j recovered db1 = Inr (g, db')"
  shows "quiet db db'"
proof -
  obtain l where "db' = save_job (claimed_job p worker (next_token db1) lid (now + d) j)
      (db1\<lparr>fencing_counter := Some (next_token db1 + 1), leases := leases db1 @ [l]\<rparr>)"
    using grant_lease_Inr [OF assms(6)] by blast
  then show ?thesis
    using assms(3-5) by (intro quiet_row [OF assms(1,2), of "claimed_job p worker (next_token db1) lid (now + d) j"])
      (simp_all add: log_key_def claimed_job_def)
qed

lemma claim_step_quiet:
  assumes inv: "job_inv db" and s: "claim_step e p worker d types lid scan now now2 db = Inr out"
  shows "case out of Nothing_claimed db' \<Rightarrow> db' = db | Exhausted db' \<Rightarrow> quiet db db' | Claimed g db' \<Rightarrow> quiet db db'"
proof (cases "next_claim types scan db")
  case None
  then show ?thesis using s by (auto simp: claim_step_def)
next
  case (Some j)
  then have j: "j \<in> set (jobs db)" using next_claim_Some by blast
  have gl: "grant_lease e p worker d lid now2 j r (save_lease l' db) = Inr (g, db') \<Longrightarrow> quiet db db'"
    "grant_lease e p worker d lid now2 j r db = Inr (g, db') \<Longrightarrow> quiet db db'" for r l' g db'
    by (rule grant_lease_quiet [OF job_invD(1) [OF inv] j]; simp)+
  show ?thesis
  proof (cases "j_status j = J_RUNNING")
    case False
    then show ?thesis using s Some by (auto simp: claim_step_def intro: gl)
  next
    case True
    then obtain l where l: "find (leased_by j) (leases db) = Some l"
      using s Some by (cases "find (leased_by j) (leases db)") (auto simp: claim_step_def)
    have "quiet db (save_job (finish_job J_FAILED c k now p j) (save_lease l' db))" for c k l'
      by (rule quiet_row [OF job_invD(1) [OF inv] j, of "finish_job J_FAILED c k now p j"])
        (simp_all add: log_key_def finish_job_def)
    then show ?thesis using s Some True l
      by (auto simp: claim_step_def split: if_split_asm dest: gl)
  qed
qed

lemma claim_loop_quiet:
  "job_inv db \<Longrightarrow> claim_loop e p worker d types lid clk i db = Inr (g, db') \<Longrightarrow> quiet db db'"
proof (induction e p worker d types lid clk i db rule: claim_loop.induct)
  case (1 e p worker d types lid clk i db)
  obtain out where out: "claim_step e p worker d types lid (clk i) (clk (i + 1)) (clk (i + 2)) db = Inr out"
    using "1.prems"(2) by (subst (asm) claim_loop.simps) (auto split: sum.split_asm)
  note m = claim_step_move [OF "1.prems"(1) out] and q = claim_step_quiet [OF "1.prems"(1) out]
  show ?case
  proof (cases out)
    case (Exhausted db1)
    then have "claim_loop e p worker d types lid clk (i + 2) db1 = Inr (g, db')"
      using "1.prems"(2) out by (subst (asm) claim_loop.simps) simp
    moreover have "job_inv db1" using lease_move_inv "1.prems"(1) m Exhausted by fastforce
    ultimately have "quiet db1 db'" using "1.IH" [OF out Exhausted] by blast
    then show ?thesis using quiet_trans q Exhausted by fastforce
  next
    case (Nothing_claimed db1)
    then show ?thesis using "1.prems"(2) out q by (simp add: claim_loop.simps [of e p worker d types lid clk i db])
  next
    case (Claimed g1 db1)
    then show ?thesis using "1.prems"(2) out q by (auto simp: claim_loop.simps [of e p worker d types lid clk i db])
  qed
qed

lemma claim_next_quiet:
  "job_inv db \<Longrightarrow> claim_next e p w d types clk lid db = Inr (g, db') \<Longrightarrow> quiet db db'"
  by (auto simp: claim_next_def intro: claim_loop_quiet)

subsection \<open>The checkpoint log\<close>

definition job_log :: "'a job_db_scheme \<Rightarrow> uuid \<Rightarrow> checkpoint_row list" where
  "job_log db i = filter (\<lambda>c. c_job c = i) (checkpoints db)"

text \<open>The log of a job is numbered 1, 2, 3, ...; the job row projects its length and last payload.\<close>

definition log_projected :: "'a job_db_scheme \<Rightarrow> uuid \<times> int \<times> json option \<Rightarrow> bool" where
  "log_projected db k \<longleftrightarrow> (case k of (i, v, payload) \<Rightarrow> v = int (length (job_log db i)) \<and>
     map c_sequence (job_log db i) = map int [1..<Suc (length (job_log db i))] \<and>
     payload = (if job_log db i = [] then None else Some (c_payload (last (job_log db i)))))"

definition log_ok :: "'a job_db_scheme \<Rightarrow> bool" where
  "log_ok db \<longleftrightarrow> (\<forall>k \<in> set (map log_key (jobs db)). log_projected db k) \<and>
     (\<forall>c \<in> set (checkpoints db). c_job c \<in> j_id ` set (jobs db) \<and>
        c_token c \<le> last_mark db (c_job c)) \<and>
     (\<forall>i. sorted (map c_token (job_log db i)))"

lemma log_keep:
  assumes "log_ok db" "checkpoints db' = checkpoints db" "map log_key (jobs db') = map log_key (jobs db)"
    and "\<And>i. last_mark db i \<le> last_mark db' i"
  shows "log_ok db'"
proof -
  have l: "job_log db' i = job_log db i" for i by (simp add: job_log_def assms(2))
  have p: "log_projected db' = log_projected db" by (auto simp: log_projected_def l)
  have "map fst (map log_key (jobs db')) = map fst (map log_key (jobs db))" by (simp only: assms(3))
  then have "map j_id (jobs db') = map j_id (jobs db)" by (simp add: comp_def log_key_def)
  then have i: "j_id ` set (jobs db') = j_id ` set (jobs db)" by (metis list.set_map)
  show ?thesis using assms(1,4) unfolding log_ok_def assms(2,3) p l i by (meson order_trans)
qed

lemma quiet_log: "log_ok db \<Longrightarrow> quiet db db' \<Longrightarrow> (\<And>i. last_mark db i \<le> last_mark db' i) \<Longrightarrow> log_ok db'"
  by (rule log_keep) (simp_all add: quiet_def)

lemma current_last_mark:
  assumes "job_inv db" "current_lease g now db = Inr (j, l)"
  shows "last_mark db (j_id j) = l_token l"
proof -
  note c = current_lease_Inr [OF assms(2)]
  show ?thesis using held_lease(6) [OF assms(1) c(1,4,2,3)] c(5,6)
    by (simp add: last_mark_def)
qed

lemma append_checkpoint_log:
  assumes inv: "job_inv db" and cur: "current_lease g now db = Inr (j, l)" and log: "log_ok db"
    and a: "append_checkpoint p j l expected key payload fp now cid db1 = Inr (r, db')"
    and db1: "jobs db1 = jobs db" "checkpoints db1 = checkpoints db"
    and mono: "\<And>i. last_mark db i \<le> last_mark db' i"
  shows "log_ok db'"
proof (cases "cr_replayed r")
  case True
  then have "db' = db1" using append_checkpoint_Inr [OF a] by simp
  then show ?thesis using log_keep [OF log _ _ mono] db1 by simp
next
  case False
  note cu = current_lease_Inr [OF cur]
  obtain c where c0: "c = \<lparr>c_id = cid, c_job = j_id j, c_lease = l_id l, c_token = l_token l,
        c_sequence = expected + 1, c_key = key, c_fingerprint = fp, c_payload = payload,
        c_recorded_at = now\<rparr>"
    and v: "j_checkpoint_version j = expected"
    and db': "db' = save_lease (checkpointed_lease p payload (expected + 1) l)
        (save_job (checkpointed_job p payload (expected + 1) (l_token l) j)
          (db1\<lparr>checkpoints := checkpoints db1 @ [c]\<rparr>))"
    using append_checkpoint_Inr [OF a] False by auto
  have c: "c_job c = j_id j" "c_token c = l_token l" "c_sequence c = expected + 1" "c_payload c = payload"
    by (simp_all add: c0)
  let ?j = "checkpointed_job p payload (expected + 1) (l_token l) j"
  have js: "set (jobs db') = insert ?j (set (jobs db) - {j})"
    using set_row_jobs [OF job_invD(1) [OF inv] cu(1), of ?j] db1 by (simp add: db' checkpointed_job_def)
  have cs: "checkpoints db' = checkpoints db @ [c]" by (simp add: db' db1)
  have l: "job_log db' i = job_log db i @ (if i = j_id j then [c] else [])" for i
    using c(1) by (simp add: job_log_def cs)
  have old: "log_projected db (log_key j)" using log cu(1) by (auto simp: log_ok_def)
  have P: "log_projected db' (log_key k)" if k: "k \<in> set (jobs db')" for k
  proof (cases "k = ?j")
    case True
    have n: "map int [Suc 0..<Suc (Suc m)] = map int [Suc 0..<Suc m] @ [int m + 1]" for m by simp
    show ?thesis using old c v unfolding True
      by (simp add: log_projected_def log_key_def checkpointed_job_def l n del: upt_Suc)
  next
    case False
    then have "k \<in> set (jobs db)" "k \<noteq> j" using k js by auto
    moreover from this have "j_id k \<noteq> j_id j" using job_id_unique [OF inv _ cu(1)] by blast
    ultimately show ?thesis using log by (auto simp: log_ok_def log_projected_def log_key_def l)
  qed
  have ids: "j_id ` set (jobs db') = j_id ` set (jobs db)"
    using js cu(1) by (auto simp: checkpointed_job_def image_iff)
  have jl: "j_id j \<in> j_id ` set (jobs db)" using cu(1) by simp
  have mark: "l_token l \<le> last_mark db' (j_id j)" using mono [of "j_id j"] current_last_mark [OF inv cur] by simp
  have sorted: "sorted (map c_token (job_log db' i))" for i
  proof -
    have "\<forall>x \<in> set (job_log db (j_id j)). c_token x \<le> l_token l"
      using log current_last_mark [OF inv cur] by (auto simp: log_ok_def job_log_def)
    then show ?thesis using log c by (auto simp: log_ok_def l sorted_append)
  qed
  have "\<forall>x \<in> set (checkpoints db'). c_job x \<in> j_id ` set (jobs db') \<and> c_token x \<le> last_mark db' (c_job x)"
    using log mono c jl mark by (auto simp: log_ok_def cs ids intro: order_trans)
  then show ?thesis using P sorted by (auto simp: log_ok_def)
qed

lemma checkpoint_Inr:
  assumes "checkpoint e p g expected key payload now cid db = Inr (r, db')"
  obtains k v j l where "current_lease g now db = Inr (j, l)" "safe_payload e payload = Inr v"
    "append_checkpoint p j l expected k v (fingerprint (sha256 e) v) now cid db = Inr (r, db')"
  using assms by (auto simp: checkpoint_def)

text \<open>After the final checkpoint the job row that \<open>complete\<close> finishes is the stored one.\<close>

lemma final_rows_stored:
  assumes inv: "job_inv db" and cur: "current_lease g now db = Inr (j, l)"
    and f: "final_rows e p j l expected final now cid db = Inr (j1, l1, db1)"
  shows "j1 \<in> set (jobs db1) \<and> j_last_token j1 = Some (l_token l) \<and>
    (db1 = db \<or> (\<exists>k v r. append_checkpoint p j l expected k v (fingerprint (sha256 e) v) now cid db = Inr (r, db1)))"
proof -
  note cu = current_lease_Inr [OF cur]
  have last: "j_last_token j = Some (l_token l)" using held_lease(6) [OF inv cu(1,4,2,3)] .
  show ?thesis
  proof (cases final)
    case None
    then show ?thesis using f cu(1) last by (auto simp: final_rows_def split: if_split_asm)
  next
    case (Some kp)
    then obtain key payload where kp: "final = Some (key, payload)" by (cases kp) auto
    then obtain k v r where a: "append_checkpoint p j l expected k v (fingerprint (sha256 e) v) now cid db = Inr (r, db1)"
      and rows: "j1 = (if cr_replayed r then j else checkpointed_job p v (expected + 1) (l_token l) j)"
      using f by (auto simp: final_rows_def split: if_split_asm)
    show ?thesis
    proof (cases "cr_replayed r")
      case True
      then show ?thesis using append_checkpoint_Inr [OF a] rows cu(1) last by simp
    next
      case False
      then have "jobs db1 = row_jobs (checkpointed_job p v (expected + 1) (l_token l) j) (jobs db)"
        using append_checkpoint_Inr [OF a] by auto
      then have "j1 \<in> set (jobs db1)"
        using set_row_jobs [OF job_invD(1) [OF inv] cu(1), of j1] rows False by (simp add: checkpointed_job_def)
      then show ?thesis using a rows False by (auto simp: checkpointed_job_def)
    qed
  qed
qed

lemma complete_log:
  assumes inv: "job_inv db" and log: "log_ok db"
    and c: "complete e p g expected fk fp now cid db = Inr (u, db')"
  shows "log_ok db'"
  using c
proof (rule complete_Inr)
  fix j l final j1 l1 db1
  assume cur: "current_lease g now db = Inr (j, l)"
    and f: "final_rows e p j l expected final now cid db = Inr (j1, l1, db1)"
    and db': "db' = save_job (finish_job J_SUCCEEDED None (gr_token g) now p j1)
        (save_lease (release_lease p now ''SUCCEEDED'' l1) db1)"
  note cu = current_lease_Inr [OF cur] and st = final_rows_stored [OF inv cur f]
  let ?j = "finish_job J_SUCCEEDED None (gr_token g) now p j1"
  have inv1: "job_inv db1 \<and> log_ok db1"
  proof (cases "db1 = db")
    case False
    then obtain k v r where a: "append_checkpoint p j l expected k v (fingerprint (sha256 e) v) now cid db = Inr (r, db1)"
      using st by blast
    have "lease_move db db1" by (rule append_checkpoint_move [OF inv cur a]) simp_all
    then show ?thesis using lease_move_inv inv lease_move_mono append_checkpoint_log [OF inv cur log a] by blast
  qed (use inv log in simp)
  have pos: "0 < l_token l" using job_invD(7) [OF inv cu(2)] lease_token_pos by (simp add: lease_shape_def)
  have "last_mark db1 i \<le> last_mark db' i" for i
    by (rule last_mark_row [of db' ?j db1 j1 "l_token l"]) (use inv1 st cu(9) pos in \<open>auto simp: db'\<close>)
  moreover have "map log_key (row_jobs ?j (jobs db1)) = map log_key (jobs db1)"
    by (rule map_row_jobs [of log_key ?j j1]) (use job_invD(1) inv1 st in \<open>auto simp: log_key_def finish_job_def\<close>)
  then have "map log_key (jobs db') = map log_key (jobs db1)" by (simp add: db')
  ultimately show ?thesis using log_keep [of db1 db'] inv1 by (simp add: db')
qed

lemma schedule_log:
  assumes "job_inv db" "log_ok db" "schedule e p validate c now jid db = Inr (r, db')"
  shows "log_ok db'"
  using assms(3)
proof (cases rule: schedule_cases)
  case (created ty key payload t j)
  have cs: "checkpoints db' = checkpoints db"
    using created by (cases "fencing_counter db") (simp_all add: ensure_fencing_counter_def)
  have l: "job_log db' i = job_log db i" for i by (simp add: job_log_def cs)
  have js: "jobs db' = jobs db @ [j]" "j_id j = jid" using created by (simp_all add: scheduled_row_def)
  have "job_log db jid = []"
    using assms(2) created(11) by (fastforce simp: log_ok_def job_log_def filter_empty_conv)
  then have "log_projected db' (log_key j)"
    using created(9) by (simp add: log_projected_def log_key_def l scheduled_row_def)
  moreover have "log_projected db' = log_projected db" by (rule ext) (simp add: log_projected_def l del: upt_Suc split: prod.split)
  moreover have "last_mark db i \<le> last_mark db' i" for i
    using created(9,11) by (auto simp: last_mark_def find_job_def js find_append scheduled_row_def split: option.split)
  ultimately show ?thesis using assms(2)
    by (auto simp: log_ok_def js cs l intro: order_trans)
qed (use assms in simp)

lemma exec_job_log:
  assumes inv: "job_inv db" and log: "log_ok db" and x: "exec_job e p validate gate c db = Inr (a, db')"
  shows "log_ok db'"
proof -
  have mono: "last_mark db i \<le> last_mark db' i" for i using lease_moves_mono exec_job_moves [OF inv x] inv by blast
  note q = quiet_log [OF log _ mono]
  show ?thesis
  proof (cases c)
    case (Schedule_job t ty k v pol av now jid)
    then show ?thesis using x schedule_log [OF inv log] by (cases pol) auto
  next
    case (Checkpoint g v key payload now cid)
    then obtain r where "checkpoint e p g v key payload now cid db = Inr (r, db')" using x by auto
    then show ?thesis
      by (rule checkpoint_Inr) (rule append_checkpoint_log [OF inv _ log _ refl refl mono])
  next
    case (Record_effect g i res v key payload now cid)
    then obtain r where r: "record_effect_result e p g i res v key payload now cid db = Inr (r, db')" using x by auto
    then show ?thesis
    proof (rule record_effect_result_Inr)
      fix k v2 q j l f db1
      assume a: "current_lease g now db = Inr (j, l)"
        "append_checkpoint p j l v k v2 (fingerprint (sha256 e) v2) now cid db1 = Inr (r, db')"
        "settle_effect f (if er_succeeded res then E_SUCCEEDED else E_FAILED) q l now db = Inr db1"
      have "jobs db1 = jobs db" "checkpoints db1 = checkpoints db"
        using settle_effect_frame [OF a(3)] settle_effect_Inr [OF a(3)]
        by (auto simp: save_effect_def split: if_split_asm)
      then show ?thesis by (rule append_checkpoint_log [OF inv a(1) log a(2) _ _ mono])
    qed
  next
    case (Complete g v key payload now cid)
    then show ?thesis using x complete_log [OF inv log] by auto
  next
    case (Prepare_effect g key ty request now fid)
    then obtain r where "prepare_effect e g key ty request now fid db = Inr (r, db')" using x by auto
    then have "checkpoints db' = checkpoints db" "jobs db' = jobs db"
      by (auto elim!: prepare_effect_cases dest!: insert_frame)
    then show ?thesis using log_keep [OF log _ _ mono] by simp
  qed (use inv x in \<open>auto intro: q heartbeat_quiet fail_attempt_quiet pause_attempt_quiet binding_quiet
      job_transition_task_quiet reconcile_quiet claim_next_quiet\<close>)
qed

subsection \<open>External effects\<close>

definition effects_ok :: "job_row list \<Rightarrow> effect_row list \<Rightarrow> bool" where
  "effects_ok js fs \<longleftrightarrow> distinct (map f_id fs) \<and> distinct (map f_key fs) \<and>
     (\<forall>f \<in> set fs. effect_row_ok f \<and> f_job f \<in> j_id ` set js) \<and>
     (\<forall>f \<in> set fs. \<forall>h \<in> set fs. f_status f = E_PENDING \<and> f_status h = E_PENDING \<and> f_job f = f_job h \<longrightarrow> f = h) \<and>
     (\<forall>j \<in> set js. j_status j = J_SUCCEEDED \<longrightarrow>
        (\<forall>f \<in> set fs. f_job f = j_id j \<longrightarrow> f_status f \<noteq> E_PENDING))"

text \<open>The identity and request of an effect never change; a settled one never changes at all.\<close>

definition effect_kept :: "effect_row \<Rightarrow> effect_row \<Rightarrow> bool" where
  "effect_kept f f' \<longleftrightarrow> f_id f' = f_id f \<and> f_job f' = f_job f \<and> f_type f' = f_type f \<and>
     f_key f' = f_key f \<and> f_fingerprint f' = f_fingerprint f \<and> f_request f' = f_request f \<and>
     f_started_lease f' = f_started_lease f \<and> f_started_token f' = f_started_token f \<and>
     (f_status f \<noteq> E_PENDING \<longrightarrow> f' = f)"

definition effects_grow :: "'a job_db_scheme \<Rightarrow> 'a job_db_scheme \<Rightarrow> bool" where
  "effects_grow db db' \<longleftrightarrow> (\<forall>f \<in> set (effects db). \<exists>f' \<in> set (effects db'). effect_kept f f')"

lemma effect_kept_refl [simp]: "effect_kept f f"
  by (simp add: effect_kept_def)

lemma effects_grow_same: "effects db' = effects db \<Longrightarrow> effects_grow db db'"
  by (auto simp: effects_grow_def intro: effect_kept_refl)

lemma effects_grow_trans: "effects_grow a b \<Longrightarrow> effects_grow b c \<Longrightarrow> effects_grow a c"
  unfolding effects_grow_def effect_kept_def by metis

lemma effects_ok_jobs:
  assumes "effects_ok js fs" "j_id ` set js \<subseteq> j_id ` set js'"
    and "\<forall>j \<in> set js'. j_status j = J_SUCCEEDED \<longrightarrow> (\<forall>f \<in> set fs. f_job f = j_id j \<longrightarrow> f_status f \<noteq> E_PENDING)"
  shows "effects_ok js' fs"
  using assms by (auto simp: effects_ok_def)

lemma log_key_ids: "map log_key xs = map log_key ys \<Longrightarrow> j_id ` set xs = j_id ` set ys"
proof -
  assume "map log_key xs = map log_key ys"
  then have "map fst (map log_key xs) = map fst (map log_key ys)" by (simp only:)
  then have "map j_id xs = map j_id ys" by (simp add: comp_def log_key_def)
  then show ?thesis by (metis list.set_map)
qed

lemma quiet_effects:
  assumes "effects_ok (jobs db) (effects db)" "quiet db db'"
  shows "effects_ok (jobs db') (effects db') \<and> effects_grow db db'"
proof -
  have q: "effects db' = effects db" "map log_key (jobs db') = map log_key (jobs db)"
    "\<forall>j \<in> set (jobs db'). j_status j = J_SUCCEEDED \<longrightarrow> j \<in> set (jobs db)"
    using assms(2) by (simp_all add: quiet_def)
  note ids = log_key_ids [OF q(2)]
  have "effects_ok (jobs db') (effects db)"
    by (rule effects_ok_jobs [OF assms(1)]) (use q(3) ids assms(1) in \<open>auto simp: effects_ok_def\<close>)
  then show ?thesis using q effects_grow_same by simp
qed

lemma map_upd_key:
  assumes "distinct (map k xs)" "x0 \<in> set xs" "k x = k x0" "g x = g x0"
  shows "map g (upd_rows (\<lambda>y. k y = k x) (\<lambda>_. x) xs) = map g xs"
  using assms by (auto simp: upd_rows_def) (metis distinct_key_unique)

lemma set_upd_key:
  assumes "distinct (map k xs)" "x0 \<in> set xs" "k x = k x0"
  shows "set (upd_rows (\<lambda>y. k y = k x) (\<lambda>_. x) xs) = insert x (set xs - {x0})"
  using assms by (auto simp: set_upd_rows image_iff) (metis distinct_key_unique)+

lemma settle_effects:
  assumes ok: "effects_ok (jobs db) (effects db)" and f: "f \<in> set (effects db)"
    and s: "settle_effect f target q l now db = Inr db1" "target \<noteq> E_PENDING"
  shows "effects_ok (jobs db) (effects db1) \<and> effects_grow db db1"
proof (cases "f_status f = E_PENDING")
  case False
  then show ?thesis using settle_effect_Inr [OF s(1)] ok effects_grow_same [of db db] by simp
next
  case True
  define f' where "f' = f\<lparr>f_status := target, f_done_lease := Some (l_id l),
     f_done_token := Some (l_token l), f_result := Some q, f_done_at := Some now\<rparr>"
  have db1: "effects db1 = upd_rows (\<lambda>x. f_id x = f_id f') (\<lambda>_. f') (effects db)"
    using settle_effect_Inr [OF s(1)] True by (simp add: f'_def save_effect_def)
  have d: "distinct (map f_id (effects db))" using ok by (simp add: effects_ok_def)
  have k: "effect_kept f f'" "f_id f' = f_id f" "f_key f' = f_key f" "f_job f' = f_job f"
    "f_status f' = target" "effect_row_ok f'"
    using True s(2) by (simp_all add: f'_def effect_kept_def effect_row_ok_def)
  have set: "set (effects db1) = insert f' (set (effects db) - {f})"
    unfolding db1 by (rule set_upd_key [OF d f k(2)])
  have maps: "map f_id (effects db1) = map f_id (effects db)" "map f_key (effects db1) = map f_key (effects db)"
    unfolding db1 by (rule map_upd_key [OF d f k(2)]; simp add: k)+
  have "effects_ok (jobs db) (effects db1)"
    using ok f k s(2) unfolding effects_ok_def maps set by auto
  moreover have "effects_grow db db1" unfolding effects_grow_def set
    using k(1) by (metis Diff_iff empty_iff effect_kept_refl insert_iff)
  ultimately show ?thesis ..
qed

lemma append_checkpoint_effects:
  assumes inv: "job_inv db" and cur: "current_lease g now db = Inr (j, l)"
    and a: "append_checkpoint p j l expected key payload fp now cid db1 = Inr (r, db')"
    and "jobs db1 = jobs db" and ok: "effects_ok (jobs db) (effects db1)"
  shows "effects_ok (jobs db') (effects db') \<and> effects db' = effects db1 \<and>
    j_id ` set (jobs db') = j_id ` set (jobs db)"
proof (cases "cr_replayed r")
  case True
  then show ?thesis using append_checkpoint_Inr [OF a] assms(4) ok by simp
next
  case False
  note cu = current_lease_Inr [OF cur]
  let ?j = "checkpointed_job p payload (expected + 1) (l_token l) j"
  have e: "effects db' = effects db1" and js: "jobs db' = row_jobs ?j (jobs db)"
    using append_checkpoint_Inr [OF a] False assms(4) by auto
  have s: "set (jobs db') = insert ?j (set (jobs db) - {j})"
    unfolding js by (rule set_row_jobs [OF job_invD(1) [OF inv] cu(1)]) (simp add: checkpointed_job_def)
  then have ids: "j_id ` set (jobs db') = j_id ` set (jobs db)"
    using cu(1) by (auto simp: checkpointed_job_def image_iff)
  have "effects_ok (jobs db') (effects db1)"
    by (rule effects_ok_jobs [OF ok]) (use s ids ok cu(4) in \<open>auto simp: effects_ok_def checkpointed_job_def\<close>)
  then show ?thesis using e ids by simp
qed

lemma complete_effects:
  assumes inv: "job_inv db" and ok: "effects_ok (jobs db) (effects db)"
    and c: "complete e p g expected fk fp now cid db = Inr (u, db')"
  shows "effects_ok (jobs db') (effects db') \<and> effects_grow db db'"
  using c
proof (rule complete_Inr)
  fix j l final j1 l1 db1
  assume cur: "current_lease g now db = Inr (j, l)" and none: "require_no_pending_effects (j_id j) db = Inr ()"
    and f: "final_rows e p j l expected final now cid db = Inr (j1, l1, db1)"
    and db': "db' = save_job (finish_job J_SUCCEEDED None (gr_token g) now p j1)
        (save_lease (release_lease p now ''SUCCEEDED'' l1) db1)"
  note cu = current_lease_Inr [OF cur] and fr = final_rows_Inr [OF f]
  let ?j = "finish_job J_SUCCEEDED None (gr_token g) now p j1"
  have id: "j_id j1 = j_id j" using fr by (simp add: same_job_def)
  have e: "effects db' = effects db" using fr by (simp add: db')
  have js: "jobs db' = row_jobs ?j (jobs db)" using fr id by (simp add: db')
  have s: "set (jobs db') = insert ?j (set (jobs db) - {j})"
    unfolding js by (rule set_row_jobs [OF job_invD(1) [OF inv] cu(1)]) (simp add: id)
  have np: "\<forall>f \<in> set (effects db). f_job f = j_id j \<longrightarrow> f_status f \<noteq> E_PENDING"
    using none by (auto simp: require_no_pending_effects_def list_ex_iff split: if_split_asm)
  have "effects_ok (jobs db') (effects db)"
    by (rule effects_ok_jobs [OF ok]) (use s cu(1) np id ok in \<open>auto simp: effects_ok_def image_iff\<close>)
  then show ?thesis using e effects_grow_same by simp
qed

lemma prepare_effects:
  assumes inv: "job_inv db" and ok: "effects_ok (jobs db) (effects db)"
    and c: "prepare_effect e g key type request now fid db = Inr (r, db')"
  shows "effects_ok (jobs db') (effects db') \<and> effects_grow db db'"
  using c
proof (cases rule: prepare_effect_cases)
  case (found j l f)
  then show ?thesis using ok effects_grow_same by blast
next
  case (created j l k ty v f)
  note cu = current_lease_Inr [OF created(1)] and i = insert_frame(1) [OF created(7)]
  have f: "f_job f = j_id j" "f_status f = E_PENDING" using created(6) by simp_all
  have none: "\<forall>h \<in> set (effects db). f_job h = j_id j \<longrightarrow> f_status h \<noteq> E_PENDING"
    using created(5) by (auto simp: pending_of_def filter_empty_conv)
  have "\<forall>k \<in> set (jobs db). j_status k = J_SUCCEEDED \<longrightarrow> j_id j \<noteq> j_id k"
    using job_id_unique [OF inv _ cu(1)] cu(4) by force
  then have "effects_ok (jobs db) (effects db @ [f])"
    using ok i f none cu(1) unfolding effects_ok_def by auto
  moreover have "effects_grow db db'" using i by (auto simp: effects_grow_def intro: effect_kept_refl)
  ultimately show ?thesis using i by simp
qed

lemma schedule_effects:
  assumes ok: "effects_ok (jobs db) (effects db)" and c: "schedule e p validate c now jid db = Inr (r, db')"
  shows "effects_ok (jobs db') (effects db') \<and> effects_grow db db'"
  using c
proof (cases rule: schedule_cases)
  case (replay ty key payload t j)
  then show ?thesis using ok effects_grow_same by blast
next
  case (created ty key payload t j)
  have e: "effects db' = effects db"
    using created by (cases "fencing_counter db") (simp_all add: ensure_fencing_counter_def)
  have "effects_ok (jobs db') (effects db)"
    by (rule effects_ok_jobs [OF ok])
      (use created(9,13) ok in \<open>auto simp: effects_ok_def scheduled_row_def\<close>)
  then show ?thesis using e effects_grow_same by simp
qed

lemma exec_job_effects:
  assumes inv: "job_inv db" and ok: "effects_ok (jobs db) (effects db)"
    and x: "exec_job e p validate gate c db = Inr (a, db')"
  shows "effects_ok (jobs db') (effects db') \<and> effects_grow db db'"
proof -
  note q = quiet_effects [OF ok]
  show ?thesis
  proof (cases c)
    case (Schedule_job t ty k v pol av now jid)
    then show ?thesis using x schedule_effects [OF ok] by (cases pol) auto
  next
    case (Checkpoint g v key payload now cid)
    then obtain r where "checkpoint e p g v key payload now cid db = Inr (r, db')" using x by auto
    then show ?thesis
      by (rule checkpoint_Inr) (use append_checkpoint_effects [OF inv _ _ refl ok] effects_grow_same in blast)
  next
    case (Record_effect g i res v key payload now cid)
    then obtain r where r: "record_effect_result e p g i res v key payload now cid db = Inr (r, db')" using x by auto
    then show ?thesis
    proof (rule record_effect_result_Inr)
      fix k v2 q j l f db1
      assume a: "current_lease g now db = Inr (j, l)"
        "append_checkpoint p j l v k v2 (fingerprint (sha256 e) v2) now cid db1 = Inr (r, db')"
        "settle_effect f (if er_succeeded res then E_SUCCEEDED else E_FAILED) q l now db = Inr db1"
        "find (\<lambda>f. f_id f = i \<and> f_job f = j_id j) (effects db) = Some f"
      have s: "effects_ok (jobs db) (effects db1) \<and> effects_grow db db1"
        using settle_effects [OF ok _ a(3)] find_Some_in [OF a(4)] by simp
      have "jobs db1 = jobs db" using settle_effect_frame [OF a(3)] by simp
      then show ?thesis
        using append_checkpoint_effects [OF inv a(1,2)] s effects_grow_trans effects_grow_same by blast
    qed
  next
    case (Complete g v key payload now cid)
    then show ?thesis using x complete_effects [OF inv ok] by auto
  next
    case (Prepare_effect g key ty request now fid)
    then show ?thesis using x prepare_effects [OF inv ok] by auto
  qed (use inv x in \<open>auto dest!: q [rotated] simp: answer_Inr
      dest: heartbeat_quiet fail_attempt_quiet pause_attempt_quiet binding_quiet
      job_transition_task_quiet reconcile_quiet claim_next_quiet\<close>)
qed

subsection \<open>The invariant of the queue\<close>

definition queue_inv :: "'a job_db_scheme \<Rightarrow> bool" where
  "queue_inv db \<longleftrightarrow> job_inv db \<and> log_ok db \<and> effects_ok (jobs db) (effects db)"

lemma empty_queue_ok: "empty_queue db \<Longrightarrow> queue_inv db"
  using empty_queue_inv
  by (auto simp: queue_inv_def empty_queue_def log_ok_def job_log_def effects_ok_def)

lemma exec_queue_inv:
  "queue_inv db \<Longrightarrow> exec_job e p validate gate c db = Inr (a, db') \<Longrightarrow> queue_inv db' \<and> effects_grow db db'"
  using exec_job_moves lease_moves_inv exec_job_log exec_job_effects unfolding queue_inv_def by metis

interpretation job_queue: transactional_service "exec_job e p validate gate" queue_inv
  for e p validate gate
  by unfold_locales (use exec_queue_inv in blast)

lemma run_queue_inv:
  "empty_queue db \<Longrightarrow> queue_inv (run_service (exec_job e p validate gate) cs db)"
  by (rule job_queue.run_inv [OF empty_queue_ok])

lemma run_effects_grow:
  "queue_inv db \<Longrightarrow> effects_grow db (run_service (exec_job e p validate gate) cs db)"
proof (induction cs arbitrary: db)
  case (Cons c cs)
  show ?case
  proof (cases "exec_job e p validate gate c db")
    case (Inr r)
    then obtain a db1 where x: "exec_job e p validate gate c db = Inr (a, db1)" by (cases r) auto
    then show ?thesis using exec_queue_inv [OF Cons.prems x] Cons.IH effects_grow_trans by auto
  qed (use Cons in simp)
qed (simp add: effects_grow_same)

end
