(* ===== verification/Job_Samples.thy ===== *)
theory Job_Samples
  imports Job_Log_Properties Task_Run_Properties
begin

text \<open>
  A concrete queue with one scheduled job and its first lease: the input of the witnesses of the
  job properties.
\<close>

definition sample_queue :: job_db where
  "sample_queue = task_db.extend sample_db \<lparr>jobs = [], leases = [], checkpoints = [], effects = [],
     fencing_counter = None, job_transitions = [], tool_grants = [], processes = [],
     ignored_results = [], outages = [], targets = []\<rparr>"

abbreviation no_validator :: "job_db \<Rightarrow> task_row \<Rightarrow> job_error + unit" where
  "no_validator \<equiv> \<lambda>_ _. Inr ()"

abbreviation queue_exec :: "job_command \<Rightarrow> job_db \<Rightarrow> job_error + job_answer \<times> job_db" where
  "queue_exec \<equiv> exec_job sample_env ''control-plane'' no_validator closed_evaluator"

lemma sample_queue_simps [simp]:
  "tasks sample_queue = [sample_task]" "jobs sample_queue = []" "leases sample_queue = []"
  "checkpoints sample_queue = []" "effects sample_queue = []" "fencing_counter sample_queue = None"
  "outages sample_queue = []" "targets sample_queue = []"
  by (simp_all add: sample_queue_def task_db.extend_def sample_db_def)

lemma sample_queue_empty: "empty_queue sample_queue"
  by (simp add: empty_queue_def next_token_def)

lemma sample_identifiers:
  "required_identifier max_job_identifier_length ''run'' = Inr ''run''"
  "required_identifier max_idempotency_key_length ''k1'' = Inr ''k1''"
  "required_identifier max_job_identifier_length ''k1'' = Inr ''k1''"
  "required_identifier 255 ''w1'' = Inr ''w1''"
  "required_error_code ''BOOM'' = Inr ''BOOM''"
  by code_simp+

lemma sample_payload: "safe_payload sample_env (JObj []) = Inr (JObj [])"
  by (simp add: safe_payload_def sample_env_def is_jobj_def)

definition sample_job :: job_row where
  "sample_job = scheduled_row ''control-plane'' sample_task ''run'' ''k1'' (JObj [])
     (schedule_fingerprint sample_env 1 ''run'' (JObj []) \<lparr>rp_attempts = 2, rp_base = 1, rp_max = 300\<rparr> None)
     \<lparr>rp_attempts = 2, rp_base = 1, rp_max = 300\<rparr> 0 0 50"

abbreviation schedule_one :: job_command where
  "schedule_one \<equiv> Schedule_job 1 ''run'' ''k1'' (JObj []) (2, 1, 300) None 0 50"

definition scheduled_queue :: job_db where
  "scheduled_queue = sample_queue\<lparr>jobs := [sample_job], fencing_counter := Some 1\<rparr>"

lemma sample_job_simps [simp]:
  "j_id sample_job = 50" "j_task sample_job = Some 1" "j_type sample_job = ''run''" "j_key sample_job = ''k1''"
  "j_status sample_job = J_QUEUED" "j_attempts sample_job = 0" "j_max_attempts sample_job = 2"
  "j_retry_base sample_job = 1" "j_retry_max sample_job = 300" "j_available_at sample_job = 0"
  "j_checkpoint sample_job = None" "j_checkpoint_version sample_job = 0" "j_lease sample_job = None"
  "j_token sample_job = None" "j_lease_owner sample_job = None" "j_lease_expires sample_job = None"
  "j_last_token sample_job = None" "j_cancel_requested sample_job = None" "j_completed_at sample_job = None"
  "j_input sample_job = JObj []" "j_created_at sample_job = 0"
  by (simp_all add: sample_job_def scheduled_row_def sample_task_def)

lemma sample_task_simps [simp]: "t_id sample_task = 1" "t_state sample_task = S_INTAKE"
  by (simp_all add: sample_task_def)

lemma sample_scheduled: "queue_exec schedule_one sample_queue = Inr (A_scheduled 50 False, scheduled_queue)"
proof -
  have p: "mk_retry_policy 2 1 300 = Inr \<lparr>rp_attempts = 2, rp_base = 1, rp_max = 300\<rparr>"
    by (simp add: mk_retry_policy_def max_retry_seconds_def)
  have ok: "job_row_ok sample_job" by (simp add: job_row_ok_def)
  show ?thesis
    by (simp add: p schedule_def sample_identifiers sample_payload Let_def unrunnable_states_def
        unresolved_outage_def insert_job_def ok sample_job_def [symmetric] scheduled_queue_def
        ensure_fencing_counter_def)
qed

definition sample_lease :: lease_row where
  "sample_lease = claimed_lease sample_env ''control-plane'' sample_job 60 ''w1'' 1 1 0 30000000"

definition claimed_queue :: job_db where
  "claimed_queue = save_job (claimed_job ''control-plane'' ''w1'' 1 60 30000000 sample_job)
     (scheduled_queue\<lparr>fencing_counter := Some 2, leases := [sample_lease]\<rparr>)"

definition sample_grant :: grant where
  "sample_grant = \<lparr>gr_job = 50, gr_task = 1, gr_lease = 60, gr_worker = ''w1'', gr_attempt = 1,
     gr_token = 1, gr_expires = 30000000, gr_type = ''run'', gr_input = JObj [],
     gr_checkpoint = None, gr_version = 0, gr_recovered = False\<rparr>"

abbreviation claim_one :: job_command where
  "claim_one \<equiv> Claim_next ''w1'' 30000000 [] (\<lambda>_. 0) 60"

lemma sample_duration: "lease_duration 30000000 = Inr 30000000"
  using truncated_microseconds_bounds [of 30 30000000 30] by (simp add: lease_duration_def max_lease_seconds_def)

lemma sample_claimable: "claimable [] 0 scheduled_queue sample_job"
  by (simp add: claimable_def scheduled_queue_def unrunnable_states_def unresolved_outage_def
      reconciliation_blocked_def restart_fenced_def)

lemma sample_claimed: "queue_exec claim_one scheduled_queue = Inr (A_claimed (Some sample_grant), claimed_queue)"
proof -
  have n: "next_claim [] 0 scheduled_queue = Some sample_job"
    using sample_claimable by (simp add: next_claim_def scheduled_queue_def first_by_def)
  have ok: "lease_row_ok sample_lease" by (simp add: lease_row_ok_def sample_lease_def claimed_lease_def)
  have g: "grant_lease sample_env ''control-plane'' ''w1'' 30000000 60 0 sample_job False scheduled_queue =
      Inr (sample_grant, claimed_queue)"
    using ok
    by (simp add: grant_lease_def scheduled_queue_def ensure_fencing_counter_def next_lease_attempt_def
        max_or_zero_def insert_lease_def mk_grant_def claimed_queue_def claimed_job_def sample_grant_def
        sample_lease_def [symmetric])
  have "claim_step sample_env ''control-plane'' ''w1'' 30000000 [] 60 0 0 0 scheduled_queue =
      Inr (Claimed sample_grant claimed_queue)"
    by (simp add: claim_step_def n g)
  then show ?thesis
    by (simp add: claim_next_def sample_identifiers sample_duration claim_loop.simps)
qed

lemma sample_reached: "claimed_queue = run_service queue_exec [schedule_one, claim_one] sample_queue"
  by (simp add: sample_scheduled sample_claimed del: exec_job.simps)

end
