(* ===== verification/Job_Queue_Properties.thy ===== *)
theory Job_Queue_Properties
  imports Job_Samples
begin

text \<open>
  The properties of the durable job queue.  Each is about every run of the service from an empty
  queue: any sequence of commands, by any workers, whatever the clock reads, whatever the task
  validators and gate evaluators answer.
\<close>

subsection \<open>Leases and fencing tokens\<close>

lemma live_lease_projected:
  assumes inv: "job_inv db" and j: "j \<in> set (jobs db)" and l: "l \<in> set (leases db)"
    and live: "l_job l = j_id j" "l_released l = None"
  shows "j_status j = J_RUNNING" "leased_by j l"
proof -
  obtain k where k: "k \<in> set (jobs db)" "leased_by k l" "j_status k = J_RUNNING"
    using job_invD(7) [OF inv l] live by (auto simp: lease_shape_def)
  then have "j_id k = j_id j" using live(1) by (simp add: leased_by_def)
  then have "k = j" by (rule job_id_unique [OF inv k(1) j])
  then show "j_status j = J_RUNNING" "leased_by j l" using k by auto
qed

text \<open>C10. Mutual exclusion.  In every reachable queue a job is RUNNING exactly when a lease of
  it is unreleased; it never has two; and the job row projects that lease: its id, token, owner
  and expiry.\<close>

theorem lease_exclusive:
  assumes "empty_queue db" "db' = run_service (exec_job e p validate gate) cs db" "j \<in> set (jobs db')"
  shows "(j_status j = J_RUNNING \<longleftrightarrow> (\<exists>l \<in> set (leases db'). l_job l = j_id j \<and> l_released l = None)) \<and>
    (\<forall>l \<in> set (leases db'). l_job l = j_id j \<and> l_released l = None \<longrightarrow>
       j_lease j = Some (l_id l) \<and> j_token j = Some (l_token l) \<and> j_lease_owner j = Some (l_owner l) \<and>
       j_lease_expires j = Some (l_expires l) \<and>
       (\<forall>m \<in> set (leases db'). l_job m = j_id j \<and> l_released m = None \<longrightarrow> m = l))"
proof -
  have inv: "job_inv db'" using run_job_inv [OF assms(1)] assms(2) by blast
  have run: "\<exists>l \<in> set (leases db'). l_job l = j_id j \<and> l_released l = None" if "j_status j = J_RUNNING"
    using job_invD(5) [OF inv assms(3)] that by (auto simp: job_shape_def held_def leased_by_def)
  note live = live_lease_projected [OF inv assms(3)]
  have "j_lease j = Some (l_id l) \<and> j_token j = Some (l_token l) \<and> j_lease_owner j = Some (l_owner l) \<and>
      j_lease_expires j = Some (l_expires l) \<and>
      (\<forall>m \<in> set (leases db'). l_job m = j_id j \<and> l_released m = None \<longrightarrow> m = l)"
    if l: "l \<in> set (leases db')" "l_job l = j_id j" "l_released l = None" for l
  proof -
    have "m = l" if m: "m \<in> set (leases db')" "l_job m = j_id j" "l_released m = None" for m
      using lease_id_unique [OF inv m(1) l(1)] live(2) [OF m] live(2) [OF l] by (simp add: leased_by_def)
    then show ?thesis
      using live(2) [OF l] held_lease(2,3) [OF inv assms(3) live(1) [OF l] l(1) live(2) [OF l]]
      by (simp add: leased_by_def)
  qed
  then show ?thesis using run live(1) by blast
qed

theorem lease_exclusive_witness:
  "\<exists>l \<in> set (leases claimed_queue). l_job l = 50 \<and> l_released l = None"
proof -
  have "claimed_job ''control-plane'' ''w1'' 1 60 30000000 sample_job \<in> set (jobs claimed_queue)"
    by (simp add: claimed_queue_def scheduled_queue_def row_jobs_def claimed_job_def)
  from lease_exclusive [OF sample_queue_empty sample_reached this] show ?thesis
    by (simp add: claimed_job_def)
qed

text \<open>C11. Fencing tokens are issued once and in increasing order, below the global counter, and
  the last token of a job is the largest of its leases.\<close>

theorem fencing_tokens:
  assumes "empty_queue db" "db' = run_service (exec_job e p validate gate) cs db"
  shows "sorted_wrt (<) (map l_token (leases db')) \<and>
    (\<forall>l \<in> set (leases db'). 0 < l_token l \<and> l_token l < next_token db') \<and>
    (\<forall>j \<in> set (jobs db'). j_last_token j =
       (if job_tokens (leases db') (j_id j) = {} then None else Some (Max (job_tokens (leases db') (j_id j)))))"
proof -
  have inv: "job_inv db'" using run_job_inv [OF assms(1)] assms(2) by blast
  have "j_last_token j =
      (if job_tokens (leases db') (j_id j) = {} then None else Some (Max (job_tokens (leases db') (j_id j))))"
    if j: "j \<in> set (jobs db')" for j
  proof -
    let ?T = "job_tokens (leases db') (j_id j)"
    have below: "\<forall>t \<in> ?T. \<exists>u. j_last_token j = Some u \<and> t \<le> u" "\<And>t. j_last_token j = Some t \<Longrightarrow> t \<in> ?T"
      using job_invD(6) [OF inv j] by (auto simp: tokens_below_def)
    have "?T = l_token ` {l \<in> set (leases db'). l_job l = j_id j}" by (auto simp: job_tokens_def)
    then have fin: "finite ?T" by simp
    show ?thesis
    proof (cases "j_last_token j")
      case None
      then show ?thesis using below(1) by auto
    next
      case (Some t)
      then have "Max ?T = t" using below by (intro Max_eqI [OF fin]) auto
      then show ?thesis using Some below(2) by auto
    qed
  qed
  then show ?thesis using job_invD(3) [OF inv] job_invD(7) [OF inv] lease_token_pos
    by (auto simp: lease_shape_def)
qed

theorem fencing_tokens_witness:
  "list_all (\<lambda>l. 0 < l_token l \<and> l_token l < next_token claimed_queue) (leases claimed_queue)"
  unfolding list_all_iff using fencing_tokens [OF sample_queue_empty sample_reached] by blast

text \<open>The token of a granted lease becomes the job's last token.\<close>

lemma find_job_row:
  "job_inv db \<Longrightarrow> j \<in> set (jobs db) \<Longrightarrow> find_job (j_id j) db = Some j"
  unfolding find_job_def by (rule find_key [OF job_invD(1)])

lemma grant_last_mark:
  assumes "distinct (map j_id (jobs db))" "j \<in> set (jobs db)"
    and "grant_lease e p worker d lid now j recovered db = Inr (g, db')"
  shows "last_mark db' (gr_job g) = gr_token g"
proof -
  have "find (\<lambda>k. j_id k = j_id j) (jobs db) = Some j" by (rule find_key [OF assms(1,2)])
  then show ?thesis using grant_lease_Inr [OF assms(3)]
    by (auto simp: last_mark_def find_job_def find_row_jobs mk_grant_def claimed_job_def split: option.splits)
qed

lemma claim_step_last_mark:
  assumes "job_inv db" "claim_step e p worker d types lid scan now now2 db = Inr (Claimed g db')"
  shows "last_mark db' (gr_job g) = gr_token g"
proof -
  obtain j where j: "next_claim types scan db = Some j"
    using assms(2) by (auto simp: claim_step_def split: option.split_asm)
  then have m: "j \<in> set (jobs db)" using next_claim_Some by blast
  note d = job_invD(1) [OF assms(1)]
  show ?thesis using assms(2) j grant_last_mark [OF d m]
      grant_last_mark [where db = "save_lease l db" for l, simplified save_job_jobs, OF d m]
    by (auto simp: claim_step_def split: if_split_asm option.split_asm)
qed

lemma claim_loop_last_mark:
  "job_inv db \<Longrightarrow> claim_loop e p worker d types lid clk i db = Inr (Some g, db') \<Longrightarrow>
   last_mark db' (gr_job g) = gr_token g"
proof (induction e p worker d types lid clk i db rule: claim_loop.induct)
  case (1 e p worker d types lid clk i db)
  obtain out where out: "claim_step e p worker d types lid (clk i) (clk (i + 1)) (clk (i + 2)) db = Inr out"
    using "1.prems"(2) by (subst (asm) claim_loop.simps) (auto split: sum.split_asm)
  note m = claim_step_move [OF "1.prems"(1) out] and s = claim_loop.simps [of e p worker d types lid clk i db]
  show ?case
  proof (cases out)
    case (Exhausted db1)
    moreover have "job_inv db1" using lease_move_inv [of db db1] "1.prems"(1) m Exhausted by simp
    ultimately show ?thesis using "1.IH" [OF out Exhausted] "1.prems"(2) out s by simp
  next
    case (Claimed g1 db1)
    then show ?thesis using claim_step_last_mark "1.prems" out s by fastforce
  qed (use "1.prems" out s in simp)
qed

lemma claim_next_last_mark:
  "job_inv db \<Longrightarrow> claim_next e p w d types clk lid db = Inr (Some g, db') \<Longrightarrow>
   last_mark db' (gr_job g) = gr_token g"
  by (auto simp: claim_next_def intro: claim_loop_last_mark)

lemma stale_lease_lost:
  assumes "job_inv db" "gr_token g < last_mark db (gr_job g)"
  shows "current_lease g now db = Inl BackgroundJobLeaseLost"
proof (cases "current_lease g now db")
  case (Inl err)
  then show ?thesis by (auto simp: current_lease_def split: option.split_asm if_split_asm)
next
  case (Inr r)
  then obtain j l where "current_lease g now db = Inr (j, l)" by (cases r) auto
  then show ?thesis using current_last_mark [OF assms(1)] current_lease_Inr(6,9) assms(2) by fastforce
qed

text \<open>C12. Fencing.  Once \<open>claim_next\<close> has granted a job to a worker, every command under an
  earlier lease of that job fails and changes nothing, after any further run: a worker that was
  paused or cut off while its lease expired can no longer write.\<close>

theorem stale_worker_fenced:
  assumes "empty_queue db0" "db1 = run_service (exec_job e p validate gate) cs db0"
    and "exec_job e p validate gate (Claim_next w d types clk lid) db1 = Inr (A_claimed (Some g2), db2)"
    and "worker_grant c = Some (g1, now)" "gr_job g1 = gr_job g2" "gr_token g1 < gr_token g2"
  shows "current_lease g1 now (run_service (exec_job e p validate gate) ds db2) = Inl BackgroundJobLeaseLost \<and>
    (\<exists>err. exec_job e p validate gate c (run_service (exec_job e p validate gate) ds db2) = Inl err)"
proof -
  let ?db = "run_service (exec_job e p validate gate) ds db2"
  have inv1: "job_inv db1" using run_job_inv [OF assms(1)] assms(2) by blast
  have inv2: "job_inv db2" by (rule job_service.exec_inv [OF inv1 assms(3)])
  have "claim_next e p w d types clk lid db1 = Inr (Some g2, db2)" using assms(3) by auto
  then have "last_mark db2 (gr_job g2) = gr_token g2" by (rule claim_next_last_mark [OF inv1])
  moreover have "last_mark db2 (gr_job g2) \<le> last_mark ?db (gr_job g2)" by (rule job_fence.run_mono [OF inv2])
  ultimately have "gr_token g2 \<le> last_mark ?db (gr_job g2)" by simp
  then have lost: "current_lease g1 now ?db = Inl BackgroundJobLeaseLost"
    using assms(5,6) by (intro stale_lease_lost [OF job_service.run_inv [OF inv2]]) simp
  moreover have "\<exists>err. exec_job e p validate gate c ?db = Inl err"
  proof (cases "exec_job e p validate gate c ?db")
    case (Inr r)
    then obtain a db' where "exec_job e p validate gate c ?db = Inr (a, db')" by (cases r) auto
    from worker_current [OF this assms(4)] show ?thesis using lost by simp
  qed simp
  ultimately show ?thesis ..
qed

theorem stale_worker_fenced_witness:
  "\<exists>err. queue_exec (Complete (sample_grant\<lparr>gr_token := 0\<rparr>) 0 None None 5 90)
     (run_service queue_exec [Heartbeat sample_grant 30000000 10] claimed_queue) = Inl err"
proof -
  have r: "scheduled_queue = run_service queue_exec [schedule_one] sample_queue"
    by (simp add: sample_scheduled del: exec_job.simps)
  show ?thesis
    by (rule conjunct2 [OF stale_worker_fenced [OF sample_queue_empty r sample_claimed,
          of "Complete (sample_grant\<lparr>gr_token := 0\<rparr>) 0 None None 5 90" "sample_grant\<lparr>gr_token := 0\<rparr>" 5]])
      (simp_all add: sample_grant_def)
qed

end
