(* ===== verification/Job_Attempt_Properties.thy ===== *)
theory Job_Attempt_Properties
  imports Job_Samples
begin

text \<open>
  One attempt of a job: what a claim grants, what a heartbeat extends, how a failed attempt is
  retried and what recovery does with the leases that expired.
\<close>

subsection \<open>When a lease is current\<close>

lemma current_lease_held:
  assumes inv: "job_inv db" and j: "j \<in> set (jobs db)" "j_status j = J_RUNNING"
    and l: "l \<in> set (leases db)" "leased_by j l"
    and g: "j_id j = gr_job g" "j_task j = Some (gr_task g)" "l_id l = gr_lease g" "l_token l = gr_token g"
      "l_owner l = gr_worker g" "l_attempt l = gr_attempt g" "j_cancel_requested j = None"
  shows "current_lease g t db = (if t < l_expires l then Inr (j, l) else Inl BackgroundJobLeaseLost)"
proof -
  note h = held_lease [OF inv j l]
  have f: "find_job (gr_job g) db = Some j"
    using find_key [OF job_invD(1) [OF inv] j(1)] g(1) by (simp add: find_job_def)
  have id: "l_job l = gr_job g" "j_lease j = Some (gr_lease g)" "j_token j = Some (gr_token g)"
    using l(2) g by (auto simp: leased_by_def)
  let ?P = "\<lambda>x. l_id x = gr_lease g \<and> l_job x = gr_job g \<and> l_owner x = gr_worker g \<and>
      l_attempt x = gr_attempt g \<and> l_token x = gr_token g"
  have "find ?P (leases db) = Some l"
  proof (cases "find ?P (leases db)")
    case None
    then show ?thesis using l(1) g id by (auto simp: find_None_iff_all)
  next
    case (Some m)
    then have "m \<in> set (leases db)" "l_id m = l_id l" using find_Some_in [OF Some] g(3) by auto
    then show ?thesis using lease_id_unique [OF inv _ l(1)] Some by blast
  qed
  then show ?thesis using f j g id h by (auto simp: current_lease_def lease_expired_def)
qed

text \<open>The rows after a fenced write, and the lease a worker holds after it.\<close>

lemma in_row_jobs: "j \<in> set js \<Longrightarrow> j_id j' = j_id j \<Longrightarrow> j' \<in> set (row_jobs j' js)"
  by (auto simp: row_jobs_def set_upd_rows image_iff)

lemma in_row_leases: "l \<in> set ls \<Longrightarrow> l_id l' = l_id l \<Longrightarrow> l' \<in> set (row_leases l' ls)"
  by (auto simp: row_leases_def set_upd_rows image_iff)

lemma truncated_whole: "1000000 dvd n \<Longrightarrow> truncated_microseconds n = n"
proof -
  assume "1000000 dvd n"
  then obtain a where "n = a * 1000000" by (auto simp: dvd_def mult.commute)
  then show ?thesis using truncated_microseconds_bounds [of a n a] by simp
qed

text \<open>A heartbeat extends exactly the lease of its worker: the new expiry is never before the
  old one, at least a second ahead, and for a whole number of seconds at least the requested
  duration ahead; the worker's lease is then current at every instant before it and at none
  after.\<close>

theorem heartbeat_extends:
  assumes "empty_queue db0" "db = run_service (exec_job e p validate gate) cs db0"
    and "heartbeat p g duration now db = Inr (g', db')"
  shows "(\<forall>j l. current_lease g now db = Inr (j, l) \<longrightarrow> l_expires l \<le> gr_expires g') \<and>
    now + 1000000 \<le> gr_expires g' \<and> (1000000 dvd duration \<longrightarrow> now + duration \<le> gr_expires g') \<and>
    gr_job g' = gr_job g \<and> gr_lease g' = gr_lease g \<and> gr_token g' = gr_token g \<and>
    (\<forall>t. isInr (current_lease g t db') \<longleftrightarrow> t < gr_expires g')"
proof -
  have inv: "job_inv db" using run_job_inv [OF assms(1)] assms(2) by blast
  obtain d j l where d: "lease_duration duration = Inr d" and cur: "current_lease g now db = Inr (j, l)"
    and k: "mk_grant (j\<lparr>j_lease_expires := Some (max (l_expires l) (now + d)), j_last_token := Some (gr_token g), j_actor := p\<rparr>)
        (l\<lparr>l_heartbeat := now, l_expires := max (l_expires l) (now + d), l_actor := p\<rparr>) (gr_recovered g) = Inr g'"
    and db': "db' = save_job (j\<lparr>j_lease_expires := Some (max (l_expires l) (now + d)),
        j_last_token := Some (gr_token g), j_actor := p\<rparr>)
      (save_lease (l\<lparr>l_heartbeat := now, l_expires := max (l_expires l) (now + d), l_actor := p\<rparr>) db)"
    using assms(3) by (auto simp: heartbeat_def Let_def)
  let ?x = "max (l_expires l) (now + d)"
  let ?j = "j\<lparr>j_lease_expires := Some ?x, j_last_token := Some (gr_token g), j_actor := p\<rparr>"
  let ?l = "l\<lparr>l_heartbeat := now, l_expires := ?x, l_actor := p\<rparr>"
  note c = current_lease_Inr [OF cur]
  have inv': "job_inv db'" using heartbeat_move [OF inv assms(3)] inv by (rule lease_move_inv)
  have "current_lease g t db' = (if t < l_expires ?l then Inr (?j, ?l) else Inl BackgroundJobLeaseLost)" for t
  proof (rule current_lease_held [OF inv'])
    show "?j \<in> set (jobs db')" using in_row_jobs [OF c(1), of ?j] by (simp add: db')
    show "?l \<in> set (leases db')" using in_row_leases [OF c(2), of ?l] by (simp add: db')
    show "leased_by ?j ?l" using c(3) by (simp add: leased_by_def)
  qed (use c in simp_all)
  then have "\<forall>t. isInr (current_lease g t db') \<longleftrightarrow> t < ?x" by simp
  moreover have "gr_expires g' = ?x" "gr_job g' = gr_job g" "gr_lease g' = gr_lease g" "gr_token g' = gr_token g"
    using k c by (auto simp: mk_grant_def split: option.split_asm)
  moreover have "1000000 dvd duration \<longrightarrow> d = duration" "1000000 \<le> d"
    using d lease_duration_bounds [OF d] truncated_whole
    by (auto simp: lease_duration_def split: if_split_asm)
  ultimately show ?thesis using cur by auto
qed

abbreviation sample_running :: job_row where
  "sample_running \<equiv> claimed_job ''control-plane'' ''w1'' 1 60 30000000 sample_job"

lemma sample_current:
  "t < 30000000 \<Longrightarrow> current_lease sample_grant t claimed_queue = Inr (sample_running, sample_lease)"
proof -
  assume t: "t < 30000000"
  have "job_inv claimed_queue" unfolding sample_reached by (rule run_job_inv [OF sample_queue_empty])
  then show ?thesis using t
    by (subst current_lease_held [of _ sample_running sample_lease])
      (simp_all add: claimed_queue_def scheduled_queue_def row_jobs_def claimed_job_def leased_by_def
        sample_lease_def sample_grant_def next_lease_attempt_def max_or_zero_def)
qed

lemma sample_heartbeat:
  "\<exists>g db'. heartbeat ''control-plane'' sample_grant 40000000 5 claimed_queue = Inr (g, db')"
proof -
  have d: "lease_duration 40000000 = Inr 40000000"
    using truncated_whole [of 40000000] by (simp add: lease_duration_def max_lease_seconds_def)
  show ?thesis using sample_current [of 5] by (simp add: heartbeat_def d Let_def mk_grant_def claimed_job_def)
qed

theorem heartbeat_extends_witness:
  "\<exists>g db'. heartbeat ''control-plane'' sample_grant 40000000 5 claimed_queue = Inr (g, db') \<and>
     40000005 \<le> gr_expires g \<and> isInr (current_lease sample_grant 40000004 db')"
proof -
  obtain g db' where h: "heartbeat ''control-plane'' sample_grant 40000000 5 claimed_queue = Inr (g, db')"
    using sample_heartbeat by blast
  have "(1000000::int) dvd 40000000" by simp
  then show ?thesis
    using heartbeat_extends [OF sample_queue_empty sample_reached h] h by auto
qed

subsection \<open>Retries\<close>

lemma failed_job_id [simp]: "j_id (failed_job p code k r now j) = j_id j"
  by (auto simp: failed_job_def split: option.split)

lemma retry_delay_range:
  assumes "mk_retry_policy attempts base maxi = Inr policy" "1 \<le> attempt"
  shows "\<exists>d. deterministic_retry_delay e job attempt policy = Inr d \<and> 0 \<le> d \<and> 1000 dvd d \<and>
    d \<le> min maxi (base * 2 ^ nat (attempt - 1)) * 1000000"
proof -
  have pol: "rp_max policy = maxi" "rp_base policy = base" "1 \<le> base" "base \<le> maxi" "maxi \<le> 86400"
    using assms(1) by (auto simp: mk_retry_policy_def max_retry_seconds_def split: if_split_asm)
  define cap where "cap = min maxi (base * 2 ^ nat (min (attempt - 1) 63))"
  have cap: "cap = min maxi (base * 2 ^ nat (attempt - 1))"
  proof (cases "attempt - 1 \<le> 63")
    case False
    then have "(2::int) ^ 63 \<le> 2 ^ nat (attempt - 1)" by (intro power_increasing) auto
    moreover have base: "z \<le> base * z" if "0 \<le> z" for z using mult_right_mono [OF pol(3) that] by (simp only: mult_1)
    moreover have "0 \<le> (2::int) ^ nat (attempt - 1)" by simp
    moreover have "(86400::int) \<le> 2 ^ 63" by simp
    ultimately have "maxi \<le> base * 2 ^ nat (attempt - 1)" "maxi \<le> base * 2 ^ 63"
      using pol(5) base [of "2 ^ nat (attempt - 1)"] base [of "2 ^ 63"] by linarith+
    then show ?thesis using False by (simp add: cap_def min_def)
  qed (simp add: cap_def min_def)
  have pos: "0 \<le> cap" using pol(3,4) by (simp add: cap_def)
  define h where "h = hex_value (take 16 (sha256 e (uuid_str job @ '':'' @ dec_int attempt @ '':'' @
     dec_int (rp_attempts policy) @ '':'' @ dec_int base @ '':'' @ dec_int maxi)))"
  have "deterministic_retry_delay e job attempt policy = Inr (h mod (cap * 1000 + 1) * 1000)"
    using assms(2) by (simp add: deterministic_retry_delay_def Let_def pol cap_def h_def)
  moreover have "0 \<le> h mod (cap * 1000 + 1)" "h mod (cap * 1000 + 1) < cap * 1000 + 1"
    using pos pos_mod_sign [of "cap * 1000 + 1" h] pos_mod_bound [of "cap * 1000 + 1" h] by simp_all
  ultimately show ?thesis by (simp add: cap [symmetric])
qed

text \<open>C14. The back-off of a failed attempt: for every valid policy and every attempt the delay is
  a whole number of milliseconds between zero and \<open>min max (base * 2^(attempt - 1))\<close> seconds.
  The cap of the exponent at 63 is not observable.\<close>

theorem retry_delay_bounds:
  assumes "mk_retry_policy attempts base maxi = Inr policy" "1 \<le> attempt"
  shows "\<exists>d. deterministic_retry_delay e job attempt policy = Inr d \<and> 0 \<le> d \<and> 1000 dvd d \<and>
    d \<le> min maxi (base * 2 ^ nat (attempt - 1)) * 1000000"
  by (rule retry_delay_range [OF assms])

theorem retry_delay_bounds_witness:
  "\<exists>d. deterministic_retry_delay sample_env 50 80 \<lparr>rp_attempts = 5, rp_base = 1, rp_max = 300\<rparr> = Inr d \<and>
     0 \<le> d \<and> 1000 dvd d \<and> d \<le> 300 * 1000000"
proof -
  have "mk_retry_policy 5 1 300 = Inr \<lparr>rp_attempts = 5, rp_base = 1, rp_max = 300\<rparr>"
    by (simp add: mk_retry_policy_def max_retry_seconds_def)
  from retry_delay_bounds [OF this, of 80 sample_env 50] show ?thesis by simp
qed

text \<open>C15. The disposition of a failed attempt.  It ends the lease, keeps the checkpoint and the
  attempt count, and then: if the failure is retryable and attempts remain, the job is queued
  again with a delay bounded by the exponential back-off of its policy; otherwise it is FAILED,
  completed now, and reported exhausted exactly when the failure was retryable.\<close>

theorem failure_disposition:
  assumes "empty_queue db0" "db = run_service (exec_job e p validate gate) cs db0"
    and "fail_attempt e p g code retryable now db = Inr (d, db')" "find_job (gr_job g) db = Some j"
  shows "\<exists>j'. find_job (gr_job g) db' = Some j' \<and> j_lease j' = None \<and> j_attempts j' = j_attempts j \<and>
    j_checkpoint j' = j_checkpoint j \<and> j_checkpoint_version j' = j_checkpoint_version j \<and>
    j_last_token j' = Some (gr_token g) \<and> di_status d = j_status j' \<and>
    (if retryable \<and> j_attempts j < j_max_attempts j
     then j_status j' = J_QUEUED \<and> j_completed_at j' = None \<and> di_next d = Some (j_available_at j') \<and>
       \<not> di_exhausted d \<and> now \<le> j_available_at j' \<and> j_available_at j' \<le> now +
         min (j_retry_max j) (j_retry_base j * 2 ^ nat (j_attempts j - 1)) * 1000000
     else j_status j' = J_FAILED \<and> j_completed_at j' = Some now \<and> di_next d = None \<and>
       (di_exhausted d \<longleftrightarrow> retryable))"
proof -
  have inv: "job_inv db" using run_job_inv [OF assms(1)] assms(2) by blast
  obtain n k l where cur: "current_lease g now db = Inr (k, l)"
    and r: "release_failed_attempt e p g n retryable now k l db = Inr (d, db')"
    using assms(3) by (rule fail_attempt_Inr)
  note c = current_lease_Inr [OF cur]
  have j: "k = j" using c(5) assms(4) by simp
  note c = c [unfolded j]
  obtain rt where rt: "rt = None \<longleftrightarrow> \<not> (retryable \<and> j_attempts j < j_max_attempts j)"
    and db': "db' = save_job (failed_job p n (gr_token g) rt now j) (save_lease (failed_lease p n rt now l) db)"
    and di: "di_status d = (if rt = None then J_FAILED else J_QUEUED)" "di_next d = rt"
      "di_exhausted d \<longleftrightarrow> retryable \<and> rt = None"
    and w: "case di_delay d of None \<Rightarrow> rt = None | Some w \<Rightarrow> rt = Some (now + w) \<and>
       (\<exists>policy. mk_retry_policy (j_max_attempts j) (j_retry_base j) (j_retry_max j) = Inr policy \<and>
          deterministic_retry_delay e (j_id j) (j_attempts j) policy = Inr w)"
    using r unfolding j by (rule release_failed_attempt_Inr)
  have delay: "now \<le> t \<and> t \<le> now + min (j_retry_max j) (j_retry_base j * 2 ^ nat (j_attempts j - 1)) * 1000000"
    if "rt = Some t" for t
  proof -
    obtain dl policy where "t = now + dl" "mk_retry_policy (j_max_attempts j) (j_retry_base j) (j_retry_max j) = Inr policy"
        "deterministic_retry_delay e (j_id j) (j_attempts j) policy = Inr dl"
      using w \<open>rt = Some t\<close> by (auto split: option.split_asm)
    then show ?thesis using retry_delay_range [of _ _ _ policy "j_attempts j" e "j_id j"]
        held_lease(4) [OF inv c(1,4,2,3)] by fastforce
  qed
  let ?j = "failed_job p n (gr_token g) rt now j"
  have "find_job (gr_job g) db' = Some ?j"
    using c(5,6) by (simp add: db' find_job_def find_row_jobs same_job_def [of j ?j, symmetric] failed_job_id)
  moreover have "j_checkpoint ?j = j_checkpoint j" "rt = Some t \<Longrightarrow> j_available_at ?j = t" for t
    by (auto simp: failed_job_def split: option.split)
  ultimately show ?thesis using rt di delay by (cases rt) (auto simp: not_less)
qed

lemma sample_find: "find_job 50 claimed_queue = Some sample_running"
  by (simp add: find_job_def claimed_queue_def scheduled_queue_def row_jobs_def claimed_job_def)

lemma sample_failed:
  "\<exists>d db'. fail_attempt sample_env ''control-plane'' sample_grant ''BOOM'' True 5 claimed_queue = Inr (d, db')"
proof -
  have p: "mk_retry_policy 2 1 300 = Inr \<lparr>rp_attempts = 2, rp_base = 1, rp_max = 300\<rparr>"
    by (simp add: mk_retry_policy_def max_retry_seconds_def)
  have j: "j_max_attempts sample_running = 2" "j_retry_base sample_running = 1"
    "j_retry_max sample_running = 300" "j_attempts sample_running = 1"
    by (simp_all add: claimed_job_def)
  obtain w where "deterministic_retry_delay sample_env (j_id sample_running) 1 \<lparr>rp_attempts = 2, rp_base = 1, rp_max = 300\<rparr> = Inr w"
    using retry_delay_range [OF p, of 1] by fastforce
  then show ?thesis
    by (simp add: fail_attempt_def sample_identifiers sample_current release_failed_attempt_def j p Let_def)
qed

theorem failure_disposition_witness:
  "\<exists>d db' j'. fail_attempt sample_env ''control-plane'' sample_grant ''BOOM'' True 5 claimed_queue = Inr (d, db') \<and>
     find_job 50 db' = Some j' \<and> j_status j' = J_QUEUED \<and> j_available_at j' \<le> 1000005"
proof -
  obtain d db' where f: "fail_attempt sample_env ''control-plane'' sample_grant ''BOOM'' True 5 claimed_queue = Inr (d, db')"
    using sample_failed by blast
  have g: "gr_job sample_grant = 50" by (simp add: sample_grant_def)
  have "j_attempts sample_running = 1" "j_max_attempts sample_running = 2" "j_retry_max sample_running = 300"
    "j_retry_base sample_running = 1" by (simp_all add: claimed_job_def)
  then show ?thesis
    using failure_disposition [OF sample_queue_empty sample_reached f, unfolded g, OF sample_find] f by auto
qed

subsection \<open>Recovery of expired leases\<close>

definition recovered_job :: "string \<Rightarrow> instant \<Rightarrow> job_row \<Rightarrow> job_row" where
  "recovered_job p now j =
     (if j_cancel_requested j \<noteq> None
      then finish_job J_CANCELLED (Some ''CANCELLATION_REQUESTED'') (the (j_token j)) now p j
      else if j_max_attempts j \<le> j_attempts j
      then finish_job J_FAILED (Some ''LEASE_EXPIRED_ATTEMPTS_EXHAUSTED'') (the (j_token j)) now p j
      else (finish_job J_QUEUED (Some ''LEASE_EXPIRED'') (the (j_token j)) now p
              (j\<lparr>j_available_at := now\<rparr>))\<lparr>j_completed_at := None\<rparr>)"

lemma recovered_job_simps [simp]:
  "j_id (recovered_job p now j) = j_id j" "j_status (recovered_job p now j) \<noteq> J_RUNNING"
  by (simp_all add: recovered_job_def finish_job_def)

lemma running_lease:
  assumes "job_inv db" "j \<in> set (jobs db)" "j_status j = J_RUNNING"
  obtains l where "find (leased_by j) (leases db) = Some l" "l_released l = None" "j_token j = Some (l_token l)"
proof (cases "find (leased_by j) (leases db)")
  case None
  then show ?thesis using job_invD(5) [OF assms(1,2)] assms(3)
    by (auto simp: job_shape_def held_def find_None_iff_all)
next
  case (Some l)
  then show ?thesis using that find_leased [OF Some] held_lease(1) [OF assms]
    by (auto simp: leased_by_def)
qed

lemma recover_job_total:
  assumes "job_inv db" "j \<in> set (jobs db)" "j_status j = J_RUNNING"
  shows "\<exists>db'. recover_job p now j db = Inr db' \<and> jobs db' = row_jobs (recovered_job p now j) (jobs db)"
proof -
  obtain l where "find (leased_by j) (leases db) = Some l" "l_released l = None" "j_token j = Some (l_token l)"
    using running_lease [OF assms] .
  then show ?thesis by (simp add: recover_job_def recovered_job_def Let_def)
qed

text \<open>A batch of RUNNING jobs is recovered as a whole, whatever leases they hold.\<close>

lemma recover_jobs_total:
  assumes "job_inv db" "distinct (map j_id js)" "\<forall>j \<in> set js. j \<in> set (jobs db) \<and> j_status j = J_RUNNING"
  shows "\<exists>db'. recover_jobs p now js db = Inr db' \<and>
    jobs db' = map (\<lambda>k. if k \<in> set js then recovered_job p now k else k) (jobs db)"
  using assms
proof (induction js arbitrary: db)
  case (Cons j js)
  have j: "j \<in> set (jobs db)" "j_status j = J_RUNNING" using Cons.prems(3) by simp_all
  obtain db1 where d: "recover_job p now j db = Inr db1" and js: "jobs db1 = row_jobs (recovered_job p now j) (jobs db)"
    using recover_job_total [OF Cons.prems(1) j] by blast
  have js1: "jobs db1 = map (\<lambda>k. if k = j then recovered_job p now j else k) (jobs db)"
    using job_id_unique [OF Cons.prems(1) _ j(1)] by (auto simp: js row_jobs_def upd_rows_def)
  have m: "lease_move db db1" by (rule recover_job_move [OF Cons.prems(1) j d])
  have rest: "\<forall>k \<in> set js. k \<in> set (jobs db1) \<and> j_status k = J_RUNNING"
    using Cons.prems(2,3) recover_job_others [OF d] by (auto simp: image_iff)
  obtain db' where db': "recover_jobs p now js db1 = Inr db'"
      "jobs db' = map (\<lambda>k. if k \<in> set js then recovered_job p now k else k) (jobs db1)"
    using Cons.IH [OF lease_move_inv [OF m Cons.prems(1)] _ rest] Cons.prems(2) by auto
  have "recovered_job p now j \<notin> set js" using Cons.prems(3) by fastforce
  then have "jobs db' = map (\<lambda>k. if k \<in> set (j # js) then recovered_job p now k else k) (jobs db)"
    by (auto simp: db'(2) js1)
  then show ?case using d db'(1) by auto
qed simp



end
