(* ===== verification/Job_Effect_Properties.thy ===== *)
theory Job_Effect_Properties
  imports Job_Attempt_Properties
begin

text \<open>
  Checkpoints, external effects and schedules under replay: what was recorded stays recorded, and
  the same request is answered from the record.
\<close>

subsection \<open>The checkpoint log\<close>



text \<open>Checkpoints are only ever appended.\<close>

definition log_extends :: "'a job_db_scheme \<Rightarrow> 'a job_db_scheme \<Rightarrow> bool" where
  "log_extends db db' \<longleftrightarrow> (\<exists>cs. checkpoints db' = checkpoints db @ cs)"

lemma log_extends_same: "checkpoints db' = checkpoints db \<Longrightarrow> log_extends db db'"
  by (simp add: log_extends_def)

lemma log_extends_trans: "log_extends a b \<Longrightarrow> log_extends b c \<Longrightarrow> log_extends a c"
  by (auto simp: log_extends_def)

lemma append_log_extends:
  "append_checkpoint p j l expected key payload fp now cid db = Inr (r, db') \<Longrightarrow> log_extends db db'"
  by (drule append_checkpoint_Inr) (auto simp: log_extends_def split: if_split_asm)

lemma final_log_extends:
  "final_rows e p j l expected final now cid db = Inr (j1, l1, db1) \<Longrightarrow> log_extends db db1"
  by (auto simp: final_rows_def log_extends_same split: option.split_asm if_split_asm dest: append_log_extends)

lemma exec_log_extends:
  assumes inv: "job_inv db" and x: "exec_job e p validate gate c db = Inr (a, db')"
  shows "log_extends db db'"
proof -
  have q: "quiet db db' \<Longrightarrow> log_extends db db'" by (simp add: quiet_def log_extends_same)
  show ?thesis
  proof (cases c)
    case (Schedule_job t ty k v pol av now jid)
    obtain x y z where "pol = (x, y, z)" by (cases pol) auto
    then obtain policy r where "schedule e p validate \<lparr>sc_task = t, sc_type = ty, sc_key = k, sc_input = v,
        sc_policy = policy, sc_available = av\<rparr> now jid db = Inr (r, db')" using x Schedule_job by auto
    then show ?thesis
      by (cases rule: schedule_cases; cases "fencing_counter db")
        (auto simp: ensure_fencing_counter_def intro!: log_extends_same)
  next
    case (Checkpoint g v key payload now cid)
    then show ?thesis using x by (auto elim!: checkpoint_Inr dest: append_log_extends)
  next
    case (Record_effect g i res v key payload now cid)
    then obtain r where "record_effect_result e p g i res v key payload now cid db = Inr (r, db')" using x by auto
    then show ?thesis
    proof (rule record_effect_result_Inr)
      fix k v2 q j l f db1
      assume a: "append_checkpoint p j l v k v2 (fingerprint (sha256 e) v2) now cid db1 = Inr (r, db')"
        "settle_effect f (if er_succeeded res then E_SUCCEEDED else E_FAILED) q l now db = Inr db1"
      have "checkpoints db1 = checkpoints db"
        using settle_effect_Inr [OF a(2)] by (auto simp: save_effect_def split: if_split_asm)
      then show ?thesis using append_log_extends [OF a(1)] by (simp add: log_extends_def)
    qed
  next
    case (Complete g v key payload now cid)
    then have "complete e p g v key payload now cid db = Inr ((), db')" using x by auto
    then show ?thesis
      by (rule complete_Inr) (auto dest!: final_log_extends simp: log_extends_def)
  next
    case (Prepare_effect g key ty request now fid)
    then show ?thesis using x by (auto elim!: prepare_effect_cases dest!: insert_frame simp: log_extends_def)
  qed (use inv x in \<open>auto intro: q heartbeat_quiet fail_attempt_quiet pause_attempt_quiet binding_quiet
      job_transition_task_quiet reconcile_quiet claim_next_quiet\<close>)
qed

lemma run_log_extends:
  "job_inv db \<Longrightarrow> log_extends db (run_service (exec_job e p validate gate) cs db)"
proof (induction cs arbitrary: db)
  case (Cons c cs)
  show ?case
  proof (cases "exec_job e p validate gate c db")
    case (Inr r)
    then obtain a db1 where x: "exec_job e p validate gate c db = Inr (a, db1)" by (cases r) auto
    then show ?thesis
      using exec_log_extends [OF Cons.prems x] Cons.IH [OF job_service.exec_inv [OF Cons.prems x]]
        log_extends_trans by auto
  qed (use Cons in simp)
qed (simp add: log_extends_same)

text \<open>The row that answers a checkpoint.\<close>

lemma append_checkpoint_stored:
  assumes "append_checkpoint p j l expected key payload fp now cid db = Inr (r, db')"
  shows "\<exists>c. find (\<lambda>c. c_key c = key) (checkpoints db') = Some c \<and> c_job c = j_id j \<and>
    c_sequence c = expected + 1 \<and> c_fingerprint c = fp \<and> py_eq (c_payload c) payload \<and>
    cr_id r = c_id c \<and> cr_sequence r = c_sequence c"
proof (cases "cr_replayed r")
  case True
  then show ?thesis using append_checkpoint_Inr [OF assms] by auto
next
  case False
  define c where "c = \<lparr>c_id = cid, c_job = j_id j, c_lease = l_id l, c_token = l_token l,
        c_sequence = expected + 1, c_key = key, c_fingerprint = fp, c_payload = payload,
        c_recorded_at = now\<rparr>"
  have c: "checkpoints db' = checkpoints db @ [c]" "\<forall>x \<in> set (checkpoints db). c_key x \<noteq> key"
      "cr_id r = cid" "cr_sequence r = expected + 1"
    using append_checkpoint_Inr [OF assms] False by (auto simp: c_def)
  have "find (\<lambda>c. c_key c = key) (checkpoints db) = None" using c(2) by (simp add: find_None_iff_all)
  then show ?thesis using c by (simp add: find_append c_def)
qed

lemma find_log_extends:
  "find P (checkpoints db) = Some c \<Longrightarrow> log_extends db db' \<Longrightarrow> find P (checkpoints db') = Some c"
  by (auto simp: log_extends_def find_append)

text \<open>C18. A checkpoint is recorded once.  After it was acknowledged, and whatever ran since, the
  same request for the job (same key, expected version and payload), under whatever lease is
  current then, is answered with the same checkpoint as a replay and changes nothing.\<close>

theorem checkpoint_idempotent:
  assumes "empty_queue db0" "db = run_service (exec_job e p validate gate) cs db0"
    and "checkpoint e p g expected key payload now cid db = Inr (r, db1)"
    and "db2 = run_service (exec_job e p validate gate) ds db1"
    and "gr_job g' = gr_job g" "isInr (current_lease g' now' db2)"
  shows "checkpoint e p g' expected key payload now' cid' db2 =
    Inr (\<lparr>cr_id = cr_id r, cr_sequence = expected + 1, cr_replayed = True\<rparr>, db2)"
proof -
  have inv: "job_inv db" using run_job_inv [OF assms(1)] assms(2) by blast
  have x: "exec_job e p validate gate (Checkpoint g expected key payload now cid) db = Inr (A_checkpoint r, db1)"
    using assms(3) by simp
  have ext: "log_extends db1 db2"
    unfolding assms(4) by (rule run_log_extends [OF job_service.exec_inv [OF inv x]])
  obtain k v j l where n: "required_identifier max_idempotency_key_length key = Inr k" "safe_payload e payload = Inr v"
      "current_lease g now db = Inr (j, l)"
      "append_checkpoint p j l expected k v (fingerprint (sha256 e) v) now cid db = Inr (r, db1)"
    using assms(3) by (auto simp: checkpoint_def)
  obtain c where c: "find (\<lambda>c. c_key c = k) (checkpoints db1) = Some c" "c_job c = j_id j"
      "c_sequence c = expected + 1" "c_fingerprint c = fingerprint (sha256 e) v" "py_eq (c_payload c) v"
      "cr_id r = c_id c"
    using append_checkpoint_stored [OF n(4)] by blast
  obtain j' l' where cur: "current_lease g' now' db2 = Inr (j', l')"
    using assms(6) by (auto simp: isInr_iff)
  have "j_id j' = j_id j" using current_lease_Inr(6) [OF cur] current_lease_Inr(6) [OF n(3)] assms(5) by simp
  then show ?thesis using n(1,2) cur c find_log_extends [OF c(1) ext]
    by (simp add: checkpoint_def append_checkpoint_def Let_def)
qed

text \<open>A checkpoint leaves the lease of its worker as it was.\<close>

lemma checkpoint_keeps_lease:
  assumes inv: "job_inv db" and cur: "current_lease g now db = Inr (j, l)" "t < l_expires l"
    and c: "checkpoint e p g expected key payload now cid db = Inr (r, db')"
  shows "isInr (current_lease g t db')"
proof -
  note cu = current_lease_Inr [OF cur(1)]
  have inv': "job_inv db'" using checkpoint_move [OF inv c] inv by (rule lease_move_inv)
  obtain k v where a: "append_checkpoint p j l expected k v (fingerprint (sha256 e) v) now cid db = Inr (r, db')"
    using c cur(1) by (auto elim: checkpoint_Inr)
  show ?thesis
  proof (cases "cr_replayed r")
    case True
    then show ?thesis using append_checkpoint_Inr [OF a] cur(2) current_lease_held [OF inv cu(1,4,2,3,6,7,10,9,12,14,16)] by simp
  next
    case False
    define j' where "j' = checkpointed_job p v (expected + 1) (l_token l) j"
    define l' where "l' = checkpointed_lease p v (expected + 1) l"
    have "jobs db' = row_jobs j' (jobs db)" "leases db' = row_leases l' (leases db)"
      using append_checkpoint_Inr [OF a] False by (auto simp: j'_def l'_def)
    then have "j' \<in> set (jobs db')" "l' \<in> set (leases db')"
      using in_row_jobs [OF cu(1), of j'] in_row_leases [OF cu(2), of l']
      by (simp_all add: j'_def l'_def checkpointed_job_def checkpointed_lease_def)
    moreover have "leased_by j' l'" "j_status j' = J_RUNNING" using cu(3,4)
      by (simp_all add: j'_def l'_def checkpointed_job_def checkpointed_lease_def leased_by_def)
    ultimately have "current_lease g t db' = (if t < l_expires l' then Inr (j', l') else Inl BackgroundJobLeaseLost)"
      by (intro current_lease_held [OF inv'])
        (use cu in \<open>simp_all add: j'_def l'_def checkpointed_job_def checkpointed_lease_def\<close>)
    then show ?thesis using cur(2) by (simp add: l'_def checkpointed_lease_def)
  qed
qed

lemma claimed_queue_inv: "job_inv claimed_queue"
  unfolding sample_reached by (rule run_job_inv [OF sample_queue_empty])

lemma claimed_queue_log [simp]: "checkpoints claimed_queue = []" "effects claimed_queue = []"
  by (simp_all add: claimed_queue_def scheduled_queue_def)

lemma sample_rows [simp]:
  "j_checkpoint_version sample_running = 0" "l_token sample_lease = 1" "l_expires sample_lease = 30000000"
  "j_id sample_running = 50"
  by (simp_all add: claimed_job_def sample_lease_def)

lemma sample_digest: "digest_ok (fingerprint (sha256 sample_env) j)"
proof -
  have "digest_ok (replicate 64 (CHR ''0''))" by code_simp
  then show ?thesis by (simp add: fingerprint_def sample_env_def)
qed

lemma sample_checkpoint:
  "\<exists>r db1. checkpoint sample_env ''control-plane'' sample_grant 0 ''k1'' (JObj []) 5 70 claimed_queue = Inr (r, db1)"
  by (simp add: checkpoint_def sample_identifiers sample_payload sample_current append_checkpoint_def
      insert_checkpoint_def sample_digest)

theorem checkpoint_idempotent_witness:
  "\<exists>r db1. checkpoint sample_env ''control-plane'' sample_grant 0 ''k1'' (JObj []) 5 70 claimed_queue = Inr (r, db1) \<and>
     checkpoint sample_env ''control-plane'' sample_grant 0 ''k1'' (JObj []) 9 71 db1 =
       Inr (\<lparr>cr_id = cr_id r, cr_sequence = 1, cr_replayed = True\<rparr>, db1)"
proof -
  obtain r db1 where c: "checkpoint sample_env ''control-plane'' sample_grant 0 ''k1'' (JObj []) 5 70 claimed_queue = Inr (r, db1)"
    using sample_checkpoint by blast
  have "isInr (current_lease sample_grant 9 db1)"
    by (rule checkpoint_keeps_lease [OF claimed_queue_inv sample_current _ c]) simp_all
  then show ?thesis
    using checkpoint_idempotent [OF sample_queue_empty sample_reached c, of db1 "[]" sample_grant 9 71] c by simp
qed

subsection \<open>External effects\<close>

text \<open>The row that answers a prepared effect.\<close>

lemma prepare_effect_stored:
  assumes "prepare_effect e g key type request now fid db = Inr (r, db')"
  shows "\<exists>k ty v j l f. current_lease g now db = Inr (j, l) \<and>
    required_identifier max_job_identifier_length key = Inr k \<and>
    required_identifier max_job_identifier_length type = Inr ty \<and> safe_payload e request = Inr v \<and>
    f \<in> set (effects db') \<and> f_id f = pe_id r \<and> f_job f = j_id j \<and> f_key f = uuid_str (j_id j) @ '':'' @ k \<and>
    f_type f = ty \<and> f_fingerprint f = effect_fingerprint e ty k v \<and> py_eq (f_request f) v"
proof -
  obtain k ty v j l where n: "required_identifier max_job_identifier_length key = Inr k"
      "required_identifier max_job_identifier_length type = Inr ty" "safe_payload e request = Inr v"
      "current_lease g now db = Inr (j, l)"
    using assms by (auto simp: prepare_effect_def Let_def)
  let ?p = "first_by (\<lambda>f. (f_started_at f, f_id f)) (pending_of (j_id j) db)"
  let ?q = "find (\<lambda>f. f_key f = uuid_str (j_id j) @ '':'' @ k) (effects db)"
  consider (pending) f where "?p = Some f" | (old) f where "?p = None" "?q = Some f" | (fresh) "?p = None" "?q = None"
    by (cases ?p; cases ?q) auto
  then show ?thesis
  proof cases
    case (pending f)
    then have "f \<in> set (pending_of (j_id j) db)" by (rule first_by_Some_in)
    then have "f \<in> set (effects db)" by (simp add: pending_of_def)
    then show ?thesis using assms n pending
      by (auto simp: prepare_effect_def Let_def mk_prepared_def split: if_split_asm)
  next
    case (old f)
    then have "f \<in> set (effects db)" "f_key f = uuid_str (j_id j) @ '':'' @ k" using find_Some_in [OF old(2)] by auto
    then show ?thesis using assms n old
      by (auto simp: prepare_effect_def Let_def mk_prepared_def split: if_split_asm)
  next
    case fresh
    then show ?thesis using assms n
      by (auto simp: prepare_effect_def Let_def mk_prepared_def dest!: insert_frame)
  qed
qed

lemma prepare_key:
  assumes "prepare_effect e g key type request now fid db = Inr (r, db')"
    and "effects_ok (jobs db') (effects db')" "f \<in> set (effects db')" "f_id f = pe_id r"
  shows "pe_key r = f_key f"
proof -
  have "\<exists>h \<in> set (effects db'). f_id h = pe_id r \<and> f_key h = pe_key r"
    using assms(1)
  proof (cases rule: prepare_effect_cases)
    case (found j l h)
    then show ?thesis by (auto simp: mk_prepared_def)
  next
    case (created j l k ty v h)
    then show ?thesis using insert_frame(1) [OF created(7)] by (simp add: mk_prepared_def)
  qed
  then obtain h where "h \<in> set (effects db')" "f_id h = pe_id r" "f_key h = pe_key r" by blast
  then show ?thesis using assms(2-4) distinct_key_unique [of f_id "effects db'" h f]
    by (simp add: effects_ok_def)
qed

text \<open>An effect is created once.  After it was prepared, and whatever ran since, preparing it
  again for the job under the current lease names the same effect, creates nothing and asks for
  reconciliation exactly while it is pending; the only other answer is that another effect of
  the job is pending.\<close>

theorem effect_prepared_once:
  assumes "empty_queue db0" "db = run_service (exec_job e p validate gate) cs db0"
    and "prepare_effect e g key type request now fid db = Inr (r, db1)"
    and "db2 = run_service (exec_job e p validate gate) ds db1"
    and "gr_job g' = gr_job g" "isInr (current_lease g' now' db2)"
  shows "case prepare_effect e g' key type request now' fid' db2 of
      Inr (r', db3) \<Rightarrow> db3 = db2 \<and> pe_id r' = pe_id r \<and> pe_key r' = pe_key r \<and> \<not> pe_created r' \<and>
        (pe_reconcile r' \<longleftrightarrow> pe_status r' = E_PENDING)
    | Inl err \<Rightarrow> err = AmbiguousBackgroundJobEffect \<and>
        (\<exists>f \<in> set (effects db2). f_job f = gr_job g \<and> f_id f \<noteq> pe_id r \<and> f_status f = E_PENDING)"
proof -
  have inv: "queue_inv db" using run_queue_inv [OF assms(1)] assms(2) by blast
  have x: "exec_job e p validate gate (Prepare_effect g key type request now fid) db = Inr (A_prepared r, db1)"
    using assms(3) by simp
  have inv1: "queue_inv db1" by (rule job_queue.exec_inv [OF inv x])
  have inv2: "queue_inv db2" unfolding assms(4) by (rule job_queue.run_inv [OF inv1])
  have grow: "effects_grow db1 db2" unfolding assms(4) by (rule run_effects_grow [OF inv1])
  have d: "distinct (map f_key (effects db2))" using inv2 by (simp add: queue_inv_def effects_ok_def)
  obtain k ty v j l f where n: "current_lease g now db = Inr (j, l)"
      "required_identifier max_job_identifier_length key = Inr k"
      "required_identifier max_job_identifier_length type = Inr ty" "safe_payload e request = Inr v"
    and f: "f \<in> set (effects db1)" "f_id f = pe_id r" "f_job f = j_id j" "f_key f = uuid_str (j_id j) @ '':'' @ k"
      "f_type f = ty" "f_fingerprint f = effect_fingerprint e ty k v" "py_eq (f_request f) v"
    using prepare_effect_stored [OF assms(3)] by blast
  obtain f' where f': "f' \<in> set (effects db2)" "effect_kept f f'"
    using grow f(1) by (auto simp: effects_grow_def)
  note kept = f'(2) [unfolded effect_kept_def]
  obtain j' l' where cur: "current_lease g' now' db2 = Inr (j', l')"
    using assms(6) by (auto simp: isInr_iff)
  have id: "j_id j' = j_id j" "j_id j = gr_job g"
    using current_lease_Inr(6) [OF cur] current_lease_Inr(6) [OF n(1)] assms(5) by simp_all
  have key: "pe_key r = f_key f"
    using assms(3) f(2) prepare_key [OF assms(3), of f] inv1 f(1) by (simp add: queue_inv_def)
  let ?p = "first_by (\<lambda>f. (f_started_at f, f_id f)) (pending_of (j_id j') db2)"
  let ?k = "uuid_str (j_id j') @ '':'' @ k"
  have fk: "f_key f' = ?k" using kept f(4) id by simp
  have q: "find (\<lambda>f. f_key f = ?k) (effects db2) = Some f'"
    using find_key [OF d f'(1)] fk by simp
  have ans: "\<not> (f_job f' \<noteq> j_id j' \<or> f_type f' \<noteq> ty \<or> f_fingerprint f' \<noteq> effect_fingerprint e ty k v \<or>
      \<not> py_eq (f_request f') v)" using kept f id by simp
  show ?thesis
  proof (cases ?p)
    case None
    then show ?thesis using n(2-4) cur q ans kept f(2,4) fk key id
      by (simp add: prepare_effect_def Let_def mk_prepared_def)
  next
    case (Some h)
    then have h: "h \<in> set (effects db2)" "f_job h = j_id j'" "f_status h = E_PENDING"
      using first_by_Some_in [OF Some] by (simp_all add: pending_of_def)
    show ?thesis
    proof (cases "f_key h = ?k")
      case True
      then have "h = f'" using distinct_key_unique [OF d h(1) f'(1)] fk by simp
      then show ?thesis using n(2-4) cur Some ans kept f(2,4) fk key id True
        by (simp add: prepare_effect_def Let_def mk_prepared_def)
    next
      case False
      moreover have "f_id h \<noteq> pe_id r" using False fk kept f(2) inv2 h(1) f'(1)
          distinct_key_unique [of f_id "effects db2" h f'] by (auto simp: queue_inv_def effects_ok_def)
      ultimately show ?thesis using n(2-4) cur Some h id by (auto simp: prepare_effect_def Let_def)
    qed
  qed
qed

lemma current_lease_frame:
  assumes "jobs db' = jobs db" "leases db' = leases db"
  shows "current_lease g t db' = current_lease g t db"
  unfolding current_lease_def find_job_def assms ..

lemma sample_prepared:
  "\<exists>r db1. prepare_effect sample_env sample_grant ''k1'' ''run'' (JObj []) 5 80 claimed_queue = Inr (r, db1) \<and>
     jobs db1 = jobs claimed_queue \<and> leases db1 = leases claimed_queue \<and> pe_id r = 80"
  by (simp add: prepare_effect_def sample_identifiers sample_payload sample_current pending_of_def
      insert_effect_def effect_fingerprint_def sample_digest effect_row_ok_def mk_prepared_def Let_def)

theorem effect_prepared_once_witness:
  "\<exists>r db1. prepare_effect sample_env sample_grant ''k1'' ''run'' (JObj []) 5 80 claimed_queue = Inr (r, db1) \<and>
     (case prepare_effect sample_env sample_grant ''k1'' ''run'' (JObj []) 9 81 db1 of
        Inr (r', db3) \<Rightarrow> db3 = db1 \<and> pe_id r' = pe_id r \<and> \<not> pe_created r'
      | Inl err \<Rightarrow> err = AmbiguousBackgroundJobEffect)"
proof -
  obtain r db1 where c: "prepare_effect sample_env sample_grant ''k1'' ''run'' (JObj []) 5 80 claimed_queue = Inr (r, db1)"
      "jobs db1 = jobs claimed_queue" "leases db1 = leases claimed_queue"
    using sample_prepared by blast
  have "isInr (current_lease sample_grant 9 db1)"
    using current_lease_frame [OF c(2,3)] sample_current by simp
  then have "case prepare_effect sample_env sample_grant ''k1'' ''run'' (JObj []) 9 81 db1 of
      Inr (r', db3) \<Rightarrow> db3 = db1 \<and> pe_id r' = pe_id r \<and> pe_key r' = pe_key r \<and> \<not> pe_created r' \<and>
        (pe_reconcile r' \<longleftrightarrow> pe_status r' = E_PENDING)
    | Inl err \<Rightarrow> err = AmbiguousBackgroundJobEffect \<and>
        (\<exists>f \<in> set (effects db1). f_job f = gr_job sample_grant \<and> f_id f \<noteq> pe_id r \<and> f_status f = E_PENDING)"
    by (intro effect_prepared_once [OF sample_queue_empty sample_reached c(1), of db1 "[]"]) simp_all
  then show ?thesis using c(1) by (auto split: sum.splits)
qed

text \<open>C20. An effect is settled once.  Whatever runs after it was recorded, the row of an effect
  keeps its identity, key and request, and once it is settled it never changes again.\<close>

theorem effect_settled_once:
  assumes "empty_queue db0" "db = run_service (exec_job e p validate gate) cs db0" "f \<in> set (effects db)"
  shows "\<exists>f' \<in> set (effects (run_service (exec_job e p validate gate) ds db)).
    f_id f' = f_id f \<and> f_job f' = f_job f \<and> f_type f' = f_type f \<and> f_key f' = f_key f \<and>
    f_request f' = f_request f \<and> f_started_token f' = f_started_token f \<and>
    (f_status f \<noteq> E_PENDING \<longrightarrow> f' = f)"
proof -
  have "queue_inv db" using run_queue_inv [OF assms(1)] assms(2) by blast
  from run_effects_grow [OF this, of e p validate gate ds] show ?thesis
    using assms(3) by (fastforce simp: effects_grow_def effect_kept_def)
qed

text \<open>C21. No effect is left open behind a job.  In every reachable queue a job has at most one
  pending effect, none when it has SUCCEEDED, effect keys are unique and every effect row records
  who settled it exactly when it is settled.\<close>

theorem effects_closed:
  assumes "empty_queue db" "db' = run_service (exec_job e p validate gate) cs db"
  shows "distinct (map f_key (effects db')) \<and> (\<forall>f \<in> set (effects db'). effect_row_ok f) \<and>
    (\<forall>j \<in> set (jobs db'). (\<forall>f \<in> set (pending_of (j_id j) db'). \<forall>h \<in> set (pending_of (j_id j) db'). f = h) \<and>
       (j_status j = J_SUCCEEDED \<longrightarrow> pending_of (j_id j) db' = []))"
proof -
  have "effects_ok (jobs db') (effects db')" using run_queue_inv [OF assms(1)] assms(2) by (simp add: queue_inv_def)
  then show ?thesis by (auto simp: effects_ok_def pending_of_def filter_empty_conv)
qed

definition prepared_queue :: job_db where
  "prepared_queue = (case prepare_effect sample_env sample_grant ''k1'' ''run'' (JObj []) 5 80 claimed_queue of
     Inl _ \<Rightarrow> claimed_queue | Inr (_, db) \<Rightarrow> db)"

lemma prepared_reached:
  "prepared_queue = run_service queue_exec [schedule_one, claim_one, Prepare_effect sample_grant ''k1'' ''run'' (JObj []) 5 80] sample_queue"
  by (simp add: sample_scheduled sample_claimed prepared_queue_def answer_def bindE_def
      del: exec_job.simps(1-5,7-14) split: sum.split)

lemma prepared_effect_row: "\<exists>f \<in> set (effects prepared_queue). f_id f = 80 \<and> f_job f = 50 \<and> f_status f = E_PENDING"
  by (simp add: prepared_queue_def prepare_effect_def sample_identifiers sample_payload sample_current pending_of_def
      insert_effect_def effect_fingerprint_def sample_digest effect_row_ok_def mk_prepared_def Let_def)

theorem effect_settled_once_witness:
  "\<exists>f \<in> set (effects (run_service queue_exec [Heartbeat sample_grant 30000000 7] prepared_queue)). f_id f = 80"
proof -
  obtain f where f: "f \<in> set (effects prepared_queue)" "f_id f = 80" using prepared_effect_row by blast
  from effect_settled_once [OF sample_queue_empty prepared_reached f(1), of "[Heartbeat sample_grant 30000000 7]"]
  show ?thesis using f(2) by force
qed

theorem effects_closed_witness:
  "distinct (map f_key (effects prepared_queue)) \<and> effects prepared_queue \<noteq> []"
  using effects_closed [OF sample_queue_empty prepared_reached] prepared_effect_row by auto

subsection \<open>Schedules\<close>

text \<open>No operation removes a job or touches its identity.\<close>

definition jobs_kept :: "'a job_db_scheme \<Rightarrow> 'a job_db_scheme \<Rightarrow> bool" where
  "jobs_kept db db' \<longleftrightarrow> (\<forall>j \<in> set (jobs db). \<exists>j' \<in> set (jobs db'). same_job j j')"

lemma jobs_kept_row:
  "same_job j j' \<Longrightarrow> j \<in> set (jobs db) \<Longrightarrow> job_inv db \<Longrightarrow> jobs db' = row_jobs j' (jobs db) \<Longrightarrow> jobs_kept db db'"
  using set_row_jobs [OF job_invD(1), of db j j']
  by (auto simp: jobs_kept_def same_job_def)

lemma lease_move_kept: "lease_move db db' \<Longrightarrow> job_inv db \<Longrightarrow> jobs_kept db db'"
proof (induction rule: lease_move.induct)
  case (work j db l j' l' db')
  then show ?case by (intro jobs_kept_row [of j j'])
next
  case (grant j db ls1 l0 l j' db')
  then show ?case by (intro jobs_kept_row [of j j'])
qed (auto simp: jobs_kept_def intro: same_refl)

lemma same_job_tr: "same_job a b \<Longrightarrow> same_job b c \<Longrightarrow> same_job a c"
  by (simp add: same_job_def)

lemma lease_moves_kept: "lease_move\<^sup>*\<^sup>* db db' \<Longrightarrow> job_inv db \<Longrightarrow> jobs_kept db db'"
proof (induction rule: rtranclp_induct)
  case (step y z)
  have "jobs_kept db y" "jobs_kept y z"
    using step lease_move_kept lease_moves_inv [OF step.hyps(1)] by blast+
  then show ?case unfolding jobs_kept_def by (meson same_job_tr)
qed (auto simp: jobs_kept_def intro: same_refl)

lemma run_jobs_kept:
  "job_inv db \<Longrightarrow> jobs_kept db (run_service (exec_job e p validate gate) cs db)"
proof (induction cs arbitrary: db)
  case (Cons c cs)
  show ?case
  proof (cases "exec_job e p validate gate c db")
    case (Inr r)
    then obtain a db1 where x: "exec_job e p validate gate c db = Inr (a, db1)" by (cases r) auto
    have "jobs_kept db db1" by (rule lease_moves_kept [OF exec_job_moves [OF Cons.prems x] Cons.prems])
    moreover have "jobs_kept db1 (run_service (exec_job e p validate gate) cs db1)"
      by (rule Cons.IH [OF job_service.exec_inv [OF Cons.prems x]])
    ultimately show ?thesis using x unfolding jobs_kept_def by simp (meson same_job_tr)
  qed (use Cons in simp)
qed (auto simp: jobs_kept_def intro: same_refl)



end
