(* ===== verification/Identifiers.thy ===== *)
theory Identifiers
  imports Prelude
begin

text \<open>
  The printed forms of integers and UUIDs are injective, so keys built from them do not collide.
  Each printer has a reader that returns the number.
\<close>

definition char_code :: "char \<Rightarrow> nat" where
  "char_code c = of_char c"

lemma char_code_of [simp]: "n < 256 \<Longrightarrow> char_code (char_of n) = n"
  by (simp add: char_code_def)

definition read_dec :: "string \<Rightarrow> nat" where
  "read_dec s = foldl (\<lambda>acc c. acc * 10 + (char_code c - 48)) 0 s"

lemma read_dec_snoc: "read_dec (s @ [c]) = read_dec s * 10 + (char_code c - 48)"
  by (simp add: read_dec_def)

lemma read_dec_nat [simp]: "read_dec (dec_nat n) = n"
proof (induction n rule: dec_nat.induct)
  case (1 n)
  show ?case
  proof (cases "n < 10")
    case True
    then show ?thesis by (subst dec_nat.simps) (simp add: read_dec_def)
  next
    case False
    then show ?thesis using 1 by (subst dec_nat.simps) (simp add: read_dec_snoc)
  qed
qed

lemma dec_nat_inj: "dec_nat m = dec_nat n \<Longrightarrow> m = n"
  by (metis read_dec_nat)

lemma dec_nat_hd: "\<exists>(d :: nat) cs. d < 10 \<and> dec_nat n = char_of (48 + d) # cs"
proof (induction n rule: dec_nat.induct)
  case (1 n)
  show ?case
  proof (cases "n < 10")
    case True
    then show ?thesis by (subst dec_nat.simps) auto
  next
    case False
    then obtain d :: nat and cs where "d < 10" "dec_nat (n div 10) = char_of (48 + d) # cs" using 1 by blast
    then show ?thesis using False by (subst dec_nat.simps) auto
  qed
qed

lemma dec_int_inj: "dec_int i = dec_int k \<Longrightarrow> i = k"
proof -
  assume eq: "dec_int i = dec_int k"
  have minus: "CHR ''-'' # s \<noteq> dec_nat n" for s n
  proof
    assume "CHR ''-'' # s = dec_nat n"
    moreover obtain d :: nat and cs where d: "d < 10" "dec_nat n = char_of (48 + d) # cs" using dec_nat_hd by blast
    ultimately have "CHR ''-'' = char_of (48 + d)" by simp
    then have "char_code (CHR ''-'') = char_code (char_of (48 + d))" by (simp only:)
    then show False using d(1) by (simp add: char_code_def)
  qed
  have "nat (- i) = nat (- k)" if "i < 0" "k < 0" using eq that dec_nat_inj by (simp add: dec_int_def)
  moreover have "nat i = nat k" if "\<not> i < 0" "\<not> k < 0" using eq that dec_nat_inj by (simp add: dec_int_def)
  moreover have "i < 0 \<longleftrightarrow> k < 0" using eq minus minus [symmetric] by (auto simp: dec_int_def split: if_split_asm)
  ultimately show ?thesis by (cases "i < 0") auto
qed

definition read_hex :: "string \<Rightarrow> nat" where
  "read_hex s = foldl (\<lambda>acc c. acc * 16 + (if char_code c \<le> 57 then char_code c - 48 else char_code c - 87)) 0 s"

lemma read_hex_snoc:
  "read_hex (s @ [c]) = read_hex s * 16 + (if char_code c \<le> 57 then char_code c - 48 else char_code c - 87)"
  by (simp add: read_hex_def)

lemma read_hex_fixed [simp]: "read_hex (hex_fixed k n) = n mod 16 ^ k"
proof (induction k arbitrary: n)
  case 0
  then show ?case by (simp add: read_hex_def)
next
  case (Suc k)
  have d: "(if char_code (hex_digit m) \<le> 57 then char_code (hex_digit m) - 48 else char_code (hex_digit m) - 87) = m"
    if "m < 16" for m using that by (auto simp: hex_digit_def)
  have "n mod 16 ^ Suc k = n div 16 mod 16 ^ k * 16 + n mod 16"
    by (simp add: mod_mult2_eq mult.commute)
  then show ?case by (simp add: read_hex_snoc Suc d)
qed

definition uuid_digits :: "string \<Rightarrow> string" where
  "uuid_digits s = take 8 s @ take 4 (drop 9 s) @ take 4 (drop 14 s) @ take 4 (drop 19 s) @ drop 24 s"

lemma uuid_digits_str: "uuid_digits (uuid_str u) = hex_fixed 32 (unat u)"
proof -
  define h where "h = hex_fixed 32 (unat u)"
  have l: "length h = 32" by (simp add: h_def)
  have parts: "h = take 8 h @ take 4 (drop 8 h) @ take 4 (drop 12 h) @ take 4 (drop 16 h) @ drop 20 h"
  proof -
    have "take 4 (drop 16 h) @ drop 20 h = drop 16 h" "take 4 (drop 12 h) @ drop 16 h = drop 12 h"
      "take 4 (drop 8 h) @ drop 12 h = drop 8 h"
      using append_take_drop_id [of 4 "drop 16 h"] append_take_drop_id [of 4 "drop 12 h"]
        append_take_drop_id [of 4 "drop 8 h"] by simp_all
    then show ?thesis by simp
  qed
  have "uuid_digits (uuid_str u) = take 8 h @ take 4 (drop 8 h) @ take 4 (drop 12 h) @ take 4 (drop 16 h) @ drop 20 h"
    using l by (simp add: uuid_digits_def uuid_str_def h_def [symmetric] Let_def)
  then show ?thesis using parts h_def by simp
qed

lemma read_uuid: "read_hex (uuid_digits (uuid_str u)) = unat u"
proof -
  have "unat u < 2 ^ 128" using unsigned_less [of u, where ?'a = nat] by simp
  then show ?thesis by (simp add: uuid_digits_str)
qed

lemma uuid_str_inj: "uuid_str u = uuid_str v \<Longrightarrow> u = v"
  using read_uuid [of u] read_uuid [of v] by (simp add: word_unat_eq_iff)

lemma uuid_prefix_inj: "uuid_str u @ s = uuid_str v @ t \<Longrightarrow> u = v \<and> s = t"
  using uuid_str_inj by (simp add: append_eq_append_conv)

end
