(* ===== verification/Job_Claim_Properties.thy ===== *)
theory Job_Claim_Properties
  imports Job_Attempt_Properties Identifiers
begin

text \<open>
  The ledger of leases and the progress of claims: leases of a job are numbered from one, their
  keys cannot collide, so a job that may be claimed is claimed.
\<close>

subsection \<open>The ledger of a job\<close>

definition attempts_of :: "'a job_db_scheme \<Rightarrow> uuid \<Rightarrow> int list" where
  "attempts_of db i = map l_attempt (filter (\<lambda>l. l_job l = i) (leases db))"

definition ledger_ok :: "'a job_db_scheme \<Rightarrow> bool" where
  "ledger_ok db \<longleftrightarrow> (\<forall>i. attempts_of db i = map int [1..<Suc (length (attempts_of db i))]) \<and>
     (\<forall>l \<in> set (leases db). l_key l = lease_key (l_job l) (l_attempt l))"

lemma next_attempt_of: "next_lease_attempt i db = max_or_zero (attempts_of db i) + 1"
  by (simp add: next_lease_attempt_def attempts_of_def)

lemma ledger_next: "ledger_ok db \<Longrightarrow> next_lease_attempt i db = int (length (attempts_of db i)) + 1"
proof -
  assume "ledger_ok db"
  then have "attempts_of db i = map int [1..<Suc (length (attempts_of db i))]" by (simp add: ledger_ok_def)
  then have "max_or_zero (attempts_of db i) = int (length (attempts_of db i))"
    using max_or_zero_upto [of "length (attempts_of db i)"] by simp
  then show ?thesis by (simp add: next_attempt_of)
qed

text \<open>Updating a lease in place leaves the ledger alone.\<close>

lemma row_attempts:
  assumes "distinct (map l_id ls)" "k \<in> set ls" "same_lease k l"
  shows "map l_attempt (filter (\<lambda>l. l_job l = i) (row_leases l ls)) = map l_attempt (filter (\<lambda>l. l_job l = i) ls)"
    and "(\<forall>x \<in> set ls. l_key x = lease_key (l_job x) (l_attempt x)) \<Longrightarrow>
      \<forall>x \<in> set (row_leases l ls). l_key x = lease_key (l_job x) (l_attempt x)"
proof -
  let ?f = "\<lambda>l. (l_job l, l_attempt l)"
  have "map ?f (row_leases l ls) = map ?f ls"
    by (rule map_row_leases [of _ l k]) (use assms in \<open>auto simp: same_lease_def\<close>)
  then have "map snd (filter (\<lambda>x. fst x = i) (map ?f (row_leases l ls))) = map snd (filter (\<lambda>x. fst x = i) (map ?f ls))"
    by simp
  then show "map l_attempt (filter (\<lambda>l. l_job l = i) (row_leases l ls)) = map l_attempt (filter (\<lambda>l. l_job l = i) ls)"
    by (simp add: filter_map comp_def)
  show "(\<forall>x \<in> set ls. l_key x = lease_key (l_job x) (l_attempt x)) \<Longrightarrow>
      \<forall>x \<in> set (row_leases l ls). l_key x = lease_key (l_job x) (l_attempt x)"
    using set_row_leases [OF assms(1,2), of l] assms(2,3) by (auto simp: same_lease_def)
qed

lemma lease_move_ledger:
  "lease_move db db' \<Longrightarrow> job_inv db \<Longrightarrow> ledger_ok db \<Longrightarrow> ledger_ok db'"
proof (induction rule: lease_move.induct)
  case (work j db l j' l' db')
  have a: "attempts_of db' i = attempts_of db i" for i
    using row_attempts(1) [OF job_invD(2) [OF work.prems(1)] work.hyps(3,6)]
    by (simp add: attempts_of_def work.hyps)
  have k: "\<forall>x \<in> set (leases db'). l_key x = lease_key (l_job x) (l_attempt x)"
    using row_attempts(2) [OF job_invD(2) [OF work.prems(1)] work.hyps(3,6)] work.prems(2)
    by (simp add: ledger_ok_def work.hyps(12))
  have "attempts_of db i = map int [1..<Suc (length (attempts_of db i))]" for i
    using work.prems(2) unfolding ledger_ok_def by blast
  then show ?case using k unfolding ledger_ok_def a by blast
next
  case (grant j db ls1 l0 l j' db')
  note d = job_invD(2) [OF grant.prems(1)]
  have ls1: "map l_attempt (filter (\<lambda>l. l_job l = i) ls1) = attempts_of db i \<and>
      (\<forall>x \<in> set ls1. l_key x = lease_key (l_job x) (l_attempt x))" for i
  proof (cases l0)
    case None
    then show ?thesis using grant.hyps(2) grant.prems(2) by (simp add: attempts_of_def ledger_ok_def)
  next
    case (Some r)
    then obtain k where k: "k \<in> set (leases db)" "same_lease k r" using grant.hyps(3) by auto
    then show ?thesis using row_attempts [OF d k] grant.hyps(2) grant.prems(2) Some
      by (simp add: attempts_of_def ledger_ok_def)
  qed
  let ?n = "length (attempts_of db (j_id j))"
  have a: "attempts_of db' i = attempts_of db i @ (if i = j_id j then [int ?n + 1] else [])" for i
    using ls1 ledger_next [OF grant.prems(2)] grant.hyps by (simp add: attempts_of_def)
  have "attempts_of db i = map int [1..<Suc (length (attempts_of db i))]" for i
    using grant.prems(2) unfolding ledger_ok_def by blast
  then have "attempts_of db' i = map int [1..<Suc (length (attempts_of db' i))]" for i
    by (cases "i = j_id j") (simp_all add: a)
  then show ?case using ls1 grant.hyps unfolding ledger_ok_def by auto
qed (simp_all add: ledger_ok_def attempts_of_def del: upt_Suc)

lemma lease_moves_ledger:
  "lease_move\<^sup>*\<^sup>* db db' \<Longrightarrow> job_inv db \<Longrightarrow> ledger_ok db \<Longrightarrow> ledger_ok db'"
proof (induction rule: rtranclp_induct)
  case (step y z)
  then show ?case using lease_move_ledger lease_moves_inv by blast
qed simp

interpretation ledger: transactional_service "exec_job e p validate gate" "\<lambda>db. job_inv db \<and> ledger_ok db"
  for e p validate gate
  by unfold_locales (meson exec_job_moves lease_moves_inv lease_moves_ledger)

lemma empty_ledger: "empty_queue db \<Longrightarrow> job_inv db \<and> ledger_ok db"
  using empty_queue_inv by (simp add: ledger_ok_def attempts_of_def empty_queue_def)

lemma run_ledger:
  "empty_queue db \<Longrightarrow> job_inv (run_service (exec_job e p validate gate) cs db) \<and>
     ledger_ok (run_service (exec_job e p validate gate) cs db)"
  by (rule ledger.run_inv [OF empty_ledger])

subsection \<open>A grant is possible\<close>

lemma lease_key_inj: "lease_key i a = lease_key j b \<Longrightarrow> i = j \<and> a = b"
  unfolding lease_key_def by (drule uuid_prefix_inj) (auto dest: dec_int_inj)

lemma grant_lease_succeeds:
  assumes inv: "job_inv db" and led: "ledger_ok db" and j: "j \<in> set (jobs db)"
    and db1: "map l_id (leases db1) = map l_id (leases db)" "next_token db1 = next_token db"
      "attempts_of db1 = attempts_of db"
      "\<forall>x \<in> set (leases db1). l_token x < next_token db \<and> l_key x = lease_key (l_job x) (l_attempt x)"
    and fresh: "lid \<notin> l_id ` set (leases db)" and d: "0 < d"
  shows "\<exists>g db'. grant_lease e p worker d lid now j recovered db1 = Inr (g, db')"
proof -
  let ?n = "next_lease_attempt (j_id j) db1"
  have n: "?n = int (length (attempts_of db (j_id j))) + 1"
    using ledger_next [OF led] by (simp add: next_attempt_of db1(3))
  have c: "ensure_fencing_counter db1 = (next_token db, db1\<lparr>fencing_counter := Some (next_token db)\<rparr>)"
    using db1(2) by (cases "fencing_counter db1") (simp_all add: ensure_fencing_counter_def next_token_def)
  have a: "next_lease_attempt (j_id j) (db1\<lparr>fencing_counter := x\<rparr>) = ?n" for x by (simp add: next_lease_attempt_def)
  have ids: "\<forall>x \<in> set (leases db1). l_id x \<noteq> lid"
  proof -
    have "l_id ` set (leases db1) = l_id ` set (leases db)" using db1(1) by (metis list.set_map)
    then show ?thesis using fresh by auto
  qed
  have att: "l_attempt x \<noteq> ?n" if x: "x \<in> set (leases db1)" "l_job x = j_id j" for x
  proof -
    have "l_attempt x \<in> set (attempts_of db1 (j_id j))" using x by (auto simp: attempts_of_def)
    moreover have "attempts_of db (j_id j) = map int [1..<Suc (length (attempts_of db (j_id j)))]"
      using led unfolding ledger_ok_def by blast
    ultimately have "l_attempt x \<in> set (map int [1..<Suc (length (attempts_of db (j_id j)))])" using db1(3) by metis
    then show ?thesis using n by auto
  qed
  have key: "l_key x \<noteq> lease_key (j_id j) ?n" if x: "x \<in> set (leases db1)" for x
    using att [OF x] db1(4) x lease_key_inj by metis
  have shape: "job_shape (leases db) j" by (rule job_invD(5) [OF inv j])
  have task: "\<exists>t. j_task j = Some t" and cv: "0 \<le> j_checkpoint_version j"
    using shape by (auto simp: job_shape_def job_row_ok_def)
  let ?l = "claimed_lease e p j lid worker ?n (next_token db) now (now + d)"
  have "lease_row_ok ?l" using n d cv job_invD(4) [OF inv] by (simp add: lease_row_ok_def claimed_lease_def)
  moreover have "\<not> list_ex (\<lambda>x. l_id x = lid \<or> l_job x = j_id j \<and> l_attempt x = ?n \<or> l_token x = next_token db \<or>
      l_key x = lease_key (j_id j) ?n) (leases db1)"
    using ids att key db1(4) by (fastforce simp: list_ex_iff)
  ultimately show ?thesis using task
    by (auto simp: grant_lease_def c a insert_lease_def Let_def mk_grant_def)
qed

subsection \<open>Progress of claims\<close>

lemma claim_step_progress:
  assumes inv: "job_inv db" and led: "ledger_ok db" and nx: "next_claim types now db = Some j"
    and fresh: "lid \<notin> l_id ` set (leases db)" and d: "0 < d"
  shows "(\<exists>g db'. claim_step e p worker d types lid now now now db = Inr (Claimed g db')) \<or>
    (\<exists>l t. j_status j = J_RUNNING \<and> j_max_attempts j \<le> j_attempts j \<and> l_id l \<in> l_id ` set (leases db) \<and>
      claim_step e p worker d types lid now now now db = Inr (Exhausted (save_job
        (finish_job J_FAILED (Some ''LEASE_EXPIRED_ATTEMPTS_EXHAUSTED'') t now p j) (save_lease l db))))"
proof -
  have j: "j \<in> set (jobs db)" "claimable types now db j" using next_claim_Some [OF nx] by blast+
  have keys: "\<forall>x \<in> set (leases db). l_token x < next_token db \<and> l_key x = lease_key (l_job x) (l_attempt x)"
    using led job_invD(7) [OF inv] by (auto simp: ledger_ok_def lease_shape_def)
  note grant = grant_lease_succeeds [OF inv led j(1) _ _ _ _ fresh d]
  show ?thesis
  proof (cases "j_status j = J_RUNNING")
    case False
    obtain g db' where "grant_lease e p worker d lid now j False db = Inr (g, db')"
      using grant [of db e p worker now False] keys by blast
    then show ?thesis using False nx by (auto simp: claim_step_def)
  next
    case True
    obtain l where l: "find (leased_by j) (leases db) = Some l" using running_lease [OF inv j(1) True] .
    note lm = find_leased [OF l]
    have exp: "lease_expired now j" using j(2) True by (simp add: claimable_def)
    show ?thesis
    proof (cases "j_max_attempts j \<le> j_attempts j")
      case e: True
      let ?l = "(release_lease p now ''EXPIRED'' l)\<lparr>l_failure := Some ''LEASE_EXPIRED_ATTEMPTS_EXHAUSTED''\<rparr>"
      have "l_id ?l \<in> l_id ` set (leases db)" using lm by (simp add: release_lease_def)
      moreover have "claim_step e p worker d types lid now now now db = Inr (Exhausted (save_job
          (finish_job J_FAILED (Some ''LEASE_EXPIRED_ATTEMPTS_EXHAUSTED'') (l_token l) now p j) (save_lease ?l db)))"
        using nx True l exp e by (simp add: claim_step_def)
      ultimately show ?thesis using True e by blast
    next
      case e: False
      let ?db = "save_lease (release_lease p now ''SUPERSEDED'' l) db"
      have ids: "map l_id (leases ?db) = map l_id (leases db)" "attempts_of ?db = attempts_of db"
        using row_attempts(1) [OF job_invD(2) [OF inv], of l] lm job_invD(2) [OF inv]
        by (auto simp: attempts_of_def)
      have s: "set (leases ?db) = insert (release_lease p now ''SUPERSEDED'' l) (set (leases db) - {l})"
        using set_row_leases [OF job_invD(2) [OF inv], of l "release_lease p now ''SUPERSEDED'' l"] lm by simp
      have "\<forall>x \<in> set (leases ?db). l_token x < next_token db \<and> l_key x = lease_key (l_job x) (l_attempt x)"
        unfolding s using keys lm by (auto simp: release_lease_def)
      then obtain g db' where "grant_lease e p worker d lid now j True ?db = Inr (g, db')"
        using grant [of ?db e p worker now True] ids by auto
      then show ?thesis using nx True l exp e by (auto simp: claim_step_def)
    qed
  qed
qed

text \<open>Failing an exhausted job leaves every other claimable job claimable.\<close>

lemma claimable_after_exhaustion:
  assumes inv: "job_inv db" and j: "j \<in> set (jobs db)" and k: "k \<in> set (jobs db)" "k \<noteq> j"
    and c: "claimable types now db k" and jf: "j' = finish_job J_FAILED code t now p j"
    and db': "db' = save_job j' (save_lease l db)"
  shows "claimable types now db' k \<and> k \<in> set (jobs db')"
proof -
  have id: "j_id j' = j_id j" "j_task j' = j_task j" "j_status j' = J_FAILED" by (simp_all add: jf finish_job_def)
  have js: "set (jobs db') = insert j' (set (jobs db) - {j})"
    using set_row_jobs [OF job_invD(1) [OF inv] j id(1)] by (simp add: db')
  have fr: "tasks db' = tasks db" "targets db' = targets db" "outages db' = outages db"
    by (simp_all add: db' save_job_def save_lease_def)
  have "unresolved_outage tid db' = unresolved_outage tid db" for tid
    using j id(1,2) by (auto simp: unresolved_outage_def fr js list_ex_iff)
  moreover have "reconciliation_blocked k db' = reconciliation_blocked k db"
    by (simp add: reconciliation_blocked_def fr)
  moreover have "restart_fenced k now db' \<Longrightarrow> restart_fenced k now db"
    using id(3) by (auto simp: restart_fenced_def fr js list_ex_iff)
  ultimately show ?thesis using c k by (auto simp: claimable_def fr js split: option.splits)
qed

lemma claim_loop_progress:
  assumes "job_inv db" "ledger_ok db" "k \<in> set (jobs db)" "claimable types now db k"
    "j_attempts k < j_max_attempts k" "lid \<notin> l_id ` set (leases db)" "0 < d"
  shows "\<exists>g db'. claim_loop e p worker d types lid (\<lambda>_. now) i db = Inr (Some g, db')"
  using assms
proof (induction "length (running_jobs db)" arbitrary: db i rule: less_induct)
  case less
  have "filter (claimable types now db) (jobs db) \<noteq> []" using less.prems(3,4) by (auto simp: filter_empty_conv)
  then have "next_claim types now db \<noteq> None" by (simp add: next_claim_def)
  then obtain j where j: "next_claim types now db = Some j" by blast
  note s = claim_loop.simps [of e p worker d types lid "\<lambda>_. now" i db]
  from claim_step_progress [OF less.prems(1,2) j less.prems(6,7), of e p worker] show ?case
  proof (elim disjE exE conjE)
    fix g db' assume "claim_step e p worker d types lid now now now db = Inr (Claimed g db')"
    then show ?thesis by (simp add: s)
  next
    fix l :: lease_row and t
    assume x: "j_max_attempts j \<le> j_attempts j" and l: "l_id l \<in> l_id ` set (leases db)"
    let ?db = "save_job (finish_job J_FAILED (Some ''LEASE_EXPIRED_ATTEMPTS_EXHAUSTED'') t now p j) (save_lease l db)"
    assume st: "claim_step e p worker d types lid now now now db = Inr (Exhausted ?db)"
    have jm: "j \<in> set (jobs db)" using next_claim_Some [OF j] by blast
    have "k \<noteq> j" using x less.prems(5) by auto
    then have k: "claimable types now ?db k" "k \<in> set (jobs ?db)"
      using claimable_after_exhaustion [OF less.prems(1) jm less.prems(3) _ less.prems(4) refl refl] by blast+
    have mv: "lease_move db ?db" using claim_step_move [OF less.prems(1) st] by simp
    have "l_id ` set (leases ?db) = l_id ` set (leases db)"
      using l by (auto simp: row_leases_def set_upd_rows image_iff)
    then have "lid \<notin> l_id ` set (leases ?db)" using less.prems(6) by simp
    then have "\<exists>g db'. claim_loop e p worker d types lid (\<lambda>_. now) (i + 2) ?db = Inr (Some g, db')"
      using less.hyps [OF claim_step_exhausts [OF st] lease_move_inv [OF mv less.prems(1)]
          lease_move_ledger [OF mv less.prems(1,2)] k(2,1) less.prems(5) _ less.prems(7)] by blast
    then show ?thesis by (simp add: s st)
  qed
qed

lemma grant_lease_worker: "grant_lease e p worker d lid now j r db = Inr (g, db') \<Longrightarrow> gr_worker g = worker"
  by (drule grant_lease_Inr) (auto simp: mk_grant_def split: option.split_asm)

lemma claim_loop_worker:
  "claim_loop e p worker d types lid clk i db = Inr (Some g, db') \<Longrightarrow> gr_worker g = worker"
proof (induction e p worker d types lid clk i db rule: claim_loop.induct)
  case (1 e p worker d types lid clk i db)
  note s = claim_loop.simps [of e p worker d types lid clk i db]
  obtain out where out: "claim_step e p worker d types lid (clk i) (clk (i + 1)) (clk (i + 2)) db = Inr out"
    using "1.prems" by (subst (asm) claim_loop.simps) (auto split: sum.split_asm)
  show ?case
  proof (cases out)
    case (Exhausted db1)
    then show ?thesis using "1.IH" [OF out Exhausted] "1.prems" out s by simp
  next
    case (Claimed g1 db1)
    then have "gr_worker g1 = worker" using out grant_lease_worker
      by (auto simp: claim_step_def split: option.split_asm if_split_asm)
    then show ?thesis using "1.prems" out s Claimed by simp
  qed (use "1.prems" out s in simp)
qed

text \<open>C23. Claims make progress.  In every reachable queue, if some job is claimable at an instant and
  has attempts left, then \<open>claim_next\<close> at that instant, with valid arguments and a fresh lease id,
  returns a grant: it neither comes back empty-handed nor fails on a constraint, however many
  expired leases and exhausted jobs it meets on the way.  The key of the new lease
  collides with none of the old ones.\<close>

theorem claim_progress:
  assumes "empty_queue db0" "db = run_service (exec_job e p validate gate) cs db0"
    and "k \<in> set (jobs db)" "claimable types now db k" "j_attempts k < j_max_attempts k"
    and "required_identifier 255 worker = Inr w" "lease_duration duration = Inr d"
      "normalized_types job_types = Inr types" "lid \<notin> l_id ` set (leases db)"
  shows "\<exists>g db'. claim_next e p worker duration job_types (\<lambda>_. now) lid db = Inr (Some g, db') \<and> gr_worker g = w"
proof -
  have inv: "job_inv db" "ledger_ok db" using run_ledger [OF assms(1)] assms(2) by blast+
  have "0 < d" using lease_duration_bounds [OF assms(7)] by simp
  then obtain g db' where g: "claim_loop e p w d types lid (\<lambda>_. now) 0 db = Inr (Some g, db')"
    using claim_loop_progress [OF inv assms(3,4,5,9)] by blast
  then show ?thesis using assms(6,7,8) claim_loop_worker [OF g] by (simp add: claim_next_def)
qed

theorem claim_progress_witness:
  "\<exists>g db'. claim_next sample_env ''control-plane'' ''w1'' 30000000 [] (\<lambda>_. 0) 60 scheduled_queue = Inr (Some g, db') \<and>
     gr_worker g = ''w1''"
proof -
  have r: "scheduled_queue = run_service queue_exec [schedule_one] sample_queue"
    by (simp add: sample_scheduled del: exec_job.simps)
  have j: "sample_job \<in> set (jobs scheduled_queue)" by (simp add: scheduled_queue_def)
  show ?thesis
    by (rule claim_progress [OF sample_queue_empty r j sample_claimable])
      (simp_all add: sample_identifiers sample_duration scheduled_queue_def)
qed

end
