(* ===== verification/Database_Guards.thy ===== *)
theory Database_Guards
  imports Job_Claim_Properties
begin

text \<open>
  The triggers that the migrations \<open>0006_background_job_loop.py\<close> and
  \<open>0008_cancellation_outage_recovery.py\<close> put on the tables of the job queue (the SQLite texts; the
  PostgreSQL functions state the same conditions), and which writes of the service pass them.
  \<open>t\<close> is the clock of the database, \<open>ls\<close> the lease table at the time of the statement.  The
  columns \<open>owner_id\<close> and \<open>root_correlation_id\<close> of the lease, checkpoint and effect rows are copied
  from the job and not part of the model, so the comparisons of them are left out.
\<close>

subsection \<open>The triggers\<close>

definition job_identity_kept :: "job_row \<Rightarrow> job_row \<Rightarrow> bool" where
  "job_identity_kept old new \<longleftrightarrow> j_id new = j_id old \<and> j_task new = j_task old \<and> j_type new = j_type old \<and>
     j_key new = j_key old \<and> j_input new = j_input old \<and>
     j_input_fingerprint new = j_input_fingerprint old \<and> j_max_attempts new = j_max_attempts old \<and>
     j_retry_base new = j_retry_base old \<and> j_retry_max new = j_retry_max old \<and>
     j_owner new = j_owner old \<and> j_root new = j_root old"

definition job_projection_ok :: "job_row \<Rightarrow> job_row \<Rightarrow> bool" where
  "job_projection_ok old new \<longleftrightarrow>
     0 \<le> j_attempts new \<and> j_attempts new \<le> j_max_attempts new \<and>
     j_checkpoint_version old \<le> j_checkpoint_version new \<and>
     ((j_lease new = None \<and> j_token new = None \<and> j_lease_owner new = None \<and> j_lease_expires new = None) \<or>
      (j_lease new \<noteq> None \<and> j_token new \<noteq> None \<and> j_lease_owner new \<noteq> None \<and> j_lease_expires new \<noteq> None)) \<and>
     (case j_status new of
        J_QUEUED \<Rightarrow> j_lease new = None \<and> j_completed_at new = None
      | J_RUNNING \<Rightarrow> j_lease new \<noteq> None \<and> j_completed_at new = None
      | _ \<Rightarrow> j_lease new = None \<and> j_completed_at new \<noteq> None)"

definition lease_projected :: "lease_row list \<Rightarrow> job_row \<Rightarrow> bool" where
  "lease_projected ls new \<longleftrightarrow> j_lease new = None \<or>
     list_ex (\<lambda>l. l_job l = j_id new \<and> j_lease new = Some (l_id l) \<and> j_token new = Some (l_token l) \<and>
       j_lease_owner new = Some (l_owner l) \<and> j_lease_expires new = Some (l_expires l) \<and>
       l_released l = None) ls"

text \<open>What the lease a running job holds must look like for the job to become \<open>new\<close>.\<close>

definition release_matches :: "instant \<Rightarrow> job_row \<Rightarrow> job_row \<Rightarrow> lease_row \<Rightarrow> bool" where
  "release_matches t old new l \<longleftrightarrow> (case j_status new of
     J_RUNNING \<Rightarrow> j_lease new = j_lease old \<and> l_released l = None \<and> t < l_expires l
   | J_QUEUED \<Rightarrow> (l_release_reason l = Some ''RETRY'' \<and> t < l_expires l) \<or>
       (l_release_reason l = Some ''EXPIRED'' \<and> l_expires l \<le> t \<and> j_cancel_requested new = None)
   | J_SUCCEEDED \<Rightarrow> l_release_reason l = Some ''SUCCEEDED'' \<and> t < l_expires l
   | J_FAILED \<Rightarrow> (l_release_reason l = Some ''FAILED'' \<and> t < l_expires l) \<or>
       (l_release_reason l = Some ''EXPIRED'' \<and> l_expires l \<le> t)
   | J_CANCELLED \<Rightarrow> l_release_reason l = Some ''CANCELLED'' \<and> j_cancel_requested new \<noteq> None)"

text \<open>SQL comparisons are three-valued and a trigger aborts only when its condition is true, so under
  the \<open>NOT\<close> of the trigger a comparison with \<open>NULL\<close> counts as satisfied.\<close>

definition sql_related :: "('a \<Rightarrow> 'a \<Rightarrow> bool) \<Rightarrow> 'a option \<Rightarrow> 'a option \<Rightarrow> bool" where
  "sql_related r x y = (case (x, y) of (Some a, Some b) \<Rightarrow> r a b | _ \<Rightarrow> True)"

definition mutation_fenced :: "lease_row list \<Rightarrow> instant \<Rightarrow> job_row \<Rightarrow> job_row \<Rightarrow> bool" where
  "mutation_fenced ls t old new \<longleftrightarrow>
     (j_status old = J_QUEUED \<and> j_lease old = None \<and> j_status new = J_RUNNING \<and>
      j_attempts new = j_attempts old + 1 \<and> sql_related (=) (j_last_token new) (j_token new)) \<or>
     (j_status old = J_QUEUED \<and> j_lease old = None \<and> j_status new = J_CANCELLED \<and>
      j_attempts new = j_attempts old \<and> j_lease new = None \<and> j_cancel_requested new \<noteq> None \<and>
      j_last_token new = j_last_token old) \<or>
     (j_status old = J_RUNNING \<and> j_lease old \<noteq> None \<and> sql_related (\<le>) (j_lease_expires old) (Some t) \<and>
      j_status new = J_RUNNING \<and> j_attempts new = j_attempts old + 1 \<and>
      sql_related (>) (j_token new) (j_token old) \<and> sql_related (=) (j_last_token new) (j_token new)) \<or>
     (j_status old = J_RUNNING \<and> j_lease old \<noteq> None \<and> j_attempts new = j_attempts old \<and>
      sql_related (=) (j_last_token new) (j_token old) \<and>
      list_ex (\<lambda>l. leased_by old l \<and> release_matches t old new l) ls)"

definition job_update_allowed :: "lease_row list \<Rightarrow> instant \<Rightarrow> job_row \<Rightarrow> job_row \<Rightarrow> bool" where
  "job_update_allowed ls t old new \<longleftrightarrow> job_identity_kept old new \<and> job_projection_ok old new \<and>
     lease_projected ls new \<and> mutation_fenced ls t old new"

definition lease_insert_allowed :: "job_row list \<Rightarrow> instant \<Rightarrow> lease_row \<Rightarrow> bool" where
  "lease_insert_allowed js t l \<longleftrightarrow> 0 < l_attempt l \<and> 0 < l_token l \<and> 0 \<le> l_checkpoint_version l \<and>
     l_heartbeat l < l_expires l \<and> t < l_expires l \<and> length (l_claim_fingerprint l) = 64 \<and>
     list_ex (\<lambda>j. j_id j = l_job l \<and> j_task j \<noteq> None \<and> j_cancel_requested j = None \<and>
       j_attempts j < j_max_attempts j \<and> l_attempt l = j_attempts j + 1 \<and>
       ((j_status j = J_QUEUED \<and> j_available_at j \<le> t) \<or> (j_status j = J_RUNNING \<and> lease_expired t j))) js"

definition lease_update_allowed :: "job_row list \<Rightarrow> instant \<Rightarrow> lease_row \<Rightarrow> lease_row \<Rightarrow> bool" where
  "lease_update_allowed js t old new \<longleftrightarrow>
     l_id new = l_id old \<and> l_job new = l_job old \<and> l_owner new = l_owner old \<and> l_attempt new = l_attempt old \<and>
     l_token new = l_token old \<and> l_key new = l_key old \<and> l_claim_fingerprint new = l_claim_fingerprint old \<and>
     list_ex (\<lambda>j. leased_by j old \<and> j_status j = J_RUNNING \<and> j_lease_owner j = Some (l_owner old)) js \<and>
     \<not> (l_expires new \<noteq> l_expires old \<and> l_heartbeat new = l_heartbeat old) \<and>
     \<not> (l_heartbeat new \<noteq> l_heartbeat old \<and>
        (l_released old \<noteq> None \<or> l_expires old \<le> t \<or> l_heartbeat new < l_heartbeat old \<or>
         l_expires new \<le> l_heartbeat new \<or> l_expires new < l_expires old)) \<and>
     \<not> (l_released old \<noteq> None \<and>
        (l_released new \<noteq> l_released old \<or> l_release_reason new \<noteq> l_release_reason old))"

definition checkpoint_insert_allowed :: "job_row list \<Rightarrow> lease_row list \<Rightarrow> instant \<Rightarrow> checkpoint_row \<Rightarrow> bool" where
  "checkpoint_insert_allowed js ls t c \<longleftrightarrow> list_ex (\<lambda>j. list_ex (\<lambda>l.
     l_job l = j_id j \<and> l_id l = c_lease c \<and> l_token l = c_token c \<and> j_id j = c_job c \<and>
     j_status j = J_RUNNING \<and> j_lease j = Some (c_lease c) \<and> j_token j = Some (c_token c) \<and>
     j_cancel_requested j = None \<and> l_released l = None \<and> t < l_expires l \<and>
     c_sequence c = j_checkpoint_version j + 1) ls) js"

definition counter_update_allowed :: "int \<Rightarrow> int \<Rightarrow> bool" where
  "counter_update_allowed old new \<longleftrightarrow> new = old + 1"

subsection \<open>Statements under the triggers\<close>

text \<open>A statement that a trigger aborts raises \<open>IntegrityError\<close>: \<open>None\<close>.\<close>

datatype statement =
    Update_job job_row | Update_lease lease_row | Insert_lease lease_row
  | Insert_checkpoint checkpoint_row | Allocate_token

fun guarded_statement :: "instant \<Rightarrow> statement \<Rightarrow> 'a job_db_scheme \<Rightarrow> 'a job_db_scheme option" where
  "guarded_statement t (Update_job new) db = (case find_job (j_id new) db of None \<Rightarrow> Some db
     | Some old \<Rightarrow> if job_update_allowed (leases db) t old new then Some (save_job new db) else None)"
| "guarded_statement t (Update_lease new) db = (case find (\<lambda>l. l_id l = l_id new) (leases db) of None \<Rightarrow> Some db
     | Some old \<Rightarrow> if lease_update_allowed (jobs db) t old new then Some (save_lease new db) else None)"
| "guarded_statement t (Insert_lease l) db = (if lease_insert_allowed (jobs db) t l
     then Some (db\<lparr>leases := leases db @ [l]\<rparr>) else None)"
| "guarded_statement t (Insert_checkpoint c) db = (if checkpoint_insert_allowed (jobs db) (leases db) t c
     then Some (db\<lparr>checkpoints := checkpoints db @ [c]\<rparr>) else None)"
| "guarded_statement t Allocate_token db = (case fencing_counter db of None \<Rightarrow> None
     | Some n \<Rightarrow> if counter_update_allowed n (n + 1) then Some (db\<lparr>fencing_counter := Some (n + 1)\<rparr>) else None)"

fun guarded_statements :: "instant \<Rightarrow> statement list \<Rightarrow> 'a job_db_scheme \<Rightarrow> 'a job_db_scheme option" where
  "guarded_statements t [] db = Some db"
| "guarded_statements t (s # ss) db = (case guarded_statement t s db of None \<Rightarrow> None
     | Some db' \<Rightarrow> guarded_statements t ss db')"

text \<open>C24. The triggers abort every pause.  Whatever the lease table holds when the statement is
  sent and whatever the clock of the database reads, the update of the job row that
  \<open>pause_attempt\<close> makes in a reachable queue is not allowed: the trigger wants the attempt count
  unchanged, \<open>pause_attempt\<close> gives the attempt back.\<close>

theorem pause_rejected:
  assumes "empty_queue db0" "db = run_service (exec_job e p validate gate) cs db0"
    and "pause_attempt p g code now db = Inr (u, db')" "find_job (gr_job g) db = Some old"
  shows "\<exists>new. find_job (gr_job g) db' = Some new \<and> j_status new = J_QUEUED \<and>
    j_attempts new = j_attempts old - 1 \<and> \<not> job_update_allowed ls t old new"
proof -
  have inv: "job_inv db" using run_job_inv [OF assms(1)] assms(2) by blast
  obtain n j l where cur: "current_lease g now db = Inr (j, l)"
    and db': "db' = save_job (paused_job p n (gr_token g) now j) (save_lease (release_lease p now ''RETRY'' l) db)"
    using assms(3) by (rule pause_attempt_Inr)
  note c = current_lease_Inr [OF cur]
  have j: "j = old" using c(5) assms(4) by simp
  have att: "1 \<le> j_attempts old" using held_lease(4) [OF inv c(1,4,2,3)] j by simp
  let ?new = "paused_job p n (gr_token g) now old"
  have "find_job (gr_job g) db' = Some ?new"
    using c(5,6) j by (simp add: db' find_job_def find_row_jobs paused_job_def)
  moreover have "j_status ?new = J_QUEUED" "j_attempts ?new = j_attempts old - 1"
    using att by (simp_all add: paused_job_def)
  moreover have "\<not> mutation_fenced ls t old ?new"
    using att by (simp add: mutation_fenced_def paused_job_def)
  ultimately show ?thesis by (auto simp: job_update_allowed_def)
qed

lemma sample_paused:
  "pause_attempt ''control-plane'' sample_grant ''BOOM'' 5 claimed_queue = Inr ((),
     save_job (paused_job ''control-plane'' ''BOOM'' 1 5 sample_running)
       (save_lease (release_lease ''control-plane'' 5 ''RETRY'' sample_lease) claimed_queue))"
  by (simp add: pause_attempt_def sample_identifiers sample_current) (simp add: sample_grant_def)

theorem pause_rejected_witness:
  "\<exists>db' new. pause_attempt ''control-plane'' sample_grant ''BOOM'' 5 claimed_queue = Inr ((), db') \<and>
     find_job 50 db' = Some new \<and> \<not> job_update_allowed (leases db') 6 sample_running new"
proof -
  have g: "gr_job sample_grant = 50" by (simp add: sample_grant_def)
  show ?thesis
    using pause_rejected [OF sample_queue_empty sample_reached sample_paused, unfolded g, OF sample_find] sample_paused
    by blast
qed

subsection \<open>Attempts and leases\<close>

text \<open>The attempts a job has counted beyond its leases: zero until a pause gives one back.\<close>

definition unspent :: "'a job_db_scheme \<Rightarrow> uuid \<Rightarrow> int" where
  "unspent db i = (case find_job i db of None \<Rightarrow> 0 | Some j \<Rightarrow> j_attempts j) - int (length (attempts_of db i))"

lemma unspent_frame: "jobs db' = jobs db \<Longrightarrow> leases db' = leases db \<Longrightarrow> unspent db' i = unspent db i"
  by (simp add: unspent_def find_job_def attempts_of_def)

lemma unspent_row:
  assumes "job_inv db" "j \<in> set (jobs db)" "l \<in> set (leases db)" "same_lease l l'"
    and "j_id j' = j_id j" "j_attempts j' = j_attempts j"
    and "jobs db' = row_jobs j' (jobs db)" "leases db' = row_leases l' (leases db)"
  shows "unspent db' i = unspent db i"
proof -
  have "attempts_of db' i = attempts_of db i"
    using row_attempts(1) [OF job_invD(2) [OF assms(1)] assms(3,4)] by (simp add: attempts_of_def assms(8))
  moreover have "find (\<lambda>k. j_id k = j_id j) (jobs db) = Some j"
    using find_key [OF job_invD(1) [OF assms(1)] assms(2)] .
  ultimately show ?thesis using assms(5,6)
    by (auto simp: unspent_def find_job_def assms(7) find_row_jobs split: option.split)
qed

lemma heartbeat_unspent:
  assumes inv: "job_inv db" and h: "heartbeat p g d now db = Inr (r, db')"
  shows "unspent db' i = unspent db i"
proof -
  obtain x j l where cur: "current_lease g now db = Inr (j, l)" and
    db': "db' = save_job (j\<lparr>j_lease_expires := Some x, j_last_token := Some (gr_token g), j_actor := p\<rparr>)
      (save_lease (l\<lparr>l_heartbeat := now, l_expires := x, l_actor := p\<rparr>) db)"
    using h by (auto simp: heartbeat_def Let_def)
  show ?thesis
    by (rule unspent_row [OF inv current_lease_Inr(1,2) [OF cur]]) (simp_all add: db' same_lease_def)
qed

lemma append_unspent:
  assumes inv: "job_inv db" and cur: "current_lease g now db = Inr (j, l)"
    and a: "append_checkpoint p j l expected key payload fp now cid db1 = Inr (r, db')"
    and db1: "jobs db1 = jobs db" "leases db1 = leases db"
  shows "unspent db' i = unspent db i"
proof (cases "cr_replayed r")
  case True
  then show ?thesis using append_checkpoint_Inr [OF a] db1 unspent_frame by simp
next
  case False
  then show ?thesis using append_checkpoint_Inr [OF a] db1
    by (intro unspent_row [OF inv current_lease_Inr(1,2) [OF cur],
          of "checkpointed_lease p payload (expected + 1) l" "checkpointed_job p payload (expected + 1) (l_token l) j"])
      (auto simp: checkpointed_lease_def checkpointed_job_def same_lease_def)
qed

lemma complete_unspent:
  assumes inv: "job_inv db" and c: "complete e p g expected fk fp now cid db = Inr (u, db')"
  shows "unspent db' i = unspent db i"
  using c
proof (rule complete_Inr)
  fix j l final j1 l1 db1
  assume cur: "current_lease g now db = Inr (j, l)"
    and f: "final_rows e p j l expected final now cid db = Inr (j1, l1, db1)"
    and db': "db' = save_job (finish_job J_SUCCEEDED None (gr_token g) now p j1)
        (save_lease (release_lease p now ''SUCCEEDED'' l1) db1)"
  note fr = final_rows_Inr [OF f]
  have sl: "same_lease l (release_lease p now ''SUCCEEDED'' l1)"
    using fr same_lease_trans [OF _ release_lease_simps(1)] by blast
  have id: "j_id j1 = j_id j" "l_id l1 = l_id l" using fr by (simp_all add: same_job_def same_lease_def)
  show ?thesis
    by (rule unspent_row [OF inv current_lease_Inr(1,2) [OF cur] sl,
          of "finish_job J_SUCCEEDED None (gr_token g) now p j1"])
      (use fr id in \<open>simp_all add: db'\<close>)
qed

lemma fail_unspent:
  assumes inv: "job_inv db" and f: "fail_attempt e p g code retryable now db = Inr (d, db')"
  shows "unspent db' i = unspent db i"
proof -
  obtain n j l where cur: "current_lease g now db = Inr (j, l)"
    and r: "release_failed_attempt e p g n retryable now j l db = Inr (d, db')"
    using f by (rule fail_attempt_Inr)
  obtain rt where "db' = save_job (failed_job p n (gr_token g) rt now j) (save_lease (failed_lease p n rt now l) db)"
    using r by (rule release_failed_attempt_Inr)
  then show ?thesis
    by (intro unspent_row [OF inv current_lease_Inr(1,2) [OF cur], of "failed_lease p n rt now l" "failed_job p n (gr_token g) rt now j"])
      simp_all
qed

lemma recover_job_unspent:
  assumes inv: "job_inv db" and j: "j \<in> set (jobs db)" and r: "recover_job p now j db = Inr db'"
  shows "unspent db' i = unspent db i"
proof -
  obtain l where l: "find (leased_by j) (leases db) = Some l" "l_released l = None"
    using r by (cases "find (leased_by j) (leases db)") (auto simp: recover_job_def split: if_split_asm)
  then obtain j' l' where "db' = save_job j' (save_lease l' db)" "j_id j' = j_id j" "j_attempts j' = j_attempts j" "same_lease l l'"
    using r unfolding recover_job_def
    by (cases "j_cancel_requested j = None"; cases "j_max_attempts j \<le> j_attempts j")
      (auto simp: Let_def finish_job_def same_lease_def release_lease_def)
  then show ?thesis using find_leased [OF l(1)] by (intro unspent_row [OF inv j, of l l' j']) simp_all
qed

lemma recover_jobs_unspent:
  assumes "job_inv db" "recover_jobs p now js db = Inr db'" "distinct (map j_id js)"
    "\<forall>j \<in> set js. j \<in> set (jobs db) \<and> j_status j = J_RUNNING"
  shows "unspent db' i = unspent db i"
  using assms
proof (induction js arbitrary: db)
  case (Cons j js)
  obtain db1 where d: "recover_job p now j db = Inr db1" "recover_jobs p now js db1 = Inr db'"
    using Cons.prems(2) by auto
  have m: "lease_move db db1" using recover_job_move [OF Cons.prems(1) _ _ d(1)] Cons.prems(4) by simp
  have "\<forall>k \<in> set js. k \<in> set (jobs db1) \<and> j_status k = J_RUNNING"
    using Cons.prems(3,4) recover_job_others [OF d(1)] by (auto simp: image_iff)
  then have "unspent db' i = unspent db1 i"
    using Cons.IH [OF lease_move_inv [OF m Cons.prems(1)] d(2)] Cons.prems(3) by simp
  then show ?case using recover_job_unspent [OF Cons.prems(1) _ d(1)] Cons.prems(4) by simp
qed simp

lemma grant_unspent:
  assumes inv: "job_inv db" and j: "j \<in> set (jobs db)" and db1: "jobs db1 = jobs db" "attempts_of db1 = attempts_of db"
    and g: "grant_lease e p worker d lid now j recovered db1 = Inr (g, db')"
  shows "unspent db' i = unspent db i"
proof -
  define l where "l = claimed_lease e p j lid worker (next_lease_attempt (j_id j) db1) (next_token db1) now (now + d)"
  have l: "l_job l = j_id j" "db' = save_job (claimed_job p worker (next_token db1) lid (now + d) j)
      (db1\<lparr>fencing_counter := Some (next_token db1 + 1), leases := leases db1 @ [l]\<rparr>)"
    using grant_lease_Inr [OF g] by (auto simp: l_def)
  have "attempts_of db' i = attempts_of db i @ (if i = j_id j then [l_attempt l] else [])"
    using l db1(2) by (simp add: attempts_of_def fun_eq_iff)
  moreover have "find (\<lambda>k. j_id k = j_id j) (jobs db) = Some j"
    using find_key [OF job_invD(1) [OF inv] j] .
  ultimately show ?thesis using l db1(1)
    by (auto simp: unspent_def find_job_def find_row_jobs claimed_job_def split: option.split)
qed

lemma claim_step_unspent:
  assumes inv: "job_inv db" and s: "claim_step e p worker d types lid scan now now2 db = Inr out"
  shows "case out of Nothing_claimed db' \<Rightarrow> db' = db | Exhausted db' \<Rightarrow> unspent db' i = unspent db i
    | Claimed g db' \<Rightarrow> unspent db' i = unspent db i"
proof (cases "next_claim types scan db")
  case None
  then show ?thesis using s by (auto simp: claim_step_def)
next
  case (Some j)
  then have j: "j \<in> set (jobs db)" using next_claim_Some by blast
  show ?thesis
  proof (cases "j_status j = J_RUNNING")
    case False
    then show ?thesis using s Some by (auto simp: claim_step_def intro: grant_unspent [OF inv j refl refl])
  next
    case True
    then obtain l where l: "find (leased_by j) (leases db) = Some l"
      using s Some by (cases "find (leased_by j) (leases db)") (auto simp: claim_step_def)
    note lm = find_leased [OF l, THEN conjunct1]
    have a: "attempts_of (save_lease (release_lease p now r l) db) = attempts_of db" for r
      using row_attempts(1) [OF job_invD(2) [OF inv] lm] by (simp add: attempts_of_def fun_eq_iff)
    have x: "unspent (save_job (finish_job J_FAILED c k now p j)
        (save_lease ((release_lease p now r l)\<lparr>l_failure := q\<rparr>) db)) i = unspent db i" for c k r q
      by (rule unspent_row [OF inv j lm, of "(release_lease p now r l)\<lparr>l_failure := q\<rparr>" "finish_job J_FAILED c k now p j"])
        (simp_all add: same_lease_def release_lease_def)
    have y: "grant_lease e p worker d lid now2 j True (save_lease (release_lease p now ''SUPERSEDED'' l) db) = Inr (g, db') \<Longrightarrow>
        unspent db' i = unspent db i" for g db'
      by (rule grant_unspent [OF inv j _ a]) simp_all
    show ?thesis using s Some True l x y by (auto simp: claim_step_def split: if_split_asm)
  qed
qed

lemma claim_loop_unspent:
  "job_inv db \<Longrightarrow> claim_loop e p worker d types lid clk n db = Inr (g, db') \<Longrightarrow> unspent db' i = unspent db i"
proof (induction e p worker d types lid clk n db rule: claim_loop.induct)
  case (1 e p worker d types lid clk n db)
  obtain out where out: "claim_step e p worker d types lid (clk n) (clk (n + 1)) (clk (n + 2)) db = Inr out"
    using "1.prems"(2) by (subst (asm) claim_loop.simps) (auto split: sum.split_asm)
  note u = claim_step_unspent [OF "1.prems"(1) out] and m = claim_step_move [OF "1.prems"(1) out]
    and s = claim_loop.simps [of e p worker d types lid clk n db]
  show ?case
  proof (cases out)
    case (Exhausted db1)
    then have "claim_loop e p worker d types lid clk (n + 2) db1 = Inr (g, db')" using "1.prems"(2) out s by simp
    moreover have "job_inv db1" using lease_move_inv [of db db1] "1.prems"(1) m Exhausted by simp
    ultimately show ?thesis using "1.IH" [OF out Exhausted] u Exhausted by simp
  qed (use "1.prems" out s u in auto)
qed

lemma schedule_unspent:
  assumes inv: "job_inv db" and c: "schedule e p validate c now jid db = Inr (r, db')"
  shows "unspent db' i = unspent db i"
  using c
proof (cases rule: schedule_cases)
  case (created ty key payload t j)
  have j: "j_id j = jid" "j_attempts j = 0" using created(9) by (simp_all add: scheduled_row_def)
  have js: "jobs db' = jobs db @ [j]" "leases db' = leases db"
    using created(13) ensure_counter_simps(2) [of db] by simp_all
  have "find (\<lambda>k. j_id k = jid) (jobs db) = None" using created(11) by (simp add: find_None_iff_all)
  then show ?thesis using j by (auto simp: unspent_def find_job_def attempts_of_def js find_append split: option.split)
qed simp

fun is_pause :: "job_command \<Rightarrow> bool" where
  "is_pause (Pause_attempt g code now) = True"
| "is_pause _ = False"

lemma binding_frames:
  "issue_tool_grant e g key scope now gid db = Inr (a, db') \<Longrightarrow> jobs db' = jobs db \<and> leases db' = leases db"
  "register_owned_process e g ident now hid tid db = Inr (b, db') \<Longrightarrow> jobs db' = jobs db \<and> leases db' = leases db"
  "register_reconciliation_target e g kind tkey v now tid db = Inr (c, db') \<Longrightarrow> jobs db' = jobs db \<and> leases db' = leases db"
  by (auto simp: issue_tool_grant_def register_owned_process_def register_reconciliation_target_def Let_def
      split: option.split_asm if_split_asm dest!: insert_frame)

lemma transition_frames:
  assumes "job_transition_task e p gate g c now eid db = Inr (r, db')"
  shows "jobs db' = jobs db \<and> leases db' = leases db"
  using assms
proof (rule job_transition_task_Inr)
  fix j l db1
  assume "transition_task e gate (jt_lineage c)
      \<lparr>tc_task = gr_task g, tc_id = jt_id c, tc_expected = jt_expected c,
       tc_kind = jt_kind c, tc_reason = jt_reason c, tc_actor = p,
       tc_evidence = jt_evidence c, tc_candidate = jt_candidate c\<rparr> now eid db = Inr (r, db1)"
  then obtain ev rf ts where "db1 = db\<lparr>events := ev, references := rf, tasks := ts\<rparr>"
    using transition_task_frame by blast
  moreover assume "if tr_replayed r
     then db' = db1 \<and> (\<exists>x \<in> set (job_transitions db1). x_event x = tr_event r \<and> x_job x = j_id j)
     else db' = db1\<lparr>job_transitions := job_transitions db1 @ [\<lparr>x_job = j_id j, x_lease = l_id l,
       x_token = l_token l, x_task = gr_task g, x_event = tr_event r, x_recorded_at = now\<rparr>]\<rparr>"
  ultimately show ?thesis by (auto split: if_split_asm)
qed

lemma exec_unspent:
  assumes inv: "job_inv db" and x: "exec_job e p validate gate c db = Inr (a, db')" and np: "\<not> is_pause c"
  shows "unspent db' i = unspent db i"
proof (cases c)
  case (Schedule_job t ty k v pol av now jid)
  then show ?thesis using x schedule_unspent [OF inv] by (cases pol) auto
next
  case (Claim_next w d types clk lid)
  then show ?thesis using x claim_loop_unspent [OF inv] by (auto simp: claim_next_def)
next
  case (Reconcile_expired limit now)
  then have "reconcile_expired_leases p limit now db = Inr ((case a of A_recovered is \<Rightarrow> is), db')" using x by auto
  then show ?thesis using recover_jobs_unspent [OF inv] expired_jobs_props [OF inv, of "nat limit" now]
    by (auto simp: reconcile_expired_leases_def Let_def split: if_split_asm)
next
  case (Checkpoint g v key payload now cid)
  then obtain r where "checkpoint e p g v key payload now cid db = Inr (r, db')" using x by auto
  then show ?thesis by (rule checkpoint_Inr) (rule append_unspent [OF inv _ _ refl refl])
next
  case (Record_effect g f res v key payload now cid)
  then obtain r where "record_effect_result e p g f res v key payload now cid db = Inr (r, db')" using x by auto
  then show ?thesis
  proof (rule record_effect_result_Inr)
    fix k v2 q j l fa db1
    assume a: "current_lease g now db = Inr (j, l)"
      "append_checkpoint p j l v k v2 (fingerprint (sha256 e) v2) now cid db1 = Inr (r, db')"
      "settle_effect fa (if er_succeeded res then E_SUCCEEDED else E_FAILED) q l now db = Inr db1"
    show ?thesis using append_unspent [OF inv a(1,2)] settle_effect_frame [OF a(3)] by simp
  qed
next
  case (Prepare_effect g key ty request now fid)
  then obtain r where "prepare_effect e g key ty request now fid db = Inr (r, db')" using x by auto
  then have "jobs db' = jobs db" "leases db' = leases db" by (auto elim!: prepare_effect_cases dest!: insert_frame)
  then show ?thesis by (rule unspent_frame)
next
  case (Heartbeat g d now)
  then show ?thesis using x heartbeat_unspent [OF inv] by auto
next
  case (Complete g v fk fp now cid)
  then show ?thesis using x complete_unspent [OF inv] by auto
next
  case (Fail_attempt g code retryable now)
  then show ?thesis using x fail_unspent [OF inv] by auto
next
  case (Issue_tool_grant g key scope now gid)
  then obtain b where "issue_tool_grant e g key scope now gid db = Inr (b, db')" using x by auto
  then show ?thesis using binding_frames(1) unspent_frame by blast
next
  case (Register_process g ident now hid tid)
  then obtain b where "register_owned_process e g ident now hid tid db = Inr (b, db')" using x by auto
  then show ?thesis using binding_frames(2) unspent_frame by blast
next
  case (Register_target g kind tkey v now tid)
  then obtain b where "register_reconciliation_target e g kind tkey v now tid db = Inr (b, db')" using x by auto
  then show ?thesis using binding_frames(3) unspent_frame by blast
next
  case (Transition_task g c now eid)
  then obtain b where "job_transition_task e p gate g c now eid db = Inr (b, db')" using x by auto
  then show ?thesis using transition_frames unspent_frame by blast
next
  case (Pause_attempt g code now)
  then show ?thesis using np by simp
qed

lemma run_unspent:
  assumes "list_all (\<lambda>c. \<not> is_pause c) cs" "job_inv db"
  shows "unspent (run_service (exec_job e p validate gate) cs db) i = unspent db i"
  using assms
proof (induction cs arbitrary: db)
  case (Cons c cs)
  show ?case
  proof (cases "exec_job e p validate gate c db")
    case (Inr r)
    then obtain a db1 where x: "exec_job e p validate gate c db = Inr (a, db1)" by (cases r) auto
    have "unspent db1 i = unspent db i" using exec_unspent [OF Cons.prems(2) x] Cons.prems(1) by simp
    then show ?thesis using Cons.IH [OF _ job_service.exec_inv [OF Cons.prems(2) x]] Cons.prems(1) x by simp
  qed (use Cons in simp)
qed simp

subsection \<open>Claims pass the triggers\<close>

text \<open>The statements of a granting turn of \<open>claim_next\<close>, in the order of its flushes.\<close>

definition claim_statements ::
  "env \<Rightarrow> string \<Rightarrow> string \<Rightarrow> int \<Rightarrow> uuid \<Rightarrow> instant \<Rightarrow> instant \<Rightarrow> job_row \<Rightarrow> 'a job_db_scheme \<Rightarrow> statement list" where
  "claim_statements e p worker d lid now now2 j db =
     (if j_status j = J_RUNNING
      then map (\<lambda>l. Update_lease (release_lease p now ''SUPERSEDED'' l))
        (case find (leased_by j) (leases db) of None \<Rightarrow> [] | Some l \<Rightarrow> [l])
      else []) @
     [Allocate_token,
      Insert_lease (claimed_lease e p j lid worker (next_lease_attempt (j_id j) db) (next_token db) now2 (now2 + d)),
      Update_job (claimed_job p worker (next_token db) lid (now2 + d) j)]"

lemma claimed_job_simps:
  "j_id (claimed_job p w t lid x j) = j_id j" "j_status (claimed_job p w t lid x j) = J_RUNNING"
  "j_attempts (claimed_job p w t lid x j) = j_attempts j + 1" "j_lease (claimed_job p w t lid x j) = Some lid"
  "j_token (claimed_job p w t lid x j) = Some t" "j_lease_owner (claimed_job p w t lid x j) = Some w"
  "j_lease_expires (claimed_job p w t lid x j) = Some x" "j_last_token (claimed_job p w t lid x j) = Some t"
  "j_max_attempts (claimed_job p w t lid x j) = j_max_attempts j"
  "j_checkpoint_version (claimed_job p w t lid x j) = j_checkpoint_version j"
  "j_completed_at (claimed_job p w t lid x j) = j_completed_at j"
  "job_identity_kept j (claimed_job p w t lid x j)"
  by (simp_all add: claimed_job_def job_identity_kept_def)

text \<open>The job of a claim, as the triggers want it before the lease is inserted.\<close>

definition grantable :: "instant \<Rightarrow> job_row \<Rightarrow> bool" where
  "grantable t j \<longleftrightarrow> j_task j \<noteq> None \<and> j_cancel_requested j = None \<and> 0 \<le> j_attempts j \<and>
     j_attempts j < j_max_attempts j \<and> 0 \<le> j_checkpoint_version j \<and> j_completed_at j = None \<and>
     (if j_status j = J_RUNNING then lease_expired t j \<and> j_lease j \<noteq> None
      else j_status j = J_QUEUED \<and> j_available_at j \<le> t \<and> j_lease j = None)"

lemma grant_admitted:
  assumes g: "grant_lease e p worker d lid now j recovered db = Inr (g, db')"
    and j: "find_job (j_id j) db = Some j" "grantable t j"
    and a: "next_lease_attempt (j_id j) db = j_attempts j + 1"
    and n: "fencing_counter db = Some n" "0 < n" "\<forall>u. j_token j = Some u \<longrightarrow> u < n"
    and d: "0 < d" "t < now + d" "\<forall>s. length (sha256 e s) = 64"
  shows "guarded_statements t [Allocate_token,
      Insert_lease (claimed_lease e p j lid worker (next_lease_attempt (j_id j) db) (next_token db) now (now + d)),
      Update_job (claimed_job p worker (next_token db) lid (now + d) j)] db = Some db'"
proof -
  define l where "l = claimed_lease e p j lid worker (next_lease_attempt (j_id j) db) (next_token db) now (now + d)"
  define j' where "j' = claimed_job p worker (next_token db) lid (now + d) j"
  have t: "next_token db = n" by (simp add: next_token_def n(1))
  have db': "db' = save_job j' (db\<lparr>fencing_counter := Some (n + 1), leases := leases db @ [l]\<rparr>)"
    using grant_lease_Inr [OF g] by (simp add: t l_def j'_def)
  have jin: "j \<in> set (jobs db)" using j(1) find_Some_in by (fastforce simp: find_job_def)
  have "lease_insert_allowed (jobs db) t l"
    using j(2) jin a d n(2)
    by (auto simp: lease_insert_allowed_def l_def t list_ex_iff grantable_def claimed_lease_def lease_fingerprint_def
        fingerprint_def split: if_splits intro!: bexI [of _ j])
  moreover have "job_update_allowed (leases db @ [l]) t j j'"
  proof -
    have "job_projection_ok j j'" using j(2) by (simp add: job_projection_ok_def j'_def claimed_job_simps grantable_def)
    moreover have "lease_projected (leases db @ [l]) j'" by (simp add: lease_projected_def j'_def l_def claimed_job_simps)
    moreover have "mutation_fenced (leases db @ [l]) t j j'"
      using j(2) n(3) unfolding mutation_fenced_def
      by (auto simp: grantable_def lease_expired_def sql_related_def claimed_job_simps j'_def t
          split: if_splits option.splits)
    ultimately show ?thesis by (simp add: job_update_allowed_def j'_def claimed_job_simps)
  qed
  moreover have "find_job (j_id j') (db\<lparr>fencing_counter := Some (n + 1), leases := leases db @ [l]\<rparr>) = Some j"
    using j(1) by (simp add: find_job_def j'_def claimed_job_simps)
  ultimately show ?thesis
    by (simp add: l_def [symmetric] j'_def [symmetric] n(1) counter_update_allowed_def db')
qed

lemma release_admitted:
  assumes "job_inv db" "j \<in> set (jobs db)" "j_status j = J_RUNNING" "l \<in> set (leases db)" "leased_by j l"
  shows "guarded_statement t (Update_lease (release_lease p now r l)) db = Some (save_lease (release_lease p now r l) db)"
proof -
  have "find (\<lambda>k. l_id k = l_id l) (leases db) = Some l" using find_key [OF job_invD(2) [OF assms(1)] assms(4)] .
  moreover have "lease_update_allowed (jobs db) t l (release_lease p now r l)"
    using held_lease(1,2) [OF assms] assms(2,3,5) by (auto simp: lease_update_allowed_def release_lease_def list_ex_iff)
  ultimately show ?thesis by (simp add: release_lease_def)
qed

text \<open>Claims pass the triggers.  In every run of commands without a pause, whatever else
  happened, the statements of a granting turn of \<open>claim_next\<close> are allowed one by one, in the order
  in which the session flushes them, by the triggers of the migrated database, and leave the state
  the model computes.  The clock of the database may run ahead of the service by less than the
  lease duration.  The attempt of the new lease, which the code computes from the leases and the
  trigger from the job, agree because no attempt was ever given back.\<close>

theorem claim_admitted:
  assumes "empty_queue db0" "db = run_service (exec_job e p validate gate) cs db0"
    and "list_all (\<lambda>c. \<not> is_pause c) cs" "fencing_counter db = Some n"
    and s: "claim_step e p worker d types lid scan now now2 db = Inr (Claimed g db')"
    and d: "0 < d" "scan \<le> now2" "now \<le> now2" "now2 \<le> t" "t < now2 + d" "\<forall>x. length (sha256 e x) = 64"
  shows "\<exists>j. next_claim types scan db = Some j \<and>
    guarded_statements t (claim_statements e p worker d lid now now2 j db) db = Some db'"
proof -
  have inv: "job_inv db" and led: "ledger_ok db" using run_ledger [OF assms(1)] assms(2) by blast+
  have "unspent db i = 0" for i
    using run_unspent [OF assms(3) empty_queue_inv [OF assms(1)]] assms(1,2)
    by (simp add: unspent_def empty_queue_def find_job_def attempts_of_def)
  obtain j where nx: "next_claim types scan db = Some j"
    using s by (cases "next_claim types scan db") (auto simp: claim_step_def)
  then have j: "j \<in> set (jobs db)" and cl: "claimable types scan db j" using next_claim_Some by blast+
  have fj: "find_job (j_id j) db = Some j"
    using find_key [OF job_invD(1) [OF inv] j] by (simp add: find_job_def)
  have sh: "job_shape (leases db) j" using job_invD(5) [OF inv j] .
  have n: "0 < n" "next_token db = n" using job_invD(4) [OF inv] assms(4) by (simp_all add: next_token_def)
  have at: "next_lease_attempt (j_id j) db = j_attempts j + 1"
    using \<open>unspent db (j_id j) = 0\<close> fj ledger_next [OF led] by (simp add: unspent_def)
  show ?thesis
  proof (cases "j_status j = J_RUNNING")
    case False
    then have g: "grant_lease e p worker d lid now2 j False db = Inr (g, db')" using s nx by (auto simp: claim_step_def)
    have tk: "j_token j = None" and gr: "grantable t j"
      using cl sh False d by (auto simp: claimable_def grantable_def job_shape_def job_row_ok_def)
    then show ?thesis using grant_admitted [OF g fj gr at assms(4) n(1) _ d(1,5,6)] nx False
      by (simp add: claim_statements_def)
  next
    case True
    then obtain l where l: "find (leased_by j) (leases db) = Some l"
      using s nx by (cases "find (leased_by j) (leases db)") (auto simp: claim_step_def)
    note lm = find_leased [OF l, THEN conjunct1] and lb = find_leased [OF l, THEN conjunct2]
    define db1 where "db1 = save_lease (release_lease p now ''SUPERSEDED'' l) db"
    have g: "grant_lease e p worker d lid now2 j True db1 = Inr (g, db')" and lt: "j_attempts j < j_max_attempts j"
      using s nx True l by (auto simp: claim_step_def db1_def split: if_split_asm)
    have gr: "grantable t j"
      using cl sh True d lt lb held_lease(5) [OF inv j True lm lb]
      by (auto simp: claimable_def grantable_def job_shape_def job_row_ok_def lease_expired_def leased_by_def split: option.splits)
    have tk: "\<forall>u. j_token j = Some u \<longrightarrow> u < n"
      using job_invD(7) [OF inv lm] lb n(2) by (simp add: lease_shape_def leased_by_def)
    have f1: "find_job (j_id j) db1 = Some j" "fencing_counter db1 = Some n" "next_token db1 = next_token db"
        "next_lease_attempt (j_id j) db1 = next_lease_attempt (j_id j) db"
    proof -
      show "next_lease_attempt (j_id j) db1 = next_lease_attempt (j_id j) db"
        unfolding db1_def by (rule next_attempt_released [OF job_invD(2) [OF inv] lm]) simp
    qed (use fj assms(4) in \<open>simp_all add: db1_def find_job_def save_lease_def next_token_def\<close>)
    have "guarded_statement t (Update_lease (release_lease p now ''SUPERSEDED'' l)) db = Some db1"
      using release_admitted [OF inv j True lm lb] by (simp add: db1_def)
    then show ?thesis
      using grant_admitted [OF g f1(1) gr _ f1(2) n(1) tk d(1,5,6)] f1(3,4) at nx True l
      by (simp add: claim_statements_def del: guarded_statement.simps)
  qed
qed

lemma sample_claim_step:
  "claim_step sample_env ''control-plane'' ''w1'' 30000000 [] 60 0 0 0 scheduled_queue = Inr (Claimed sample_grant claimed_queue)"
proof -
  obtain out where o: "claim_step sample_env ''control-plane'' ''w1'' 30000000 [] 60 0 0 0 scheduled_queue = Inr out"
    and l: "claim_loop sample_env ''control-plane'' ''w1'' 30000000 [] 60 (\<lambda>_. 0) 0 scheduled_queue = Inr (Some sample_grant, claimed_queue)"
    using sample_claimed
    by (simp add: claim_next_def sample_identifiers sample_duration claim_loop.simps split: sum.split_asm)
  show ?thesis
  proof (cases out)
    case (Exhausted db1)
    have "next_claim [] 0 scheduled_queue = Some sample_job"
      using sample_claimable by (simp add: next_claim_def scheduled_queue_def first_by_def)
    then show ?thesis using o Exhausted by (auto simp: claim_step_def split: sum.split_asm)
  qed (use o l in \<open>simp_all add: claim_loop.simps\<close>)
qed

theorem claim_admitted_witness:
  "\<exists>j. next_claim [] 0 scheduled_queue = Some j \<and>
    guarded_statements 7 (claim_statements sample_env ''control-plane'' ''w1'' 30000000 60 0 0 j scheduled_queue)
      scheduled_queue = Some claimed_queue"
proof -
  have r: "scheduled_queue = run_service queue_exec [schedule_one] sample_queue"
    by (simp add: sample_scheduled del: exec_job.simps)
  have c: "fencing_counter scheduled_queue = Some 1" by (simp add: scheduled_queue_def)
  show ?thesis
    by (rule claim_admitted [OF sample_queue_empty r _ c sample_claim_step]) (simp_all add: sample_env_def)
qed

subsection \<open>Releases pass the triggers\<close>

lemma settle_admitted:
  assumes inv: "job_inv db" and j: "j \<in> set (jobs db)" "j_status j = J_RUNNING" and l: "l \<in> set (leases db)" "leased_by j l"
    and l': "same_lease l l'" "l_heartbeat l' = l_heartbeat l" "l_expires l' = l_expires l"
    and j': "job_identity_kept j j'" "j_attempts j' = j_attempts j" "j_last_token j' = Some (l_token l)"
      "j_checkpoint_version j' = j_checkpoint_version j" "j_lease j' = None" "j_token j' = None"
      "j_lease_owner j' = None" "j_lease_expires j' = None" "j_status j' \<noteq> J_RUNNING"
      "j_completed_at j' = None \<longleftrightarrow> j_status j' = J_QUEUED"
    and r: "release_matches t j j' l'"
  shows "guarded_statements t [Update_lease l', Update_job j'] db = Some (save_job j' (save_lease l' db))"
proof -
  note h = held_lease [OF inv j l]
  have id: "l_id l' = l_id l" "j_id j' = j_id j" using l'(1) j'(1) by (simp_all add: same_lease_def job_identity_kept_def)
  have "find (\<lambda>k. l_id k = l_id l') (leases db) = Some l" "find_job (j_id j') (save_lease l' db) = Some j"
    using find_key [OF job_invD(2) [OF inv] l(1)] find_key [OF job_invD(1) [OF inv] j(1)]
    by (simp_all add: id find_job_def)
  moreover have "lease_update_allowed (jobs db) t l l'"
    using h(1,2) j l(2) l' by (auto simp: lease_update_allowed_def same_lease_def list_ex_iff)
  moreover have "mutation_fenced (row_leases l' (leases db)) t j j'"
  proof -
    have "l' \<in> set (row_leases l' (leases db))" using in_row_leases l(1) id(1) by metis
    moreover have "leased_by j l'" using l(2) l'(1) by (simp add: leased_by_def same_lease_def)
    ultimately have "list_ex (\<lambda>k. leased_by j k \<and> release_matches t j j' k) (row_leases l' (leases db))"
      using r by (auto simp: list_ex_iff)
    then show ?thesis using j(2) j' l(2) by (simp add: mutation_fenced_def leased_by_def sql_related_def)
  qed
  moreover have "job_projection_ok j j'"
    using h(7) j' by (cases "j_status j'") (auto simp: job_projection_ok_def job_row_ok_def job_identity_kept_def)
  ultimately show ?thesis using j' by (simp add: job_update_allowed_def lease_projected_def)
qed

text \<open>Failures pass the triggers.  In every reachable queue the two statements of a
  \<open>fail_attempt\<close> that the service accepts, the release of the lease and then the update of the job,
  are allowed by the triggers as long as the clock of the database has not reached the expiry of
  the lease, whether the job is queued again or failed.\<close>

theorem failure_admitted:
  assumes "empty_queue db0" "db = run_service (exec_job e p validate gate) cs db0"
    and f: "fail_attempt e p g code retryable now db = Inr (d, db')"
    and t: "current_lease g now db = Inr (j, l)" "t < l_expires l"
  shows "\<exists>l' j'. guarded_statements t [Update_lease l', Update_job j'] db = Some db' \<and>
    l_id l' = gr_lease g \<and> j_id j' = gr_job g"
proof -
  have inv: "job_inv db" using run_job_inv [OF assms(1)] assms(2) by blast
  note c = current_lease_Inr [OF t(1)]
  obtain n rt where db': "db' = save_job (failed_job p n (gr_token g) rt now j) (save_lease (failed_lease p n rt now l) db)"
  proof -
    obtain n where "release_failed_attempt e p g n retryable now j l db = Inr (d, db')"
      using f by (rule fail_attempt_Inr) (simp add: t(1))
    then show ?thesis using that by (rule release_failed_attempt_Inr)
  qed
  have "guarded_statements t [Update_lease (failed_lease p n rt now l), Update_job (failed_job p n (gr_token g) rt now j)] db =
      Some db'"
    unfolding db'
    by (rule settle_admitted [OF inv c(1,4,2,3)])
      (use t(2) c(9) held_lease(5) [OF inv c(1,4,2,3)] in \<open>auto simp: failed_job_def job_identity_kept_def release_matches_def
        failed_lease_def release_lease_def same_lease_def split: option.split\<close>)
  moreover have "l_id (failed_lease p n rt now l) = gr_lease g" "j_id (failed_job p n (gr_token g) rt now j) = gr_job g"
    using c(6,10) failed_job_simps(1) [of j p n "gr_token g" rt now] by (simp_all add: same_job_def)
  ultimately show ?thesis by blast
qed

text \<open>Recovery passes the triggers.  In every reachable queue the statements with which
  \<open>reconcile_expired_leases\<close> takes an expired lease back are allowed by the triggers, provided the
  clock of the database is not behind the service: the job is queued again, failed when its
  attempts are used up, or cancelled when a cancellation was requested.\<close>

theorem recovery_admitted:
  assumes "empty_queue db0" "db = run_service (exec_job e p validate gate) cs db0"
    and j: "j \<in> set (expired_jobs now db)" and t: "now \<le> t"
  shows "\<exists>l' j' db'. recover_job p now j db = Inr db' \<and>
    guarded_statements t [Update_lease l', Update_job j'] db = Some db' \<and> l_released l' = Some now \<and> j_id j' = j_id j"
proof -
  have inv: "job_inv db" using run_job_inv [OF assms(1)] assms(2) by blast
  have j: "j \<in> set (jobs db)" "j_status j = J_RUNNING" "lease_expired now j" using j by (auto simp: expired_jobs_def)
  obtain l where l: "find (leased_by j) (leases db) = Some l" "l_released l = None" "j_token j = Some (l_token l)"
    by (rule running_lease [OF inv j(1,2)])
  note lm = find_leased [OF l(1), THEN conjunct1] and lb = find_leased [OF l(1), THEN conjunct2]
  note h = held_lease [OF inv j(1,2) lm lb]
  obtain l' where "recover_job p now j db = Inr (save_job (recovered_job p now j) (save_lease l' db))"
    and l': "same_lease l l'" "l_heartbeat l' = l_heartbeat l" "l_expires l' = l_expires l" "l_released l' = Some now"
      "l_release_reason l' = Some (if j_cancel_requested j = None then ''EXPIRED'' else ''CANCELLED'')"
  proof -
    define l' where "l' = (release_lease p now (if j_cancel_requested j = None then ''EXPIRED'' else ''CANCELLED'') l)\<lparr>
      l_failure := Some (if j_cancel_requested j \<noteq> None then ''CANCELLATION_REQUESTED''
        else if j_max_attempts j \<le> j_attempts j then ''LEASE_EXPIRED_ATTEMPTS_EXHAUSTED'' else ''LEASE_EXPIRED''),
      l_cancel_ack := (if j_cancel_requested j \<noteq> None then Some now else None)\<rparr>"
    have "recover_job p now j db = Inr (save_job (recovered_job p now j) (save_lease l' db))"
      using l by (auto simp: recover_job_def recovered_job_def Let_def l'_def)
    then show ?thesis by (rule that) (simp_all add: l'_def same_lease_def release_lease_def)
  qed
  moreover have "guarded_statements t [Update_lease l', Update_job (recovered_job p now j)] db =
      Some (save_job (recovered_job p now j) (save_lease l' db))"
    by (rule settle_admitted [OF inv j(1,2) lm lb l'(1-3)])
      (use t j(3) h l(3) l' in \<open>auto simp: recovered_job_def finish_job_def job_identity_kept_def release_matches_def
        lease_expired_def\<close>)
  ultimately show ?thesis using recovered_job_simps(1) by blast
qed

theorem failure_admitted_witness:
  "\<exists>d db' l' j'. fail_attempt sample_env ''control-plane'' sample_grant ''BOOM'' True 5 claimed_queue = Inr (d, db') \<and>
     guarded_statements 6 [Update_lease l', Update_job j'] claimed_queue = Some db' \<and> l_id l' = 60 \<and> j_id j' = 50"
proof -
  obtain d db' where f: "fail_attempt sample_env ''control-plane'' sample_grant ''BOOM'' True 5 claimed_queue = Inr (d, db')"
    using sample_failed by blast
  have c: "current_lease sample_grant 5 claimed_queue = Inr (sample_running, sample_lease)" by (rule sample_current) simp_all
  have "6 < l_expires sample_lease" "gr_lease sample_grant = 60" "gr_job sample_grant = 50"
    by (simp_all add: sample_lease_def sample_grant_def)
  then show ?thesis using failure_admitted [OF sample_queue_empty sample_reached f c, of 6] f by auto
qed

theorem recovery_admitted_witness:
  "\<exists>l' j' db'. recover_job ''control-plane'' 40000000 sample_running claimed_queue = Inr db' \<and>
     guarded_statements 40000001 [Update_lease l', Update_job j'] claimed_queue = Some db' \<and> j_id j' = 50"
proof -
  have j: "jobs claimed_queue = [sample_running]"
    by (simp add: claimed_queue_def scheduled_queue_def row_jobs_def claimed_job_def)
  have "expired_jobs 40000000 claimed_queue = [sample_running]"
    by (simp add: expired_jobs_def j lease_expired_def) (simp add: claimed_job_def)
  moreover have "j_id sample_running = 50" by (simp add: claimed_job_def)
  ultimately show ?thesis
    using recovery_admitted [OF sample_queue_empty sample_reached, of sample_running 40000000 40000001] by auto
qed

end
