(* ===== verification/Json_Text.thy ===== *)
theory Json_Text
  imports Json Identifiers
begin

text \<open>
  Reading JSON text as \<open>json.loads\<close> of the standard library does, with the hooks the program
  passes to it.  A payload is the list of its bytes; \<open>bytes.decode("utf-8")\<close> turns it into code
  points, over which the scanner runs.  The values of the development hold text over code points
  below 256, so a string beyond that range is the result \<open>Beyond_text\<close>, about which the model
  says nothing; every other failure is \<open>Malformed\<close>.  The interpreter bounds the nesting of
  containers (\<open>RecursionError\<close>); the bound is the argument \<open>limit\<close>.
\<close>

type_synonym codes = "nat list"

definition codes_of :: "string \<Rightarrow> codes" where
  "codes_of s = map char_code s"

lemma codes_of_simps [simp]: "codes_of [] = []" "codes_of (c # s) = char_code c # codes_of s"
  "codes_of (s @ t) = codes_of s @ codes_of t"
  by (simp_all add: codes_of_def)

subsection \<open>UTF-8\<close>

definition is_continuation :: "nat \<Rightarrow> bool" where
  "is_continuation b \<longleftrightarrow> 128 \<le> b \<and> b < 192"

fun utf8_decode :: "codes \<Rightarrow> codes option" where
  "utf8_decode [] = Some []"
| "utf8_decode (a # r) =
     (if a < 128 then map_option (\<lambda>t. a # t) (utf8_decode r)
      else if 194 \<le> a \<and> a < 224 then
        (case r of b # r' \<Rightarrow>
           if is_continuation b then map_option (\<lambda>t. ((a - 192) * 64 + (b - 128)) # t) (utf8_decode r') else None
         | _ \<Rightarrow> None)
      else if 224 \<le> a \<and> a < 240 then
        (case r of b # c # r' \<Rightarrow>
           let n = (a - 224) * 4096 + (b - 128) * 64 + (c - 128) in
           if is_continuation b \<and> is_continuation c \<and> 2048 \<le> n \<and> \<not> (55296 \<le> n \<and> n < 57344)
           then map_option (\<lambda>t. n # t) (utf8_decode r') else None
         | _ \<Rightarrow> None)
      else if 240 \<le> a \<and> a < 245 then
        (case r of b # c # d # r' \<Rightarrow>
           let n = (a - 240) * 262144 + (b - 128) * 4096 + (c - 128) * 64 + (d - 128) in
           if is_continuation b \<and> is_continuation c \<and> is_continuation d \<and> 65536 \<le> n \<and> n < 1114112
           then map_option (\<lambda>t. n # t) (utf8_decode r') else None
         | _ \<Rightarrow> None)
      else None)"

lemma utf8_ascii: "list_all (\<lambda>c. c < 128) t \<Longrightarrow> utf8_decode t = Some t"
  by (induction t) simp_all

subsection \<open>Strings\<close>

datatype scan_error = Malformed | Beyond_text

definition to_text :: "codes \<Rightarrow> scan_error + string" where
  "to_text t = (if list_all (\<lambda>c. c < 256) t then Inr (map char_of t) else Inl Beyond_text)"

definition hex_code_value :: "nat \<Rightarrow> nat option" where
  "hex_code_value c = (if 48 \<le> c \<and> c \<le> 57 then Some (c - 48) else if 97 \<le> c \<and> c \<le> 102 then Some (c - 87)
     else if 65 \<le> c \<and> c \<le> 70 then Some (c - 55) else None)"

fun scan_hex4 :: "codes \<Rightarrow> (nat \<times> codes) option" where
  "scan_hex4 (a # b # c # d # r) = (case (hex_code_value a, hex_code_value b, hex_code_value c, hex_code_value d) of
     (Some w, Some x, Some y, Some z) \<Rightarrow> Some (((w * 16 + x) * 16 + y) * 16 + z, r) | _ \<Rightarrow> None)"
| "scan_hex4 _ = None"

text \<open>The digits after \<open>\u\<close>, with a low surrogate joined to a high one before it.\<close>

definition scan_unicode :: "codes \<Rightarrow> (nat \<times> codes) option" where
  "scan_unicode cs = (case scan_hex4 cs of None \<Rightarrow> None
     | Some (u, r) \<Rightarrow>
         if 55296 \<le> u \<and> u < 56320 \<and> take 2 r = [92, 117] then
           (case scan_hex4 (drop 2 r) of None \<Rightarrow> None
            | Some (v, r') \<Rightarrow> if 56320 \<le> v \<and> v < 57344
                then Some (65536 + (u - 55296) * 1024 + (v - 56320), r') else Some (u, r))
         else Some (u, r))"

lemma scan_hex4_shorter: "scan_hex4 cs = Some (u, r) \<Longrightarrow> length r < length cs"
  by (induction cs rule: scan_hex4.induct) (auto split: option.split_asm)

lemma scan_unicode_shorter: "scan_unicode cs = Some (u, r) \<Longrightarrow> length r < length cs"
proof -
  assume s: "scan_unicode cs = Some (u, r)"
  then obtain u1 r1 where h: "scan_hex4 cs = Some (u1, r1)"
    by (cases "scan_hex4 cs") (auto simp: scan_unicode_def)
  have "r = r1 \<or> (\<exists>v. scan_hex4 (drop 2 r1) = Some (v, r))"
    using s h by (auto simp: scan_unicode_def split: if_split_asm option.split_asm)
  then show ?thesis
  proof
    assume "\<exists>v. scan_hex4 (drop 2 r1) = Some (v, r)"
    then have "length r < length (drop 2 r1)" using scan_hex4_shorter by blast
    then show ?thesis using scan_hex4_shorter [OF h] by simp
  qed (use scan_hex4_shorter [OF h] in simp)
qed

definition simple_escape :: "nat \<Rightarrow> nat option" where
  "simple_escape e = (if e = 34 \<or> e = 92 \<or> e = 47 then Some e else if e = 98 then Some 8
     else if e = 102 then Some 12 else if e = 110 then Some 10 else if e = 114 then Some 13
     else if e = 116 then Some 9 else None)"

text \<open>The characters after the opening quote, to the closing one.\<close>

function scan_string :: "codes \<Rightarrow> (codes \<times> codes) option" where
  "scan_string [] = None"
| "scan_string (c # cs) =
     (if c = 34 then Some ([], cs)
      else if c = 92 then
        (case cs of [] \<Rightarrow> None
         | e # r \<Rightarrow>
             if e = 117 then
               (case scan_unicode r of None \<Rightarrow> None
                | Some (u, r') \<Rightarrow> map_option (\<lambda>(t, q). (u # t, q)) (scan_string r'))
             else (case simple_escape e of None \<Rightarrow> None
                | Some x \<Rightarrow> map_option (\<lambda>(t, q). (x # t, q)) (scan_string r)))
      else if c < 32 then None
      else map_option (\<lambda>(t, q). (c # t, q)) (scan_string cs))"
  by pat_completeness auto
termination by (relation "measure length") (auto dest: scan_unicode_shorter)

subsection \<open>Numbers, literals and containers\<close>

definition is_digit_code :: "nat \<Rightarrow> bool" where
  "is_digit_code c \<longleftrightarrow> 48 \<le> c \<and> c \<le> 57"

definition skip_ws :: "codes \<Rightarrow> codes" where
  "skip_ws cs = dropWhile (\<lambda>c. c \<in> {32, 9, 10, 13}) cs"

text \<open>\<open>(-?(?:0|[1-9][0-9]*))(\.[0-9]+)?([eE][-+]?[0-9]+)?\<close>: the integer part and the rest of the
  numeral.\<close>

definition scan_fraction :: "codes \<Rightarrow> codes \<times> codes" where
  "scan_fraction cs = (case cs of c # r \<Rightarrow>
     if c = 46 \<and> takeWhile is_digit_code r \<noteq> [] then (c # takeWhile is_digit_code r, dropWhile is_digit_code r)
     else ([], cs) | [] \<Rightarrow> ([], cs))"

definition scan_exponent :: "codes \<Rightarrow> codes \<times> codes" where
  "scan_exponent cs = (case cs of c # r \<Rightarrow>
     if c = 101 \<or> c = 69 then
       (let s = takeWhile (\<lambda>x. x = 43 \<or> x = 45) (take 1 r); d = drop (length s) r in
        if takeWhile is_digit_code d \<noteq> [] then (c # s @ takeWhile is_digit_code d, dropWhile is_digit_code d)
        else ([], cs))
     else ([], cs) | [] \<Rightarrow> ([], cs))"

definition scan_integer :: "codes \<Rightarrow> (codes \<times> codes) option" where
  "scan_integer cs = (let sign = takeWhile (\<lambda>c. c = 45) (take 1 cs); r = drop (length sign) cs in
     case r of [] \<Rightarrow> None
     | d # r' \<Rightarrow> if d = 48 then Some (sign @ [d], r')
         else if is_digit_code d then Some (sign @ takeWhile is_digit_code r, dropWhile is_digit_code r)
         else None)"

text \<open>What \<open>json.loads\<close> does with a numeral, a constant (\<open>NaN\<close>, \<open>Infinity\<close>) and the pairs of an
  object is decided by its hooks; a hook that raises is \<open>None\<close>.\<close>

record json_hooks =
  on_int :: "string \<Rightarrow> json option"
  on_float :: "string \<Rightarrow> json option"
  on_constant :: "string \<Rightarrow> json option"
  on_object :: "(string \<times> json) list \<Rightarrow> json option"

definition hook_result :: "json option \<Rightarrow> codes \<Rightarrow> scan_error + json \<times> codes" where
  "hook_result v r = (case v of None \<Rightarrow> Inl Malformed | Some j \<Rightarrow> Inr (j, r))"

definition scan_number :: "json_hooks \<Rightarrow> codes \<Rightarrow> scan_error + json \<times> codes" where
  "scan_number h cs = (case scan_integer cs of None \<Rightarrow> Inl Malformed
     | Some (i, r) \<Rightarrow>
         (case scan_fraction r of (f, r') \<Rightarrow>
         (case scan_exponent r' of (x, r'') \<Rightarrow>
            if f = [] \<and> x = [] then hook_result (on_int h (map char_of i)) r''
            else hook_result (on_float h (map char_of (i @ f @ x))) r'')))"

definition scan_text :: "codes \<Rightarrow> scan_error + string \<times> codes" where
  "scan_text cs = (case scan_string cs of None \<Rightarrow> Inl Malformed
     | Some (t, r) \<Rightarrow> bindE (to_text t) (\<lambda>s. Inr (s, r)))"

definition scan_literal :: "string \<Rightarrow> json option \<Rightarrow> codes \<Rightarrow> scan_error + json \<times> codes" where
  "scan_literal w v cs = (if take (length w) cs = codes_of w then hook_result v (drop (length w) cs)
     else Inl Malformed)"

definition scan_scalar :: "json_hooks \<Rightarrow> codes \<Rightarrow> scan_error + json \<times> codes" where
  "scan_scalar h cs = (case cs of [] \<Rightarrow> Inl Malformed
     | c # r \<Rightarrow>
         if c = 34 then bindE (scan_text r) (\<lambda>(s, q). Inr (JStr s, q))
         else if c = 110 then scan_literal ''null'' (Some JNull) cs
         else if c = 116 then scan_literal ''true'' (Some (JBool True)) cs
         else if c = 102 then scan_literal ''false'' (Some (JBool False)) cs
         else if c = 78 then scan_literal ''NaN'' (on_constant h ''NaN'') cs
         else if c = 73 then scan_literal ''Infinity'' (on_constant h ''Infinity'') cs
         else if take 9 cs = codes_of ''-Infinity'' then hook_result (on_constant h ''-Infinity'') (drop 9 cs)
         else scan_number h cs)"

text \<open>The elements of an array and the members of an object.  Every one takes a character, so the
  length of the text bounds the number of turns.\<close>

fun scan_elements :: "(codes \<Rightarrow> scan_error + json \<times> codes) \<Rightarrow> nat \<Rightarrow> codes \<Rightarrow> scan_error + json list \<times> codes" where
  "scan_elements p 0 cs = Inl Malformed"
| "scan_elements p (Suc n) cs = bindE (p cs) (\<lambda>(v, r).
     case skip_ws r of [] \<Rightarrow> Inl Malformed
     | c # r' \<Rightarrow> if c = 93 then Inr ([v], r')
         else if c = 44 then bindE (scan_elements p n (skip_ws r')) (\<lambda>(vs, q). Inr (v # vs, q))
         else Inl Malformed)"

fun scan_members ::
  "(codes \<Rightarrow> scan_error + json \<times> codes) \<Rightarrow> nat \<Rightarrow> codes \<Rightarrow> scan_error + (string \<times> json) list \<times> codes" where
  "scan_members p 0 cs = Inl Malformed"
| "scan_members p (Suc n) cs = (case cs of [] \<Rightarrow> Inl Malformed
     | q # cs' \<Rightarrow> if q \<noteq> 34 then Inl Malformed
         else bindE (scan_text cs') (\<lambda>(k, r).
           case skip_ws r of [] \<Rightarrow> Inl Malformed
           | c # r1 \<Rightarrow> if c \<noteq> 58 then Inl Malformed
               else bindE (p (skip_ws r1)) (\<lambda>(v, r2).
                 case skip_ws r2 of [] \<Rightarrow> Inl Malformed
                 | d # r3 \<Rightarrow> if d = 125 then Inr ([(k, v)], r3)
                     else if d = 44 then bindE (scan_members p n (skip_ws r3)) (\<lambda>(kvs, z). Inr ((k, v) # kvs, z))
                     else Inl Malformed)))"

definition scan_array :: "(codes \<Rightarrow> scan_error + json \<times> codes) \<Rightarrow> codes \<Rightarrow> scan_error + json \<times> codes" where
  "scan_array p cs = (case skip_ws cs of [] \<Rightarrow> Inl Malformed
     | c # r \<Rightarrow> if c = 93 then Inr (JArr [], r)
         else bindE (scan_elements p (length cs) (c # r)) (\<lambda>(vs, q). Inr (JArr vs, q)))"

definition scan_object ::
  "json_hooks \<Rightarrow> (codes \<Rightarrow> scan_error + json \<times> codes) \<Rightarrow> codes \<Rightarrow> scan_error + json \<times> codes" where
  "scan_object h p cs = (case skip_ws cs of [] \<Rightarrow> Inl Malformed
     | c # r \<Rightarrow> if c = 125 then hook_result (on_object h []) r
         else bindE (scan_members p (length cs) (c # r)) (\<lambda>(kvs, q). hook_result (on_object h kvs) q))"

primrec scan_value :: "json_hooks \<Rightarrow> nat \<Rightarrow> codes \<Rightarrow> scan_error + json \<times> codes" where
  "scan_value h 0 = (\<lambda>cs. if take 1 cs = [91] \<or> take 1 cs = [123] then Inl Malformed else scan_scalar h cs)"
| "scan_value h (Suc d) = (\<lambda>cs. if take 1 cs = [91] then scan_array (scan_value h d) (drop 1 cs)
     else if take 1 cs = [123] then scan_object h (scan_value h d) (drop 1 cs)
     else scan_scalar h cs)"

definition loads :: "json_hooks \<Rightarrow> nat \<Rightarrow> codes \<Rightarrow> scan_error + json" where
  "loads h limit cs = bindE (scan_value h limit (skip_ws cs))
     (\<lambda>(v, r). if skip_ws r = [] then Inr v else Inl Malformed)"

definition int_of_text :: "string \<Rightarrow> int" where
  "int_of_text s = (if take 1 s = ''-'' then - int (read_dec (drop 1 s)) else int (read_dec s))"

text \<open>The defaults: \<open>int\<close> and \<open>float\<close> of the numeral, \<open>dict\<close> of the pairs, in which the last of
  several equal keys wins at the place of the first.  Python refuses numerals of more than 4300
  digits.\<close>

fun dict_set :: "string \<Rightarrow> json \<Rightarrow> (string \<times> json) list \<Rightarrow> (string \<times> json) list" where
  "dict_set k v [] = [(k, v)]"
| "dict_set k v ((l, w) # kvs) = (if l = k then (k, v) # kvs else (l, w) # dict_set k v kvs)"

definition dict_of :: "(string \<times> json) list \<Rightarrow> (string \<times> json) list" where
  "dict_of kvs = fold (\<lambda>(k, v) d. dict_set k v d) kvs []"

definition default_hooks :: json_hooks where
  "default_hooks = \<lparr>on_int = (\<lambda>s. if 4300 < length (filter (\<lambda>c. c \<noteq> CHR ''-'') s) then None
       else Some (JInt (int_of_text s))),
     on_float = (\<lambda>s. Some (JFloat s)), on_constant = (\<lambda>s. Some (JFloat s)),
     on_object = (\<lambda>kvs. Some (JObj (dict_of kvs)))\<rparr>"

subsection \<open>Reading what was written\<close>

text \<open>The value with the keys of every object in order, which is what the canonical text says.\<close>

fun jsort :: "json \<Rightarrow> json" where
  "jsort (JArr xs) = JArr (map jsort xs)"
| "jsort (JObj kvs) = JObj (sort_key fst (map (\<lambda>(k, v). (k, jsort v)) kvs))"
| "jsort v = v"

fun json_depth :: "json \<Rightarrow> nat" where
  "json_depth (JArr xs) = Suc (fold max (map json_depth xs) 0)"
| "json_depth (JObj kvs) = Suc (fold max (map (\<lambda>(k, v). json_depth v) kvs) 0)"
| "json_depth v = 0"

text \<open>No repeated keys, and no numbers but integers in a range.\<close>

fun json_clean :: "(int \<Rightarrow> bool) \<Rightarrow> json \<Rightarrow> bool" where
  "json_clean P (JInt i) = P i"
| "json_clean P (JFloat s) = False"
| "json_clean P (JArr xs) = list_all (json_clean P) xs"
| "json_clean P (JObj kvs) = (distinct (map fst kvs) \<and> list_all (\<lambda>(k, v). json_clean P v) kvs)"
| "json_clean P v = True"

lemma fold_max_ge: "x \<in> set xs \<Longrightarrow> x \<le> fold max xs a" for x :: nat
proof (induction xs arbitrary: a)
  case (Cons y ys)
  have ge: "b \<le> fold max zs b" for b :: nat and zs
    by (induction zs arbitrary: b) (auto intro: order_trans [OF max.cobounded2])
  show ?case using Cons ge [of "max y a" ys] by (auto intro: order_trans [OF max.cobounded1])
qed simp

lemma sort_key_map_fst: "sort_key fst (map (\<lambda>(k, v). (k, f v)) kvs) = map (\<lambda>(k, v). (k, f v)) (sort_key fst kvs)"
proof (induction kvs)
  case (Cons kv kvs)
  have "insort_key fst (case x of (k, v) \<Rightarrow> (k, f v)) (map (\<lambda>(k, v). (k, f v)) ys) = map (\<lambda>(k, v). (k, f v)) (insort_key fst x ys)"
    for x and ys :: "('a \<times> 'c) list"
    by (induction ys) (auto split: prod.splits)
  then show ?case using Cons by simp
qed simp

definition char_ascii :: "char \<Rightarrow> bool" where
  "char_ascii c \<longleftrightarrow> char_code c < 128"

lemma char_code_literals [simp]:
  "char_code (CHR 0x22) = 34" "char_code (CHR 0x5C) = 92" "char_code (CHR ''-'') = 45"
  "char_code (CHR '','') = 44" "char_code (CHR '':'') = 58" "char_code (CHR ''['') = 91" "char_code (CHR '']'') = 93"
  "char_code (CHR ''{'') = 123" "char_code (CHR ''}'') = 125" "char_code (CHR ''u'') = 117" "char_code (CHR ''b'') = 98"
  "char_code (CHR ''t'') = 116" "char_code (CHR ''n'') = 110" "char_code (CHR ''f'') = 102" "char_code (CHR ''r'') = 114"
  "char_code (CHR ''e'') = 101" "char_code (CHR ''a'') = 97" "char_code (CHR ''l'') = 108" "char_code (CHR ''s'') = 115"
  by (simp_all add: char_code_def)

lemma char_code_bound: "char_code c < 256"
  by (simp add: char_code_def)

lemma char_of_code [simp]: "char_of (char_code c) = c"
  by (simp add: char_code_def)

lemma hex_code_value_digit [simp]: "n < 16 \<Longrightarrow> hex_code_value (char_code (hex_digit n)) = Some n"
  by (auto simp: hex_code_value_def hex_digit_def)

lemma hex4_codes:
  "n < 65536 \<Longrightarrow> scan_hex4 (codes_of (hex_fixed 4 n) @ cs) = Some (n, cs)"
proof -
  assume n: "n < 65536"
  have e: "((n div 4096 * 16 + n div 256 mod 16) * 16 + n div 16 mod 16) * 16 + n mod 16 = n"
  proof -
    have "n div 256 = n div 4096 * 16 + n div 256 mod 16"
      using div_mult_mod_eq [of "n div 256" 16] div_mult2_eq [of n 256 16] by simp
    moreover have "n div 16 = n div 256 * 16 + n div 16 mod 16"
      using div_mult_mod_eq [of "n div 16" 16] div_mult2_eq [of n 16 16] by simp
    ultimately show ?thesis by simp
  qed
  have "n div 4096 < 16" using n by simp
  moreover have "hex_fixed 4 n = [hex_digit (n div 4096 mod 16), hex_digit (n div 256 mod 16), hex_digit (n div 16 mod 16), hex_digit (n mod 16)]"
  proof -
    have "hex_fixed (Suc (Suc (Suc (Suc 0)))) n = [hex_digit (n div 16 div 16 div 16 mod 16), hex_digit (n div 16 div 16 mod 16), hex_digit (n div 16 mod 16), hex_digit (n mod 16)]"
      by simp
    moreover have "n div 16 div 16 = n div 256" "n div 256 div 16 = n div 4096"
      using div_mult2_eq [of n 16 16] div_mult2_eq [of n 256 16] by simp_all
    moreover have "4 = Suc (Suc (Suc (Suc 0)))" by simp
    ultimately show ?thesis by presburger
  qed
  ultimately show ?thesis using e by simp
qed

lemma scan_escape_cases:
  fixes n :: nat
  assumes "n \<noteq> 34" "n \<noteq> 92" "32 \<le> n"
  shows "scan_string (n # cs) = map_option (\<lambda>(t, q). (n # t, q)) (scan_string cs)"
  using assms by simp

lemma scan_short_escape:
  "simple_escape e = Some x \<Longrightarrow> e \<noteq> 117 \<Longrightarrow> scan_string (92 # e # cs) = map_option (\<lambda>(t, q). (x # t, q)) (scan_string cs)"
  by simp

lemma scan_unicode_escape:
  "n < 256 \<Longrightarrow> scan_string (92 # 117 # codes_of (hex_fixed 4 n) @ cs) = map_option (\<lambda>(t, q). (n # t, q)) (scan_string cs)"
  using hex4_codes [of n cs] by (simp add: scan_unicode_def)

lemma scan_escaped:
  "scan_string (codes_of (json_escape c) @ cs) = map_option (\<lambda>(t, q). (char_code c # t, q)) (scan_string cs)"
proof -
  define n where "n = char_code c"
  have n: "(of_char c :: nat) = n" "n < 256" using char_code_bound by (simp_all add: n_def char_code_def)
  consider "n \<in> {34, 92, 8, 9, 10, 12, 13}" | "n \<notin> {34, 92, 8, 9, 10, 12, 13}" "n < 32 \<or> 126 < n"
    | "n \<notin> {34, 92}" "32 \<le> n" "n \<le> 126" by fastforce
  then show ?thesis
  proof cases
    case 1
    then show ?thesis unfolding json_escape_def Let_def n n_def [symmetric]
      by (auto simp: simple_escape_def simp del: scan_string.simps intro!: scan_short_escape)
  next
    case 2
    then have "json_escape c = char_of (92 :: nat) # ''u'' @ hex_fixed 4 n"
      unfolding json_escape_def Let_def n by simp
    then show ?thesis using scan_unicode_escape [OF n(2)] by (simp add: n_def del: scan_string.simps)
  next
    case 3
    then have "json_escape c = [c]" unfolding json_escape_def Let_def n by simp
    then show ?thesis using scan_escape_cases [of n cs] 3 by (simp add: n_def del: scan_string.simps)
  qed
qed

lemma scan_quoted:
  "scan_string (codes_of (concat (map json_escape s)) @ 34 # r) = Some (codes_of s, r)"
  by (induction s) (simp_all add: scan_escaped)

lemma to_text_codes [simp]: "to_text (codes_of s) = Inr s"
  using char_code_bound by (simp add: to_text_def codes_of_def list_all_iff map_idI)

lemma scan_text_quoted: "scan_text (codes_of (concat (map json_escape s)) @ 34 # r) = Inr (s, r)"
  by (simp add: scan_text_def scan_quoted)

lemma codes_json_quote: "codes_of (json_quote s) = 34 # codes_of (concat (map json_escape s)) @ [34]"
  by (simp add: json_quote_def)

lemma dec_nat_digits: "list_all is_digit_code (codes_of (dec_nat n))"
proof (induction n rule: dec_nat.induct)
  case (1 n)
  have "is_digit_code (48 + d)" if "d < 10" for d using that by (simp add: is_digit_code_def)
  then show ?case using 1 by (subst dec_nat.simps) simp
qed

lemma dec_nat_first: "0 < n \<Longrightarrow> \<exists>d ds. codes_of (dec_nat n) = d # ds \<and> 49 \<le> d \<and> d \<le> 57"
proof (induction n rule: dec_nat.induct)
  case (1 n)
  show ?case
  proof (cases "n < 10")
    case True
    then show ?thesis using 1 by (subst dec_nat.simps) simp
  next
    case False
    then have "0 < n div 10" by (simp add: div_greater_zero_iff)
    then obtain d ds where "codes_of (dec_nat (n div 10)) = d # ds" "49 \<le> d" "d \<le> 57" using 1 False by blast
    then show ?thesis using False by (subst dec_nat.simps) simp
  qed
qed

lemma dec_nat_zero: "codes_of (dec_nat 0) = [48]"
  by (subst dec_nat.simps) simp

text \<open>What may follow a value inside a text.\<close>

definition stops :: "codes \<Rightarrow> bool" where
  "stops r \<longleftrightarrow> r = [] \<or> hd r \<in> {44, 93, 125}"

lemma stops_simps [simp]: "stops []" "stops (44 # r)" "stops (93 # r)" "stops (125 # r)"
  by (simp_all add: stops_def)

lemma take_digits:
  assumes "list_all is_digit_code ds" "stops r"
  shows "takeWhile is_digit_code (ds @ r) = ds" "dropWhile is_digit_code (ds @ r) = r"
proof -
  have "takeWhile is_digit_code r = [] \<and> dropWhile is_digit_code r = r"
    using assms(2) by (cases r) (auto simp: stops_def is_digit_code_def)
  then show "takeWhile is_digit_code (ds @ r) = ds" "dropWhile is_digit_code (ds @ r) = r"
    using assms(1) by (simp_all add: takeWhile_append dropWhile_append list_all_iff)
qed

lemma scan_dec_nat:
  assumes "stops r"
  shows "scan_integer (codes_of (dec_nat n) @ r) = Some (codes_of (dec_nat n), r)"
    and "scan_integer (45 # codes_of (dec_nat n) @ r) = Some (45 # codes_of (dec_nat n), r)"
proof -
  have "scan_integer (s @ codes_of (dec_nat n) @ r) = Some (s @ codes_of (dec_nat n), r)" if "s = [] \<or> s = [45]" for s
  proof (cases "n = 0")
    case True
    then show ?thesis using that by (auto simp: scan_integer_def dec_nat_zero)
  next
    case False
    then obtain d ds where d: "codes_of (dec_nat n) = d # ds" "49 \<le> d" "d \<le> 57" using dec_nat_first by blast
    then show ?thesis using that take_digits [OF dec_nat_digits assms, of n]
      by (auto simp: scan_integer_def is_digit_code_def)
  qed
  from this [of "[]"] this [of "[45]"]
  show "scan_integer (codes_of (dec_nat n) @ r) = Some (codes_of (dec_nat n), r)"
    "scan_integer (45 # codes_of (dec_nat n) @ r) = Some (45 # codes_of (dec_nat n), r)" by simp_all
qed

lemma scan_dec_int: "stops r \<Longrightarrow> scan_integer (codes_of (dec_int i) @ r) = Some (codes_of (dec_int i), r)"
  using scan_dec_nat by (simp add: dec_int_def)

lemma map_char_of_codes [simp]: "map char_of (codes_of s) = s"
  by (simp add: codes_of_def map_idI)

lemma scan_number_dec:
  assumes "stops r" "on_int h (dec_int i) = Some (JInt i)"
  shows "scan_number h (codes_of (dec_int i) @ r) = Inr (JInt i, r)"
proof -
  have "scan_fraction r = ([], r)" "scan_exponent r = ([], r)"
    using assms(1) by (auto simp: stops_def scan_fraction_def scan_exponent_def split: list.split)
  then show ?thesis by (simp add: scan_number_def scan_dec_int [OF assms(1)] assms(2) hook_result_def)
qed

lemma int_of_dec [simp]: "int_of_text (dec_int i) = i"
proof (cases "i < 0")
  case False
  obtain d :: nat and cs where d: "d < 10" "dec_nat (nat i) = char_of (48 + d) # cs" using dec_nat_hd by blast
  have "char_of (48 + d) \<noteq> CHR ''-''"
  proof
    assume "char_of (48 + d) = CHR ''-''"
    then have "char_code (char_of (48 + d)) = char_code (CHR ''-'')" by (simp only:)
    then show False using d(1) by simp
  qed
  then have "take 1 (dec_nat (nat i)) \<noteq> ''-''" using d(2) by simp
  then show ?thesis using False by (simp add: int_of_text_def dec_int_def)
qed (simp add: int_of_text_def dec_int_def)

lemma dec_int_head: "\<exists>c cs. codes_of (dec_int i) = c # cs \<and> (c = 45 \<or> 48 \<le> c \<and> c \<le> 57) \<and> (c = 45 \<longrightarrow> take 1 cs \<noteq> [73])"
proof -
  have "\<exists>c cs. codes_of (dec_nat n) = c # cs \<and> 48 \<le> c \<and> c \<le> 57" for n
    using dec_nat_first [of n] dec_nat_zero by (cases "n = 0") fastforce+
  then obtain c cs c' cs' where "codes_of (dec_nat (nat i)) = c # cs" "48 \<le> c" "c \<le> 57"
    "codes_of (dec_nat (nat (- i))) = c' # cs'" "48 \<le> c'" "c' \<le> 57" by metis
  then show ?thesis by (auto simp: dec_int_def)
qed

definition hooks_read :: "(int \<Rightarrow> bool) \<Rightarrow> json_hooks \<Rightarrow> bool" where
  "hooks_read P h \<longleftrightarrow> (\<forall>i. P i \<longrightarrow> on_int h (dec_int i) = Some (JInt i)) \<and>
     (\<forall>kvs. distinct (map fst kvs) \<longrightarrow> on_object h kvs = Some (JObj kvs))"

lemma dumps_head:
  assumes "json_clean P v"
  shows "\<exists>c cs. codes_of (dumps v) = c # cs \<and> c \<notin> {32, 9, 10, 13, 93}"
proof (cases v)
  case (JInt i)
  then show ?thesis using dec_int_head [of i] by fastforce
qed (use assms in \<open>simp_all add: codes_json_quote\<close>)

lemma skip_ws_dumps: "json_clean P v \<Longrightarrow> skip_ws (codes_of (dumps v) @ r) = codes_of (dumps v) @ r"
  using dumps_head [of P v] by (auto simp: skip_ws_def)

lemma skip_ws_stops [simp]: "stops r \<Longrightarrow> skip_ws r = r"
  by (cases r) (auto simp: skip_ws_def stops_def)

lemma skip_ws_codes [simp]: "c \<notin> {32, 9, 10, 13} \<Longrightarrow> skip_ws (c # r) = c # r"
  by (simp add: skip_ws_def)

lemma join_comma_Cons: "join_comma (x # xs) = x @ (if xs = [] then [] else '','' @ join_comma xs)"
  by (cases xs) simp_all

lemma scan_elements_dumps:
  assumes "xs \<noteq> []" "length xs \<le> n" "list_all (json_clean P) xs"
    and "\<And>x q. x \<in> set xs \<Longrightarrow> stops q \<Longrightarrow> p (codes_of (dumps x) @ q) = Inr (jsort x, q)"
  shows "scan_elements p n (codes_of (join_comma (map dumps xs)) @ 93 # r) = Inr (map jsort xs, r)"
  using assms
proof (induction xs arbitrary: n)
  case (Cons x xs)
  obtain m where n: "n = Suc m" "length xs \<le> m" using Cons.prems(2) by (cases n) auto
  show ?case
  proof (cases "xs = []")
    case True
    then show ?thesis using Cons.prems(4) n by simp
  next
    case False
    then have "scan_elements p m (codes_of (join_comma (map dumps xs)) @ 93 # r) = Inr (map jsort xs, r)"
      using Cons n by simp
    moreover obtain y ys where "xs = y # ys" using False by (cases xs) auto
    then have "skip_ws (codes_of (join_comma (map dumps xs)) @ 93 # r) = codes_of (join_comma (map dumps xs)) @ 93 # r"
      using Cons.prems(3) skip_ws_dumps [of P y] by (simp add: join_comma_Cons)
    ultimately show ?thesis using Cons.prems(4) [of x] False n by (simp add: join_comma_Cons)
  qed
qed simp

lemma dumps_nonempty: "json_clean P v \<Longrightarrow> dumps v \<noteq> []"
  using dumps_head by fastforce

lemma length_join_comma: "list_all (\<lambda>x. x \<noteq> []) xs \<Longrightarrow> length xs \<le> length (join_comma xs)"
proof (induction xs)
  case (Cons x xs)
  then have "Suc 0 \<le> length x" by (cases x) simp_all
  then show ?case using Cons by (simp add: join_comma_Cons)
qed simp

definition member_text :: "string \<times> json \<Rightarrow> string" where
  "member_text kv = json_quote (fst kv) @ '':'' @ dumps (snd kv)"

lemma member_codes: "codes_of (member_text (k, v)) = 34 # codes_of (concat (map json_escape k)) @ 34 # 58 # codes_of (dumps v)"
  by (simp add: member_text_def codes_json_quote)

lemma dumps_members: "dumps (JObj kvs) = ''{'' @ join_comma (map member_text (sort_key fst kvs)) @ ''}''"
proof -
  have "map (\<lambda>(k, s). json_quote k @ '':'' @ s) (sort_key fst (map (\<lambda>(k, v). (k, dumps v)) kvs)) =
      map member_text (sort_key fst kvs)"
    by (simp add: sort_key_map_fst member_text_def case_prod_beta)
  then show ?thesis by simp
qed

lemma scan_members_dumps:
  assumes "kvs \<noteq> []" "length kvs \<le> n" "list_all (\<lambda>(k, v). json_clean P v) kvs"
    and "\<And>k v q. (k, v) \<in> set kvs \<Longrightarrow> stops q \<Longrightarrow> p (codes_of (dumps v) @ q) = Inr (jsort v, q)"
  shows "scan_members p n (codes_of (join_comma (map member_text kvs)) @ 125 # r) =
    Inr (map (\<lambda>(k, v). (k, jsort v)) kvs, r)"
  using assms
proof (induction kvs arbitrary: n)
  case (Cons kv kvs)
  obtain k v where kv: "kv = (k, v)" by (cases kv)
  obtain m where n: "n = Suc m" "length kvs \<le> m" using Cons.prems(2) by (cases n) auto
  have ws: "skip_ws (codes_of (dumps v) @ q) = codes_of (dumps v) @ q" for q
    using skip_ws_dumps [of P v] Cons.prems(3) kv by simp
  have p: "p (codes_of (dumps v) @ q) = Inr (jsort v, q)" if "stops q" for q
    using Cons.prems(4) [of k v] kv that by simp
  have key: "scan_text (codes_of (concat (map json_escape k)) @ 34 # q) = Inr (k, q)" for q
    by (rule scan_text_quoted)
  show ?case
  proof (cases "kvs = []")
    case True
    then show ?thesis using n kv ws p key by (simp add: member_codes)
  next
    case False
    then have "scan_members p m (codes_of (join_comma (map member_text kvs)) @ 125 # r) =
        Inr (map (\<lambda>(k, v). (k, jsort v)) kvs, r)"
      by (intro Cons.IH) (use Cons.prems n in auto)
    moreover have "skip_ws (codes_of (join_comma (map member_text kvs)) @ 125 # r) =
        codes_of (join_comma (map member_text kvs)) @ 125 # r"
      using False by (cases kvs) (auto simp: join_comma_Cons member_codes)
    ultimately show ?thesis using n kv ws p key False
      by (simp add: join_comma_Cons member_codes)
  qed
qed simp

lemma distinct_sorted_items:
  "distinct (map fst kvs) \<Longrightarrow> distinct (map fst (map (\<lambda>(k, v). (k, f v)) (sort_key fst kvs)))"
proof -
  assume d: "distinct (map fst kvs)"
  have "map fst (map (\<lambda>(k, v). (k, f v)) xs) = map fst xs" for xs :: "('a \<times> 'b) list"
    by (induction xs) auto
  moreover have "distinct (map fst (sort_key fst kvs))"
    using d by (simp add: distinct_map)
  ultimately show ?thesis by metis
qed

lemma scan_object_quote:
  "scan_object h p (34 # cs) = bindE (scan_members p (length (34 # cs)) (34 # cs)) (\<lambda>(kvs, q). hook_result (on_object h kvs) q)"
  by (simp add: scan_object_def del: scan_members.simps)

lemma scan_dumps:
  assumes "hooks_read P h"
  shows "json_clean P v \<Longrightarrow> json_depth v \<le> d \<Longrightarrow> stops r \<Longrightarrow> scan_value h d (codes_of (dumps v) @ r) = Inr (jsort v, r)"
proof (induction v arbitrary: d r)
  case JNull
  then show ?case by (cases d) (simp_all add: scan_scalar_def scan_literal_def hook_result_def)
next
  case (JBool b)
  then show ?case by (cases d; cases b) (simp_all add: scan_scalar_def scan_literal_def hook_result_def)
next
  case (JInt i)
  obtain c cs where c: "codes_of (dec_int i) = c # cs" "c = 45 \<or> 48 \<le> c \<and> c \<le> 57" "c = 45 \<longrightarrow> take 1 cs \<noteq> [73]"
    using dec_int_head by blast
  have "take 9 ((c # cs) @ r) \<noteq> codes_of ''-Infinity''"
    using c(2,3) JInt.prems(3) by (cases cs; cases r) (auto simp: stops_def char_code_def)
  moreover have "scan_number h ((c # cs) @ r) = Inr (JInt i, r)"
    using scan_number_dec [OF JInt.prems(3), of h i] assms JInt.prems(1) c(1) by (simp add: hooks_read_def)
  ultimately have "scan_scalar h ((c # cs) @ r) = Inr (JInt i, r)"
    using c(2) by (auto simp: scan_scalar_def)
  then show ?case using c by (cases d) auto
next
  case (JFloat s)
  then show ?case by simp
next
  case (JStr s)
  have "scan_scalar h (codes_of (json_quote s) @ r) = Inr (JStr s, r)"
    by (simp add: scan_scalar_def codes_json_quote scan_text_quoted)
  then show ?case by (cases d) (simp_all add: codes_json_quote)
next
  case (JArr xs)
  obtain e where d: "d = Suc e" "fold max (map json_depth xs) 0 \<le> e" using JArr.prems(2) by (cases d) auto
  have "json_depth x \<le> e" if "x \<in> set xs" for x
    using fold_max_ge [of "json_depth x" "map json_depth xs" 0] d(2) that by simp
  then have p: "scan_value h e (codes_of (dumps x) @ q) = Inr (jsort x, q)" if "x \<in> set xs" "stops q" for x q
    using JArr.IH [OF that(1)] JArr.prems(1) that by (simp add: list_all_iff)
  show ?case
  proof (cases xs)
    case Nil
    then show ?thesis by (simp add: d scan_array_def)
  next
    case (Cons y ys)
    define t where "t = codes_of (join_comma (map dumps xs)) @ 93 # r"
    have len: "length xs \<le> length t"
    proof -
      have "list_all (\<lambda>x. x \<noteq> []) (map dumps xs)"
        using JArr.prems(1) dumps_nonempty [of P] by (auto simp: list_all_iff)
      then show ?thesis using length_join_comma [of "map dumps xs"] by (simp add: t_def codes_of_def)
    qed
    obtain c cs where t: "t = c # cs" "c \<notin> {32, 9, 10, 13, 93}"
      using dumps_head [of P y] JArr.prems(1) Cons by (auto simp: t_def join_comma_Cons)
    have "scan_elements (scan_value h e) (length t) (codes_of (join_comma (map dumps xs)) @ 93 # r) = Inr (map jsort xs, r)"
      by (rule scan_elements_dumps [of xs "length t" P]) (use JArr.prems(1) Cons len p in simp_all)
    then have "scan_elements (scan_value h e) (length t) t = Inr (map jsort xs, r)" by (simp add: t_def)
    then have "scan_array (scan_value h e) t = Inr (JArr (map jsort xs), r)"
      using t by (simp add: scan_array_def)
    then show ?thesis by (simp add: d t_def)
  qed
next
  case (JObj kvs)
  define kvs' where "kvs' = sort_key fst kvs"
  have s: "set kvs' = set kvs" "length kvs' = length kvs" by (simp_all add: kvs'_def)
  obtain e where d: "d = Suc e" "fold max (map (\<lambda>(k, v). json_depth v) kvs) 0 \<le> e" using JObj.prems(2) by (cases d) auto
  have dep: "json_depth v \<le> e" if "(k, v) \<in> set kvs" for k v
    using fold_max_ge [of "json_depth v" "map (\<lambda>(k, v). json_depth v) kvs" 0] d(2) that by force
  have cl: "json_clean P v" if "(k, v) \<in> set kvs" for k v using JObj.prems(1) that by (auto simp: list_all_iff)
  have p: "scan_value h e (codes_of (dumps v) @ q) = Inr (jsort v, q)" if "(k, v) \<in> set kvs'" "stops q" for k v q
    using JObj.IH [of "(k, v)" v] dep cl that s(1) by auto
  have obj: "on_object h (map (\<lambda>(k, v). (k, jsort v)) kvs') = Some (jsort (JObj kvs))"
    using assms JObj.prems(1) distinct_sorted_items [of kvs jsort]
    by (simp add: hooks_read_def kvs'_def sort_key_map_fst)
  have whole: "codes_of (dumps (JObj kvs)) @ r = 123 # codes_of (join_comma (map member_text kvs')) @ 125 # r"
    unfolding dumps_members kvs'_def by simp
  show ?case
  proof (cases kvs')
    case Nil
    then show ?thesis using obj unfolding whole by (simp add: d scan_object_def hook_result_def)
  next
    case (Cons y ys)
    define t where "t = codes_of (join_comma (map member_text kvs')) @ 125 # r"
    have len: "length kvs' \<le> length t"
      using length_join_comma [of "map member_text kvs'"] by (simp add: t_def codes_of_def list_all_iff member_text_def)
    obtain cs where t: "t = 34 # cs" using Cons by (simp add: t_def join_comma_Cons member_text_def codes_json_quote)
    have "scan_members (scan_value h e) (length t) (codes_of (join_comma (map member_text kvs')) @ 125 # r) =
        Inr (map (\<lambda>(k, v). (k, jsort v)) kvs', r)"
    proof (rule scan_members_dumps [of kvs' "length t" P])
      show "kvs' \<noteq> []" using Cons by simp
      show "length kvs' \<le> length t" by (rule len)
      show "list_all (\<lambda>(k, v). json_clean P v) kvs'" using cl s(1) by (auto simp: list_all_iff)
    qed (rule p)
    then have "scan_members (scan_value h e) (length t) t = Inr (map (\<lambda>(k, v). (k, jsort v)) kvs', r)"
      by (simp add: t_def)
    then have "scan_object h (scan_value h e) t = Inr (jsort (JObj kvs), r)"
      using obj unfolding t scan_object_quote by (simp add: hook_result_def del: scan_members.simps)
    then show ?thesis unfolding whole by (simp add: d t_def)
  qed
qed

theorem loads_dumps:
  assumes "hooks_read P h" "json_clean P v" "json_depth v \<le> limit"
  shows "loads h limit (codes_of (dumps v)) = Inr (jsort v)"
proof -
  have "skip_ws (codes_of (dumps v)) = codes_of (dumps v)" using skip_ws_dumps [OF assms(2), of "[]"] by simp
  then show ?thesis using scan_dumps [OF assms, of "[]"] by (simp add: loads_def)
qed

subsection \<open>The canonical text is ASCII\<close>

lemma ascii_digits: "d < 16 \<Longrightarrow> char_code (hex_digit d) < 128" "d < 10 \<Longrightarrow> char_code (char_of (48 + d)) < 128" for d :: nat
  by (simp_all add: hex_digit_def)

lemma ascii_hex: "c \<in> set (hex_fixed k n) \<Longrightarrow> char_code c < 128"
  by (induction k arbitrary: n) (auto simp: ascii_digits)

lemma ascii_escape: "c \<in> set (json_escape b) \<Longrightarrow> char_code c < 128"
  by (auto simp: json_escape_def Let_def char_code_def [symmetric] split: if_split_asm dest: ascii_hex)

lemma ascii_quote: "c \<in> set (json_quote s) \<Longrightarrow> char_code c < 128"
  by (auto simp: json_quote_def dest: ascii_escape)

lemma ascii_dec: "c \<in> set (dec_int i) \<Longrightarrow> char_code c < 128"
proof -
  have "char_code c < 128" if "c \<in> set (dec_nat n)" for n
    using dec_nat_digits [of n] that by (fastforce simp: codes_of_def list_all_iff is_digit_code_def)
  then show "c \<in> set (dec_int i) \<Longrightarrow> char_code c < 128" by (auto simp: dec_int_def split: if_split_asm)
qed

lemma set_join_comma: "c \<in> set (join_comma xs) \<Longrightarrow> c = CHR '','' \<or> (\<exists>x \<in> set xs. c \<in> set x)"
  by (induction xs) (auto simp: join_comma_Cons split: if_split_asm)

lemma ascii_dumps: "json_clean P v \<Longrightarrow> c \<in> set (dumps v) \<Longrightarrow> char_code c < 128"
proof (induction v arbitrary: c)
  case (JArr xs)
  then show ?case by (auto simp: list_all_iff dest!: set_join_comma)
next
  case (JObj kvs)
  have "c \<in> {CHR ''{'', CHR ''}'', CHR '','', CHR '':''} \<or> (\<exists>(k, v) \<in> set kvs. c \<in> set (json_quote k) \<or> c \<in> set (dumps v))"
    using JObj.prems(2) unfolding dumps_members by (fastforce simp: member_text_def dest!: set_join_comma)
  moreover have "char_code c < 128" if "(k, v) \<in> set kvs" "c \<in> set (dumps v)" for k v
    using JObj.IH [of "(k, v)" v c] JObj.prems(1) that by (auto simp: list_all_iff)
  ultimately show ?case by (auto dest: ascii_quote)
qed (auto dest: ascii_dec ascii_quote split: if_split_asm)

lemma utf8_dumps: "json_clean P v \<Longrightarrow> utf8_decode (codes_of (dumps v)) = Some (codes_of (dumps v))"
  using ascii_dumps by (intro utf8_ascii) (fastforce simp: list_all_iff codes_of_def)

lemma jsort_norm: "py_norm (jsort v) = py_norm v"
proof (induction v)
  case (JObj kvs)
  have e: "map (\<lambda>(k, v). (k, py_norm (jsort v))) kvs = map (\<lambda>(k, v). (k, py_norm v)) kvs"
    using JObj by (auto simp: case_prod_beta)
  have m: "map (\<lambda>(k, v). (k, py_norm v)) (map (\<lambda>(k, v). (k, jsort v)) xs) = map (\<lambda>(k, v). (k, py_norm (jsort v))) xs" for xs
    by (induction xs) auto
  have "sort_key fst (map (\<lambda>(k, v). (k, py_norm v)) (sort_key fst (map (\<lambda>(k, v). (k, jsort v)) kvs))) =
      sort_key fst (map (\<lambda>(k, v). (k, py_norm v)) kvs)"
    unfolding sort_key_map_fst m e [symmetric] by (simp add: sort_key_id_if_sorted)
  then show ?case by simp
qed (auto simp: comp_def)

text \<open>Sorting the keys gives the same Python value.\<close>

lemma py_eq_jsort: "py_eq v (jsort v)"
  by (simp add: py_eq_def jsort_norm)

lemma json_clean_jsort: "json_clean P v \<Longrightarrow> json_clean P (jsort v)"
proof (induction v)
  case (JObj kvs)
  then show ?case using distinct_sorted_items [of kvs jsort]
    by (auto simp: list_all_iff sort_key_map_fst)
qed (auto simp: list_all_iff)

end
