(* ===== verification/Host_Protocol.thy ===== *)
theory Host_Protocol
  imports Json_Text
begin

unbundle bit_operations_syntax

text \<open>
  \<open>libraries/configuration/.../host_protocol.py\<close>: the signed messages between the control plane
  and the host agent.  A message class is a record and its \<open>__post_init__\<close> the checks of the
  \<open>mk_\<close> function, in the order of the code; a \<open>HostProtocolError\<close> is its code.  The digest
  SHA-256 is the parameter \<open>H\<close> on byte strings (text whose characters are bytes); HMAC and base64
  are defined.
\<close>

datatype host_error =
    UNSUPPORTED_PROTOCOL | INVALID_REQUEST | INVALID_AUTHORITY | INVALID_OPERATION | INVALID_RESPONSE
  | UNAUTHENTICATED | REQUEST_EXPIRED | LEASE_EXPIRED | INVALID_FRAME | HOST_NOT_READY
  | BEYOND_TEXT

definition require :: "bool \<Rightarrow> host_error \<Rightarrow> host_error + unit" where
  "require b x = (if b then Inr () else Inl x)"

lemma require_simps [simp]: "require True x = Inr ()" "require False x = Inl x"
  "require b x = Inr u \<longleftrightarrow> b" "require b x = Inl y \<longleftrightarrow> \<not> b \<and> y = x"
  by (auto simp: require_def)

subsection \<open>Texts\<close>

definition host_protocol_version :: int where "host_protocol_version = 1"
definition host_request_issuer :: string where "host_request_issuer = ''control-plane''"
definition host_request_audience :: string where "host_request_audience = ''local-macos-host''"
definition max_host_request_bytes :: nat where "max_host_request_bytes = 1048576"
definition max_host_response_bytes :: nat where "max_host_response_bytes = 1048576"
definition max_host_request_lifetime_ms :: int where "max_host_request_lifetime_ms = 30000"
definition max_host_clock_skew_ms :: int where "max_host_clock_skew_ms = 5000"
definition max_json_depth :: nat where "max_json_depth = 16"
definition max_json_nodes :: nat where "max_json_nodes = 4096"
definition max_collection_items :: nat where "max_collection_items = 512"
definition max_string_length :: nat where "max_string_length = 65536"

definition host_identifier_ok :: "string \<Rightarrow> bool" where
  "host_identifier_ok s \<longleftrightarrow> matches_identifier s \<and> length s \<le> 255"

text \<open>\<open>[A-Za-z0-9_.-]+/[A-Za-z0-9_.-]+\Z\<close>\<close>

definition is_repository_char :: "char \<Rightarrow> bool" where
  "is_repository_char c \<longleftrightarrow> is_alnum_char c \<or> c \<in> set ''_.-''"

definition repository_key_ok :: "string \<Rightarrow> bool" where
  "repository_key_ok s = (let owner = takeWhile (\<lambda>c. c \<noteq> CHR ''/'') s; name = drop (Suc (length owner)) s in
     CHR ''/'' \<in> set s \<and> owner \<noteq> [] \<and> name \<noteq> [] \<and> list_all is_repository_char owner \<and>
     list_all is_repository_char name)"

definition configuration_digest_ok :: "string \<Rightarrow> bool" where
  "configuration_digest_ok s \<longleftrightarrow> take 7 s = ''sha256:'' \<and> length s = 71 \<and> list_all is_hex_char (drop 7 s)"

text \<open>\<open>[a-z][a-z0-9_]*(?:\.[a-z][a-z0-9_]*){1,4}\Z\<close>\<close>

fun split_dots :: "string \<Rightarrow> string list" where
  "split_dots [] = [[]]"
| "split_dots (c # s) = (if c = CHR ''.'' then [] # split_dots s
     else (case split_dots s of [] \<Rightarrow> [[c]] | p # ps \<Rightarrow> (c # p) # ps))"

definition name_part_ok :: "string \<Rightarrow> bool" where
  "name_part_ok s = (case s of [] \<Rightarrow> False
     | c # cs \<Rightarrow> is_lower_char c \<and> list_all (\<lambda>x. is_lower_char x \<or> is_digit_char x \<or> x = CHR ''_'') cs)"

definition operation_name_ok :: "string \<Rightarrow> bool" where
  "operation_name_ok s = (let ps = split_dots s in
     2 \<le> length ps \<and> length ps \<le> 5 \<and> list_all name_part_ok ps)"

definition is_base64_char :: "char \<Rightarrow> bool" where
  "is_base64_char c \<longleftrightarrow> is_alnum_char c \<or> c = CHR ''_'' \<or> c = CHR ''-''"

definition signature_ok :: "string \<Rightarrow> bool" where
  "signature_ok s \<longleftrightarrow> length s = 43 \<and> list_all is_base64_char s"

definition positive_int_ok :: "int \<Rightarrow> bool" where
  "positive_int_ok i \<longleftrightarrow> 0 < i \<and> i < 2 ^ 63"

text \<open>\<open>UUID.version == 4\<close>: the variant bits of RFC 4122 and the version nibble.\<close>

definition uuid_version4 :: "uuid \<Rightarrow> bool" where
  "uuid_version4 u \<longleftrightarrow> bit u 63 \<and> \<not> bit u 62 \<and> drop_bit 76 u AND 15 = 4"

subsection \<open>Bounded JSON\<close>

definition int64_ok :: "int \<Rightarrow> bool" where
  "int64_ok i \<longleftrightarrow> - (2 ^ 63) \<le> i \<and> i < 2 ^ 63"

definition node_ok :: "nat \<Rightarrow> nat \<Rightarrow> bool" where
  "node_ok depth nodes \<longleftrightarrow> depth \<le> max_json_depth \<and> nodes \<le> max_json_nodes"

text \<open>\<open>_json_value\<close>, with the counter of nodes threaded through.\<close>

fun json_value :: "nat \<Rightarrow> json \<Rightarrow> nat \<Rightarrow> host_error + json \<times> nat"
and json_values :: "nat \<Rightarrow> json list \<Rightarrow> nat \<Rightarrow> host_error + json list \<times> nat"
and json_items :: "nat \<Rightarrow> (string \<times> json) list \<Rightarrow> nat \<Rightarrow> host_error + (string \<times> json) list \<times> nat" where
  "json_value depth JNull n = (if node_ok depth (n + 1) then Inr (JNull, n + 1) else Inl INVALID_REQUEST)"
| "json_value depth (JBool b) n = (if node_ok depth (n + 1) then Inr (JBool b, n + 1) else Inl INVALID_REQUEST)"
| "json_value depth (JInt i) n =
     (if node_ok depth (n + 1) \<and> int64_ok i then Inr (JInt i, n + 1) else Inl INVALID_REQUEST)"
| "json_value depth (JFloat s) n = Inl INVALID_REQUEST"
| "json_value depth (JStr s) n =
     (if node_ok depth (n + 1) \<and> length s \<le> max_string_length \<and> CHR 0x00 \<notin> set s
      then Inr (JStr s, n + 1) else Inl INVALID_REQUEST)"
| "json_value depth (JArr xs) n =
     (if node_ok depth (n + 1) \<and> length xs \<le> max_collection_items
      then bindE (json_values (Suc depth) xs (n + 1)) (\<lambda>(ys, m). Inr (JArr ys, m)) else Inl INVALID_REQUEST)"
| "json_value depth (JObj kvs) n =
     (if node_ok depth (n + 1) \<and> length kvs \<le> max_collection_items
      then bindE (json_items (Suc depth) kvs (n + 1)) (\<lambda>(ys, m). Inr (JObj ys, m)) else Inl INVALID_REQUEST)"
| "json_values depth [] n = Inr ([], n)"
| "json_values depth (x # xs) n = bindE (json_value depth x n) (\<lambda>(y, m).
     bindE (json_values depth xs m) (\<lambda>(ys, k). Inr (y # ys, k)))"
| "json_items depth [] n = Inr ([], n)"
| "json_items depth ((k, x) # kvs) n =
     (if k = [] \<or> 255 < length k then Inl INVALID_REQUEST
      else bindE (json_value depth x n) (\<lambda>(y, m).
        bindE (json_items depth kvs m) (\<lambda>(ys, q). Inr ((k, y) # ys, q))))"

definition json_object :: "json \<Rightarrow> host_error + json" where
  "json_object v = bindE (json_value 0 v 0) (\<lambda>(w, _). if is_jobj w then Inr w else Inl INVALID_REQUEST)"

subsection \<open>Authorities, operations and messages\<close>

record lease_authority =
  la_task :: uuid
  la_job :: uuid
  la_lease :: uuid
  la_worker :: string
  la_attempt :: int
  la_token :: int
  la_expires_ms :: int
  la_repository :: string
  la_configuration :: uuid
  la_digest :: string

datatype host_authority =
    System_authority
  | Repository_authority string uuid string
  | Task_lease_authority lease_authority

definition mk_repository_authority :: "string \<Rightarrow> uuid \<Rightarrow> string \<Rightarrow> host_error + host_authority" where
  "mk_repository_authority repository configuration digest =
     bindE (require (repository_key_ok repository) INVALID_AUTHORITY) (\<lambda>_.
     bindE (require (configuration_digest_ok digest) INVALID_AUTHORITY) (\<lambda>_.
     Inr (Repository_authority repository configuration digest)))"

definition mk_lease_authority :: "lease_authority \<Rightarrow> host_error + host_authority" where
  "mk_lease_authority a =
     bindE (require (host_identifier_ok (la_worker a)) INVALID_REQUEST) (\<lambda>_.
     bindE (require (positive_int_ok (la_attempt a)) INVALID_REQUEST) (\<lambda>_.
     bindE (require (positive_int_ok (la_token a)) INVALID_REQUEST) (\<lambda>_.
     bindE (require (positive_int_ok (la_expires_ms a)) INVALID_REQUEST) (\<lambda>_.
     bindE (require (repository_key_ok (la_repository a)) INVALID_AUTHORITY) (\<lambda>_.
     bindE (require (configuration_digest_ok (la_digest a)) INVALID_AUTHORITY) (\<lambda>_.
     Inr (Task_lease_authority a)))))))"

definition authority_kind :: "host_authority \<Rightarrow> string" where
  "authority_kind a = (case a of System_authority \<Rightarrow> ''SYSTEM'' | Repository_authority _ _ _ \<Rightarrow> ''REPOSITORY''
     | Task_lease_authority _ \<Rightarrow> ''TASK_LEASE'')"

definition authority_fields :: "host_authority \<Rightarrow> (string \<times> json) list" where
  "authority_fields a = (''kind'', JStr (authority_kind a)) # (case a of System_authority \<Rightarrow> []
     | Repository_authority repository configuration digest \<Rightarrow>
         [(''repository_key'', JStr repository), (''configuration_id'', JStr (uuid_str configuration)),
          (''configuration_digest'', JStr digest)]
     | Task_lease_authority l \<Rightarrow>
         [(''task_id'', JStr (uuid_str (la_task l))), (''job_id'', JStr (uuid_str (la_job l))),
          (''lease_id'', JStr (uuid_str (la_lease l))), (''worker_id'', JStr (la_worker l)),
          (''attempt'', JInt (la_attempt l)), (''fencing_token'', JInt (la_token l)),
          (''lease_expires_at_ms'', JInt (la_expires_ms l)), (''repository_key'', JStr (la_repository l)),
          (''configuration_id'', JStr (uuid_str (la_configuration l))), (''configuration_digest'', JStr (la_digest l))])"

record host_operation =
  ho_name :: string
  ho_key :: string
  ho_arguments :: json
  ho_schema :: int

definition mk_operation :: "string \<Rightarrow> string \<Rightarrow> json \<Rightarrow> int \<Rightarrow> host_error + host_operation" where
  "mk_operation name key arguments schema =
     bindE (require (operation_name_ok name) INVALID_OPERATION) (\<lambda>_.
     bindE (require (host_identifier_ok key) INVALID_REQUEST) (\<lambda>_.
     bindE (require (schema = 1) INVALID_OPERATION) (\<lambda>_.
     bindE (json_object arguments) (\<lambda>args.
     Inr \<lparr>ho_name = name, ho_key = key, ho_arguments = args, ho_schema = schema\<rparr>))))"

text \<open>\<open>to_dict\<close> copies the arguments through \<open>_json_object\<close> again, which returns a checked value
  unchanged (\<open>json_value_same\<close>).\<close>

definition operation_json :: "host_operation \<Rightarrow> json" where
  "operation_json o' = JObj [(''name'', JStr (ho_name o')), (''schema_version'', JInt (ho_schema o')),
     (''idempotency_key'', JStr (ho_key o')), (''arguments'', ho_arguments o')]"

record host_request =
  hr_id :: uuid
  hr_issued :: int
  hr_expires :: int
  hr_authority :: host_authority
  hr_operation :: host_operation
  hr_version :: int
  hr_issuer :: string
  hr_audience :: string

definition mk_host_request :: "host_request \<Rightarrow> host_error + host_request" where
  "mk_host_request r =
     bindE (require (hr_version r = host_protocol_version) UNSUPPORTED_PROTOCOL) (\<lambda>_.
     bindE (require (hr_issuer r = host_request_issuer \<and> hr_audience r = host_request_audience) INVALID_REQUEST) (\<lambda>_.
     bindE (require (uuid_version4 (hr_id r)) INVALID_REQUEST) (\<lambda>_.
     bindE (require (positive_int_ok (hr_issued r)) INVALID_REQUEST) (\<lambda>_.
     bindE (require (positive_int_ok (hr_expires r)) INVALID_REQUEST) (\<lambda>_.
     bindE (require (hr_issued r < hr_expires r \<and>
         hr_expires r - hr_issued r \<le> max_host_request_lifetime_ms) INVALID_REQUEST) (\<lambda>_.
     Inr r))))))"

definition request_json :: "host_request \<Rightarrow> json" where
  "request_json r = JObj [(''protocol_version'', JInt (hr_version r)), (''request_id'', JStr (uuid_str (hr_id r))),
     (''issuer'', JStr (hr_issuer r)), (''audience'', JStr (hr_audience r)), (''issued_at_ms'', JInt (hr_issued r)),
     (''expires_at_ms'', JInt (hr_expires r)), (''authority'', JObj (authority_fields (hr_authority r))),
     (''operation'', operation_json (hr_operation r))]"

definition hexdigest :: "(string \<Rightarrow> string) \<Rightarrow> string \<Rightarrow> string" where
  "hexdigest H s = concat (map (\<lambda>c. hex_fixed 2 (char_code c)) (H s))"

definition lease_keys :: "string list" where
  "lease_keys = [''lease_id'', ''worker_id'', ''attempt'', ''fencing_token'', ''lease_expires_at_ms'']"

definition semantic_authority :: "host_authority \<Rightarrow> json" where
  "semantic_authority a = JObj (case a of
     Task_lease_authority _ \<Rightarrow> filter (\<lambda>(k, _). k \<notin> set lease_keys) (authority_fields a)
   | _ \<Rightarrow> authority_fields a)"

definition semantic_fingerprint :: "(string \<Rightarrow> string) \<Rightarrow> host_request \<Rightarrow> string" where
  "semantic_fingerprint H r = ''sha256:'' @ hexdigest H (dumps (JObj
     [(''authority'', semantic_authority (hr_authority r)), (''operation'', operation_json (hr_operation r))]))"

datatype response_status = R_OK | R_REJECTED | R_AMBIGUOUS

definition response_status_value :: "response_status \<Rightarrow> string" where
  "response_status_value s = (case s of R_OK \<Rightarrow> ''OK'' | R_REJECTED \<Rightarrow> ''REJECTED'' | R_AMBIGUOUS \<Rightarrow> ''AMBIGUOUS'')"

definition response_status_of :: "string \<Rightarrow> response_status option" where
  "response_status_of s = find (\<lambda>x. response_status_value x = s) [R_OK, R_REJECTED, R_AMBIGUOUS]"

record host_response =
  hs_request :: uuid
  hs_operation :: string
  hs_key :: string
  hs_host :: string
  hs_host_version :: string
  hs_status :: response_status
  hs_code :: string
  hs_replayed :: bool
  hs_completed :: int
  hs_result :: json
  hs_token :: "int option"
  hs_version :: int

definition mk_host_response :: "host_response \<Rightarrow> host_error + host_response" where
  "mk_host_response r =
     bindE (require (hs_version r = host_protocol_version) UNSUPPORTED_PROTOCOL) (\<lambda>_.
     bindE (require (operation_name_ok (hs_operation r)) INVALID_RESPONSE) (\<lambda>_.
     bindE (require (host_identifier_ok (hs_key r)) INVALID_REQUEST) (\<lambda>_.
     bindE (require (host_identifier_ok (hs_host r)) INVALID_REQUEST) (\<lambda>_.
     bindE (require (host_identifier_ok (hs_host_version r)) INVALID_REQUEST) (\<lambda>_.
     bindE (require (matches_code (hs_code r)) INVALID_RESPONSE) (\<lambda>_.
     bindE (require (positive_int_ok (hs_completed r)) INVALID_REQUEST) (\<lambda>_.
     bindE (require (case hs_token r of None \<Rightarrow> True | Some t \<Rightarrow> positive_int_ok t) INVALID_REQUEST) (\<lambda>_.
     bindE (json_object (hs_result r)) (\<lambda>result.
     Inr (r\<lparr>hs_result := result\<rparr>))))))))))"

definition response_json :: "host_response \<Rightarrow> json" where
  "response_json r = JObj [(''protocol_version'', JInt (hs_version r)), (''request_id'', JStr (uuid_str (hs_request r))),
     (''operation_name'', JStr (hs_operation r)), (''idempotency_key'', JStr (hs_key r)),
     (''host_id'', JStr (hs_host r)), (''host_version'', JStr (hs_host_version r)),
     (''status'', JStr (response_status_value (hs_status r))), (''code'', JStr (hs_code r)),
     (''replayed'', JBool (hs_replayed r)), (''completed_at_ms'', JInt (hs_completed r)),
     (''execution_fencing_token'', jopt JInt (hs_token r)), (''result'', hs_result r)]"

subsection \<open>Signatures\<close>

definition utf8_encode :: "string \<Rightarrow> string" where
  "utf8_encode s = concat (map (\<lambda>c. let n = char_code c in
     if n < 128 then [c] else [char_of (192 + n div 64), char_of (128 + n mod 64)]) s)"

definition xor_bytes :: "nat \<Rightarrow> string \<Rightarrow> string" where
  "xor_bytes p k = map (\<lambda>c. char_of (p XOR char_code c)) k"

definition hmac :: "(string \<Rightarrow> string) \<Rightarrow> string \<Rightarrow> string \<Rightarrow> string" where
  "hmac H key msg = (let k = (if 64 < length key then H key else key);
       block = k @ replicate (64 - length k) (CHR 0x00) in
     H (xor_bytes 92 block @ H (xor_bytes 54 block @ msg)))"

definition base64_char :: "nat \<Rightarrow> char" where
  "base64_char n = (if n < 26 then char_of (65 + n) else if n < 52 then char_of (71 + n)
     else if n < 62 then char_of (n - 4) else if n = 62 then CHR ''-'' else CHR ''_'')"

text \<open>URL-safe base64 without the padding.\<close>

fun base64url :: "string \<Rightarrow> string" where
  "base64url [] = []"
| "base64url [a] = [base64_char (char_code a div 4), base64_char (char_code a mod 4 * 16)]"
| "base64url [a, b] = [base64_char (char_code a div 4),
     base64_char (char_code a mod 4 * 16 + char_code b div 16), base64_char (char_code b mod 16 * 4)]"
| "base64url (a # b # c # s) = [base64_char (char_code a div 4),
     base64_char (char_code a mod 4 * 16 + char_code b div 16),
     base64_char (char_code b mod 16 * 4 + char_code c div 64), base64_char (char_code c mod 64)] @ base64url s"

record authenticator =
  au_key :: string
  au_key_id :: string

definition mk_authenticator :: "string \<Rightarrow> string \<Rightarrow> host_error + authenticator" where
  "mk_authenticator secret key_id =
     (let key = utf8_encode secret in
      if length key < 32 then Inl HOST_NOT_READY
      else bindE (require (host_identifier_ok key_id) INVALID_REQUEST) (\<lambda>_.
        Inr \<lparr>au_key = key, au_key_id = key_id\<rparr>))"

definition request_domain :: string where
  "request_domain = ''mathews-host-request-v1'' @ [CHR 0x00]"

definition response_domain :: string where
  "response_domain = ''mathews-host-response-v1'' @ [CHR 0x00]"

definition message_signature :: "(string \<Rightarrow> string) \<Rightarrow> authenticator \<Rightarrow> string \<Rightarrow> json \<Rightarrow> string" where
  "message_signature H au domain message = base64url (hmac H (au_key au) (domain @ dumps message))"

record signed_request =
  sr_message :: host_request
  sr_key_id :: string
  sr_signature :: string

definition mk_signed_request :: "host_request \<Rightarrow> string \<Rightarrow> string \<Rightarrow> host_error + signed_request" where
  "mk_signed_request m key_id signature =
     bindE (require (host_identifier_ok key_id) INVALID_REQUEST) (\<lambda>_.
     bindE (require (signature_ok signature) UNAUTHENTICATED) (\<lambda>_.
     Inr \<lparr>sr_message = m, sr_key_id = key_id, sr_signature = signature\<rparr>))"

record signed_response =
  ss_message :: host_response
  ss_key_id :: string
  ss_signature :: string

definition mk_signed_response :: "host_response \<Rightarrow> string \<Rightarrow> string \<Rightarrow> host_error + signed_response" where
  "mk_signed_response m key_id signature =
     bindE (require (host_identifier_ok key_id) INVALID_REQUEST) (\<lambda>_.
     bindE (require (signature_ok signature) UNAUTHENTICATED) (\<lambda>_.
     Inr \<lparr>ss_message = m, ss_key_id = key_id, ss_signature = signature\<rparr>))"

definition sign_request :: "(string \<Rightarrow> string) \<Rightarrow> authenticator \<Rightarrow> host_request \<Rightarrow> host_error + signed_request" where
  "sign_request H au m =
     mk_signed_request m (au_key_id au) (message_signature H au request_domain (request_json m))"

definition verify_request ::
  "(string \<Rightarrow> string) \<Rightarrow> authenticator \<Rightarrow> int \<Rightarrow> signed_request \<Rightarrow> host_error + host_request" where
  "verify_request H au now s =
     (let m = sr_message s in
      if sr_key_id s \<noteq> au_key_id au \<or>
         sr_signature s \<noteq> message_signature H au request_domain (request_json m) then Inl UNAUTHENTICATED
      else if now + max_host_clock_skew_ms < hr_issued m then Inl REQUEST_EXPIRED
      else if hr_expires m \<le> now then Inl REQUEST_EXPIRED
      else (case hr_authority m of
          Task_lease_authority a \<Rightarrow> if la_expires_ms a \<le> now then Inl LEASE_EXPIRED else Inr m
        | _ \<Rightarrow> Inr m))"

definition sign_response :: "(string \<Rightarrow> string) \<Rightarrow> authenticator \<Rightarrow> host_response \<Rightarrow> host_error + signed_response" where
  "sign_response H au m =
     mk_signed_response m (au_key_id au) (message_signature H au response_domain (response_json m))"

definition verify_response ::
  "(string \<Rightarrow> string) \<Rightarrow> authenticator \<Rightarrow> signed_response \<Rightarrow> host_error + host_response" where
  "verify_response H au s =
     (if ss_key_id s \<noteq> au_key_id au \<or>
         ss_signature s \<noteq> message_signature H au response_domain (response_json (ss_message s))
      then Inl UNAUTHENTICATED else Inr (ss_message s))"

subsection \<open>Encoding\<close>

definition envelope_json :: "json \<Rightarrow> string \<Rightarrow> string \<Rightarrow> json" where
  "envelope_json message key_id signature = JObj [(''message'', message),
     (''authentication'', JObj [(''key_id'', JStr key_id), (''signature'', JStr signature)])]"

definition encode_signed_host_request :: "signed_request \<Rightarrow> host_error + string" where
  "encode_signed_host_request s =
     (let encoded = dumps (envelope_json (request_json (sr_message s)) (sr_key_id s) (sr_signature s)) in
      if max_host_request_bytes < length encoded then Inl INVALID_REQUEST else Inr encoded)"

definition encode_signed_host_response :: "signed_response \<Rightarrow> host_error + string" where
  "encode_signed_host_response s =
     (let encoded = dumps (envelope_json (response_json (ss_message s)) (ss_key_id s) (ss_signature s)) in
      if max_host_response_bytes < length encoded then Inl INVALID_RESPONSE else Inr encoded)"

subsection \<open>Decoding\<close>

text \<open>The hooks: integers of 64 bits in at most 20 characters, no other numbers, no repeated keys.\<close>

definition bounded_json_integer :: "string \<Rightarrow> json option" where
  "bounded_json_integer s = (if 20 < length s then None
     else if int64_ok (int_of_text s) then Some (JInt (int_of_text s)) else None)"

definition unique_object :: "(string \<times> json) list \<Rightarrow> json option" where
  "unique_object kvs = (if distinct (map fst kvs) then Some (JObj kvs) else None)"

definition protocol_hooks :: json_hooks where
  "protocol_hooks = \<lparr>on_int = bounded_json_integer, on_float = (\<lambda>_. None), on_constant = (\<lambda>_. None),
     on_object = unique_object\<rparr>"

definition jobject :: "json \<Rightarrow> host_error + json" where
  "jobject v = (if is_jobj v then Inr v else Inl INVALID_REQUEST)"

definition jstring :: "json \<Rightarrow> host_error + string" where
  "jstring v = (case v of JStr s \<Rightarrow> Inr s | _ \<Rightarrow> Inl INVALID_REQUEST)"

definition jinteger :: "json \<Rightarrow> host_error + int" where
  "jinteger v = (case v of JInt i \<Rightarrow> Inr i | _ \<Rightarrow> Inl INVALID_REQUEST)"

definition jboolean :: "json \<Rightarrow> host_error + bool" where
  "jboolean v = (case v of JBool b \<Rightarrow> Inr b | _ \<Rightarrow> Inl INVALID_RESPONSE)"

text \<open>\<open>UUID(text)\<close> accepts several notations; \<open>str(identifier) != text\<close> then leaves the canonical one,
  and both refusals raise the same error.\<close>

definition juuid :: "json \<Rightarrow> host_error + uuid" where
  "juuid v = bindE (jstring v) (\<lambda>s. let u = of_nat (read_hex (uuid_digits s)) in
     if uuid_str u = s then Inr u else Inl INVALID_REQUEST)"

definition exact_fields :: "string list \<Rightarrow> json \<Rightarrow> host_error + json" where
  "exact_fields expected v = (if jkeys v = set expected then Inr v else Inl INVALID_REQUEST)"

definition jfield :: "string \<Rightarrow> json \<Rightarrow> json" where
  "jfield k v = (case jget k v of None \<Rightarrow> JNull | Some x \<Rightarrow> x)"

definition decode_json_object :: "nat \<Rightarrow> nat \<Rightarrow> string \<Rightarrow> host_error + json" where
  "decode_json_object limit maximum payload =
     (if payload = [] \<or> maximum < length payload then Inl INVALID_FRAME
      else (case utf8_decode (codes_of payload) of None \<Rightarrow> Inl INVALID_FRAME
        | Some cs \<Rightarrow> (case loads protocol_hooks limit cs of
            Inl Malformed \<Rightarrow> Inl INVALID_FRAME | Inl Beyond_text \<Rightarrow> Inl BEYOND_TEXT | Inr v \<Rightarrow> jobject v)))"

definition authority_from_dict :: "json \<Rightarrow> host_error + host_authority" where
  "authority_from_dict v =
     bindE (jstring (jfield ''kind'' v)) (\<lambda>kind.
     if kind = ''SYSTEM'' then bindE (exact_fields [''kind''] v) (\<lambda>_. Inr System_authority)
     else if kind = ''REPOSITORY'' then
       bindE (exact_fields [''kind'', ''repository_key'', ''configuration_id'', ''configuration_digest''] v) (\<lambda>f.
       bindE (jstring (jfield ''repository_key'' f)) (\<lambda>repository.
       bindE (juuid (jfield ''configuration_id'' f)) (\<lambda>configuration.
       bindE (jstring (jfield ''configuration_digest'' f)) (\<lambda>digest.
       mk_repository_authority repository configuration digest))))
     else if kind = ''TASK_LEASE'' then
       bindE (exact_fields [''kind'', ''task_id'', ''job_id'', ''lease_id'', ''worker_id'', ''attempt'', ''fencing_token'',
         ''lease_expires_at_ms'', ''repository_key'', ''configuration_id'', ''configuration_digest''] v) (\<lambda>f.
       bindE (juuid (jfield ''task_id'' f)) (\<lambda>task.
       bindE (juuid (jfield ''job_id'' f)) (\<lambda>job.
       bindE (juuid (jfield ''lease_id'' f)) (\<lambda>lease.
       bindE (jstring (jfield ''worker_id'' f)) (\<lambda>worker.
       bindE (jinteger (jfield ''attempt'' f)) (\<lambda>attempt.
       bindE (jinteger (jfield ''fencing_token'' f)) (\<lambda>token.
       bindE (jinteger (jfield ''lease_expires_at_ms'' f)) (\<lambda>expires.
       bindE (jstring (jfield ''repository_key'' f)) (\<lambda>repository.
       bindE (juuid (jfield ''configuration_id'' f)) (\<lambda>configuration.
       bindE (jstring (jfield ''configuration_digest'' f)) (\<lambda>digest.
       mk_lease_authority \<lparr>la_task = task, la_job = job, la_lease = lease, la_worker = worker, la_attempt = attempt,
         la_token = token, la_expires_ms = expires, la_repository = repository, la_configuration = configuration,
         la_digest = digest\<rparr>)))))))))))
     else Inl INVALID_AUTHORITY)"

definition operation_from_dict :: "json \<Rightarrow> host_error + host_operation" where
  "operation_from_dict v =
     bindE (exact_fields [''name'', ''schema_version'', ''idempotency_key'', ''arguments''] v) (\<lambda>f.
     bindE (jstring (jfield ''name'' f)) (\<lambda>name.
     bindE (jinteger (jfield ''schema_version'' f)) (\<lambda>schema.
     bindE (jstring (jfield ''idempotency_key'' f)) (\<lambda>key.
     bindE (jobject (jfield ''arguments'' f)) (\<lambda>raw.
     bindE (json_object raw) (\<lambda>arguments.
     mk_operation name key arguments schema))))))"

definition request_from_dict :: "json \<Rightarrow> host_error + host_request" where
  "request_from_dict v =
     bindE (exact_fields [''protocol_version'', ''request_id'', ''issuer'', ''audience'', ''issued_at_ms'',
       ''expires_at_ms'', ''authority'', ''operation''] v) (\<lambda>f.
     bindE (jinteger (jfield ''protocol_version'' f)) (\<lambda>version.
     bindE (juuid (jfield ''request_id'' f)) (\<lambda>rid.
     bindE (jstring (jfield ''issuer'' f)) (\<lambda>issuer.
     bindE (jstring (jfield ''audience'' f)) (\<lambda>audience.
     bindE (jinteger (jfield ''issued_at_ms'' f)) (\<lambda>issued.
     bindE (jinteger (jfield ''expires_at_ms'' f)) (\<lambda>expires.
     bindE (bindE (jobject (jfield ''authority'' f)) authority_from_dict) (\<lambda>authority.
     bindE (bindE (jobject (jfield ''operation'' f)) operation_from_dict) (\<lambda>operation.
     mk_host_request \<lparr>hr_id = rid, hr_issued = issued, hr_expires = expires, hr_authority = authority,
       hr_operation = operation, hr_version = version, hr_issuer = issuer, hr_audience = audience\<rparr>)))))))))"

definition response_from_dict :: "json \<Rightarrow> host_error + host_response" where
  "response_from_dict v =
     bindE (exact_fields [''protocol_version'', ''request_id'', ''operation_name'', ''idempotency_key'', ''host_id'',
       ''host_version'', ''status'', ''code'', ''replayed'', ''completed_at_ms'', ''execution_fencing_token'',
       ''result''] v) (\<lambda>f.
     bindE (bindE (jstring (jfield ''status'' f)) (\<lambda>s. case response_status_of s of None \<Rightarrow> Inl INVALID_RESPONSE
       | Some x \<Rightarrow> Inr x)) (\<lambda>status.
     bindE (jinteger (jfield ''protocol_version'' f)) (\<lambda>version.
     bindE (juuid (jfield ''request_id'' f)) (\<lambda>rid.
     bindE (jstring (jfield ''operation_name'' f)) (\<lambda>operation.
     bindE (jstring (jfield ''idempotency_key'' f)) (\<lambda>key.
     bindE (jstring (jfield ''host_id'' f)) (\<lambda>host.
     bindE (jstring (jfield ''host_version'' f)) (\<lambda>host_version.
     bindE (jstring (jfield ''code'' f)) (\<lambda>code.
     bindE (jboolean (jfield ''replayed'' f)) (\<lambda>replayed.
     bindE (jinteger (jfield ''completed_at_ms'' f)) (\<lambda>completed.
     bindE (case jfield ''execution_fencing_token'' f of JNull \<Rightarrow> Inr None
       | t \<Rightarrow> bindE (jinteger t) (\<lambda>i. Inr (Some i))) (\<lambda>token.
     bindE (bindE (jobject (jfield ''result'' f)) json_object) (\<lambda>result.
     mk_host_response \<lparr>hs_request = rid, hs_operation = operation, hs_key = key, hs_host = host,
       hs_host_version = host_version, hs_status = status, hs_code = code, hs_replayed = replayed,
       hs_completed = completed, hs_result = result, hs_token = token, hs_version = version\<rparr>)))))))))))))"

definition decode_signed_host_request :: "nat \<Rightarrow> string \<Rightarrow> host_error + signed_request" where
  "decode_signed_host_request limit payload =
     bindE (decode_json_object limit max_host_request_bytes payload) (\<lambda>root.
     bindE (exact_fields [''message'', ''authentication''] root) (\<lambda>f.
     bindE (bindE (jobject (jfield ''message'' f)) request_from_dict) (\<lambda>message.
     bindE (bindE (jobject (jfield ''authentication'' f)) (exact_fields [''key_id'', ''signature''])) (\<lambda>a.
     bindE (jstring (jfield ''key_id'' a)) (\<lambda>key_id.
     bindE (jstring (jfield ''signature'' a)) (\<lambda>signature.
     mk_signed_request message key_id signature))))))"

definition decode_signed_host_response :: "nat \<Rightarrow> string \<Rightarrow> host_error + signed_response" where
  "decode_signed_host_response limit payload =
     bindE (decode_json_object limit max_host_response_bytes payload) (\<lambda>root.
     bindE (exact_fields [''message'', ''authentication''] root) (\<lambda>f.
     bindE (bindE (jobject (jfield ''message'' f)) response_from_dict) (\<lambda>message.
     bindE (bindE (jobject (jfield ''authentication'' f)) (exact_fields [''key_id'', ''signature''])) (\<lambda>a.
     bindE (jstring (jfield ''key_id'' a)) (\<lambda>key_id.
     bindE (jstring (jfield ''signature'' a)) (\<lambda>signature.
     mk_signed_response message key_id signature))))))"

end
