(* ===== verification/Host_Messages.thy ===== *)
theory Host_Messages
  imports Host_Protocol
begin

text \<open>
  Facts about the messages of the host protocol: the bounded JSON check returns its argument, the
  dictionary of a message decodes to the message with its payload keys in order, the canonical
  text does not depend on key order, signatures have the shape the envelopes demand.
\<close>

subsection \<open>Checked JSON\<close>

fun json_nodes :: "json \<Rightarrow> nat" where
  "json_nodes (JArr xs) = Suc (sum_list (map json_nodes xs))"
| "json_nodes (JObj kvs) = Suc (sum_list (map (\<lambda>(k, v). json_nodes v) kvs))"
| "json_nodes v = 1"

fun json_good :: "nat \<Rightarrow> json \<Rightarrow> bool" where
  "json_good d (JInt i) \<longleftrightarrow> d \<le> max_json_depth \<and> int64_ok i"
| "json_good d (JFloat s) \<longleftrightarrow> False"
| "json_good d (JStr s) \<longleftrightarrow> d \<le> max_json_depth \<and> length s \<le> max_string_length \<and> CHR 0x00 \<notin> set s"
| "json_good d (JArr xs) \<longleftrightarrow> d \<le> max_json_depth \<and> length xs \<le> max_collection_items \<and> list_all (json_good (Suc d)) xs"
| "json_good d (JObj kvs) \<longleftrightarrow> d \<le> max_json_depth \<and> length kvs \<le> max_collection_items \<and>
     list_all (\<lambda>(k, v). k \<noteq> [] \<and> length k \<le> 255 \<and> json_good (Suc d) v) kvs"
| "json_good d v \<longleftrightarrow> d \<le> max_json_depth"

text \<open>The check returns the value it was given.\<close>

lemma json_value_same:
  "json_value d v n = Inr (w, m) \<longleftrightarrow> w = v \<and> m = n + json_nodes v \<and> json_good d v \<and> m \<le> max_json_nodes"
  "json_values d xs n = Inr (ys, m) \<longleftrightarrow> ys = xs \<and> m = n + sum_list (map json_nodes xs) \<and>
     list_all (json_good d) xs \<and> (xs = [] \<or> m \<le> max_json_nodes)"
  "json_items d kvs n = Inr (zs, m) \<longleftrightarrow> zs = kvs \<and> m = n + sum_list (map (\<lambda>(k, v). json_nodes v) kvs) \<and>
     list_all (\<lambda>(k, v). k \<noteq> [] \<and> length k \<le> 255 \<and> json_good d v) kvs \<and> (kvs = [] \<or> m \<le> max_json_nodes)"
proof (induction d v n and d xs n and d kvs n arbitrary: w m and ys m and zs m
    rule: json_value_json_values_json_items.induct)
  case (6 depth xs n)
  show ?case
  proof (cases "node_ok depth (n + 1) \<and> length xs \<le> max_collection_items")
    case True
    note i = 6 [OF True, simplified]
    show ?thesis using True by (auto simp: i node_ok_def)
  qed (auto simp: node_ok_def)
next
  case (7 depth kvs n)
  show ?case
  proof (cases "node_ok depth (n + 1) \<and> length kvs \<le> max_collection_items")
    case True
    note i = 7 [OF True, simplified]
    show ?thesis using True by (auto simp: i node_ok_def)
  qed (auto simp: node_ok_def)
next
  case (9 depth x xs n)
  then show ?case by fastforce
next
  case (11 depth k x kvs n)
  show ?case
  proof (cases "k = [] \<or> 255 < length k")
    case False
    then show ?thesis using 11 [OF False] by fastforce
  qed auto
qed (auto simp: node_ok_def)

lemma json_object_same: "json_object v = Inr w \<longleftrightarrow> w = v \<and> json_nodes v \<le> max_json_nodes \<and> json_good 0 v \<and> is_jobj v"
  by (auto simp: json_object_def json_value_same)

lemma sum_list_sort: "sum_list (map f (sort_key k xs)) = sum_list (map f xs)" for f :: "'a \<Rightarrow> nat"
  by (metis mset_map mset_sort sum_mset_sum_list)

lemma json_nodes_jsort: "json_nodes (jsort v) = json_nodes v"
proof (induction v)
  case (JObj kvs)
  have "map (\<lambda>(k, v). json_nodes v) (map (\<lambda>(k, v). (k, jsort v)) kvs) = map (\<lambda>(k, v). json_nodes v) kvs"
    using JObj by auto
  then show ?case by (simp add: sum_list_sort del: map_map)
next
  case (JArr xs)
  then have "map json_nodes (map jsort xs) = map json_nodes xs" by simp
  then show ?case by (simp del: map_map)
qed simp_all

lemma json_good_jsort: "json_good d (jsort v) = json_good d v"
proof (induction v arbitrary: d)
  case (JObj kvs)
  have "list_all (\<lambda>(k, v). k \<noteq> [] \<and> length k \<le> 255 \<and> json_good e v) (map (\<lambda>(k, v). (k, jsort v)) kvs) =
      list_all (\<lambda>(k, v). k \<noteq> [] \<and> length k \<le> 255 \<and> json_good e v) kvs" for e
    using JObj by (fastforce simp: list_all_iff)
  then show ?case by (simp add: list_all_iff)
qed (auto simp: list_all_iff)

lemma is_jobj_jsort [simp]: "is_jobj (jsort v) = is_jobj v"
  by (cases v) (simp_all add: is_jobj_def)

lemma fold_max_le: "(\<And>x. x \<in> set xs \<Longrightarrow> x \<le> b) \<Longrightarrow> a \<le> b \<Longrightarrow> fold max xs a \<le> b" for a :: nat
  by (induction xs arbitrary: a) auto

text \<open>A checked dictionary is a value the reader can give back.\<close>

lemma json_good_clean:
  "json_good d v \<Longrightarrow> json_clean (\<lambda>_. True) v \<Longrightarrow> json_clean int64_ok v \<and> json_depth v + d \<le> Suc max_json_depth"
proof (induction v arbitrary: d)
  case (JArr xs)
  have "json_clean int64_ok x \<and> json_depth x + Suc d \<le> Suc max_json_depth" if "x \<in> set xs" for x
    using JArr.IH [OF that, of "Suc d"] JArr.prems that by (simp add: list_all_iff)
  moreover have "fold max (map json_depth xs) 0 \<le> max_json_depth - d"
    by (intro fold_max_le) (use calculation in fastforce)+
  ultimately show ?case using JArr.prems by (auto simp: list_all_iff)
next
  case (JObj kvs)
  have x: "json_clean int64_ok v \<and> json_depth v + Suc d \<le> Suc max_json_depth" if "(k, v) \<in> set kvs" for k v
    using JObj.IH [of "(k, v)" v "Suc d"] JObj.prems that by (auto simp: list_all_iff)
  have "fold max (map (\<lambda>(k, v). json_depth v) kvs) 0 \<le> max_json_depth - d"
    by (intro fold_max_le) (use x in fastforce)+
  then show ?case using JObj.prems x by (auto simp: list_all_iff)
qed auto

subsection \<open>The hooks read what was written\<close>

lemma length_dec_nat: "n < 10 ^ k \<Longrightarrow> 0 < k \<Longrightarrow> length (dec_nat n) \<le> k"
proof (induction n arbitrary: k rule: dec_nat.induct)
  case (1 n)
  show ?case
  proof (cases "n < 10")
    case True
    then show ?thesis using 1 by (subst dec_nat.simps) simp
  next
    case False
    then obtain j where k: "k = Suc j" "0 < j" using 1 by (cases k; cases "k - 1") auto
    then have "n div 10 < 10 ^ j" using 1(2) by (simp add: div_less_iff_less_mult mult.commute)
    then show ?thesis using 1(1) [OF False] k False by (subst dec_nat.simps) simp
  qed
qed

lemma length_dec_int64: "int64_ok i \<Longrightarrow> length (dec_int i) \<le> 20"
proof -
  assume i: "int64_ok i"
  then have "nat i < 10 ^ 19" "nat (- i) < 10 ^ 19" by (auto simp: int64_ok_def)
  then have "length (dec_nat (nat i)) \<le> 19" "length (dec_nat (nat (- i))) \<le> 19"
    by (auto intro: length_dec_nat)
  then show ?thesis by (auto simp: dec_int_def)
qed

lemma protocol_hooks_read: "hooks_read int64_ok protocol_hooks"
  by (auto simp: hooks_read_def protocol_hooks_def bounded_json_integer_def unique_object_def
      dest: length_dec_int64)

lemma decode_dumps:
  assumes "json_clean int64_ok v" "json_depth v \<le> limit" "is_jobj v" "length (dumps v) \<le> maximum"
  shows "decode_json_object limit maximum (dumps v) = Inr (jsort v)"
  using assms loads_dumps [OF protocol_hooks_read assms(1,2)] dumps_nonempty [OF assms(1)]
  by (simp add: decode_json_object_def utf8_dumps jobject_def)

lemma map_of_sort: "distinct (map fst kvs) \<Longrightarrow> map_of (sort_key fst kvs) k = map_of kvs k"
  by (rule map_of_inject_set [THEN iffD2, THEN fun_cong]) (auto simp: distinct_map)

lemma map_of_values: "map_of (map (\<lambda>(k, v). (k, f v)) kvs) k = map_option f (map_of kvs k)"
  by (induction kvs) auto

lemma jfield_jsort:
  "distinct (map fst kvs) \<Longrightarrow> jfield k (jsort (JObj kvs)) = (case map_of kvs k of None \<Rightarrow> JNull | Some x \<Rightarrow> jsort x)"
proof -
  assume d: "distinct (map fst kvs)"
  have "map_of (sort_key fst (map (\<lambda>(k, v). (k, jsort v)) kvs)) k = map_option jsort (map_of kvs k)"
    unfolding sort_key_map_fst map_of_values map_of_sort [OF d] by simp
  then show ?thesis by (simp add: jfield_def jget_def split: option.split)
qed

lemma jkeys_jsort: "jkeys (jsort v) = jkeys v"
  by (cases v) (force simp: jkeys_def image_iff)+

subsection \<open>Messages\<close>

text \<open>A message as the constructors of the code leave it: the checks pass, and the arguments are a
  Python dictionary, in which no key is repeated.\<close>

definition authority_ok :: "host_authority \<Rightarrow> bool" where
  "authority_ok a = (case a of System_authority \<Rightarrow> True
     | Repository_authority r c d \<Rightarrow> mk_repository_authority r c d = Inr a
     | Task_lease_authority l \<Rightarrow> mk_lease_authority l = Inr a)"

definition operation_ok :: "host_operation \<Rightarrow> bool" where
  "operation_ok q \<longleftrightarrow> mk_operation (ho_name q) (ho_key q) (ho_arguments q) (ho_schema q) = Inr q \<and>
     json_clean (\<lambda>_. True) (ho_arguments q)"

definition request_ok :: "host_request \<Rightarrow> bool" where
  "request_ok r \<longleftrightarrow> mk_host_request r = Inr r \<and> authority_ok (hr_authority r) \<and> operation_ok (hr_operation r)"

definition response_ok :: "host_response \<Rightarrow> bool" where
  "response_ok r \<longleftrightarrow> mk_host_response r = Inr r \<and> json_clean (\<lambda>_. True) (hs_result r)"

text \<open>The same message with the keys of its payload in order.\<close>

definition canonical_operation :: "host_operation \<Rightarrow> host_operation" where
  "canonical_operation q = q\<lparr>ho_arguments := jsort (ho_arguments q)\<rparr>"

definition canonical_request :: "host_request \<Rightarrow> host_request" where
  "canonical_request r = r\<lparr>hr_operation := canonical_operation (hr_operation r)\<rparr>"

definition canonical_response :: "host_response \<Rightarrow> host_response" where
  "canonical_response r = r\<lparr>hs_result := jsort (hs_result r)\<rparr>"

lemma juuid_str [simp]: "juuid (JStr (uuid_str u)) = Inr u"
  by (simp add: juuid_def jstring_def read_uuid)

lemma jread_simps [simp]:
  "jstring (JStr s) = Inr s" "jinteger (JInt i) = Inr i" "jboolean (JBool b) = Inr b"
  "is_jobj v \<Longrightarrow> jobject v = Inr v"
  by (simp_all add: jstring_def jinteger_def jboolean_def jobject_def)

lemma exact_fields_jsort:
  "exact_fields ks (jsort (JObj kvs)) = (if set (map fst kvs) = set ks then Inr (jsort (JObj kvs)) else Inl INVALID_REQUEST)"
  by (simp add: exact_fields_def jkeys_jsort del: jsort.simps) (simp add: jkeys_def)

lemma record_fields [simp]:
  "\<lparr>la_task = la_task l, la_job = la_job l, la_lease = la_lease l, la_worker = la_worker l, la_attempt = la_attempt l,
     la_token = la_token l, la_expires_ms = la_expires_ms l, la_repository = la_repository l,
     la_configuration = la_configuration l, la_digest = la_digest l\<rparr> = l"
  "\<lparr>hr_id = hr_id r, hr_issued = hr_issued r, hr_expires = hr_expires r, hr_authority = hr_authority r,
     hr_operation = q, hr_version = hr_version r, hr_issuer = hr_issuer r, hr_audience = hr_audience r\<rparr> =
   r\<lparr>hr_operation := q\<rparr>"
  "\<lparr>hs_request = hs_request s, hs_operation = hs_operation s, hs_key = hs_key s, hs_host = hs_host s,
     hs_host_version = hs_host_version s, hs_status = hs_status s, hs_code = hs_code s, hs_replayed = hs_replayed s,
     hs_completed = hs_completed s, hs_result = v, hs_token = t, hs_version = hs_version s\<rparr> =
   s\<lparr>hs_result := v, hs_token := t\<rparr>"
  "hs_token s = t \<Longrightarrow> s\<lparr>hs_result := v, hs_token := t\<rparr> = s\<lparr>hs_result := v\<rparr>"
  by (cases l, cases r, cases s, simp)+

lemma is_jobj_simps [simp]: "is_jobj (JObj kvs)"
  by (simp add: is_jobj_def)

lemma authority_roundtrip:
  assumes "authority_ok a"
  shows "authority_from_dict (jsort (JObj (authority_fields a))) = Inr a"
proof (cases a)
  case System_authority
  then show ?thesis
    by (simp add: authority_from_dict_def authority_fields_def authority_kind_def jfield_jsort exact_fields_jsort
        del: jsort.simps(2))
next
  case (Repository_authority r c d)
  then show ?thesis using assms
    by (simp add: authority_from_dict_def authority_fields_def authority_kind_def jfield_jsort exact_fields_jsort
        authority_ok_def insert_commute del: jsort.simps(2))
next
  case (Task_lease_authority l)
  then show ?thesis using assms
    by (simp add: authority_from_dict_def authority_fields_def authority_kind_def jfield_jsort exact_fields_jsort
        authority_ok_def insert_commute del: jsort.simps(2))
qed

lemma operation_okD:
  "operation_ok q \<Longrightarrow> is_jobj (ho_arguments q) \<and> json_good 0 (ho_arguments q) \<and>
     json_nodes (ho_arguments q) \<le> max_json_nodes \<and> operation_name_ok (ho_name q) \<and> host_identifier_ok (ho_key q) \<and>
     ho_schema q = 1"
  by (auto simp: operation_ok_def mk_operation_def json_object_same)

lemma json_object_jsort: "json_object (jsort v) = Inr (jsort v) \<longleftrightarrow> json_object v = Inr v"
  by (simp add: json_object_same json_nodes_jsort json_good_jsort)

lemma operation_roundtrip:
  assumes "operation_ok q"
  shows "operation_from_dict (jsort (operation_json q)) = Inr (canonical_operation q)"
proof -
  have "json_object (jsort (ho_arguments q)) = Inr (jsort (ho_arguments q))"
    using operation_okD [OF assms] by (simp add: json_object_jsort) (simp add: json_object_same)
  then show ?thesis using operation_okD [OF assms] unfolding operation_json_def
    by (simp add: operation_from_dict_def jfield_jsort exact_fields_jsort mk_operation_def canonical_operation_def
        insert_commute del: jsort.simps(2))
qed

lemma request_roundtrip:
  assumes "request_ok r"
  shows "request_from_dict (jsort (request_json r)) = Inr (canonical_request r)"
proof -
  have "mk_host_request (canonical_request r) = Inr (canonical_request r)"
    using assms by (simp add: request_ok_def mk_host_request_def canonical_request_def)
  moreover have "authority_from_dict (jsort (JObj (authority_fields (hr_authority r)))) = Inr (hr_authority r)"
    using assms authority_roundtrip by (simp add: request_ok_def)
  moreover have "operation_from_dict (jsort (operation_json (hr_operation r))) = Inr (canonical_operation (hr_operation r))"
    using assms operation_roundtrip by (simp add: request_ok_def)
  moreover have "is_jobj (operation_json (hr_operation r))" by (simp add: operation_json_def)
  ultimately show ?thesis unfolding request_json_def
    by (simp add: request_from_dict_def jfield_jsort exact_fields_jsort canonical_request_def
        insert_commute del: jsort.simps(2))
qed

lemma response_status_of_value [simp]: "response_status_of (response_status_value s) = Some s"
  by (cases s) (simp_all add: response_status_of_def response_status_value_def)

lemma response_okD:
  "response_ok r \<Longrightarrow> is_jobj (hs_result r) \<and> json_good 0 (hs_result r) \<and> json_nodes (hs_result r) \<le> max_json_nodes"
  by (auto simp: response_ok_def mk_host_response_def json_object_same)

lemma response_roundtrip:
  assumes "response_ok r"
  shows "response_from_dict (jsort (response_json r)) = Inr (canonical_response r)"
proof -
  have j: "json_object (jsort (hs_result r)) = Inr (jsort (hs_result r))"
    using response_okD [OF assms] by (simp add: json_object_jsort) (simp add: json_object_same)
  moreover have "mk_host_response (canonical_response r) = Inr (canonical_response r)"
    using assms j by (auto simp: response_ok_def mk_host_response_def canonical_response_def)
  ultimately show ?thesis using response_okD [OF assms] unfolding response_json_def
    by (cases "hs_token r")
      (simp_all add: response_from_dict_def jfield_jsort exact_fields_jsort canonical_response_def insert_commute
        del: jsort.simps(2))
qed

text \<open>Sorting the payload does not change the canonical text, so it does not change the signature.\<close>

lemma dumps_items: "list_all2 (\<lambda>(k, v) (l, w). k = l \<and> dumps v = dumps w) kvs lws \<Longrightarrow> dumps (JObj kvs) = dumps (JObj lws)"
proof -
  assume "list_all2 (\<lambda>(k, v) (l, w). k = l \<and> dumps v = dumps w) kvs lws"
  then have "map (\<lambda>(k, v). (k, dumps v)) kvs = map (\<lambda>(k, v). (k, dumps v)) lws"
    by (induction rule: list_all2_induct) auto
  then show ?thesis by simp
qed

lemma dumps_jsort [simp]: "dumps (jsort v) = dumps v"
proof (induction v)
  case (JArr xs)
  then have "map dumps (map jsort xs) = map dumps xs" by simp
  then show ?case by (simp del: map_map)
next
  case (JObj kvs)
  have e: "map (\<lambda>(k, v). (k, dumps v)) (map (\<lambda>(k, v). (k, jsort v)) kvs) = map (\<lambda>(k, v). (k, dumps v)) kvs"
    using JObj by auto
  have "map (\<lambda>(k, v). (k, dumps v)) (sort_key fst (map (\<lambda>(k, v). (k, jsort v)) kvs)) = sort_key fst (map (\<lambda>(k, v). (k, dumps v)) kvs)"
    unfolding sort_key_map_fst [symmetric] e ..
  then show ?case by (simp add: sort_key_id_if_sorted)
qed simp_all

lemma dumps_canonical [simp]:
  "dumps (operation_json (canonical_operation q)) = dumps (operation_json q)"
  "dumps (request_json (canonical_request r)) = dumps (request_json r)"
  "dumps (response_json (canonical_response s)) = dumps (response_json s)"
proof -
  show o: "dumps (operation_json (canonical_operation q)) = dumps (operation_json q)" for q
    unfolding operation_json_def by (rule dumps_items) (simp add: canonical_operation_def)
  show "dumps (request_json (canonical_request r)) = dumps (request_json r)"
    unfolding request_json_def by (rule dumps_items) (simp add: canonical_request_def o)
  show "dumps (response_json (canonical_response s)) = dumps (response_json s)"
    unfolding response_json_def by (rule dumps_items) (simp add: canonical_response_def)
qed

subsection \<open>Signatures\<close>

lemma base64_char_ok: "n < 64 \<Longrightarrow> is_base64_char (base64_char n)"
proof -
  assume n: "n < 64"
  consider "n < 26" | "26 \<le> n" "n < 52" | "52 \<le> n" "n < 62" | "n = 62" | "n = 63" using n by linarith
  then show ?thesis
  proof cases
    case 3
    then have "48 \<le> n - 4" "n - 4 \<le> 57" by linarith+
    then show ?thesis using 3
      by (simp add: is_base64_char_def base64_char_def is_alnum_char_def is_digit_char_def)
  qed (simp_all add: is_base64_char_def base64_char_def is_alnum_char_def is_upper_char_def is_lower_char_def)
qed

lemma base64_parts:
  "char_code a div 4 < 64" "char_code a mod 4 * 16 + char_code b div 16 < 64"
  "char_code a mod 4 * 16 < 64" "char_code b mod 16 * 4 < 64"
  "char_code b mod 16 * 4 + char_code c div 64 < 64" "char_code c mod 64 < 64"
proof -
  have "char_code a < 256" "char_code b < 256" "char_code c < 256" by (rule char_code_bound)+
  then have "char_code b div 16 < 16" "char_code c div 64 < 4" "char_code a div 4 < 64"
    by (simp_all add: less_mult_imp_div_less)
  moreover have "char_code a mod 4 < 4" "char_code b mod 16 < 16" by simp_all
  ultimately show "char_code a div 4 < 64" "char_code a mod 4 * 16 + char_code b div 16 < 64"
    "char_code a mod 4 * 16 < 64" "char_code b mod 16 * 4 < 64"
    "char_code b mod 16 * 4 + char_code c div 64 < 64" "char_code c mod 64 < 64" by linarith+
qed

lemma base64url_ok: "list_all is_base64_char (base64url s)"
  by (induction s rule: base64url.induct) (simp_all add: base64_char_ok base64_parts)

lemma length_base64url: "length (base64url s) = (4 * length s + 2) div 3"
  by (induction s rule: base64url.induct) simp_all

definition digest_length :: "(string \<Rightarrow> string) \<Rightarrow> bool" where
  "digest_length H \<longleftrightarrow> (\<forall>s. length (H s) = 32)"

lemma message_signature_ok: "digest_length H \<Longrightarrow> signature_ok (message_signature H au d v)"
  by (simp add: digest_length_def signature_ok_def message_signature_def base64url_ok length_base64url hmac_def Let_def)

lemma authenticator_key: "mk_authenticator secret kid = Inr au \<Longrightarrow> host_identifier_ok (au_key_id au)"
  by (auto simp: mk_authenticator_def Let_def split: if_split_asm)

lemma sign_request_Inr:
  assumes "mk_authenticator secret kid = Inr au" "digest_length H"
  shows "sign_request H au m = Inr \<lparr>sr_message = m, sr_key_id = au_key_id au,
    sr_signature = message_signature H au request_domain (request_json m)\<rparr>"
  using assms by (simp add: sign_request_def mk_signed_request_def message_signature_ok authenticator_key)

lemma sign_response_Inr:
  assumes "mk_authenticator secret kid = Inr au" "digest_length H"
  shows "sign_response H au m = Inr \<lparr>ss_message = m, ss_key_id = au_key_id au,
    ss_signature = message_signature H au response_domain (response_json m)\<rparr>"
  using assms by (simp add: sign_response_def mk_signed_response_def message_signature_ok authenticator_key)

subsection \<open>Delivery\<close>

text \<open>Nesting of the text of a message: the arguments are three containers deep.\<close>

definition protocol_nesting :: nat where
  "protocol_nesting = max_json_depth + 4"

lemma positive_int64: "positive_int_ok i \<Longrightarrow> int64_ok i"
  by (simp add: positive_int_ok_def int64_ok_def)

lemma authority_clean: "authority_ok a \<Longrightarrow> json_clean int64_ok (JObj (authority_fields a)) \<and> json_depth (JObj (authority_fields a)) = 1"
  by (cases a) (auto simp: authority_fields_def authority_ok_def mk_lease_authority_def positive_int64)

lemma operation_clean:
  assumes "operation_ok q"
  shows "json_clean int64_ok (operation_json q) \<and> json_depth (operation_json q) \<le> max_json_depth + 2"
proof -
  have "json_clean int64_ok (ho_arguments q) \<and> json_depth (ho_arguments q) + 0 \<le> Suc max_json_depth"
    using json_good_clean [of 0 "ho_arguments q"] operation_okD [OF assms] assms by (simp add: operation_ok_def)
  then show ?thesis using operation_okD [OF assms] by (simp add: operation_json_def int64_ok_def)
qed

lemma request_clean:
  assumes "request_ok m"
  shows "json_clean int64_ok (request_json m) \<and> json_depth (request_json m) \<le> max_json_depth + 3"
proof -
  note a = authority_clean [of "hr_authority m"] and q = operation_clean [of "hr_operation m"]
  have "authority_ok (hr_authority m)" "operation_ok (hr_operation m)" "int64_ok (hr_issued m)" "int64_ok (hr_expires m)"
    "int64_ok (hr_version m)"
    using assms by (auto simp: request_ok_def mk_host_request_def positive_int_ok_def host_protocol_version_def int64_ok_def)
  then show ?thesis using a q by (simp add: request_json_def)
qed

lemma response_clean:
  assumes "response_ok m"
  shows "json_clean int64_ok (response_json m) \<and> json_depth (response_json m) \<le> max_json_depth + 3"
proof -
  have "json_clean int64_ok (hs_result m) \<and> json_depth (hs_result m) + 0 \<le> Suc max_json_depth"
    using json_good_clean [of 0 "hs_result m"] response_okD [OF assms] assms by (simp add: response_ok_def)
  moreover have "int64_ok (hs_completed m)" "int64_ok (hs_version m)" "\<forall>t. hs_token m = Some t \<longrightarrow> int64_ok t"
    using assms by (auto simp: response_ok_def mk_host_response_def positive_int_ok_def host_protocol_version_def int64_ok_def)
  ultimately show ?thesis by (cases "hs_token m") (simp_all add: response_json_def)
qed

lemma envelope_clean:
  "json_clean int64_ok v \<Longrightarrow> json_depth v \<le> max_json_depth + 3 \<Longrightarrow>
   json_clean int64_ok (envelope_json v k s) \<and> json_depth (envelope_json v k s) \<le> protocol_nesting"
  by (simp add: envelope_json_def protocol_nesting_def)

text \<open>Decoding an envelope whose message is known to decode.\<close>

lemma envelope_parts:
  "exact_fields [''message'', ''authentication''] (jsort (envelope_json v k s)) = Inr (jsort (envelope_json v k s))"
  "jfield ''message'' (jsort (envelope_json v k s)) = jsort v"
  "jfield ''authentication'' (jsort (envelope_json v k s)) = jsort (JObj [(''key_id'', JStr k), (''signature'', JStr s)])"
  by (simp_all add: envelope_json_def exact_fields_jsort jfield_jsort insert_commute del: jsort.simps(2))

lemma is_jobj_messages [simp]: "is_jobj (request_json m)" "is_jobj (response_json r)" "is_jobj (envelope_json v k s)"
  by (simp_all add: request_json_def response_json_def envelope_json_def)

lemma authentication_parts:
  "exact_fields [''key_id'', ''signature''] (jsort (JObj [(''key_id'', JStr k), (''signature'', JStr s)])) =
     Inr (jsort (JObj [(''key_id'', JStr k), (''signature'', JStr s)]))"
  "jfield ''key_id'' (jsort (JObj [(''key_id'', JStr k), (''signature'', JStr s)])) = JStr k"
  "jfield ''signature'' (jsort (JObj [(''key_id'', JStr k), (''signature'', JStr s)])) = JStr s"
  by (simp_all add: exact_fields_jsort jfield_jsort insert_commute del: jsort.simps(2))

lemma request_decoded:
  assumes "request_ok m" "protocol_nesting \<le> limit"
    and "mk_signed_request m k s = Inr env" "encode_signed_host_request env = Inr payload"
  shows "decode_signed_host_request limit payload = Inr (env\<lparr>sr_message := canonical_request m\<rparr>)"
proof -
  have e: "sr_message env = m" "sr_key_id env = k" "sr_signature env = s" "host_identifier_ok k" "signature_ok s"
    using assms(3) by (auto simp: mk_signed_request_def)
  let ?v = "envelope_json (request_json m) k s"
  have p: "payload = dumps ?v" "length payload \<le> max_host_request_bytes"
    using assms(4) e by (auto simp: encode_signed_host_request_def Let_def)
  have "json_clean int64_ok ?v" "json_depth ?v \<le> limit"
    using envelope_clean [of "request_json m" k s] request_clean [OF assms(1)] assms(2) by auto
  then have "decode_json_object limit max_host_request_bytes payload = Inr (jsort ?v)"
    using decode_dumps [of ?v limit max_host_request_bytes] p by simp
  then show ?thesis
    by (simp add: decode_signed_host_request_def envelope_parts authentication_parts request_roundtrip [OF assms(1)]
        mk_signed_request_def e del: jsort.simps(2))
qed

lemma response_decoded:
  assumes "response_ok m" "protocol_nesting \<le> limit"
    and "mk_signed_response m k s = Inr env" "encode_signed_host_response env = Inr payload"
  shows "decode_signed_host_response limit payload = Inr (env\<lparr>ss_message := canonical_response m\<rparr>)"
proof -
  have e: "ss_message env = m" "ss_key_id env = k" "ss_signature env = s" "host_identifier_ok k" "signature_ok s"
    using assms(3) by (auto simp: mk_signed_response_def)
  let ?v = "envelope_json (response_json m) k s"
  have p: "payload = dumps ?v" "length payload \<le> max_host_response_bytes"
    using assms(4) e by (auto simp: encode_signed_host_response_def Let_def)
  have "json_clean int64_ok ?v" "json_depth ?v \<le> limit"
    using envelope_clean [of "response_json m" k s] response_clean [OF assms(1)] assms(2) by auto
  then have "decode_json_object limit max_host_response_bytes payload = Inr (jsort ?v)"
    using decode_dumps [of ?v limit max_host_response_bytes] p by simp
  then show ?thesis
    by (simp add: decode_signed_host_response_def envelope_parts authentication_parts response_roundtrip [OF assms(1)]
        mk_signed_response_def e del: jsort.simps(2))
qed

lemma canonical_simps [simp]:
  "hr_issued (canonical_request m) = hr_issued m" "hr_expires (canonical_request m) = hr_expires m"
  "hr_authority (canonical_request m) = hr_authority m" "hr_id (canonical_request m) = hr_id m"
  "ho_name (hr_operation (canonical_request m)) = ho_name (hr_operation m)"
  "ho_key (hr_operation (canonical_request m)) = ho_key (hr_operation m)"
  "ho_arguments (hr_operation (canonical_request m)) = jsort (ho_arguments (hr_operation m))"
  by (simp_all add: canonical_request_def canonical_operation_def)

definition lease_live :: "int \<Rightarrow> host_authority \<Rightarrow> bool" where
  "lease_live now a = (case a of Task_lease_authority l \<Rightarrow> now < la_expires_ms l | _ \<Rightarrow> True)"

lemma verify_request_Inr:
  "verify_request H au now s = Inr m \<longleftrightarrow> m = sr_message s \<and> sr_key_id s = au_key_id au \<and>
     sr_signature s = message_signature H au request_domain (request_json m) \<and>
     hr_issued m \<le> now + max_host_clock_skew_ms \<and> now < hr_expires m \<and> lease_live now (hr_authority m)"
  by (cases "hr_authority (sr_message s)") (auto simp: verify_request_def Let_def lease_live_def)

lemma message_signature_canonical:
  "message_signature H au d (request_json (canonical_request m)) = message_signature H au d (request_json m)"
  "message_signature H au d (response_json (canonical_response r)) = message_signature H au d (response_json r)"
  by (simp_all add: message_signature_def)

end
