(* ===== verification/Host_Journal.thy ===== *)
theory Host_Journal
  imports Host_Messages Services
begin

text \<open>
  \<open>services/host-agent/.../journal.py\<close>: the durable journal in which the host agent fences requests,
  reserves operations and keeps their results.  The four tables of the SQLite file are the lists
  of \<open>journal\<close>; identifiers of jobs, tasks, leases, configurations and requests are kept as UUIDs
  instead of their text, timestamps that no decision reads are left out, and the columns a result
  is read back from hold text, as in the file.  A method is one transaction: an exception before
  its commit leaves the tables as they were.
\<close>

datatype journal_error =
    JOURNAL_UNAVAILABLE | JOURNAL_CORRUPT | REQUEST_ID_CONFLICT | IDEMPOTENCY_CONFLICT
  | OPERATION_NOT_RESERVED | FENCED | AUTHORITY_CONFLICT | FENCING_TOKEN_CONFLICT
  | JOURNAL_LEASE_EXPIRED | JOURNAL_BEYOND_TEXT

subsection \<open>Tables\<close>

record fence_row =
  fe_job :: uuid
  fe_task :: uuid
  fe_lease :: uuid
  fe_worker :: string
  fe_attempt :: int
  fe_token :: int
  fe_expires :: int
  fe_repository :: string
  fe_configuration :: uuid
  fe_digest :: string

record operation_row =
  op_scope :: string
  op_name :: string
  op_key :: string
  op_fingerprint :: string
  op_request :: uuid
  op_state :: string
  op_status :: "string option"
  op_code :: "string option"
  op_result :: "string option"
  op_token :: "int option"

record receipt_row =
  re_request :: uuid
  re_digest :: string

record delivery_row =
  de_request :: uuid
  de_digest :: string
  de_status :: string
  de_code :: string
  de_result :: string
  de_token :: "int option"

record journal =
  fences :: "fence_row list"
  operations :: "operation_row list"
  receipts :: "receipt_row list"
  deliveries :: "delivery_row list"

record journal_result =
  jr_status :: response_status
  jr_code :: string
  jr_result :: json
  jr_token :: "int option"

text \<open>A decision carries a stored result exactly when it is a replay.\<close>

datatype journal_decision = EXECUTE | REPLAY journal_result | AMBIGUOUS

record operation_status =
  os_state :: string
  os_request :: uuid
  os_status :: "response_status option"
  os_code :: "string option"
  os_token :: "int option"

subsection \<open>Keys and digests\<close>

definition scope_key :: "host_request \<Rightarrow> string" where
  "scope_key r = (case hr_authority r of System_authority \<Rightarrow> ''system''
     | Repository_authority repository configuration digest \<Rightarrow>
         ''repository:'' @ repository @ '':'' @ uuid_str configuration @ '':'' @ digest
     | Task_lease_authority l \<Rightarrow> ''job:'' @ uuid_str (la_job l))"

definition request_digest :: "(string \<Rightarrow> string) \<Rightarrow> host_request \<Rightarrow> string" where
  "request_digest H r = ''sha256:'' @ hexdigest H (dumps (request_json r))"

definition encode_result :: "json \<Rightarrow> string" where
  "encode_result v = dumps v"

definition task_scoped :: "host_request \<Rightarrow> bool" where
  "task_scoped r = (case hr_authority r of Task_lease_authority _ \<Rightarrow> True | _ \<Rightarrow> False)"

subsection \<open>Reading stored results\<close>

definition stored_fencing_token :: "int option \<Rightarrow> host_error + int option" where
  "stored_fencing_token t = (case t of None \<Rightarrow> Inr None
     | Some i \<Rightarrow> bindE (require (positive_int_ok i) INVALID_REQUEST) (\<lambda>_. Inr (Some i)))"

definition corrupt :: "host_error + 'a \<Rightarrow> journal_error + 'a" where
  "corrupt x = (case x of Inl _ \<Rightarrow> Inl JOURNAL_CORRUPT | Inr y \<Rightarrow> Inr y)"

definition stored_result ::
  "nat \<Rightarrow> bool \<Rightarrow> string option \<Rightarrow> string option \<Rightarrow> string option \<Rightarrow> int option \<Rightarrow> journal_error + journal_result" where
  "stored_result limit scoped result_json status code token =
     (case result_json of None \<Rightarrow> Inl JOURNAL_CORRUPT
      | Some text \<Rightarrow>
          (case loads default_hooks limit (codes_of text) of
             Inl Malformed \<Rightarrow> Inl JOURNAL_CORRUPT
           | Inl Beyond_text \<Rightarrow> Inl JOURNAL_BEYOND_TEXT
           | Inr raw \<Rightarrow>
               if \<not> is_jobj raw then Inl JOURNAL_CORRUPT
               else bindE (corrupt (json_object raw)) (\<lambda>result.
                 (case status of None \<Rightarrow> Inl JOURNAL_CORRUPT
                  | Some s \<Rightarrow> (case response_status_of s of None \<Rightarrow> Inl JOURNAL_CORRUPT
                    | Some st \<Rightarrow>
                      (case code of None \<Rightarrow> Inl JOURNAL_CORRUPT
                       | Some c \<Rightarrow> if \<not> matches_code c then Inl JOURNAL_CORRUPT
                         else bindE (corrupt (stored_fencing_token token)) (\<lambda>t.
                           if scoped \<noteq> (t \<noteq> None) then Inl JOURNAL_CORRUPT
                           else Inr \<lparr>jr_status = st, jr_code = c, jr_result = result, jr_token = t\<rparr>)))))))"

definition delivered_result :: "nat \<Rightarrow> bool \<Rightarrow> delivery_row \<Rightarrow> journal_error + journal_result" where
  "delivered_result limit scoped d =
     stored_result limit scoped (Some (de_result d)) (Some (de_status d)) (Some (de_code d)) (de_token d)"

definition operation_result :: "nat \<Rightarrow> bool \<Rightarrow> operation_row \<Rightarrow> journal_error + journal_result" where
  "operation_result limit scoped x = stored_result limit scoped (op_result x) (op_status x) (op_code x) (op_token x)"

subsection \<open>The fence\<close>

definition find_fence :: "uuid \<Rightarrow> journal \<Rightarrow> fence_row option" where
  "find_fence i j = find (\<lambda>f. fe_job f = i) (fences j)"

definition fence_of :: "lease_authority \<Rightarrow> fence_row" where
  "fence_of a = \<lparr>fe_job = la_job a, fe_task = la_task a, fe_lease = la_lease a, fe_worker = la_worker a,
     fe_attempt = la_attempt a, fe_token = la_token a, fe_expires = la_expires_ms a,
     fe_repository = la_repository a, fe_configuration = la_configuration a, fe_digest = la_digest a\<rparr>"

definition apply_fence :: "int \<Rightarrow> host_request \<Rightarrow> journal \<Rightarrow> journal_error + journal" where
  "apply_fence now r j = (case hr_authority r of
     Task_lease_authority a \<Rightarrow>
       if la_expires_ms a \<le> now then Inl JOURNAL_LEASE_EXPIRED
       else (case find_fence (la_job a) j of
          None \<Rightarrow> if 0 < la_attempt a \<and> 0 < la_token a then Inr (j\<lparr>fences := fences j @ [fence_of a]\<rparr>)
            else Inl JOURNAL_UNAVAILABLE
        | Some f \<Rightarrow>
            if la_token a < fe_token f then Inl FENCED
            else if fe_task f \<noteq> la_task a \<or> fe_repository f \<noteq> la_repository a \<or>
              fe_configuration f \<noteq> la_configuration a \<or> fe_digest f \<noteq> la_digest a then Inl AUTHORITY_CONFLICT
            else if la_token a = fe_token f then
              (if fe_lease f \<noteq> la_lease a \<or> fe_worker f \<noteq> la_worker a \<or> fe_attempt f \<noteq> la_attempt a
               then Inl FENCING_TOKEN_CONFLICT
               else if fe_expires f \<le> now then Inl JOURNAL_LEASE_EXPIRED
               else if fe_expires f < la_expires_ms a
                 then Inr (j\<lparr>fences := upd_rows (\<lambda>x. fe_job x = la_job a) (\<lambda>x. x\<lparr>fe_expires := la_expires_ms a\<rparr>) (fences j)\<rparr>)
               else Inr j)
            else if 0 < la_attempt a \<and> 0 < la_token a then
              Inr (j\<lparr>fences := upd_rows (\<lambda>x. fe_job x = la_job a)
                (\<lambda>x. x\<lparr>fe_lease := la_lease a, fe_worker := la_worker a, fe_attempt := la_attempt a,
                   fe_token := la_token a, fe_expires := la_expires_ms a\<rparr>) (fences j)\<rparr>)
            else Inl JOURNAL_UNAVAILABLE)
   | _ \<Rightarrow> Inr j)"

definition assert_current_fence :: "int \<Rightarrow> host_request \<Rightarrow> journal \<Rightarrow> journal_error + unit" where
  "assert_current_fence now r j = (case hr_authority r of
     Task_lease_authority a \<Rightarrow>
       (case find_fence (la_job a) j of None \<Rightarrow> Inl FENCED
        | Some f \<Rightarrow>
            if fe_task f \<noteq> la_task a \<or> fe_lease f \<noteq> la_lease a \<or> fe_worker f \<noteq> la_worker a \<or>
               fe_attempt f \<noteq> la_attempt a \<or> fe_token f \<noteq> la_token a then Inl FENCED
            else if fe_expires f \<le> now then Inl JOURNAL_LEASE_EXPIRED else Inr ())
   | _ \<Rightarrow> Inr ())"

definition assert_authorized :: "int \<Rightarrow> host_request \<Rightarrow> journal \<Rightarrow> journal_error + unit" where
  "assert_authorized now r j = assert_current_fence now r j"

subsection \<open>Operations\<close>

definition record_delivery ::
  "(string \<Rightarrow> string) \<Rightarrow> host_request \<Rightarrow> journal_result \<Rightarrow> journal \<Rightarrow> journal_error + journal" where
  "record_delivery H r result j =
     (if list_ex (\<lambda>d. de_request d = hr_id r) (deliveries j) then Inl JOURNAL_UNAVAILABLE
      else Inr (j\<lparr>deliveries := deliveries j @ [\<lparr>de_request = hr_id r, de_digest = request_digest H r,
        de_status = response_status_value (jr_status result), de_code = jr_code result,
        de_result = encode_result (jr_result result), de_token = jr_token result\<rparr>]\<rparr>))"

definition record_receipt :: "(string \<Rightarrow> string) \<Rightarrow> host_request \<Rightarrow> journal \<Rightarrow> journal_error + journal" where
  "record_receipt H r j = (case find (\<lambda>x. re_request x = hr_id r) (receipts j) of
     Some x \<Rightarrow> if re_digest x \<noteq> request_digest H r then Inl REQUEST_ID_CONFLICT else Inr j
   | None \<Rightarrow> Inr (j\<lparr>receipts := receipts j @ [\<lparr>re_request = hr_id r, re_digest = request_digest H r\<rparr>]\<rparr>))"

definition is_operation :: "string \<Rightarrow> string \<Rightarrow> string \<Rightarrow> operation_row \<Rightarrow> bool" where
  "is_operation scope name key x \<longleftrightarrow> op_scope x = scope \<and> op_name x = name \<and> op_key x = key"

definition find_operation :: "host_request \<Rightarrow> journal \<Rightarrow> operation_row option" where
  "find_operation r j =
     find (is_operation (scope_key r) (ho_name (hr_operation r)) (ho_key (hr_operation r))) (operations j)"

definition reserve :: "(string \<Rightarrow> string) \<Rightarrow> host_request \<Rightarrow> journal \<Rightarrow> journal" where
  "reserve H r j = j\<lparr>operations := operations j @ [\<lparr>op_scope = scope_key r, op_name = ho_name (hr_operation r),
     op_key = ho_key (hr_operation r), op_fingerprint = semantic_fingerprint H r, op_request = hr_id r,
     op_state = ''RUNNING'', op_status = None, op_code = None, op_result = None, op_token = None\<rparr>]\<rparr>"

text \<open>What \<open>_begin\<close> decides once the request is fenced and received.  \<open>Inl\<close> rolls the transaction back;
  the answer of a delivered request is read after the commit, so its failure keeps the tables.\<close>

definition decide_operation ::
  "(string \<Rightarrow> string) \<Rightarrow> nat \<Rightarrow> host_request \<Rightarrow> journal \<Rightarrow> journal_error + journal_decision \<times> journal" where
  "decide_operation H limit r j = (case find_operation r j of
     None \<Rightarrow> Inr (EXECUTE, reserve H r j)
   | Some x \<Rightarrow>
       if op_fingerprint x \<noteq> semantic_fingerprint H r then Inl IDEMPOTENCY_CONFLICT
       else if op_state x = ''RUNNING'' then Inr (AMBIGUOUS, j)
       else bindE (operation_result limit (task_scoped r) x) (\<lambda>result.
         bindE (record_delivery H r result j) (\<lambda>j'. Inr (REPLAY result, j'))))"

definition journal_begin ::
  "(string \<Rightarrow> string) \<Rightarrow> nat \<Rightarrow> int \<Rightarrow> host_request \<Rightarrow> journal \<Rightarrow> (journal_error + journal_decision) \<times> journal" where
  "journal_begin H limit now r j =
     (case bindE (apply_fence now r j) (record_receipt H r) of
        Inl x \<Rightarrow> (Inl x, j)
      | Inr j1 \<Rightarrow>
          (case find (\<lambda>d. de_request d = hr_id r) (deliveries j1) of
             Some d \<Rightarrow>
               if de_digest d \<noteq> request_digest H r then (Inl REQUEST_ID_CONFLICT, j)
               else (bindE (delivered_result limit (task_scoped r) d) (\<lambda>result. Inr (REPLAY result)), j1)
           | None \<Rightarrow>
               (case decide_operation H limit r j1 of Inl x \<Rightarrow> (Inl x, j) | Inr (a, j2) \<Rightarrow> (Inr a, j2))))"

definition finish_row :: "journal_result \<Rightarrow> operation_row \<Rightarrow> operation_row" where
  "finish_row result x = x\<lparr>op_state := (if jr_status result = R_OK then ''SUCCEEDED'' else ''FAILED''),
     op_status := Some (response_status_value (jr_status result)), op_code := Some (jr_code result),
     op_result := Some (encode_result (jr_result result)), op_token := jr_token result\<rparr>"

definition running_operation :: "(string \<Rightarrow> string) \<Rightarrow> host_request \<Rightarrow> operation_row \<Rightarrow> bool" where
  "running_operation H r x \<longleftrightarrow>
     is_operation (scope_key r) (ho_name (hr_operation r)) (ho_key (hr_operation r)) x \<and>
     op_fingerprint x = semantic_fingerprint H r \<and> op_state x = ''RUNNING''"

definition journal_finish ::
  "(string \<Rightarrow> string) \<Rightarrow> int \<Rightarrow> host_request \<Rightarrow> journal_result \<Rightarrow> journal \<Rightarrow> journal_error + journal" where
  "journal_finish H now r result j =
     bindE (assert_current_fence now r j) (\<lambda>_.
     if length (filter (running_operation H r) (operations j)) \<noteq> 1 then Inl OPERATION_NOT_RESERVED
     else record_delivery H r result
       (j\<lparr>operations := upd_rows (running_operation H r) (finish_row result) (operations j)\<rparr>))"

definition journal_status ::
  "string \<Rightarrow> string \<Rightarrow> string \<Rightarrow> journal \<Rightarrow> journal_error + operation_status option" where
  "journal_status scope name key j = (case find (is_operation scope name key) (operations j) of
     None \<Rightarrow> Inr None
   | Some x \<Rightarrow>
       if op_state x \<notin> {''RUNNING'', ''SUCCEEDED'', ''FAILED''} then Inl JOURNAL_CORRUPT
       else if \<not> uuid_version4 (op_request x) then Inl JOURNAL_CORRUPT
       else bindE (case op_status x of None \<Rightarrow> Inr None
           | Some s \<Rightarrow> (case response_status_of s of None \<Rightarrow> Inl JOURNAL_CORRUPT | Some t \<Rightarrow> Inr (Some t))) (\<lambda>status.
         bindE (case op_code x of None \<Rightarrow> Inr None
           | Some c \<Rightarrow> if matches_code c then Inr (Some c) else Inl JOURNAL_CORRUPT) (\<lambda>code.
         bindE (corrupt (stored_fencing_token (op_token x))) (\<lambda>token.
           if op_state x = ''RUNNING'' then
             (if status \<noteq> None \<or> code \<noteq> None \<or> token \<noteq> None then Inl JOURNAL_CORRUPT
              else Inr (Some \<lparr>os_state = op_state x, os_request = op_request x, os_status = status, os_code = code, os_token = token\<rparr>))
           else if status = None \<or> code = None then Inl JOURNAL_CORRUPT
           else if starts_with ''job:'' scope \<noteq> (token \<noteq> None) then Inl JOURNAL_CORRUPT
           else Inr (Some \<lparr>os_state = op_state x, os_request = op_request x, os_status = status, os_code = code, os_token = token\<rparr>)))))"

subsection \<open>Runs\<close>

datatype journal_command =
    Begin_request host_request int
  | Finish_request host_request journal_result int
  | Check_request host_request int

datatype journal_answer =
    A_decision journal_decision
  | A_done
  | A_refused journal_error

text \<open>A run is a sequence of transactions of the journal, by any number of dispatchers in any order.
  An error is an answer, because \<open>_begin\<close> can fail after its commit.\<close>

fun exec_journal ::
  "(string \<Rightarrow> string) \<Rightarrow> nat \<Rightarrow> journal_command \<Rightarrow> journal \<Rightarrow> journal_error + journal_answer \<times> journal" where
  "exec_journal H limit (Begin_request r now) j = (case journal_begin H limit now r j of
     (Inl x, j') \<Rightarrow> Inr (A_refused x, j') | (Inr a, j') \<Rightarrow> Inr (A_decision a, j'))"
| "exec_journal H limit (Finish_request r result now) j = (case journal_finish H now r result j of
     Inl x \<Rightarrow> Inr (A_refused x, j) | Inr j' \<Rightarrow> Inr (A_done, j'))"
| "exec_journal H limit (Check_request r now) j = (case assert_authorized now r j of
     Inl x \<Rightarrow> Inr (A_refused x, j) | Inr _ \<Rightarrow> Inr (A_done, j))"

definition empty_journal :: journal where
  "empty_journal = \<lparr>fences = [], operations = [], receipts = [], deliveries = []\<rparr>"

text \<open>The commands of a run with their answers.\<close>

fun journal_trace ::
  "(string \<Rightarrow> string) \<Rightarrow> nat \<Rightarrow> journal_command list \<Rightarrow> journal \<Rightarrow> (journal_command \<times> journal_answer) list" where
  "journal_trace H limit [] j = []"
| "journal_trace H limit (c # cs) j = (case exec_journal H limit c j of
     Inl _ \<Rightarrow> journal_trace H limit cs j
   | Inr (a, j') \<Rightarrow> (c, a) # journal_trace H limit cs j')"

end
