(* ===== verification/Host_Protocol_Properties.thy ===== *)
theory Host_Protocol_Properties
  imports Host_Messages
begin

text \<open>
  What the host protocol promises: a signed message that was encoded is decoded to the same
  message and accepted, only well-formed messages come out of the decoder, a signature binds its
  message, and the semantic fingerprint of a request does not depend on the lease it runs under.
\<close>

text \<open>C28. Requests survive the wire.  A request that the constructors accept, signed with the shared
  key and encoded within the size limit, is decoded on the host, when the interpreter can nest
  20 containers, to the same envelope up to the order of dictionary keys in the arguments, and the
  host accepts it as long as it is neither from the future nor expired and its lease is live.\<close>

theorem request_delivered:
  assumes "mk_authenticator secret kid = Inr au" "digest_length H" "request_ok m" "protocol_nesting \<le> limit"
    and "sign_request H au m = Inr env" "encode_signed_host_request env = Inr payload"
    and "hr_issued m \<le> now + max_host_clock_skew_ms" "now < hr_expires m" "lease_live now (hr_authority m)"
  shows "\<exists>env'. decode_signed_host_request limit payload = Inr env' \<and>
    verify_request H au now env' = Inr (canonical_request m) \<and>
    py_eq (ho_arguments (hr_operation m)) (ho_arguments (hr_operation (canonical_request m)))"
proof -
  have e: "env = \<lparr>sr_message = m, sr_key_id = au_key_id au,
      sr_signature = message_signature H au request_domain (request_json m)\<rparr>"
    using assms(5) sign_request_Inr [OF assms(1,2)] by simp
  have "decode_signed_host_request limit payload = Inr (env\<lparr>sr_message := canonical_request m\<rparr>)"
    using request_decoded [OF assms(3,4) _ assms(6)] assms(5) by (simp add: sign_request_def)
  moreover have "verify_request H au now (env\<lparr>sr_message := canonical_request m\<rparr>) = Inr (canonical_request m)"
    unfolding verify_request_Inr using assms(7-9) by (simp add: e message_signature_canonical)
  ultimately show ?thesis by (simp add: py_eq_jsort)
qed

text \<open>Responses survive the wire.  Likewise for the answer of the host: what it signs and encodes
  is decoded and accepted by the control plane, with the same status, code, token and result.\<close>

theorem response_delivered:
  assumes "mk_authenticator secret kid = Inr au" "digest_length H" "response_ok m" "protocol_nesting \<le> limit"
    and "sign_response H au m = Inr env" "encode_signed_host_response env = Inr payload"
  shows "\<exists>env'. decode_signed_host_response limit payload = Inr env' \<and>
    verify_response H au env' = Inr (m\<lparr>hs_result := jsort (hs_result m)\<rparr>) \<and> py_eq (hs_result m) (jsort (hs_result m))"
proof -
  have e: "env = \<lparr>ss_message = m, ss_key_id = au_key_id au,
      ss_signature = message_signature H au response_domain (response_json m)\<rparr>"
    using assms(5) sign_response_Inr [OF assms(1,2)] by simp
  have "decode_signed_host_response limit payload = Inr (env\<lparr>ss_message := canonical_response m\<rparr>)"
    using response_decoded [OF assms(3,4) _ assms(6)] assms(5) by (simp add: sign_response_def)
  moreover have "verify_response H au (env\<lparr>ss_message := canonical_response m\<rparr>) = Inr (canonical_response m)"
    by (simp add: verify_response_def e message_signature_canonical)
  ultimately show ?thesis by (simp add: py_eq_jsort canonical_response_def)
qed

subsection \<open>What the decoder returns\<close>

lemma scan_scalar_clean: "scan_scalar protocol_hooks cs = Inr (v, r) \<Longrightarrow> json_clean int64_ok v"
  by (auto simp: scan_scalar_def scan_literal_def hook_result_def protocol_hooks_def scan_number_def
      bounded_json_integer_def split: list.split_asm if_split_asm option.split_asm prod.split_asm)

lemma scan_elements_step:
  assumes "scan_elements p (Suc n) cs = Inr (vs, r)"
  shows "\<exists>v q. p cs = Inr (v, q) \<and> (vs = [v] \<or> (\<exists>ws q'. scan_elements p n q' = Inr (ws, r) \<and> vs = v # ws))"
proof -
  obtain v q where p: "p cs = Inr (v, q)" using assms by auto
  show ?thesis using assms p by (cases "skip_ws q") (auto split: if_split_asm)
qed

lemma scan_members_step:
  assumes "scan_members p (Suc n) cs = Inr (kvs, r)"
  shows "\<exists>k v q q'. p q = Inr (v, q') \<and> (kvs = [(k, v)] \<or> (\<exists>ws q''. scan_members p n q'' = Inr (ws, r) \<and> kvs = (k, v) # ws))"
proof -
  obtain c cs' where cs: "cs = c # cs'" "c = 34" using assms by (cases cs) (auto split: if_split_asm)
  obtain k q where k: "scan_text cs' = Inr (k, q)" using assms cs by auto
  obtain q1 where q: "skip_ws q = 58 # q1" using assms cs k by (cases "skip_ws q") (auto split: if_split_asm)
  obtain v q2 where v: "p (skip_ws q1) = Inr (v, q2)" using assms cs k q by auto
  show ?thesis using assms cs k q v by (cases "skip_ws q2") (auto split: if_split_asm)
qed

lemma scan_elements_clean:
  assumes "\<And>cs v r. p cs = Inr (v, r) \<Longrightarrow> json_clean P v"
  shows "scan_elements p n cs = Inr (vs, r) \<Longrightarrow> list_all (json_clean P) vs"
proof (induction n arbitrary: cs vs r)
  case (Suc n)
  show ?case using scan_elements_step [OF Suc.prems] assms Suc.IH by fastforce
qed simp

lemma scan_members_clean:
  assumes "\<And>cs v r. p cs = Inr (v, r) \<Longrightarrow> json_clean P v"
  shows "scan_members p n cs = Inr (kvs, r) \<Longrightarrow> list_all (\<lambda>(k, v). json_clean P v) kvs"
proof (induction n arbitrary: cs kvs r)
  case (Suc n)
  show ?case using scan_members_step [OF Suc.prems] assms Suc.IH by fastforce
qed simp

lemma scan_value_clean: "scan_value protocol_hooks d cs = Inr (v, r) \<Longrightarrow> json_clean int64_ok v"
proof (induction d arbitrary: cs v r)
  case 0
  then show ?case by (auto split: if_split_asm dest: scan_scalar_clean)
next
  case (Suc d)
  let ?p = "scan_value protocol_hooks d"
  have a: "json_clean int64_ok v" if "scan_array ?p cs = Inr (v, r)" for cs v r
  proof (cases "skip_ws cs")
    case (Cons c q)
    then show ?thesis using that scan_elements_clean [of ?p int64_ok "length cs" "c # q"] Suc.IH
      by (auto simp: scan_array_def simp del: scan_elements.simps split: if_split_asm)
  qed (use that in \<open>simp add: scan_array_def\<close>)
  have u: "json_clean int64_ok v" if "hook_result (on_object protocol_hooks kvs) q = Inr (v, r)"
      "list_all (\<lambda>(k, v). json_clean int64_ok v) kvs" for kvs q v r
    using that by (auto simp: protocol_hooks_def unique_object_def hook_result_def split: if_split_asm)
  have o: "json_clean int64_ok v" if "scan_object protocol_hooks ?p cs = Inr (v, r)" for cs v r
  proof (cases "skip_ws cs")
    case (Cons c q)
    then show ?thesis using that scan_members_clean [of ?p int64_ok "length cs" "c # q"] Suc.IH u
      by (cases "c = 125") (auto simp: scan_object_def simp del: scan_members.simps)
  qed (use that in \<open>simp add: scan_object_def\<close>)
  show ?case using Suc.prems a o by (auto split: if_split_asm dest: scan_scalar_clean)
qed

lemma loads_clean: "loads protocol_hooks limit cs = Inr v \<Longrightarrow> json_clean int64_ok v"
  by (auto simp: loads_def split: if_split_asm dest: scan_value_clean)

lemma json_clean_mono: "json_clean P v \<Longrightarrow> json_clean (\<lambda>_. True) v"
  by (induction v) (auto simp: list_all_iff)

lemma jfield_clean: "json_clean P v \<Longrightarrow> json_clean P (jfield k v)"
  by (cases v) (auto simp: jfield_def jget_def list_all_iff split: option.split dest!: map_of_SomeD)

lemma jobject_Inr [simp]: "jobject v = Inr w \<longleftrightarrow> w = v \<and> is_jobj v"
  by (auto simp: jobject_def)

lemma exact_fields_Inr: "exact_fields ks v = Inr w \<longleftrightarrow> w = v \<and> jkeys v = set ks"
  by (auto simp: exact_fields_def)

lemma mk_lease_authority_Inr: "mk_lease_authority l = Inr a \<Longrightarrow> authority_ok a"
proof -
  assume m: "mk_lease_authority l = Inr a"
  then have "a = Task_lease_authority l" by (simp add: mk_lease_authority_def)
  then show ?thesis using m by (simp add: authority_ok_def)
qed

lemma mk_repository_authority_Inr: "mk_repository_authority r c d = Inr a \<Longrightarrow> authority_ok a"
proof -
  assume m: "mk_repository_authority r c d = Inr a"
  then have "a = Repository_authority r c d" by (simp add: mk_repository_authority_def)
  then show ?thesis using m by (simp add: authority_ok_def)
qed

lemma authority_from_dict_ok:
  assumes "authority_from_dict v = Inr a"
  shows "authority_ok a"
proof -
  obtain kind where k: "jstring (jfield ''kind'' v) = Inr kind" using assms by (auto simp: authority_from_dict_def)
  consider "kind = ''SYSTEM''" | "kind = ''REPOSITORY''" | "kind = ''TASK_LEASE''"
    using assms k by (simp add: authority_from_dict_def split: if_split_asm)
  then show ?thesis
  proof cases
    case 1
    then show ?thesis using assms k by (auto simp: authority_from_dict_def authority_ok_def)
  next
    case 2
    then obtain r c d where "mk_repository_authority r c d = Inr a"
      using assms k by (simp add: authority_from_dict_def) blast
    then show ?thesis by (rule mk_repository_authority_Inr)
  next
    case 3
    then obtain l where "mk_lease_authority l = Inr a"
      using assms k by (simp add: authority_from_dict_def) blast
    then show ?thesis by (rule mk_lease_authority_Inr)
  qed
qed

lemma operation_from_dict_ok:
  assumes "operation_from_dict v = Inr q" "json_clean P v"
  shows "operation_ok q"
proof -
  have "json_clean (\<lambda>_. True) (jfield ''arguments'' v)" using json_clean_mono jfield_clean assms(2) by blast
  moreover obtain name key schema where "mk_operation name key (jfield ''arguments'' v) schema = Inr q"
    using assms(1) by (auto simp: operation_from_dict_def exact_fields_Inr json_object_same)
  moreover from this have "q = \<lparr>ho_name = name, ho_key = key, ho_arguments = jfield ''arguments'' v, ho_schema = schema\<rparr>"
    by (auto simp: mk_operation_def json_object_same)
  ultimately show ?thesis by (simp add: operation_ok_def)
qed

lemma request_from_dict_ok:
  assumes "request_from_dict v = Inr r" "json_clean P v"
  shows "request_ok r"
proof -
  obtain a q where p: "authority_from_dict (jfield ''authority'' v) = Inr a"
    "operation_from_dict (jfield ''operation'' v) = Inr q" "mk_host_request r = Inr r" "hr_authority r = a" "hr_operation r = q"
    using assms(1) by (auto simp: request_from_dict_def exact_fields_Inr mk_host_request_def)
  then show ?thesis using authority_from_dict_ok [OF p(1)] operation_from_dict_ok [OF p(2) jfield_clean [OF assms(2)]]
    by (simp add: request_ok_def)
qed

lemma decode_json_object_clean:
  "decode_json_object limit maximum payload = Inr v \<Longrightarrow> json_clean int64_ok v \<and> length payload \<le> maximum"
  by (auto simp: decode_json_object_def split: if_split_asm option.split_asm sum.split_asm scan_error.split_asm
      dest: loads_clean)


subsection \<open>Signatures bind the message\<close>

text \<open>Two given texts that the digest confuses, and the texts an HMAC digests.\<close>

definition collides :: "(string \<Rightarrow> string) \<Rightarrow> string \<Rightarrow> string \<Rightarrow> bool" where
  "collides H x y \<longleftrightarrow> x \<noteq> y \<and> H x = H y"

definition hmac_block :: "(string \<Rightarrow> string) \<Rightarrow> string \<Rightarrow> string" where
  "hmac_block H key = (let k = (if 64 < length key then H key else key) in k @ replicate (64 - length k) (CHR 0x00))"

definition hmac_inner :: "(string \<Rightarrow> string) \<Rightarrow> string \<Rightarrow> string \<Rightarrow> string" where
  "hmac_inner H key msg = xor_bytes 54 (hmac_block H key) @ msg"

definition hmac_outer :: "(string \<Rightarrow> string) \<Rightarrow> string \<Rightarrow> string \<Rightarrow> string" where
  "hmac_outer H key msg = xor_bytes 92 (hmac_block H key) @ H (hmac_inner H key msg)"

definition hmac_collides :: "(string \<Rightarrow> string) \<Rightarrow> string \<Rightarrow> string \<Rightarrow> string \<Rightarrow> bool" where
  "hmac_collides H key x y \<longleftrightarrow> collides H (hmac_inner H key x) (hmac_inner H key y) \<or>
     collides H (hmac_outer H key x) (hmac_outer H key y)"

lemma hmac_layers: "hmac H key msg = H (hmac_outer H key msg)"
  by (simp add: hmac_def hmac_outer_def hmac_inner_def hmac_block_def Let_def)

lemma base64_char_inj: "m < 64 \<Longrightarrow> n < 64 \<Longrightarrow> base64_char m = base64_char n \<Longrightarrow> m = n"
proof -
  assume m: "m < 64" and n: "n < 64" and e: "base64_char m = base64_char n"
  have c: "char_code (base64_char k) = (if k < 26 then 65 + k else if k < 52 then 71 + k else if k < 62 then k - 4
      else if k = 62 then 45 else 95)" if "k < 64" for k
    using that by (auto simp: base64_char_def char_code_def)
  have "char_code (base64_char m) = char_code (base64_char n)" using e by simp
  then show ?thesis using m n by (simp add: c split: if_split_asm)
qed

lemma nibbles_inj: "x * 16 + y = x' * 16 + y' \<Longrightarrow> y < 16 \<Longrightarrow> y' < 16 \<Longrightarrow> x = x' \<and> y = y'" for x y :: nat
proof -
  assume "x * 16 + y = x' * 16 + y'" "y < 16" "y' < 16"
  then have "(x * 16 + y) div 16 = (x' * 16 + y') div 16" "(x * 16 + y) mod 16 = (x' * 16 + y') mod 16" by simp_all
  then show ?thesis using \<open>y < 16\<close> \<open>y' < 16\<close> by simp
qed

lemma char_code_inj: "char_code a = char_code b \<Longrightarrow> a = b"
  using char_of_code [of a] char_of_code [of b] by metis

lemma sextets_inj:
  assumes "base64_char (char_code a div 4) = base64_char (char_code a' div 4)"
    "base64_char (char_code a mod 4 * 16 + char_code b div 16) = base64_char (char_code a' mod 4 * 16 + char_code b' div 16)"
  shows "a = a' \<and> char_code b div 16 = char_code b' div 16"
proof -
  have "char_code b < 256" "char_code b' < 256" by (rule char_code_bound)+
  then have "char_code b div 16 < 16" "char_code b' div 16 < 16" by (simp_all add: less_mult_imp_div_less)
  moreover have e: "char_code a mod 4 * 16 + char_code b div 16 = char_code a' mod 4 * 16 + char_code b' div 16"
    by (rule base64_char_inj [OF base64_parts(2) base64_parts(2) assms(2)])
  moreover have d: "char_code a div 4 = char_code a' div 4"
    by (rule base64_char_inj [OF base64_parts(1) base64_parts(1) assms(1)])
  ultimately have "char_code a mod 4 = char_code a' mod 4 \<and> char_code b div 16 = char_code b' div 16"
    by (intro nibbles_inj)
  moreover from this have "char_code a div 4 * 4 + char_code a mod 4 = char_code a' div 4 * 4 + char_code a' mod 4"
    using d by presburger
  then have "char_code a = char_code a'" by (simp only: div_mult_mod_eq)
  ultimately show ?thesis using char_code_inj by blast
qed

lemma sextets_tail:
  assumes "base64_char (char_code b mod 16 * 4 + char_code c div 64) = base64_char (char_code b' mod 16 * 4 + char_code c' div 64)"
    "base64_char (char_code c mod 64) = base64_char (char_code c' mod 64)" "char_code b div 16 = char_code b' div 16"
  shows "b = b' \<and> c = c'"
proof -
  have "char_code c < 256" "char_code c' < 256" by (rule char_code_bound)+
  then have lt: "char_code c div 64 < 4" "char_code c' div 64 < 4" by (simp_all add: less_mult_imp_div_less)
  have e: "char_code b mod 16 * 4 + char_code c div 64 = char_code b' mod 16 * 4 + char_code c' div 64"
    by (rule base64_char_inj [OF base64_parts(5) base64_parts(5) assms(1)])
  have m: "char_code c mod 64 = char_code c' mod 64"
    by (rule base64_char_inj [OF base64_parts(6) base64_parts(6) assms(2)])
  have "(char_code b mod 16 * 4 + char_code c div 64) div 4 = (char_code b' mod 16 * 4 + char_code c' div 64) div 4"
    "(char_code b mod 16 * 4 + char_code c div 64) mod 4 = (char_code b' mod 16 * 4 + char_code c' div 64) mod 4"
    by (simp_all only: e)
  then have "char_code b mod 16 = char_code b' mod 16" "char_code c div 64 = char_code c' div 64"
    using lt by simp_all
  then have "char_code b div 16 * 16 + char_code b mod 16 = char_code b' div 16 * 16 + char_code b' mod 16"
    "char_code c div 64 * 64 + char_code c mod 64 = char_code c' div 64 * 64 + char_code c' mod 64"
    using assms(3) m by simp_all
  then show ?thesis by (simp only: div_mult_mod_eq) (blast intro: char_code_inj)
qed

lemma base64url_inj: "length s = length t \<Longrightarrow> base64url s = base64url t \<Longrightarrow> s = t"
proof (induction s arbitrary: t rule: base64url.induct)
  case 1
  then show ?case by simp
next
  case (2 a)
  then obtain a' where t: "t = [a']" by (cases t) auto
  have z: "char_code (CHR 0x00) = 0" by (simp add: char_code_def)
  show ?case using 2 sextets_inj [of a a' "CHR 0x00" "CHR 0x00"] by (simp add: t z)
next
  case (3 a b)
  then obtain a' b' where t: "t = [a', b']" by (cases t; cases "tl t") auto
  have z: "char_code (CHR 0x00) = 0" by (simp add: char_code_def)
  show ?case using 3 sextets_inj [of a a' b b'] sextets_tail [of b "CHR 0x00" b' "CHR 0x00"] by (simp add: t z)
next
  case (4 a b c s)
  then obtain a' b' c' s' where t: "t = a' # b' # c' # s'" "length s = length s'"
    by (cases t; cases "tl t"; cases "tl (tl t)") auto
  show ?case using 4 sextets_inj [of a a' b b'] sextets_tail [of b c b' c'] by (simp add: t)
qed

lemma hmac_inj:
  assumes "digest_length H" "hmac H k x = hmac H k y"
  shows "x = y \<or> hmac_collides H k x y"
proof -
  have "H (hmac_inner H k x) = H (hmac_inner H k y)" if "hmac_outer H k x = hmac_outer H k y"
    using that by (simp add: hmac_outer_def)
  moreover have "x = y" if "hmac_inner H k x = hmac_inner H k y" using that by (simp add: hmac_inner_def)
  ultimately show ?thesis using assms(2) by (auto simp: hmac_collides_def collides_def hmac_layers)
qed

definition request_text :: "host_request \<Rightarrow> string" where
  "request_text r = request_domain @ dumps (request_json r)"

definition response_text :: "host_response \<Rightarrow> string" where
  "response_text r = response_domain @ dumps (response_json r)"

lemma message_signature_inj:
  assumes "digest_length H" "message_signature H au d v = message_signature H au d' w"
  shows "d @ dumps v = d' @ dumps w \<or> hmac_collides H (au_key au) (d @ dumps v) (d' @ dumps w)"
proof -
  have "length (hmac H k x) = 32" for k x using assms(1) by (simp add: hmac_def digest_length_def Let_def)
  then have "hmac H (au_key au) (d @ dumps v) = hmac H (au_key au) (d' @ dumps w)"
    using assms(2) base64url_inj by (simp add: message_signature_def)
  then show ?thesis by (rule hmac_inj [OF assms(1)])
qed

lemma dumps_inj:
  assumes "json_clean int64_ok v" "json_clean int64_ok w" "dumps v = dumps w"
  shows "jsort v = jsort w"
proof -
  have "loads protocol_hooks (max (json_depth v) (json_depth w)) (codes_of (dumps v)) = Inr (jsort v)"
    "loads protocol_hooks (max (json_depth v) (json_depth w)) (codes_of (dumps w)) = Inr (jsort w)"
    by (rule loads_dumps [OF protocol_hooks_read]; use assms in simp)+
  then show ?thesis using assms(3) by simp
qed

lemma request_json_inj:
  assumes "request_ok r" "request_ok q" "dumps (request_json r) = dumps (request_json q)"
  shows "canonical_request r = canonical_request q"
proof -
  have "jsort (request_json r) = jsort (request_json q)"
    by (rule dumps_inj) (use request_clean assms in auto)
  then have "request_from_dict (jsort (request_json r)) = request_from_dict (jsort (request_json q))" by simp
  then show ?thesis by (simp add: request_roundtrip [OF assms(1)] request_roundtrip [OF assms(2)])
qed

text \<open>C31. A signature binds its message.  If the host accepts two well-formed envelopes that carry the
  same signature, then they are the same request up to key order, or SHA-256 confuses the two
  texts that their HMACs digest.  A signature accepted on a response is accepted on no request
  without such a confusion of these two texts: the directions use different domains.\<close>

theorem signature_binding:
  assumes "digest_length H" "request_ok (sr_message e1)" "request_ok (sr_message e2)"
    and "verify_request H au now1 e1 = Inr m1" "verify_request H au now2 e2 = Inr m2" "verify_response H au s = Inr r"
  shows "(sr_signature e1 = sr_signature e2 \<longrightarrow> canonical_request m1 = canonical_request m2 \<or>
      hmac_collides H (au_key au) (request_text m1) (request_text m2)) \<and>
    (sr_signature e1 = ss_signature s \<longrightarrow> hmac_collides H (au_key au) (request_text m1) (response_text r))"
proof -
  have m: "m1 = sr_message e1" "m2 = sr_message e2" using assms(4,5) by (simp_all add: verify_request_Inr)
  have s: "sr_signature e1 = message_signature H au request_domain (request_json m1)"
    "sr_signature e2 = message_signature H au request_domain (request_json m2)"
    "ss_signature s = message_signature H au response_domain (response_json r)"
    using assms(4,5,6) by (simp_all add: verify_request_Inr verify_response_def split: if_split_asm)
  have "canonical_request m1 = canonical_request m2 \<or> hmac_collides H (au_key au) (request_text m1) (request_text m2)"
    if "sr_signature e1 = sr_signature e2"
    using message_signature_inj [OF assms(1), of au request_domain "request_json m1" request_domain "request_json m2"]
      request_json_inj [of m1 m2] assms(2,3) that s m by (auto simp: request_text_def)
  moreover have "request_domain @ x \<noteq> response_domain @ y" for x y
    by (simp add: request_domain_def response_domain_def)
  then have "hmac_collides H (au_key au) (request_text m1) (response_text r)" if "sr_signature e1 = ss_signature s"
    using message_signature_inj [OF assms(1), of au request_domain "request_json m1" response_domain "response_json r"]
      that s by (auto simp: request_text_def response_text_def)
  ultimately show ?thesis by blast
qed

subsection \<open>Semantic fingerprints\<close>

text \<open>What a fingerprint keeps of an authority: everything but the lease.\<close>

definition without_lease :: "host_authority \<Rightarrow> host_authority" where
  "without_lease a = (case a of Task_lease_authority l \<Rightarrow> Task_lease_authority
     (l\<lparr>la_lease := 0, la_worker := [], la_attempt := 0, la_token := 0, la_expires_ms := 0\<rparr>) | _ \<Rightarrow> a)"

definition same_effect :: "host_request \<Rightarrow> host_request \<Rightarrow> bool" where
  "same_effect r q \<longleftrightarrow> without_lease (hr_authority r) = without_lease (hr_authority q) \<and>
     canonical_operation (hr_operation r) = canonical_operation (hr_operation q)"

definition semantic_json :: "host_request \<Rightarrow> json" where
  "semantic_json r = JObj [(''authority'', semantic_authority (hr_authority r)), (''operation'', operation_json (hr_operation r))]"

lemma semantic_fingerprint_text: "semantic_fingerprint H r = ''sha256:'' @ hexdigest H (dumps (semantic_json r))"
  by (simp add: semantic_fingerprint_def semantic_json_def)

lemma semantic_authority_lease:
  "semantic_authority (Task_lease_authority l) = JObj [(''kind'', JStr ''TASK_LEASE''), (''task_id'', JStr (uuid_str (la_task l))),
     (''job_id'', JStr (uuid_str (la_job l))), (''repository_key'', JStr (la_repository l)),
     (''configuration_id'', JStr (uuid_str (la_configuration l))), (''configuration_digest'', JStr (la_digest l))]"
  by (simp add: semantic_authority_def authority_fields_def authority_kind_def lease_keys_def)

lemma semantic_authority_other:
  "semantic_authority System_authority = JObj [(''kind'', JStr ''SYSTEM'')]"
  "semantic_authority (Repository_authority r c d) = JObj [(''kind'', JStr ''REPOSITORY''), (''repository_key'', JStr r),
     (''configuration_id'', JStr (uuid_str c)), (''configuration_digest'', JStr d)]"
  by (simp_all add: semantic_authority_def authority_fields_def authority_kind_def)

lemmas semantic_authorities = semantic_authority_lease semantic_authority_other

lemma semantic_authority_without: "semantic_authority (without_lease a) = semantic_authority a"
  by (cases a) (simp_all add: without_lease_def semantic_authority_lease)

lemma semantic_authority_clean: "json_clean int64_ok (semantic_authority a)"
  by (cases a) (simp_all add: semantic_authorities)

lemma jsort_items:
  assumes "jsort (JObj kvs) = jsort (JObj lws)" "distinct (map fst kvs)" "distinct (map fst lws)"
  shows "map_option jsort (map_of kvs k) = map_option jsort (map_of lws k)"
proof -
  have d: "distinct (map fst (map (\<lambda>(k, v). (k, jsort v)) xs))" if "distinct (map fst xs)" for xs
    using that by (simp add: comp_def case_prod_beta)
  have "map_of (map (\<lambda>(k, v). (k, jsort v)) kvs) k = map_of (map (\<lambda>(k, v). (k, jsort v)) lws) k"
    using assms(1) map_of_sort [OF d [OF assms(2)], of k] map_of_sort [OF d [OF assms(3)], of k] by simp
  then show ?thesis by (simp add: map_of_values)
qed

lemma semantic_authority_inj:
  assumes "jsort (semantic_authority a) = jsort (semantic_authority b)"
  shows "without_lease a = without_lease b"
proof -
  define f where "f k = (\<lambda>c. map_option jsort (jget k (semantic_authority c)))" for k
  have shape: "\<exists>kvs. semantic_authority c = JObj kvs \<and> distinct (map fst kvs)" for c
    by (cases c) (simp_all add: semantic_authorities)
  obtain kvs lws where k: "semantic_authority a = JObj kvs" "distinct (map fst kvs)"
    "semantic_authority b = JObj lws" "distinct (map fst lws)" using shape [of a] shape [of b] by blast
  have f: "f k a = f k b" for k
    using jsort_items [OF assms [unfolded k(1,3)] k(2,4), of k] by (simp add: f_def jget_def k(1,3))
  note keys = f [of "''kind''"] f [of "''task_id''"] f [of "''job_id''"] f [of "''repository_key''"]
    f [of "''configuration_id''"] f [of "''configuration_digest''"]
  show ?thesis using keys
    by (cases a; cases b) (auto simp: f_def jget_def semantic_authorities without_lease_def dest: uuid_str_inj
        intro!: lease_authority.equality)
qed

lemma hex2_inj: "hex_fixed 2 m = hex_fixed 2 n \<Longrightarrow> m < 256 \<Longrightarrow> n < 256 \<Longrightarrow> m = n"
proof -
  assume "hex_fixed 2 m = hex_fixed 2 n" and b: "m < 256" "n < 256"
  then have "read_hex (hex_fixed 2 m) = read_hex (hex_fixed 2 n)" by simp
  then have "m mod 16 ^ 2 = n mod 16 ^ 2" by (simp only: read_hex_fixed)
  then show "m = n" using b by simp
qed

lemma hexdigest_inj:
  assumes "digest_length H" "hexdigest H x = hexdigest H y"
  shows "x = y \<or> collides H x y"
proof -
  have "s = t" if "length s = length t" "concat (map (\<lambda>c. hex_fixed 2 (char_code c)) s) = concat (map (\<lambda>c. hex_fixed 2 (char_code c)) t)"
    for s t using that
  proof (induction s t rule: list_induct2)
    case (Cons a s b t)
    then have "hex_fixed 2 (char_code a) = hex_fixed 2 (char_code b)"
      "concat (map (\<lambda>c. hex_fixed 2 (char_code c)) s) = concat (map (\<lambda>c. hex_fixed 2 (char_code c)) t)"
      by (simp_all add: append_eq_append_conv)
    then show ?case using Cons.IH hex2_inj char_code_bound char_code_inj by blast
  qed simp
  then have "H x = H y" using assms by (simp add: hexdigest_def digest_length_def)
  then show ?thesis by (auto simp: collides_def)
qed

lemma same_effect_text: "same_effect r q \<Longrightarrow> dumps (semantic_json r) = dumps (semantic_json q)"
proof -
  assume e: "same_effect r q"
  have "semantic_authority (hr_authority r) = semantic_authority (hr_authority q)"
    using e semantic_authority_without by (metis same_effect_def)
  moreover have "dumps (operation_json (hr_operation r)) = dumps (operation_json (hr_operation q))"
    using e dumps_canonical(1) by (metis same_effect_def)
  ultimately show ?thesis unfolding semantic_json_def by (intro dumps_items) simp
qed

lemma same_effect_fingerprint: "same_effect r q \<Longrightarrow> semantic_fingerprint H r = semantic_fingerprint H q"
  by (simp add: semantic_fingerprint_text same_effect_text)

lemma semantic_text_inj:
  assumes "request_ok r" "request_ok q" "dumps (semantic_json r) = dumps (semantic_json q)"
  shows "same_effect r q"
proof -
  have clean: "json_clean int64_ok (semantic_json p)" if "request_ok p" for p
    using that operation_clean semantic_authority_clean by (simp add: semantic_json_def request_ok_def)
  have "jsort (semantic_json r) = jsort (semantic_json q)" using dumps_inj clean assms by blast
  note i = jsort_items [OF this [unfolded semantic_json_def]]
  have a: "jsort (semantic_authority (hr_authority r)) = jsort (semantic_authority (hr_authority q))"
    and o: "jsort (operation_json (hr_operation r)) = jsort (operation_json (hr_operation q))"
    using i [of "''authority''"] i [of "''operation''"] by (simp_all del: jsort.simps(2))
  have ok: "operation_ok (hr_operation r)" "operation_ok (hr_operation q)" using assms by (simp_all add: request_ok_def)
  have "canonical_operation (hr_operation r) = canonical_operation (hr_operation q)"
    using operation_roundtrip [OF ok(1)] operation_roundtrip [OF ok(2)] unfolding o by simp
  then show ?thesis using semantic_authority_inj [OF a] by (simp add: same_effect_def)
qed

lemma fingerprint_effect:
  assumes "digest_length H" "request_ok r" "request_ok q" "semantic_fingerprint H r = semantic_fingerprint H q"
  shows "same_effect r q \<or> collides H (dumps (semantic_json r)) (dumps (semantic_json q))"
proof -
  have "hexdigest H (dumps (semantic_json r)) = hexdigest H (dumps (semantic_json q))"
    using assms(4) by (simp add: semantic_fingerprint_text)
  then show ?thesis using hexdigest_inj [OF assms(1)] semantic_text_inj [OF assms(2,3)] by blast
qed

text \<open>C32. The semantic fingerprint identifies the effect, not the lease.  Two well-formed requests
  for the same operation, key and arguments (up to key order) on the same task, job, repository
  and configuration have the same fingerprint whatever lease, worker, attempt and token they come
  with, so a retry under a new lease is recognised; and two requests with one fingerprint ask for
  the same effect, unless SHA-256 confuses the canonical texts of these two effects.\<close>

theorem fingerprint_identifies:
  assumes "digest_length H" "request_ok r" "request_ok q"
  shows "(same_effect r q \<longrightarrow> semantic_fingerprint H r = semantic_fingerprint H q) \<and>
    (semantic_fingerprint H r = semantic_fingerprint H q \<longrightarrow>
      same_effect r q \<or> collides H (dumps (semantic_json r)) (dumps (semantic_json q)))"
  using same_effect_fingerprint fingerprint_effect [OF assms] by blast

subsection \<open>A sample exchange\<close>

definition sample_host_authority :: lease_authority where
  "sample_host_authority = \<lparr>la_task = 1, la_job = 50, la_lease = 60, la_worker = ''w1'', la_attempt = 1, la_token = 1,
     la_expires_ms = 30000, la_repository = ''o/r'', la_configuration = 7,
     la_digest = ''sha256:'' @ replicate 64 (CHR ''0'')\<rparr>"

definition sample_operation :: host_operation where
  "sample_operation = \<lparr>ho_name = ''git.commit'', ho_key = ''k1'', ho_arguments = JObj [(''m'', JStr ''x''), (''a'', JInt 1)],
     ho_schema = 1\<rparr>"

definition sample_request :: host_request where
  "sample_request = \<lparr>hr_id = 302240678275694148452352, hr_issued = 1, hr_expires = 20000,
     hr_authority = Task_lease_authority sample_host_authority, hr_operation = sample_operation, hr_version = 1,
     hr_issuer = ''control-plane'', hr_audience = ''local-macos-host''\<rparr>"

definition sample_response :: host_response where
  "sample_response = \<lparr>hs_request = 302240678275694148452352, hs_operation = ''git.commit'', hs_key = ''k1'', hs_host = ''mac'',
     hs_host_version = ''1'', hs_status = R_OK, hs_code = ''OK'', hs_replayed = False, hs_completed = 5,
     hs_result = JObj [(''sha'', JStr ''c'')], hs_token = Some 1, hs_version = 1\<rparr>"

definition sample_H :: "string \<Rightarrow> string" where
  "sample_H s = replicate 32 (CHR 0x00)"

definition sample_authenticator :: authenticator where
  "sample_authenticator = \<lparr>au_key = replicate 32 (CHR ''a''), au_key_id = ''key''\<rparr>"

lemma sample_H_length: "digest_length sample_H"
  by (simp add: digest_length_def sample_H_def)

lemma sample_key: "mk_authenticator (replicate 32 (CHR ''a'')) ''key'' = Inr sample_authenticator"
  by code_simp

lemma sample_texts_ok:
  "operation_name_ok ''git.commit''" "host_identifier_ok ''k1''" "host_identifier_ok ''w1''" "host_identifier_ok ''w2''"
  "host_identifier_ok ''mac''" "host_identifier_ok ''1''" "repository_key_ok ''o/r''" "matches_code ''OK''"
  by code_simp+

lemma sample_digest_ok: "configuration_digest_ok (''sha256:'' @ replicate 64 (CHR ''0''))"
  by (simp add: configuration_digest_ok_def is_hex_char_def list_all_iff)

lemma sample_uuid_ok: "uuid_version4 302240678275694148452352"
  by (simp add: uuid_version4_def)

lemmas json_bounds = node_ok_def max_json_depth_def max_json_nodes_def max_collection_items_def max_string_length_def
  int64_ok_def

lemma sample_operation_ok: "operation_ok sample_operation"
  by (simp add: operation_ok_def mk_operation_def sample_operation_def sample_texts_ok json_object_same json_bounds)

lemma sample_lease_ok:
  "authority_ok (Task_lease_authority sample_host_authority)"
  "authority_ok (Task_lease_authority (sample_host_authority\<lparr>la_lease := 61, la_worker := ''w2'', la_attempt := 2, la_token := 2\<rparr>))"
  by (simp_all add: authority_ok_def mk_lease_authority_def sample_host_authority_def sample_texts_ok
      sample_digest_ok [simplified] positive_int_ok_def)

lemma sample_request_ok: "request_ok sample_request"
  using sample_operation_ok sample_lease_ok(1)
  by (simp add: request_ok_def mk_host_request_def sample_request_def host_protocol_version_def host_request_issuer_def
      host_request_audience_def sample_uuid_ok positive_int_ok_def max_host_request_lifetime_ms_def)

lemma sample_response_ok: "response_ok sample_response"
  by (simp add: response_ok_def mk_host_response_def sample_response_def host_protocol_version_def sample_texts_ok
      positive_int_ok_def json_object_same json_bounds)

abbreviation sample_signed_request :: signed_request where
  "sample_signed_request \<equiv> \<lparr>sr_message = sample_request, sr_key_id = ''key'', sr_signature = replicate 43 (CHR ''A'')\<rparr>"

abbreviation sample_signed_response :: signed_response where
  "sample_signed_response \<equiv> \<lparr>ss_message = sample_response, ss_key_id = ''key'', ss_signature = replicate 43 (CHR ''A'')\<rparr>"

lemma sample_signature: "message_signature sample_H sample_authenticator d v = replicate 43 (CHR ''A'')"
proof -
  have "base64url (replicate 32 (CHR 0x00)) = replicate 43 (CHR ''A'')" by code_simp
  then show ?thesis by (simp add: message_signature_def hmac_def Let_def sample_H_def)
qed

lemma sample_signed: "sign_request sample_H sample_authenticator sample_request = Inr sample_signed_request"
  "sign_response sample_H sample_authenticator sample_response = Inr sample_signed_response"
  unfolding sign_request_Inr [OF sample_key sample_H_length] sign_response_Inr [OF sample_key sample_H_length]
    sample_signature by (simp_all add: sample_authenticator_def)

text \<open>A bound on the length of a canonical text that needs no printing.\<close>

fun text_bound :: "json \<Rightarrow> nat" where
  "text_bound (JStr s) = 6 * length s + 2"
| "text_bound (JArr xs) = 2 + sum_list (map (\<lambda>x. Suc (text_bound x)) xs)"
| "text_bound (JObj kvs) = 2 + sum_list (map (\<lambda>(k, v). 6 * length k + 4 + text_bound v) kvs)"
| "text_bound v = 20"

lemma length_json_escape: "length (json_escape c) \<le> 6"
  by (simp add: json_escape_def Let_def)

lemma length_json_quote: "length (json_quote s) \<le> 6 * length s + 2"
proof -
  have "length (concat (map json_escape s)) \<le> 6 * length s"
  proof (induction s)
    case (Cons c s)
    then show ?case using length_json_escape [of c] by simp
  qed simp
  then show ?thesis by (simp add: json_quote_def)
qed

lemma length_join_le: "length (join_comma xs) \<le> sum_list (map (\<lambda>x. Suc (length x)) xs)"
  by (induction xs) (auto simp: join_comma_Cons)

lemma length_dumps_le: "json_clean int64_ok v \<Longrightarrow> length (dumps v) \<le> text_bound v"
proof (induction v)
  case (JInt i)
  then show ?case by (simp add: length_dec_int64)
next
  case (JStr s)
  show ?case using length_json_quote [of s] by simp
next
  case (JArr xs)
  have "sum_list (map (\<lambda>x. Suc (length (dumps x))) xs) \<le> sum_list (map (\<lambda>x. Suc (text_bound x)) xs)"
    using JArr by (intro sum_list_mono) (simp add: list_all_iff)
  then show ?case using length_join_le [of "map dumps xs"] by (simp add: comp_def)
next
  case (JObj kvs)
  have "Suc (length (member_text kv)) \<le> (case kv of (k, v) \<Rightarrow> 6 * length k + 4 + text_bound v)" if m: "kv \<in> set kvs" for kv
  proof (cases kv)
    case (Pair k v)
    then have "length (dumps v) \<le> text_bound v" using JObj.IH [OF m, of v] JObj.prems m by (auto simp: list_all_iff)
    then show ?thesis using Pair length_json_quote [of k] by (simp add: member_text_def)
  qed
  then have "sum_list (map (\<lambda>kv. Suc (length (member_text kv))) kvs) \<le>
      sum_list (map (\<lambda>(k, v). 6 * length k + 4 + text_bound v) kvs)"
    by (intro sum_list_mono)
  moreover have "length (dumps (JObj kvs)) \<le> 2 + sum_list (map (\<lambda>kv. Suc (length (member_text kv))) kvs)"
    unfolding dumps_members using length_join_le [of "map member_text (sort_key fst kvs)"]
    by (simp add: comp_def sum_list_sort)
  ultimately show ?case by simp
qed simp_all

lemma sample_encoded:
  "\<exists>payload. encode_signed_host_request sample_signed_request = Inr payload"
  "\<exists>payload. encode_signed_host_response sample_signed_response = Inr payload"
proof -
  have c: "json_clean int64_ok (envelope_json (request_json sample_request) ''key'' s)"
    "json_clean int64_ok (envelope_json (response_json sample_response) ''key'' s)" for s
    using envelope_clean request_clean [OF sample_request_ok] response_clean [OF sample_response_ok] by blast+
  have "text_bound (envelope_json (request_json sample_request) ''key'' (replicate 43 (CHR ''A''))) \<le> 10000"
    by (simp add: envelope_json_def request_json_def operation_json_def authority_fields_def authority_kind_def
        sample_request_def sample_operation_def sample_host_authority_def)
  then have "length (dumps (envelope_json (request_json sample_request) ''key'' (replicate 43 (CHR ''A'')))) \<le> 10000"
    using length_dumps_le [OF c(1)] order_trans by blast
  then show "\<exists>payload. encode_signed_host_request sample_signed_request = Inr payload"
    by (simp add: encode_signed_host_request_def max_host_request_bytes_def)
  have "text_bound (envelope_json (response_json sample_response) ''key'' (replicate 43 (CHR ''A''))) \<le> 10000"
    by (simp add: envelope_json_def response_json_def response_status_value_def sample_response_def)
  then have "length (dumps (envelope_json (response_json sample_response) ''key'' (replicate 43 (CHR ''A'')))) \<le> 10000"
    using length_dumps_le [OF c(2)] order_trans by blast
  then show "\<exists>payload. encode_signed_host_response sample_signed_response = Inr payload"
    by (simp add: encode_signed_host_response_def max_host_response_bytes_def)
qed

lemma sample_verified:
  "verify_request sample_H sample_authenticator 5 sample_signed_request = Inr sample_request"
  "verify_response sample_H sample_authenticator sample_signed_response = Inr sample_response"
  by (simp_all add: verify_request_Inr verify_response_def sample_signature)
    (simp_all add: sample_authenticator_def sample_request_def lease_live_def sample_host_authority_def max_host_clock_skew_ms_def)

theorem request_delivered_witness:
  "\<exists>payload env'. encode_signed_host_request sample_signed_request = Inr payload \<and>
     decode_signed_host_request 20 payload = Inr env' \<and>
     verify_request sample_H sample_authenticator 5 env' = Inr (canonical_request sample_request)"
proof -
  obtain payload where p: "encode_signed_host_request sample_signed_request = Inr payload" using sample_encoded(1) by blast
  have "hr_issued sample_request \<le> 5 + max_host_clock_skew_ms" "5 < hr_expires sample_request"
    "lease_live 5 (hr_authority sample_request)" "protocol_nesting \<le> 20"
    by (simp_all add: sample_request_def lease_live_def sample_host_authority_def max_host_clock_skew_ms_def
        protocol_nesting_def max_json_depth_def)
  then show ?thesis
    using request_delivered [OF sample_key sample_H_length sample_request_ok _ sample_signed(1) p] p by blast
qed

theorem response_delivered_witness:
  "\<exists>payload env'. encode_signed_host_response sample_signed_response = Inr payload \<and>
     decode_signed_host_response 20 payload = Inr env' \<and>
     verify_response sample_H sample_authenticator env' = Inr sample_response"
proof -
  obtain payload where p: "encode_signed_host_response sample_signed_response = Inr payload" using sample_encoded(2) by blast
  have n: "protocol_nesting \<le> 20" by (simp add: protocol_nesting_def max_json_depth_def)
  have "sample_response\<lparr>hs_result := jsort (hs_result sample_response)\<rparr> = sample_response" by (simp add: sample_response_def)
  then show ?thesis
    using response_delivered [OF sample_key sample_H_length sample_response_ok n sample_signed(2) p] p by auto
qed


theorem signature_binding_witness:
  "verify_request sample_H sample_authenticator 5 sample_signed_request = Inr sample_request \<and>
     hmac_collides sample_H (au_key sample_authenticator) (request_text sample_request) (response_text sample_response)"
  using signature_binding [OF sample_H_length _ _ sample_verified(1,1,2)] sample_request_ok sample_verified(1) by simp

text \<open>The same operation retried under the next lease.\<close>

definition sample_retry :: host_request where
  "sample_retry = sample_request\<lparr>hr_authority := Task_lease_authority
     (sample_host_authority\<lparr>la_lease := 61, la_worker := ''w2'', la_attempt := 2, la_token := 2\<rparr>)\<rparr>"

theorem fingerprint_identifies_witness:
  "request_ok sample_retry \<and> semantic_fingerprint sample_H sample_request = semantic_fingerprint sample_H sample_retry"
proof -
  have ok: "request_ok sample_retry"
    using sample_request_ok sample_lease_ok(2) by (simp add: request_ok_def mk_host_request_def sample_retry_def)
  have "same_effect sample_request sample_retry"
    by (simp add: same_effect_def sample_retry_def sample_request_def without_lease_def)
  then show ?thesis using fingerprint_identifies [OF sample_H_length sample_request_ok ok] ok by blast
qed

end
