(* ===== verification/Host_Journal_Properties.thy ===== *)
theory Host_Journal_Properties
  imports Host_Journal Host_Protocol_Properties
begin

text \<open>
  The journal of the host as a durable service: its invariant, the fence that only moves forward,
  the reservation that is made once, and the result that every later request is answered with.
\<close>

subsection \<open>The fence\<close>

definition fence_token :: "journal \<Rightarrow> uuid \<Rightarrow> int" where
  "fence_token j i = (case find_fence i j of None \<Rightarrow> 0 | Some f \<Rightarrow> fe_token f)"

lemma find_fence_job: "find_fence i j = Some f \<Longrightarrow> fe_job f = i"
  using find_Some_in by (fastforce simp: find_fence_def)

lemma apply_fence_frame:
  "apply_fence now r j = Inr j' \<Longrightarrow> operations j' = operations j \<and> receipts j' = receipts j \<and> deliveries j' = deliveries j"
  by (auto simp: apply_fence_def split: host_authority.split_asm option.split_asm if_split_asm)

text \<open>A request under a lease that passes the fence leaves its own lease in the fence.\<close>

lemma apply_fence_lease:
  assumes "apply_fence now r j = Inr j'" "hr_authority r = Task_lease_authority a"
  shows "\<exists>f. find_fence (la_job a) j' = Some f \<and> fe_token f = la_token a \<and> fe_lease f = la_lease a \<and>
    fe_worker f = la_worker a \<and> fe_attempt f = la_attempt a \<and> fe_task f = la_task a \<and>
    la_expires_ms a \<le> fe_expires f \<and> now < fe_expires f \<and> fence_token j (la_job a) \<le> la_token a"
proof (cases "find_fence (la_job a) j")
  case None
  then show ?thesis using assms
    by (auto simp: apply_fence_def fence_token_def find_fence_def find_append fence_of_def split: if_split_asm)
next
  case (Some f)
  note j = find_fence_job [OF Some]
  have u: "find_fence (la_job a) (j\<lparr>fences := upd_rows (\<lambda>x. fe_job x = la_job a) g (fences j)\<rparr>) = Some (g f)"
    if "\<And>x. fe_job (g x) = fe_job x" for g
    using that Some j by (simp add: find_fence_def find_upd_rows)
  show ?thesis using assms Some j
    by (auto simp: apply_fence_def fence_token_def u split: if_split_asm)
qed

lemma apply_fence_other:
  assumes "apply_fence now r j = Inr j'" "\<forall>a. hr_authority r = Task_lease_authority a \<longrightarrow> la_job a \<noteq> i"
  shows "find_fence i j' = find_fence i j"
proof (cases "hr_authority r")
  case (Task_lease_authority a)
  then have ne: "la_job a \<noteq> i" using assms(2) by simp
  have u: "find (\<lambda>f. fe_job f = i) (upd_rows (\<lambda>x. fe_job x = la_job a) g fs) = find (\<lambda>f. fe_job f = i) fs"
    if "\<And>x. fe_job (g x) = fe_job x" for g fs
    using that ne by (induction fs) auto
  then show ?thesis using assms(1) Task_lease_authority ne
    by (auto simp: apply_fence_def find_fence_def find_append fence_of_def u split: if_split_asm option.split_asm option.split)
qed (use assms in \<open>simp_all add: apply_fence_def\<close>)

lemma apply_fence_mono: "apply_fence now r j = Inr j' \<Longrightarrow> fence_token j i \<le> fence_token j' i"
proof -
  assume p: "apply_fence now r j = Inr j'"
  show ?thesis
  proof (cases "\<exists>a. hr_authority r = Task_lease_authority a \<and> la_job a = i")
    case True
    then obtain a where a: "hr_authority r = Task_lease_authority a" "la_job a = i" by blast
    then show ?thesis using apply_fence_lease [OF p a(1)] by (auto simp: fence_token_def)
  next
    case False
    then show ?thesis using apply_fence_other [OF p] by (auto simp: fence_token_def)
  qed
qed

subsection \<open>The transactions\<close>

lemma record_receipt_frame:
  "record_receipt H r j = Inr j' \<Longrightarrow> fences j' = fences j \<and> operations j' = operations j \<and> deliveries j' = deliveries j"
  by (auto simp: record_receipt_def split: option.split_asm if_split_asm)

lemma record_delivery_frame:
  "record_delivery H r res j = Inr j' \<Longrightarrow> fences j' = fences j \<and> operations j' = operations j \<and> receipts j' = receipts j"
  by (auto simp: record_delivery_def split: if_split_asm)

lemma decide_operation_fences: "decide_operation H limit r j = Inr (a, j') \<Longrightarrow> fences j' = fences j"
  by (auto simp: decide_operation_def reserve_def split: option.split_asm if_split_asm dest: record_delivery_frame)

lemma find_fence_frame: "fences j' = fences j \<Longrightarrow> find_fence i j' = find_fence i j"
  by (simp add: find_fence_def)

text \<open>A request either changes nothing, or passed the fence, which then shows in the state.\<close>

lemma journal_begin_cases:
  assumes "journal_begin H limit now r j = (ans, j')"
  obtains (refused) x where "ans = Inl x" "j' = j"
  | (delivered) j0 j1 d where "apply_fence now r j = Inr j0" "record_receipt H r j0 = Inr j1"
      "find (\<lambda>d. de_request d = hr_id r) (deliveries j1) = Some d" "de_digest d = request_digest H r" "j' = j1"
      "ans = bindE (delivered_result limit (task_scoped r) d) (\<lambda>result. Inr (REPLAY result))"
  | (decided) j0 j1 a where "apply_fence now r j = Inr j0" "record_receipt H r j0 = Inr j1"
      "find (\<lambda>d. de_request d = hr_id r) (deliveries j1) = None" "decide_operation H limit r j1 = Inr (a, j')" "ans = Inr a"
proof -
  show ?thesis
  proof (cases "bindE (apply_fence now r j) (record_receipt H r)")
    case (Inl x)
    have "journal_begin H limit now r j = (Inl x, j)" unfolding journal_begin_def Inl by simp
    then show ?thesis using assms refused by simp
  next
    case (Inr j1)
    have b: "journal_begin H limit now r j = (case find (\<lambda>d. de_request d = hr_id r) (deliveries j1) of
        Some d \<Rightarrow> if de_digest d \<noteq> request_digest H r then (Inl REQUEST_ID_CONFLICT, j)
          else (bindE (delivered_result limit (task_scoped r) d) (\<lambda>result. Inr (REPLAY result)), j1)
      | None \<Rightarrow> (case decide_operation H limit r j1 of Inl x \<Rightarrow> (Inl x, j) | Inr (a, j2) \<Rightarrow> (Inr a, j2)))"
      unfolding journal_begin_def Inr by simp
    obtain j0 where j0: "apply_fence now r j = Inr j0" "record_receipt H r j0 = Inr j1" using Inr by auto
    show ?thesis
    proof (cases "find (\<lambda>d. de_request d = hr_id r) (deliveries j1)")
      case None
      show ?thesis
      proof (cases "decide_operation H limit r j1")
        case (Inl x)
        then show ?thesis using assms None refused [of x] unfolding b by simp
      next
        case (Inr p)
        then obtain a j2 where p: "decide_operation H limit r j1 = Inr (a, j2)" by (cases p) auto
        then show ?thesis using assms None decided [OF j0 None] unfolding b by simp
      qed
    next
      case (Some d)
      then show ?thesis using assms refused delivered [OF j0 Some] unfolding b
        by (cases "de_digest d = request_digest H r") auto
    qed
  qed
qed

lemma journal_begin_fences:
  assumes "journal_begin H limit now r j = (ans, j')"
  shows "fences j' = fences j \<or> (\<exists>j0. apply_fence now r j = Inr j0 \<and> fences j' = fences j0)"
  using assms
proof (cases rule: journal_begin_cases)
  case (delivered j0 j1 d)
  then show ?thesis using record_receipt_frame by metis
next
  case (decided j0 j1 a)
  then show ?thesis using record_receipt_frame decide_operation_fences by metis
qed simp

lemma journal_begin_accepts:
  assumes "journal_begin H limit now r j = (Inr a, j')"
  obtains j0 where "apply_fence now r j = Inr j0" "fences j' = fences j0"
  using assms
proof (cases rule: journal_begin_cases)
  case (delivered j0 j1 d)
  then show ?thesis using that record_receipt_frame by metis
next
  case (decided j0 j1 a)
  then show ?thesis using that record_receipt_frame decide_operation_fences by metis
qed simp

lemma journal_finish_Inr:
  assumes "journal_finish H now r res j = Inr j'"
  shows "assert_current_fence now r j = Inr ()" "length (filter (running_operation H r) (operations j)) = 1"
    "operations j' = upd_rows (running_operation H r) (finish_row res) (operations j)" "fences j' = fences j"
    "receipts j' = receipts j" "\<forall>d \<in> set (deliveries j). de_request d \<noteq> hr_id r"
    "deliveries j' = deliveries j @ [\<lparr>de_request = hr_id r, de_digest = request_digest H r,
        de_status = response_status_value (jr_status res), de_code = jr_code res,
        de_result = encode_result (jr_result res), de_token = jr_token res\<rparr>]"
  using assms by (auto simp: journal_finish_def record_delivery_def list_ex_iff split: if_split_asm)

lemma exec_journal_returns: "\<exists>a j'. exec_journal H limit c j = Inr (a, j')"
  by (cases c) (auto split: prod.split sum.split)

lemma exec_begin:
  assumes "exec_journal H limit (Begin_request r now) j = Inr (a, j')"
  obtains ans where "journal_begin H limit now r j = (ans, j')"
    "a = (case ans of Inl x \<Rightarrow> A_refused x | Inr d \<Rightarrow> A_decision d)"
proof (cases "journal_begin H limit now r j")
  case (Pair ans j2)
  then show ?thesis using assms that by (cases ans) auto
qed

lemma exec_finish:
  assumes "exec_journal H limit (Finish_request r res now) j = Inr (a, j')"
  obtains (refused) x where "j' = j" "a = A_refused x" "journal_finish H now r res j = Inl x"
  | (finished) "journal_finish H now r res j = Inr j'" "a = A_done"
proof (cases "journal_finish H now r res j")
  case (Inl x)
  then show ?thesis using assms refused by auto
next
  case (Inr j2)
  then show ?thesis using assms finished by simp
qed

lemma exec_check:
  "exec_journal H limit (Check_request r now) j = Inr (a, j') \<Longrightarrow>
   j' = j \<and> a = (case assert_authorized now r j of Inl x \<Rightarrow> A_refused x | Inr _ \<Rightarrow> A_done)"
  by (cases "assert_authorized now r j") auto

lemma fences_mono:
  assumes "fences j' = fences j \<or> (\<exists>j0. apply_fence now r j = Inr j0 \<and> fences j' = fences j0)"
  shows "fence_token j i \<le> fence_token j' i"
proof -
  have same: "fence_token x i = fence_token y i" if "fences x = fences y" for x y
    using that by (simp add: fence_token_def find_fence_def)
  show ?thesis using assms same apply_fence_mono by (metis order_refl)
qed

lemma exec_journal_mono: "exec_journal H limit c j = Inr (a, j') \<Longrightarrow> fence_token j i \<le> fence_token j' i"
proof (cases c)
  case (Begin_request r now)
  assume x: "exec_journal H limit c j = Inr (a, j')"
  show ?thesis using x unfolding Begin_request
    by (elim exec_begin) (blast dest: journal_begin_fences intro: fences_mono)
next
  case (Finish_request r res now)
  assume x: "exec_journal H limit c j = Inr (a, j')"
  show ?thesis using x unfolding Finish_request
  proof (cases rule: exec_finish)
    case finished
    then show ?thesis using journal_finish_Inr(4) fences_mono by metis
  qed simp
next
  case (Check_request r now)
  assume "exec_journal H limit c j = Inr (a, j')"
  then show ?thesis unfolding Check_request using exec_check by fastforce
qed

text \<open>The journal is a monotone service: the fence of a job never goes back.\<close>

interpretation journal_fence: monotone_service "exec_journal H limit" "\<lambda>_. True" fence_token for H limit
  by unfold_locales (auto intro: exec_journal_mono)

end
