(* ===== verification/Host_Journal_Ledger.thy ===== *)
theory Host_Journal_Ledger
  imports Host_Journal_Properties
begin

text \<open>
  The journal implements a ledger: a map from operations to what is known of them.  An operation is
  reserved once, finished once, and then answered with its result for ever.  The ledger is what the
  code reads from the tables; \<open>journal_ok\<close> is the invariant that makes the reading succeed.
\<close>

subsection \<open>Operations and their results\<close>

type_synonym operation_key = "string \<times> string \<times> string"

definition request_key :: "host_request \<Rightarrow> operation_key" where
  "request_key r = (scope_key r, ho_name (hr_operation r), ho_key (hr_operation r))"

definition row_key :: "operation_row \<Rightarrow> operation_key" where
  "row_key x = (op_scope x, op_name x, op_key x)"

lemma is_operation_key:
  "is_operation (scope_key r) (ho_name (hr_operation r)) (ho_key (hr_operation r)) x \<longleftrightarrow> row_key x = request_key r"
  by (simp add: is_operation_def row_key_def request_key_def)

lemma find_operation_key: "find_operation r j = find (\<lambda>x. row_key x = request_key r) (operations j)"
proof -
  have "is_operation (scope_key r) (ho_name (hr_operation r)) (ho_key (hr_operation r)) = (\<lambda>x. row_key x = request_key r)"
    by (rule ext) (rule is_operation_key)
  then show ?thesis by (simp only: find_operation_def)
qed

definition job_scope :: "string \<Rightarrow> bool" where
  "job_scope s = starts_with ''job:'' s"

lemma task_scoped_scope: "task_scoped r = job_scope (scope_key r)"
  by (cases "hr_authority r") (simp_all add: task_scoped_def job_scope_def scope_key_def starts_with_def)

definition result_ok :: "bool \<Rightarrow> journal_result \<Rightarrow> bool" where
  "result_ok scoped res \<longleftrightarrow> json_object (jr_result res) = Inr (jr_result res) \<and> json_clean (\<lambda>_. True) (jr_result res) \<and>
     matches_code (jr_code res) \<and> scoped = (jr_token res \<noteq> None) \<and>
     (case jr_token res of None \<Rightarrow> True | Some t \<Rightarrow> positive_int_ok t)"

definition canonical_result :: "journal_result \<Rightarrow> journal_result" where
  "canonical_result res = res\<lparr>jr_result := jsort (jr_result res)\<rparr>"

lemma dict_set_new: "k \<notin> fst ` set d \<Longrightarrow> dict_set k v d = d @ [(k, v)]"
  by (induction d) auto

lemma dict_of_distinct: "distinct (map fst kvs) \<Longrightarrow> dict_of kvs = kvs"
proof -
  have "fold (\<lambda>(k, v) d. dict_set k v d) kvs d = d @ kvs" if "distinct (map fst (d @ kvs))" for d
    using that by (induction kvs arbitrary: d) (auto simp: dict_set_new)
  then show "distinct (map fst kvs) \<Longrightarrow> dict_of kvs = kvs" by (simp add: dict_of_def)
qed

lemma default_hooks_read: "hooks_read int64_ok default_hooks"
proof -
  have "length (filter (\<lambda>c. c \<noteq> CHR ''-'') (dec_int i)) \<le> 20" if "int64_ok i" for i
    using length_dec_int64 [OF that] length_filter_le order_trans by blast
  then have "\<not> 4300 < length (filter (\<lambda>c. c \<noteq> CHR ''-'') (dec_int i))" if "int64_ok i" for i
    using that by fastforce
  then show ?thesis by (simp add: hooks_read_def default_hooks_def dict_of_distinct)
qed

text \<open>What was written as the columns of a result is read back as this result.\<close>

lemma stored_result_reads:
  assumes "result_ok scoped res" "protocol_nesting \<le> limit"
  shows "stored_result limit scoped (Some (encode_result (jr_result res))) (Some (response_status_value (jr_status res)))
    (Some (jr_code res)) (jr_token res) = Inr (canonical_result res)"
proof -
  note v = assms(1) [unfolded result_ok_def]
  have c: "json_clean int64_ok (jr_result res)" "json_depth (jr_result res) \<le> limit"
    using json_good_clean [of 0 "jr_result res"] v assms(2) by (auto simp: json_object_same protocol_nesting_def)
  have j: "json_object (jsort (jr_result res)) = Inr (jsort (jr_result res))" using v by (simp add: json_object_jsort)
  have o: "is_jobj (jr_result res)" using iffD1 [OF json_object_same conjunct1 [OF v]] by simp
  have t: "stored_fencing_token (jr_token res) = Inr (jr_token res)"
    using v by (simp add: stored_fencing_token_def split: option.split_asm)
  show ?thesis using v
    by (simp add: stored_result_def encode_result_def loads_dumps [OF default_hooks_read c] o corrupt_def j t
        canonical_result_def)
qed

definition row_running :: "operation_row \<Rightarrow> bool" where
  "row_running x \<longleftrightarrow> op_state x = ''RUNNING'' \<and> op_status x = None \<and> op_code x = None \<and> op_result x = None \<and> op_token x = None"

definition row_done :: "journal_result \<Rightarrow> operation_row \<Rightarrow> bool" where
  "row_done res x \<longleftrightarrow> op_state x = (if jr_status res = R_OK then ''SUCCEEDED'' else ''FAILED'') \<and>
     op_status x = Some (response_status_value (jr_status res)) \<and> op_code x = Some (jr_code res) \<and>
     op_result x = Some (encode_result (jr_result res)) \<and> op_token x = jr_token res"

lemma row_done_not_running: "row_done res x \<Longrightarrow> op_state x \<noteq> ''RUNNING''"
  by (simp add: row_done_def)

lemma finish_row_simps [simp]: "row_done res (finish_row res x)" "row_key (finish_row res x) = row_key x"
  "op_fingerprint (finish_row res x) = op_fingerprint x" "op_request (finish_row res x) = op_request x"
  "op_scope (finish_row res x) = op_scope x"
  by (simp_all add: finish_row_def row_done_def row_key_def)

lemma operation_result_done:
  "row_done res x \<Longrightarrow> result_ok scoped res \<Longrightarrow> protocol_nesting \<le> limit \<Longrightarrow>
   operation_result limit scoped x = Inr (canonical_result res)"
  by (simp add: operation_result_def row_done_def stored_result_reads)

subsection \<open>The ledger\<close>

datatype phase = Running string | Done string journal_result

type_synonym ledger = "operation_key \<Rightarrow> phase option"

definition row_phase :: "nat \<Rightarrow> operation_row \<Rightarrow> phase option" where
  "row_phase limit x = (if op_state x = ''RUNNING'' then Some (Running (op_fingerprint x))
     else (case operation_result limit (job_scope (op_scope x)) x of Inl _ \<Rightarrow> None
       | Inr res \<Rightarrow> Some (Done (op_fingerprint x) res)))"

definition ledger_of :: "nat \<Rightarrow> journal \<Rightarrow> ledger" where
  "ledger_of limit j k = Option.bind (find (\<lambda>x. row_key x = k) (operations j)) (row_phase limit)"

fun phase_fingerprint :: "phase \<Rightarrow> string" where
  "phase_fingerprint (Running f) = f"
| "phase_fingerprint (Done f _) = f"

definition fence_refusals :: "journal_error set" where
  "fence_refusals = {JOURNAL_LEASE_EXPIRED, FENCED, AUTHORITY_CONFLICT, FENCING_TOKEN_CONFLICT}"

text \<open>The specification: what each transaction may answer, and what it does to the ledger.\<close>

inductive ledger_step :: "(string \<Rightarrow> string) \<Rightarrow> ledger \<Rightarrow> journal_command \<times> journal_answer \<Rightarrow> ledger \<Rightarrow> bool"
  for H where
  execute: "L (request_key r) = None \<Longrightarrow> ledger_step H L (Begin_request r t, A_decision EXECUTE)
     (L(request_key r \<mapsto> Running (semantic_fingerprint H r)))"
| ambiguous: "L (request_key r) = Some (Running (semantic_fingerprint H r)) \<Longrightarrow>
     ledger_step H L (Begin_request r t, A_decision AMBIGUOUS) L"
| replay: "L (request_key r) = Some (Done (semantic_fingerprint H r) res) \<Longrightarrow>
     ledger_step H L (Begin_request r t, A_decision (REPLAY res)) L"
| conflict: "L (request_key r) = Some p \<Longrightarrow> phase_fingerprint p \<noteq> semantic_fingerprint H r \<Longrightarrow>
     ledger_step H L (Begin_request r t, A_refused IDEMPOTENCY_CONFLICT) L"
| reused: "ledger_step H L (Begin_request r t, A_refused REQUEST_ID_CONFLICT) L"
| finish: "L (request_key r) = Some (Running (semantic_fingerprint H r)) \<Longrightarrow>
     ledger_step H L (Finish_request r res t, A_done)
       (L(request_key r \<mapsto> Done (semantic_fingerprint H r) (canonical_result res)))"
| unreserved: "L (request_key r) \<noteq> Some (Running (semantic_fingerprint H r)) \<Longrightarrow>
     ledger_step H L (Finish_request r res t, A_refused OPERATION_NOT_RESERVED) L"
| delivered: "ledger_step H L (Finish_request r res t, A_refused JOURNAL_UNAVAILABLE) L"
| checked: "ledger_step H L (Check_request r t, A_done) L"
| fenced: "x \<in> fence_refusals \<Longrightarrow> ledger_step H L (c, A_refused x) L"

inductive ledger_run :: "(string \<Rightarrow> string) \<Rightarrow> ledger \<Rightarrow> (journal_command \<times> journal_answer) list \<Rightarrow> ledger \<Rightarrow> bool"
  for H where
  ledger_start: "ledger_run H L [] L"
| ledger_next: "ledger_step H L e L' \<Longrightarrow> ledger_run H L' es L'' \<Longrightarrow> ledger_run H L (e # es) L''"

inductive_simps ledger_step_begin: "ledger_step H L (Begin_request r t, a) L'"
inductive_simps ledger_step_finish: "ledger_step H L (Finish_request r res t, a) L'"

subsection \<open>The invariant\<close>


definition delivery_ok :: "(string \<Rightarrow> string) \<Rightarrow> host_request set \<Rightarrow> operation_row list \<Rightarrow> delivery_row \<Rightarrow> bool" where
  "delivery_ok H R xs d \<longleftrightarrow> (\<exists>r \<in> R. \<exists>res. \<exists>x \<in> set xs. request_ok r \<and> de_digest d = request_digest H r \<and>
     row_key x = request_key r \<and> op_fingerprint x = semantic_fingerprint H r \<and> row_done res x \<and>
     result_ok (task_scoped r) res \<and> de_status d = response_status_value (jr_status res) \<and> de_code d = jr_code res \<and>
     de_result d = encode_result (jr_result res) \<and> de_token d = jr_token res)"

definition row_ok :: "operation_row \<Rightarrow> bool" where
  "row_ok x \<longleftrightarrow> uuid_version4 (op_request x) \<and>
     (row_running x \<or> (\<exists>res. result_ok (job_scope (op_scope x)) res \<and> row_done res x))"

definition journal_ok :: "(string \<Rightarrow> string) \<Rightarrow> host_request set \<Rightarrow> journal \<Rightarrow> bool" where
  "journal_ok H R j \<longleftrightarrow> distinct (map row_key (operations j)) \<and> (\<forall>x \<in> set (operations j). row_ok x) \<and>
     (\<forall>d \<in> set (deliveries j). delivery_ok H R (operations j) d)"

lemma journal_ok_empty: "journal_ok H R empty_journal"
  by (simp add: journal_ok_def empty_journal_def)

lemma journal_ok_frame:
  "journal_ok H R j \<Longrightarrow> operations j' = operations j \<Longrightarrow> deliveries j' = deliveries j \<Longrightarrow> journal_ok H R j'"
  by (simp add: journal_ok_def)

lemma ledger_frame: "operations j' = operations j \<Longrightarrow> ledger_of limit j' = ledger_of limit j"
  by (rule ext) (simp add: ledger_of_def)

lemma row_phase_done:
  "row_done res x \<Longrightarrow> result_ok (job_scope (op_scope x)) res \<Longrightarrow> protocol_nesting \<le> limit \<Longrightarrow>
   row_phase limit x = Some (Done (op_fingerprint x) (canonical_result res))"
  by (simp add: row_phase_def row_done_not_running operation_result_done)

lemma row_phase_ok:
  assumes "row_ok x" "protocol_nesting \<le> limit"
  obtains (running) "row_running x" "row_phase limit x = Some (Running (op_fingerprint x))"
  | (finished) res where "row_done res x" "result_ok (job_scope (op_scope x)) res"
      "row_phase limit x = Some (Done (op_fingerprint x) (canonical_result res))"
  using assms row_phase_done by (auto simp: row_ok_def row_running_def row_phase_def)

lemma ledger_row:
  "distinct (map row_key (operations j)) \<Longrightarrow> x \<in> set (operations j) \<Longrightarrow> ledger_of limit j (row_key x) = row_phase limit x"
  by (simp add: ledger_of_def find_key)

lemma ledger_None: "(\<And>x. x \<in> set (operations j) \<Longrightarrow> row_key x \<noteq> k) \<Longrightarrow> ledger_of limit j k = None"
proof -
  assume "\<And>x. x \<in> set (operations j) \<Longrightarrow> row_key x \<noteq> k"
  then have "find (\<lambda>x. row_key x = k) (operations j) = None" by (simp add: find_None_iff_all)
  then show ?thesis by (simp add: ledger_of_def)
qed

subsection \<open>The transactions implement the ledger\<close>

lemma apply_fence_refuses:
  assumes "apply_fence now r j = Inl x" "request_ok r"
  shows "x \<in> fence_refusals"
proof (cases "hr_authority r")
  case (Task_lease_authority a)
  then have "0 < la_attempt a" "0 < la_token a" using assms(2)
    by (auto simp: request_ok_def authority_ok_def mk_lease_authority_def positive_int_ok_def)
  then show ?thesis using assms(1) Task_lease_authority
    by (auto simp: apply_fence_def fence_refusals_def split: option.split_asm if_split_asm)
qed (use assms in \<open>simp_all add: apply_fence_def\<close>)

lemma record_receipt_refuses: "record_receipt H r j = Inl x \<Longrightarrow> x = REQUEST_ID_CONFLICT"
  by (auto simp: record_receipt_def split: option.split_asm if_split_asm)

text \<open>The texts that the journal digests are told apart by the digest.\<close>

definition digests_apart :: "(string \<Rightarrow> string) \<Rightarrow> host_request set \<Rightarrow> bool" where
  "digests_apart H R \<longleftrightarrow> inj_on H ((\<lambda>r. dumps (request_json r)) ` R)"

lemma request_digest_inj:
  assumes "digest_length H" "digests_apart H R" "r \<in> R" "q \<in> R" "request_ok r" "request_ok q"
    and "request_digest H r = request_digest H q"
  shows "canonical_request r = canonical_request q"
proof -
  have "hexdigest H (dumps (request_json r)) = hexdigest H (dumps (request_json q))"
    using assms(7) by (simp add: request_digest_def)
  then have "dumps (request_json r) = dumps (request_json q)"
    using hexdigest_inj [OF assms(1)] assms(2-4) by (auto simp: collides_def digests_apart_def inj_on_def)
  then show ?thesis by (rule request_json_inj [OF assms(5,6)])
qed

lemma canonical_same_effect: "canonical_request r = canonical_request q \<Longrightarrow> same_effect r q"
  by (metis canonical_simps(3) canonical_request_def same_effect_def host_request.select_convs(5) host_request.surjective
      host_request.update_convs(5))

lemma same_effect_key: "same_effect r q \<Longrightarrow> request_key r = request_key q"
proof -
  assume e: "same_effect r q"
  have "scope_key r = scope_key q" using e
    by (cases "hr_authority r"; cases "hr_authority q")
      (auto simp: same_effect_def without_lease_def scope_key_def dest: arg_cong [where f = la_job])
  moreover have "ho_name (hr_operation r) = ho_name (hr_operation q)" "ho_key (hr_operation r) = ho_key (hr_operation q)"
    using e by (auto simp: same_effect_def canonical_operation_def elim: host_operation.equality dest: arg_cong [where f = ho_name]
        arg_cong [where f = ho_key])
  ultimately show ?thesis by (simp add: request_key_def)
qed

lemma record_receipt_journal:
  assumes "apply_fence now r j = Inr j0" "record_receipt H r j0 = Inr j1"
  shows "operations j1 = operations j" "deliveries j1 = deliveries j"
  using apply_fence_frame [OF assms(1)] record_receipt_frame [OF assms(2)] by simp_all

text \<open>A delivered request is answered with what its operation is known to have done.\<close>

lemma delivery_replays:
  assumes "digest_length H" "digests_apart H R" "protocol_nesting \<le> limit" "journal_ok H R j"
    and "r \<in> R" "request_ok r" "d \<in> set (deliveries j)" "de_digest d = request_digest H r"
  shows "\<exists>res. delivered_result limit (task_scoped r) d = Inr res \<and>
    ledger_of limit j (request_key r) = Some (Done (semantic_fingerprint H r) res)"
proof -
  have "delivery_ok H R (operations j) d" using assms(4,7) by (simp add: journal_ok_def)
  then obtain r0 res x where d: "r0 \<in> R" "request_ok r0" "de_digest d = request_digest H r0" "x \<in> set (operations j)"
    "row_key x = request_key r0" "op_fingerprint x = semantic_fingerprint H r0" "row_done res x" "result_ok (task_scoped r0) res"
    "de_status d = response_status_value (jr_status res)" "de_code d = jr_code res"
    "de_result d = encode_result (jr_result res)" "de_token d = jr_token res" by (auto simp: delivery_ok_def)
  have e: "same_effect r0 r"
    using request_digest_inj [OF assms(1,2) d(1) assms(5) d(2) assms(6)] d(3) assms(8) canonical_same_effect by simp
  have k: "request_key r0 = request_key r" "task_scoped r0 = task_scoped r"
    using same_effect_key [OF e] by (simp_all add: task_scoped_scope request_key_def)
  have "delivered_result limit (task_scoped r) d = Inr (canonical_result res)"
    using stored_result_reads [OF d(8) assms(3)] by (simp add: delivered_result_def d k)
  moreover have "job_scope (op_scope x) = task_scoped r0" using d(5) by (simp add: task_scoped_scope row_key_def request_key_def)
  then have "row_phase limit x = Some (Done (op_fingerprint x) (canonical_result res))"
    using row_phase_done [OF d(7) _ assms(3)] d(8) by simp
  then have "ledger_of limit j (request_key r) = Some (Done (semantic_fingerprint H r) (canonical_result res))"
    using ledger_row [of j x limit] assms(4) d(4,5,6) k same_effect_fingerprint [OF e] by (simp add: journal_ok_def)
  ultimately show ?thesis by blast
qed

lemma delivery_ok_more:
  "delivery_ok H R xs d \<Longrightarrow> set xs \<subseteq> set ys \<Longrightarrow> delivery_ok H R ys d"
  unfolding delivery_ok_def by blast

lemma reserve_refines:
  assumes "journal_ok H R j" "request_ok r" "find_operation r j = None"
  shows "journal_ok H R (reserve H r j)" "ledger_of limit j (request_key r) = None"
    "ledger_of limit (reserve H r j) = (ledger_of limit j)(request_key r \<mapsto> Running (semantic_fingerprint H r))"
proof -
  have new: "\<forall>x \<in> set (operations j). row_key x \<noteq> request_key r"
    using assms(3) by (simp add: find_operation_key find_None_iff_all)
  obtain y where y: "operations (reserve H r j) = operations j @ [y]" by (simp add: reserve_def)
  then have x: "operations (reserve H r j) = operations j @ [y]" "row_key y = request_key r" "row_running y"
    "op_fingerprint y = semantic_fingerprint H r" "op_request y = hr_id r" "deliveries (reserve H r j) = deliveries j"
    by (auto simp: reserve_def row_key_def request_key_def row_running_def)
  have "row_ok y" using x assms(2) by (auto simp: row_ok_def request_ok_def mk_host_request_def)
  then show "journal_ok H R (reserve H r j)"
    using assms(1) new delivery_ok_more [of H R "operations j" _ "operations j @ [y]"]
    by (auto simp: journal_ok_def x(1,2,6))
  show "ledger_of limit j (request_key r) = None" using new by (intro ledger_None) blast
  have n: "find (\<lambda>x. row_key x = request_key r) (operations j) = None" using new by (simp add: find_None_iff_all)
  show "ledger_of limit (reserve H r j) = (ledger_of limit j)(request_key r \<mapsto> Running (semantic_fingerprint H r))"
  proof (rule ext)
    fix k
    show "ledger_of limit (reserve H r j) k = ((ledger_of limit j)(request_key r \<mapsto> Running (semantic_fingerprint H r))) k"
      using x(2-4) n by (auto simp: ledger_of_def x(1) find_append row_phase_def row_running_def split: option.split)
  qed
qed

lemma record_delivery_ok:
  assumes "journal_ok H R j" "r \<in> R" "request_ok r" "x \<in> set (operations j)" "row_key x = request_key r"
    and "op_fingerprint x = semantic_fingerprint H r" "row_done res x" "result_ok (task_scoped r) res"
    and "record_delivery H r res' j = Inr j'" "res' = res \<or> res' = canonical_result res"
  shows "journal_ok H R j'" "operations j' = operations j"
proof -
  have o: "operations j' = operations j" using record_delivery_frame [OF assms(9)] by simp
  obtain d where d: "deliveries j' = deliveries j @ [d]" "de_digest d = request_digest H r" "de_code d = jr_code res"
    "de_status d = response_status_value (jr_status res)" "de_result d = encode_result (jr_result res)" "de_token d = jr_token res"
    using assms(9,10) by (auto simp: record_delivery_def canonical_result_def encode_result_def split: if_split_asm)
  have "delivery_ok H R (operations j) d" unfolding delivery_ok_def
    by (intro bexI [OF _ assms(2)] exI [of _ res] bexI [OF _ assms(4)]) (simp add: assms d)
  then show "journal_ok H R j'" using assms(1) by (auto simp: journal_ok_def o d(1))
  show "operations j' = operations j" by (rule o)
qed

lemma decide_refines:
  assumes "journal_ok H R j" "r \<in> R" "request_ok r" "protocol_nesting \<le> limit"
    and "find (\<lambda>d. de_request d = hr_id r) (deliveries j) = None"
  shows "(\<exists>a j'. decide_operation H limit r j = Inr (a, j') \<and> journal_ok H R j' \<and>
      ledger_step H (ledger_of limit j) (Begin_request r t, A_decision a) (ledger_of limit j')) \<or>
    (decide_operation H limit r j = Inl IDEMPOTENCY_CONFLICT \<and>
      ledger_step H (ledger_of limit j) (Begin_request r t, A_refused IDEMPOTENCY_CONFLICT) (ledger_of limit j))"
proof (cases "find_operation r j")
  case None
  then show ?thesis using reserve_refines [OF assms(1,3) None] ledger_step.execute [of "ledger_of limit j" r H t]
    by (simp add: decide_operation_def)
next
  case (Some x)
  have x: "x \<in> set (operations j)" "row_key x = request_key r"
    using Some find_Some_in by (fastforce simp: find_operation_key)+
  have L: "ledger_of limit j (request_key r) = row_phase limit x"
    using ledger_row [of j x limit] assms(1) x by (simp add: journal_ok_def)
  have scope: "job_scope (op_scope x) = task_scoped r" using x(2) by (simp add: task_scoped_scope row_key_def request_key_def)
  have "row_ok x" using assms(1) x(1) by (simp add: journal_ok_def)
  then show ?thesis using assms(4)
  proof (cases rule: row_phase_ok)
    case running
    then show ?thesis using Some assms(1) L
      by (auto simp: decide_operation_def row_running_def intro: ledger_step.intros)
  next
    case (finished res)
    show ?thesis
    proof (cases "op_fingerprint x = semantic_fingerprint H r")
      case True
      obtain j' where j': "record_delivery H r (canonical_result res) j = Inr j'"
        using assms(5) by (auto simp: record_delivery_def list_ex_iff find_None_iff_all)
      have r: "result_ok (task_scoped r) res" using finished(2) scope by simp
      have d: "decide_operation H limit r j = Inr (REPLAY (canonical_result res), j')"
        using Some True row_done_not_running [OF finished(1)] operation_result_done [OF finished(1) r assms(4)] j'
        by (simp add: decide_operation_def)
      note k = record_delivery_ok [OF assms(1-3) x True finished(1) r j']
      have "ledger_step H (ledger_of limit j) (Begin_request r t, A_decision (REPLAY (canonical_result res))) (ledger_of limit j)"
        using L finished(3) True by (intro ledger_step.replay) simp
      then show ?thesis using d k ledger_frame by (metis (full_types))
    next
      case False
      then show ?thesis using Some L finished(3) by (auto simp: decide_operation_def intro: ledger_step.conflict)
    qed
  qed
qed

lemma journal_begin_unfenced:
  "bindE (apply_fence t r j) (record_receipt H r) = Inl x \<Longrightarrow> journal_begin H limit t r j = (Inl x, j)"
  by (simp only: journal_begin_def sum.case)

lemma journal_begin_fenced:
  assumes "apply_fence t r j = Inr j0" "record_receipt H r j0 = Inr j1"
  shows "journal_begin H limit t r j = (case find (\<lambda>d. de_request d = hr_id r) (deliveries j1) of
     Some d \<Rightarrow> if de_digest d \<noteq> request_digest H r then (Inl REQUEST_ID_CONFLICT, j)
       else (bindE (delivered_result limit (task_scoped r) d) (\<lambda>result. Inr (REPLAY result)), j1)
   | None \<Rightarrow> (case decide_operation H limit r j1 of Inl x \<Rightarrow> (Inl x, j) | Inr (a, j2) \<Rightarrow> (Inr a, j2)))"
  using assms by (simp add: journal_begin_def)

lemma begin_refines:
  assumes "digest_length H" "digests_apart H R" "protocol_nesting \<le> limit" "journal_ok H R j" "r \<in> R" "request_ok r"
    and "exec_journal H limit (Begin_request r t) j = Inr (a, j')"
  shows "journal_ok H R j' \<and> ledger_step H (ledger_of limit j) (Begin_request r t, a) (ledger_of limit j')"
proof (cases "bindE (apply_fence t r j) (record_receipt H r)")
  case (Inl x)
  have a: "a = A_refused x" "j' = j" using assms(7) journal_begin_unfenced [OF Inl, of limit] by auto
  have "x \<in> fence_refusals \<or> x = REQUEST_ID_CONFLICT"
    using Inl apply_fence_refuses [OF _ assms(6)] record_receipt_refuses by auto
  then show ?thesis using a assms(4) ledger_step.fenced ledger_step.reused by blast
next
  case (Inr j1)
  then obtain j0 where p: "apply_fence t r j = Inr j0" "record_receipt H r j0 = Inr j1" by auto
  note b = journal_begin_fenced [OF p, of limit] and f = record_receipt_journal [OF p]
  have k: "journal_ok H R j1" "ledger_of limit j1 = ledger_of limit j"
    using journal_ok_frame [OF assms(4) f] ledger_frame [OF f(1)] by auto
  show ?thesis
  proof (cases "find (\<lambda>d. de_request d = hr_id r) (deliveries j1)")
    case None
    consider a2 j2 where "decide_operation H limit r j1 = Inr (a2, j2)" "journal_ok H R j2"
        "ledger_step H (ledger_of limit j1) (Begin_request r t, A_decision a2) (ledger_of limit j2)"
      | "decide_operation H limit r j1 = Inl IDEMPOTENCY_CONFLICT"
        "ledger_step H (ledger_of limit j1) (Begin_request r t, A_refused IDEMPOTENCY_CONFLICT) (ledger_of limit j1)"
      using decide_refines [OF k(1) assms(5,6,3) None] by blast
    then show ?thesis using assms(4,7) None k(2) by cases (auto simp: b)
  next
    case (Some d)
    show ?thesis
    proof (cases "de_digest d = request_digest H r")
      case True
      obtain res where "delivered_result limit (task_scoped r) d = Inr res"
        "ledger_of limit j1 (request_key r) = Some (Done (semantic_fingerprint H r) res)"
        using delivery_replays [OF assms(1-3) k(1) assms(5,6) _ True] find_Some_in [OF Some] by blast
      then show ?thesis using assms(7) Some True k by (auto simp: b intro: ledger_step.replay)
    next
      case False
      then have "a = A_refused REQUEST_ID_CONFLICT" "j' = j" using assms(7) Some by (auto simp: b)
      then show ?thesis using assms(4) ledger_step.reused by blast
    qed
  qed
qed

lemma filter_key:
  assumes "distinct (map f xs)" "x \<in> set xs"
  shows "filter (\<lambda>y. f y = f x \<and> Q y) xs = (if Q x then [x] else [])"
  using assms
proof (induction xs)
  case (Cons y ys)
  have "filter (\<lambda>y. f y = f x \<and> Q y) ys = []" if "f x \<notin> f ` set ys" for x
    using that by (intro filter_False) (metis imageI)
  then show ?case using Cons by (cases "x = y") (auto simp: image_iff)
qed simp

lemma running_operation_key:
  "running_operation H r = (\<lambda>y. row_key y = request_key r \<and> op_fingerprint y = semantic_fingerprint H r \<and> op_state y = ''RUNNING'')"
  by (rule ext) (simp add: running_operation_def is_operation_key)

text \<open>The one running row of the operation, when the ledger says it runs.\<close>

lemma running_rows:
  assumes "journal_ok H R j"
  shows "length (filter (running_operation H r) (operations j)) = 1 \<longleftrightarrow>
    ledger_of limit j (request_key r) = Some (Running (semantic_fingerprint H r))"
proof (cases "find (\<lambda>x. row_key x = request_key r) (operations j)")
  case None
  then have "filter (running_operation H r) (operations j) = []"
    by (auto simp: filter_empty_conv find_None_iff_all running_operation_key)
  then show ?thesis using None by (simp add: ledger_of_def)
next
  case (Some x)
  have x: "x \<in> set (operations j)" "row_key x = request_key r" using find_Some_in [OF Some] by simp_all
  have d: "distinct (map row_key (operations j))" using assms by (simp add: journal_ok_def)
  have "filter (running_operation H r) (operations j) =
      (if op_fingerprint x = semantic_fingerprint H r \<and> op_state x = ''RUNNING'' then [x] else [])"
    using filter_key [OF d x(1)] x(2) by (simp add: running_operation_key)
  then show ?thesis using Some by (simp add: ledger_of_def row_phase_def split: sum.split)
qed

lemma finish_rows:
  assumes "protocol_nesting \<le> limit" "journal_ok H R j" "request_ok r" "result_ok (task_scoped r) res"
    and "ledger_of limit j (request_key r) = Some (Running (semantic_fingerprint H r))"
    and "ops = upd_rows (running_operation H r) (finish_row res) (operations j)"
  shows "journal_ok H R (j\<lparr>operations := ops\<rparr>)"
    "\<exists>x \<in> set ops. row_key x = request_key r \<and> op_fingerprint x = semantic_fingerprint H r \<and> row_done res x"
    "operations k = ops \<Longrightarrow> ledger_of limit k =
       (ledger_of limit j)(request_key r \<mapsto> Done (semantic_fingerprint H r) (canonical_result res))"
proof -
  have find_ops: "find (\<lambda>x. row_key x = k) ops =
      map_option (\<lambda>x. if running_operation H r x then finish_row res x else x) (find (\<lambda>x. row_key x = k) (operations j))" for k
    unfolding assms(6) by (rule find_upd_rows) simp
  have scope: "job_scope (op_scope x) = task_scoped r" if "running_operation H r x" for x
    using that by (simp add: task_scoped_scope running_operation_key row_key_def request_key_def)
  obtain x where x: "find (\<lambda>x. row_key x = request_key r) (operations j) = Some x" "running_operation H r x"
    using assms(5) by (auto simp: ledger_of_def row_phase_def running_operation_key bind_eq_Some_conv split: if_split_asm sum.split_asm
        dest: find_Some_in)
  have xin: "x \<in> set (operations j)" using find_Some_in [OF x(1)] by simp
  show in_ops: "\<exists>x \<in> set ops. row_key x = request_key r \<and> op_fingerprint x = semantic_fingerprint H r \<and> row_done res x"
    using xin x(2) by (intro bexI [of _ "finish_row res x"]) (auto simp: assms(6) set_upd_rows running_operation_key)
  have rows: "row_ok y" if "y \<in> set ops" for y
    using that assms(2,4) scope by (fastforce simp: assms(6) set_upd_rows journal_ok_def row_ok_def split: if_split_asm)
  have deliveries_kept: "delivery_ok H R ops d" if "delivery_ok H R (operations j) d" for d
  proof -
    have "y \<in> set ops" if "y \<in> set (operations j)" "row_done res' y" for y res'
      using that row_done_not_running [of res' y] by (force simp: assms(6) set_upd_rows running_operation_key)
    then show ?thesis using that unfolding delivery_ok_def by blast
  qed
  have "map row_key ops = map row_key (operations j)" unfolding assms(6) by (rule map_upd_rows) simp
  then show "journal_ok H R (j\<lparr>operations := ops\<rparr>)" using assms(2) rows deliveries_kept by (simp add: journal_ok_def)
  show "ledger_of limit k = (ledger_of limit j)(request_key r \<mapsto> Done (semantic_fingerprint H r) (canonical_result res))"
    if k: "operations k = ops"
  proof (rule ext)
    fix key
    show "ledger_of limit k key = ((ledger_of limit j)(request_key r \<mapsto> Done (semantic_fingerprint H r) (canonical_result res))) key"
    proof (cases "key = request_key r")
      case True
      have "row_phase limit (finish_row res x) = Some (Done (semantic_fingerprint H r) (canonical_result res))"
        using row_phase_done [of res "finish_row res x"] scope [OF x(2)] assms(1,4) x(2) by (simp add: running_operation_key)
      then show ?thesis using True x by (simp add: ledger_of_def k find_ops)
    next
      case False
      have "\<not> running_operation H r y" if "find (\<lambda>x. row_key x = key) (operations j) = Some y" for y
        using find_Some_in [OF that] False by (simp add: running_operation_key)
      then show ?thesis using False by (cases "find (\<lambda>x. row_key x = key) (operations j)") (simp_all add: ledger_of_def k find_ops)
    qed
  qed
qed

lemma assert_current_fence_refuses: "assert_current_fence t r j = Inl x \<Longrightarrow> x \<in> fence_refusals"
  by (auto simp: assert_current_fence_def fence_refusals_def split: host_authority.split_asm option.split_asm if_split_asm)

lemma finish_refines:
  assumes "protocol_nesting \<le> limit" "journal_ok H R j" "r \<in> R" "request_ok r" "result_ok (task_scoped r) res"
    and "exec_journal H limit (Finish_request r res t) j = Inr (a, j')"
  shows "journal_ok H R j' \<and> ledger_step H (ledger_of limit j) (Finish_request r res t, a) (ledger_of limit j')"
  using assms(6)
proof (cases rule: exec_finish)
  case (refused x)
  consider "assert_current_fence t r j = Inl x" | "length (filter (running_operation H r) (operations j)) \<noteq> 1" "x = OPERATION_NOT_RESERVED"
    | "x = JOURNAL_UNAVAILABLE"
    using refused(3) by (auto simp: journal_finish_def record_delivery_def split: if_split_asm)
  then show ?thesis
  proof cases
    case 1
    then show ?thesis using refused assms(2) assert_current_fence_refuses ledger_step.fenced by blast
  next
    case 2
    then show ?thesis using refused assms(2) running_rows [OF assms(2)] by (simp add: ledger_step.unreserved)
  next
    case 3
    then show ?thesis using refused assms(2) by (simp add: ledger_step.delivered)
  qed
next
  case finished
  note f = journal_finish_Inr [OF finished(1)]
  let ?m = "j\<lparr>operations := upd_rows (running_operation H r) (finish_row res) (operations j)\<rparr>"
  have L: "ledger_of limit j (request_key r) = Some (Running (semantic_fingerprint H r))"
    using running_rows [OF assms(2)] f(2) by blast
  note rows = finish_rows [OF assms(1,2,4,5) L refl]
  obtain x where x: "x \<in> set (operations ?m)" "row_key x = request_key r" "op_fingerprint x = semantic_fingerprint H r" "row_done res x"
    using rows(2) by auto
  have "record_delivery H r res ?m = Inr j'" using finished(1) f(2) by (simp add: journal_finish_def split: if_split_asm)
  from record_delivery_ok(1) [OF rows(1) assms(3,4) x assms(5) this]
  show ?thesis using rows(3) [OF f(3)] L by (simp add: finished(2) ledger_step.finish)
qed

subsection \<open>Runs implement the ledger\<close>

fun command_request :: "journal_command \<Rightarrow> host_request" where
  "command_request (Begin_request r _) = r"
| "command_request (Finish_request r _ _) = r"
| "command_request (Check_request r _) = r"

text \<open>A command as the dispatcher issues it: on a decoded request, with a checked result.\<close>

fun command_ok :: "journal_command \<Rightarrow> bool" where
  "command_ok (Begin_request r _) = request_ok r"
| "command_ok (Finish_request r res _) = (request_ok r \<and> result_ok (task_scoped r) res)"
| "command_ok (Check_request r _) = request_ok r"

lemma exec_refines:
  assumes "digest_length H" "digests_apart H R" "protocol_nesting \<le> limit" "journal_ok H R j"
    and "command_ok c" "command_request c \<in> R" "exec_journal H limit c j = Inr (a, j')"
  shows "journal_ok H R j' \<and> ledger_step H (ledger_of limit j) (c, a) (ledger_of limit j')"
proof (cases c)
  case (Begin_request r t)
  then show ?thesis using begin_refines [OF assms(1-4)] assms(5-7) by (simp del: exec_journal.simps)
next
  case (Finish_request r res t)
  then show ?thesis using finish_refines [OF assms(3,4) _ _ _ assms(7) [unfolded Finish_request]] assms(5,6) by simp
next
  case (Check_request r t)
  note e = exec_check [OF assms(7) [unfolded Check_request]]
  have "ledger_step H (ledger_of limit j) (Check_request r t, a) (ledger_of limit j)"
    using e assert_current_fence_refuses [of t r j] ledger_step.checked ledger_step.fenced
    by (auto simp: assert_authorized_def split: sum.split)
  then show ?thesis using e assms(4) Check_request by simp
qed

lemma journal_trace_Cons:
  "exec_journal H limit c j = Inr (a, j') \<Longrightarrow> journal_trace H limit (c # cs) j = (c, a) # journal_trace H limit cs j'"
  by simp

lemma run_refines:
  assumes "digest_length H" "digests_apart H R" "protocol_nesting \<le> limit"
  shows "journal_ok H R j \<Longrightarrow> \<forall>c \<in> set cs. command_ok c \<and> command_request c \<in> R \<Longrightarrow>
    journal_ok H R (run_service (exec_journal H limit) cs j) \<and>
    ledger_run H (ledger_of limit j) (journal_trace H limit cs j) (ledger_of limit (run_service (exec_journal H limit) cs j))"
proof (induction cs arbitrary: j)
  case (Cons c cs)
  obtain a j' where x: "exec_journal H limit c j = Inr (a, j')" using exec_journal_returns by blast
  have c: "command_ok c" "command_request c \<in> R" using Cons.prems(2) by simp_all
  note s = exec_refines [OF assms Cons.prems(1) c x]
  then have "journal_ok H R (run_service (exec_journal H limit) cs j') \<and> ledger_run H (ledger_of limit j')
      (journal_trace H limit cs j') (ledger_of limit (run_service (exec_journal H limit) cs j'))"
    using Cons.IH Cons.prems(2) by simp
  then show ?case using s x by (auto simp: ledger_next simp del: exec_journal.simps)
qed (simp add: ledger_start)

text \<open>What a run of the ledger executes and finishes.\<close>

fun executed_key :: "journal_command \<times> journal_answer \<Rightarrow> operation_key option" where
  "executed_key (Begin_request r _, A_decision EXECUTE) = Some (request_key r)"
| "executed_key _ = None"

fun finished_key :: "journal_command \<times> journal_answer \<Rightarrow> operation_key option" where
  "finished_key (Finish_request r _ _, A_done) = Some (request_key r)"
| "finished_key _ = None"

definition keys_of :: "('e \<Rightarrow> operation_key option) \<Rightarrow> 'e list \<Rightarrow> operation_key list" where
  "keys_of f es = List.map_filter f es"

lemma keys_of_simps [simp]: "keys_of f [] = []"
  "keys_of f (e # es) = (case f e of None \<Rightarrow> keys_of f es | Some k \<Rightarrow> k # keys_of f es)"
  by (simp_all add: keys_of_def map_filter_simps split: option.split)

lemma ledger_step_keys:
  assumes "ledger_step H L e L'"
  shows "executed_key e = Some k \<Longrightarrow> L k = None \<and> L' k \<noteq> None"
    "finished_key e = Some k \<Longrightarrow> \<exists>f res. L k = Some (Running f) \<and> L' k = Some (Done f res)"
    "L k \<noteq> None \<Longrightarrow> L' k \<noteq> None" "L k = Some (Done f res) \<Longrightarrow> L' k = Some (Done f res)"
    "L k = None \<Longrightarrow> L' k \<noteq> None \<Longrightarrow> executed_key e = Some k"
  using assms by (cases; auto split: if_split_asm)+

lemma ledger_run_executed:
  "ledger_run H L es L' \<Longrightarrow> distinct (keys_of executed_key es) \<and> (\<forall>k \<in> set (keys_of executed_key es). L k = None)"
proof (induction rule: ledger_run.induct)
  case (ledger_next L e L' es L'')
  have "L k = None" if "k \<in> set (keys_of executed_key es)" for k
    using that ledger_next.IH ledger_step_keys(3) [OF ledger_next(1)] by blast
  then show ?case using ledger_next.IH ledger_step_keys(1) [OF ledger_next(1)] by (auto split: option.split)
qed simp

lemma ledger_run_finished:
  "ledger_run H L es L' \<Longrightarrow> distinct (keys_of finished_key es) \<and>
     (\<forall>k \<in> set (keys_of finished_key es). \<forall>f res. L k \<noteq> Some (Done f res))"
proof (induction rule: ledger_run.induct)
  case (ledger_next L e L' es L'')
  have "\<forall>f res. L k \<noteq> Some (Done f res)" if "k \<in> set (keys_of finished_key es)" for k
    using that ledger_next.IH ledger_step_keys(4) [OF ledger_next(1)] by blast
  moreover have "\<forall>f res. L k \<noteq> Some (Done f res)" "k \<notin> set (keys_of finished_key es)" if "finished_key e = Some k" for k
    using ledger_step_keys(2) [OF ledger_next(1) that] ledger_next.IH by auto
  ultimately show ?case using ledger_next.IH by (auto split: option.split)
qed simp

lemma ledger_run_reserved:
  "ledger_run H L es L' \<Longrightarrow> k \<in> set (keys_of finished_key es) \<Longrightarrow> L k = None \<Longrightarrow> k \<in> set (keys_of executed_key es)"
proof (induction rule: ledger_run.induct)
  case (ledger_next L e L' es L'')
  have "finished_key e \<noteq> Some k" using ledger_step_keys(2) [OF ledger_next(1), of k] ledger_next.prems(2) by auto
  then have "k \<in> set (keys_of finished_key es)" using ledger_next.prems(1) by (auto split: option.split_asm)
  then show ?case using ledger_next.IH ledger_step_keys(5) [OF ledger_next(1) ledger_next.prems(2)]
    by (cases "L' k") (auto split: option.split)
qed simp

lemma ledger_run_done:
  "ledger_run H L es L' \<Longrightarrow> L k = Some (Done f res) \<Longrightarrow> L' k = Some (Done f res)"
  by (induction rule: ledger_run.induct) (simp_all add: ledger_step_keys(4))

lemma ledger_run_take: "ledger_run H L es L' \<Longrightarrow> \<exists>L''. ledger_run H L (take n es) L''"
proof (induction arbitrary: n rule: ledger_run.induct)
  case (ledger_start L)
  show ?case using ledger_run.ledger_start by (metis take_Nil)
next
  case (ledger_next L e L' es L'')
  show ?case
  proof (cases n)
    case 0
    then show ?thesis using ledger_run.ledger_start by auto
  next
    case (Suc m)
    then show ?thesis using ledger_next.IH [of m] ledger_run.ledger_next [OF ledger_next(1)] by auto
  qed
qed

subsection \<open>Properties\<close>

definition requests_of :: "journal_command list \<Rightarrow> host_request set" where
  "requests_of cs = command_request ` set cs"

lemma run_from_empty:
  assumes "digest_length H" "digests_apart H R" "protocol_nesting \<le> limit" "\<forall>c \<in> set cs. command_ok c" "requests_of cs \<subseteq> R"
  shows "journal_ok H R (run_service (exec_journal H limit) cs empty_journal)"
    "ledger_run H (\<lambda>_. None) (journal_trace H limit cs empty_journal)
       (ledger_of limit (run_service (exec_journal H limit) cs empty_journal))"
proof -
  have c: "\<forall>c \<in> set cs. command_ok c \<and> command_request c \<in> R" using assms(4,5) by (auto simp: requests_of_def)
  have "ledger_of limit empty_journal = (\<lambda>_. None)" by (rule ext) (simp add: ledger_of_def empty_journal_def)
  then show "journal_ok H R (run_service (exec_journal H limit) cs empty_journal)"
    "ledger_run H (\<lambda>_. None) (journal_trace H limit cs empty_journal)
       (ledger_of limit (run_service (exec_journal H limit) cs empty_journal))"
    using run_refines [OF assms(1-3) journal_ok_empty c] by simp_all
qed

text \<open>C33. The journal implements the ledger.  For any run of transactions on decoded requests and checked
  results, in any order, on a journal that was empty, every answer is one the ledger allows for what
  it holds at that moment, and what can be read from the tables afterwards is the ledger after the
  run.  In particular no transaction ever finds the journal corrupt, every replay returns the
  result that was stored for an operation with this fingerprint, and a reservation is only
  answered when the operation is new.  SHA-256 is assumed to tell the texts of the requests of the
  run apart.\<close>

theorem journal_refines_ledger:
  assumes "digest_length H" "digests_apart H (requests_of cs)" "protocol_nesting \<le> limit" "\<forall>c \<in> set cs. command_ok c"
  shows "ledger_run H (\<lambda>_. None) (journal_trace H limit cs empty_journal)
    (ledger_of limit (run_service (exec_journal H limit) cs empty_journal))"
  by (rule run_from_empty(2) [OF assms order_refl])

text \<open>C34. Operations are executed at most once.  In such a run no operation (scope, name and idempotency
  key) is handed out for execution twice, none is finished twice, and at every moment each finished
  operation was handed out before: an effect that was reserved and whose outcome was lost stays
  ambiguous instead of being run again.\<close>

theorem execute_once:
  assumes "digest_length H" "digests_apart H (requests_of cs)" "protocol_nesting \<le> limit" "\<forall>c \<in> set cs. command_ok c"
  shows "let es = journal_trace H limit cs empty_journal in
    distinct (keys_of executed_key es) \<and> distinct (keys_of finished_key es) \<and>
    set (keys_of finished_key (take n es)) \<subseteq> set (keys_of executed_key (take n es))"
proof -
  note r = run_from_empty(2) [OF assms order_refl]
  obtain L where "ledger_run H (\<lambda>_. None) (take n (journal_trace H limit cs empty_journal)) L"
    using ledger_run_take [OF r] by blast
  then have "set (keys_of finished_key (take n (journal_trace H limit cs empty_journal))) \<subseteq>
      set (keys_of executed_key (take n (journal_trace H limit cs empty_journal)))"
    using ledger_run_reserved by blast
  then show ?thesis using ledger_run_executed [OF r] ledger_run_finished [OF r] by (simp add: Let_def)
qed

text \<open>C35. A finished operation is answered for ever with its result.  After a request was finished with a
  result, and any further transactions, every later request for the same effect, under whatever
  lease and request id, is answered by a replay of exactly this result (its payload with keys in
  order), unless the fence refuses the lease or the request id was used for another request.\<close>

theorem replay_faithful:
  assumes "digest_length H" "protocol_nesting \<le> limit"
    and "\<forall>c \<in> set (cs @ Finish_request r res t # ds @ [Begin_request q u]). command_ok c"
    and "digests_apart H (requests_of (cs @ Finish_request r res t # ds @ [Begin_request q u]))"
    and "exec_journal H limit (Finish_request r res t) (run_service (exec_journal H limit) cs empty_journal) = Inr (A_done, j)"
    and "exec_journal H limit (Begin_request q u) (run_service (exec_journal H limit) ds j) = Inr (a, j')"
    and "same_effect r q"
  shows "a = A_decision (REPLAY (res\<lparr>jr_result := jsort (jr_result res)\<rparr>)) \<or>
    (\<exists>x \<in> insert REQUEST_ID_CONFLICT fence_refusals. a = A_refused x)"
proof -
  let ?R = "requests_of (cs @ Finish_request r res t # ds @ [Begin_request q u])"
  have ok: "\<forall>c \<in> set cs. command_ok c" "request_ok r" "result_ok (task_scoped r) res" "\<forall>c \<in> set ds. command_ok c \<and> command_request c \<in> ?R"
    "request_ok q" "r \<in> ?R" "q \<in> ?R" "requests_of cs \<subseteq> ?R"
    using assms(3) by (auto simp: requests_of_def)
  note j0 = run_from_empty(1) [OF assms(1,4,2) ok(1,8)]
  have j: "journal_ok H ?R j" "ledger_of limit j (request_key r) = Some (Done (semantic_fingerprint H r) (canonical_result res))"
    using finish_refines [OF assms(2) j0 ok(6,2,3) assms(5)] by (auto simp: ledger_step_finish fence_refusals_def)
  note d = run_refines [OF assms(1,4,2) j(1) ok(4)]
  have "ledger_of limit (run_service (exec_journal H limit) ds j) (request_key q) =
      Some (Done (semantic_fingerprint H q) (canonical_result res))"
    using ledger_run_done [OF conjunct2 [OF d] j(2)] same_effect_key [OF assms(7)] same_effect_fingerprint [OF assms(7)] by simp
  then show ?thesis using begin_refines [OF assms(1,4,2) conjunct1 [OF d] ok(7,5) assms(6)]
    by (auto simp: ledger_step_begin canonical_result_def)
qed

text \<open>A lease behind the fence of its job.\<close>

lemma behind_fence:
  assumes "hr_authority q = Task_lease_authority b" "la_token b < fence_token j (la_job b)" "request_ok q"
  shows "apply_fence u q j = Inl FENCED \<or> apply_fence u q j = Inl JOURNAL_LEASE_EXPIRED"
    "assert_current_fence u q j = Inl FENCED"
proof -
  have "0 < la_token b"
    using assms(1,3) by (auto simp: request_ok_def authority_ok_def mk_lease_authority_def positive_int_ok_def)
  then obtain f where f: "find_fence (la_job b) j = Some f" "la_token b < fe_token f"
    using assms(2) by (cases "find_fence (la_job b) j") (auto simp: fence_token_def)
  show "apply_fence u q j = Inl FENCED \<or> apply_fence u q j = Inl JOURNAL_LEASE_EXPIRED"
    using f assms(1) by (simp add: apply_fence_def)
  show "assert_current_fence u q j = Inl FENCED" using f assms(1) by (simp add: assert_current_fence_def)
qed

text \<open>C36. A stale lease can do nothing.  Once a request under some lease of a job was let through, then after
  any further transactions a request under a lease of the same job with a smaller fencing token is
  refused on every path, to begin an operation, to store an outcome, or to go on with an effect, and
  leaves the journal as it is.\<close>

theorem stale_lease_fenced:
  assumes "exec_journal H limit (Begin_request r t) j = Inr (A_decision d, j1)"
    and "hr_authority r = Task_lease_authority a" "hr_authority q = Task_lease_authority b"
    and "request_ok q" "la_job b = la_job a" "la_token b < la_token a"
  shows "let j2 = run_service (exec_journal H limit) cs j1 in
    (exec_journal H limit (Begin_request q u) j2 = Inr (A_refused FENCED, j2) \<or>
     exec_journal H limit (Begin_request q u) j2 = Inr (A_refused JOURNAL_LEASE_EXPIRED, j2)) \<and>
    exec_journal H limit (Finish_request q res u) j2 = Inr (A_refused FENCED, j2) \<and>
    exec_journal H limit (Check_request q u) j2 = Inr (A_refused FENCED, j2)"
proof -
  let ?j2 = "run_service (exec_journal H limit) cs j1"
  obtain j0 where j0: "apply_fence t r j = Inr j0" "fences j1 = fences j0"
  proof -
    obtain ans where "journal_begin H limit t r j = (ans, j1)" "A_decision d = (case ans of Inl x \<Rightarrow> A_refused x | Inr d \<Rightarrow> A_decision d)"
      using assms(1) by (elim exec_begin) auto
    then have "journal_begin H limit t r j = (Inr d, j1)" by (cases ans) auto
    then show ?thesis using that by (elim journal_begin_accepts) blast
  qed
  have "la_token a = fence_token j1 (la_job a)"
    using apply_fence_lease [OF j0(1) assms(2)] find_fence_frame [OF j0(2)] by (auto simp: fence_token_def)
  also have "\<dots> \<le> fence_token ?j2 (la_job a)" by (rule journal_fence.run_mono) simp
  finally have b: "la_token b < fence_token ?j2 (la_job b)" using assms(5,6) by simp
  note f = behind_fence [OF assms(3) b assms(4), of u]

  have "bindE (apply_fence u q ?j2) (record_receipt H q) = Inl FENCED \<or>
      bindE (apply_fence u q ?j2) (record_receipt H q) = Inl JOURNAL_LEASE_EXPIRED" using f(1) by auto
  then have "journal_begin H limit u q ?j2 = (Inl FENCED, ?j2) \<or> journal_begin H limit u q ?j2 = (Inl JOURNAL_LEASE_EXPIRED, ?j2)"
    using journal_begin_unfenced by blast
  then show ?thesis using f(2) by (auto simp: Let_def journal_finish_def assert_authorized_def)
qed

text \<open>C37. The status query tells the truth.  After any such run the reconciliation query succeeds for every
  key and reports nothing for an operation that was never reserved, RUNNING for one whose outcome
  is not stored, and the stored outcome, with its status, code and fencing token, for the others.\<close>

theorem status_reports_ledger:
  assumes "digest_length H" "digests_apart H (requests_of cs)" "protocol_nesting \<le> limit" "\<forall>c \<in> set cs. command_ok c"
    and "j = run_service (exec_journal H limit) cs empty_journal"
  shows "\<exists>s. journal_status scope name key j = Inr s \<and> (case ledger_of limit j (scope, name, key) of
      None \<Rightarrow> s = None
    | Some (Running f) \<Rightarrow> map_option os_state s = Some ''RUNNING'' \<and> map_option os_status s = Some None
    | Some (Done f res) \<Rightarrow> map_option os_state s = Some (if jr_status res = R_OK then ''SUCCEEDED'' else ''FAILED'') \<and>
        map_option os_status s = Some (Some (jr_status res)) \<and> map_option os_code s = Some (Some (jr_code res)) \<and>
        map_option os_token s = Some (jr_token res))"
proof -
  have ok: "journal_ok H (requests_of cs) j" using run_from_empty(1) [OF assms(1-4) order_refl] assms(5) by simp
  have k: "is_operation scope name key = (\<lambda>x. row_key x = (scope, name, key))"
    by (rule ext) (auto simp: is_operation_def row_key_def)
  show ?thesis
  proof (cases "find (\<lambda>x. row_key x = (scope, name, key)) (operations j)")
    case None
    then show ?thesis by (simp add: journal_status_def k ledger_of_def)
  next
    case (Some x)
    have x: "row_ok x" "op_scope x = scope" using find_Some_in [OF Some] ok by (auto simp: journal_ok_def row_key_def)
    from x(1) assms(3) show ?thesis
    proof (cases rule: row_phase_ok)
      case running
      then show ?thesis using Some x(1)
        by (simp add: journal_status_def k ledger_of_def row_running_def row_ok_def corrupt_def stored_fencing_token_def)
    next
      case (finished res)
      then show ?thesis using Some x
        by (cases "jr_token res") (auto simp: journal_status_def k ledger_of_def row_done_def row_ok_def corrupt_def stored_fencing_token_def
            canonical_result_def result_ok_def job_scope_def)
    qed
  qed
qed

subsection \<open>A sample run\<close>

definition sample_result :: journal_result where
  "sample_result = \<lparr>jr_status = R_OK, jr_code = ''OK'', jr_result = JObj [(''sha'', JStr ''c'')], jr_token = Some 1\<rparr>"

lemma sample_result_ok: "result_ok True sample_result"
  by (simp add: result_ok_def sample_result_def json_object_same json_bounds sample_texts_ok positive_int_ok_def)

lemma sample_scoped: "task_scoped sample_request"
  by (simp add: task_scoped_def sample_request_def)

text \<open>The same effect under the next lease, with a request id of its own.\<close>

definition sample_again :: host_request where
  "sample_again = sample_retry\<lparr>hr_id := 302240678275694148452353\<rparr>"

lemma sample_again_ok: "request_ok sample_again"
proof -
  have "uuid_version4 302240678275694148452353" by (simp add: uuid_version4_def)
  moreover have "authority_ok (hr_authority sample_again)" using sample_lease_ok(2) by (simp add: sample_again_def sample_retry_def)
  ultimately show ?thesis using sample_request_ok
    by (simp add: request_ok_def mk_host_request_def sample_again_def sample_retry_def)
qed

lemma sample_same_effect: "same_effect sample_request sample_again"
  by (simp add: same_effect_def sample_again_def sample_retry_def sample_request_def without_lease_def)

text \<open>A digest that tells the two requests apart.\<close>

definition sample_H2 :: "string \<Rightarrow> string" where
  "sample_H2 s = replicate 32 (if s = dumps (request_json sample_request) then CHR 0x01 else CHR 0x00)"

lemma sample_H2_length: "digest_length sample_H2"
  by (simp add: digest_length_def sample_H2_def)

lemma sample_H2_apart: "digests_apart sample_H2 {sample_request, sample_again}"
proof -
  have "hr_id sample_again \<noteq> hr_id sample_request" by (simp add: sample_again_def sample_request_def)
  then have "canonical_request sample_again \<noteq> canonical_request sample_request" using canonical_simps(4) by metis
  then have "dumps (request_json sample_again) \<noteq> dumps (request_json sample_request)"
    using request_json_inj [OF sample_again_ok sample_request_ok] by blast
  then show ?thesis by (simp add: digests_apart_def sample_H2_def)
qed

abbreviation sample_commands :: "journal_command list" where
  "sample_commands \<equiv> [Begin_request sample_request 5, Finish_request sample_request sample_result 6]"

lemma sample_requests: "requests_of (sample_commands @ [Begin_request sample_again 7]) = {sample_request, sample_again}"
  "requests_of ([Begin_request sample_request 5] @ Finish_request sample_request sample_result 6 # [] @ [Begin_request sample_again 7]) =
     {sample_request, sample_again}"
  by (auto simp: requests_of_def)

lemma sample_commands_ok: "\<forall>c \<in> set (sample_commands @ [Begin_request sample_again 7]). command_ok c"
  "\<forall>c \<in> set ([Begin_request sample_request 5] @ Finish_request sample_request sample_result 6 # [] @ [Begin_request sample_again 7]). command_ok c"
  using sample_request_ok sample_again_ok sample_result_ok sample_scoped by simp_all

lemma sample_nesting: "protocol_nesting \<le> 20"
  by (simp add: protocol_nesting_def max_json_depth_def)

text \<open>The first request to an empty journal.\<close>

definition first_journal :: "(string \<Rightarrow> string) \<Rightarrow> host_request \<Rightarrow> lease_authority \<Rightarrow> journal" where
  "first_journal H r l = \<lparr>fences = [fence_of l], operations = [],
     receipts = [\<lparr>re_request = hr_id r, re_digest = request_digest H r\<rparr>], deliveries = []\<rparr>"

abbreviation sample_journal :: "(string \<Rightarrow> string) \<Rightarrow> journal" where
  "sample_journal H \<equiv> first_journal H sample_request sample_host_authority"

lemma first_begin:
  assumes "hr_authority r = Task_lease_authority l" "t < la_expires_ms l" "0 < la_attempt l" "0 < la_token l"
  shows "exec_journal H limit (Begin_request r t) empty_journal = Inr (A_decision EXECUTE, reserve H r (first_journal H r l))"
proof -
  have "apply_fence t r empty_journal = Inr (empty_journal\<lparr>fences := [fence_of l]\<rparr>)"
    using assms by (simp add: apply_fence_def empty_journal_def find_fence_def)
  moreover have "record_receipt H r (empty_journal\<lparr>fences := [fence_of l]\<rparr>) = Inr (first_journal H r l)"
    by (simp add: record_receipt_def empty_journal_def first_journal_def)
  ultimately have "journal_begin H limit t r empty_journal = (Inr EXECUTE, reserve H r (first_journal H r l))"
    by (simp add: journal_begin_fenced decide_operation_def find_operation_def first_journal_def)
  then show ?thesis by simp
qed

lemma sample_begin:
  "exec_journal H limit (Begin_request sample_request 5) empty_journal = Inr (A_decision EXECUTE, reserve H sample_request (sample_journal H))"
  by (rule first_begin) (simp_all add: sample_request_def sample_host_authority_def)

lemma sample_finish: "\<exists>j. exec_journal H limit (Finish_request sample_request sample_result 6) (reserve H sample_request (sample_journal H)) = Inr (A_done, j)"
proof -
  have "assert_current_fence 6 sample_request (reserve H sample_request (sample_journal H)) = Inr ()"
    by (simp add: assert_current_fence_def sample_request_def sample_host_authority_def first_journal_def reserve_def
        find_fence_def fence_of_def)
  then show ?thesis
    by (simp add: journal_finish_def reserve_def first_journal_def running_operation_def is_operation_def record_delivery_def)
qed

theorem journal_refines_ledger_witness:
  "\<exists>L. ledger_run sample_H2 (\<lambda>_. None) (journal_trace sample_H2 20 (sample_commands @ [Begin_request sample_again 7]) empty_journal) L"
  using journal_refines_ledger [OF sample_H2_length _ sample_nesting sample_commands_ok(1)] sample_H2_apart sample_requests by auto

theorem execute_once_witness:
  "keys_of executed_key (journal_trace sample_H2 20 (sample_commands @ [Begin_request sample_again 7]) empty_journal) =
     [request_key sample_request]"
proof -
  obtain a j1 where f: "exec_journal sample_H2 20 (Finish_request sample_request sample_result 6)
      (reserve sample_H2 sample_request (sample_journal sample_H2)) = Inr (a, j1)" using exec_journal_returns by blast
  obtain b j2 where g: "exec_journal sample_H2 20 (Begin_request sample_again 7) j1 = Inr (b, j2)" using exec_journal_returns by blast
  have t: "journal_trace sample_H2 20 (sample_commands @ [Begin_request sample_again 7]) empty_journal =
      [(Begin_request sample_request 5, A_decision EXECUTE), (Finish_request sample_request sample_result 6, a),
       (Begin_request sample_again 7, b)]"
    by (simp add: sample_begin f g del: exec_journal.simps)
  have "distinct (keys_of executed_key (journal_trace sample_H2 20 (sample_commands @ [Begin_request sample_again 7]) empty_journal))"
    using execute_once [OF sample_H2_length _ sample_nesting sample_commands_ok(1)] sample_H2_apart sample_requests
    by (simp add: Let_def)
  then show ?thesis unfolding t using same_effect_key [OF sample_same_effect] by (auto split: option.split_asm elim: executed_key.elims)
qed

theorem replay_faithful_witness:
  "\<exists>j a j'. exec_journal sample_H2 20 (Begin_request sample_again 7) j = Inr (a, j') \<and>
     (a = A_decision (REPLAY (sample_result\<lparr>jr_result := jsort (jr_result sample_result)\<rparr>)) \<or>
      (\<exists>x \<in> insert REQUEST_ID_CONFLICT fence_refusals. a = A_refused x))"
proof -
  obtain j where j: "exec_journal sample_H2 20 (Finish_request sample_request sample_result 6)
      (run_service (exec_journal sample_H2 20) [Begin_request sample_request 5] empty_journal) = Inr (A_done, j)"
    using sample_finish by (auto simp: sample_begin simp del: exec_journal.simps)
  obtain a j' where "exec_journal sample_H2 20 (Begin_request sample_again 7) (run_service (exec_journal sample_H2 20) [] j) = Inr (a, j')"
    using exec_journal_returns by blast
  from replay_faithful [OF sample_H2_length sample_nesting sample_commands_ok(2) _ j this sample_same_effect] this
  show ?thesis using sample_H2_apart sample_requests(2) by auto
qed

text \<open>The retry was let through under token 2; the first lease holds token 1.\<close>

lemma sample_again_lease:
  "hr_authority sample_again = Task_lease_authority (sample_host_authority\<lparr>la_lease := 61, la_worker := ''w2'', la_attempt := 2, la_token := 2\<rparr>)"
  by (simp add: sample_again_def sample_retry_def)

lemma sample_again_begin: "\<exists>j. exec_journal H limit (Begin_request sample_again 5) empty_journal = Inr (A_decision EXECUTE, j)"
  by (rule exI, rule first_begin [OF sample_again_lease]) (simp_all add: sample_host_authority_def)

theorem stale_lease_fenced_witness:
  "\<exists>j. exec_journal sample_H 20 (Begin_request sample_again 5) empty_journal = Inr (A_decision EXECUTE, j) \<and>
     exec_journal sample_H 20 (Finish_request sample_request sample_result 6) j = Inr (A_refused FENCED, j)"
proof -
  obtain j where j: "exec_journal sample_H 20 (Begin_request sample_again 5) empty_journal = Inr (A_decision EXECUTE, j)"
    using sample_again_begin by blast
  have a: "hr_authority sample_request = Task_lease_authority sample_host_authority" by (simp add: sample_request_def)
  from stale_lease_fenced [OF j sample_again_lease a sample_request_ok, where cs = "[]"] j show ?thesis
    by (simp add: sample_host_authority_def Let_def del: exec_journal.simps)
qed

theorem status_reports_ledger_witness:
  "\<exists>s. journal_status ''system'' ''git.commit'' ''k1''
     (run_service (exec_journal sample_H2 20) (sample_commands @ [Begin_request sample_again 7]) empty_journal) = Inr s"
proof -
  have "digests_apart sample_H2 (requests_of (sample_commands @ [Begin_request sample_again 7]))"
    unfolding sample_requests(1) by (rule sample_H2_apart)
  from status_reports_ledger [OF sample_H2_length this sample_nesting sample_commands_ok(1) refl, of "''system''" "''git.commit''" "''k1''"]
  show ?thesis by (elim exE conjE) (rule exI)
qed

end
