(* ===== verification/Config_Text.thy ===== *)
theory Config_Text
  imports Host_Messages
begin

text \<open>
  The texts of the repository configuration: the patterns, paths, refs and field readers of
  \<open>libraries/configuration/.../repository.py\<close> and the secret references of \<open>secrets.py\<close>.  Every
  \<open>RepositoryConfigurationError\<close> is \<open>Bad_configuration\<close> (its message is left out); a refused secret
  reference is the other error.
\<close>

datatype config_error = Bad_configuration | Bad_secret_reference

definition check :: "bool \<Rightarrow> config_error + unit" where
  "check b = (if b then Inr () else Inl Bad_configuration)"

lemma check_simps [simp]: "check True = Inr ()" "check b = Inr u \<longleftrightarrow> b" "check False = Inl Bad_configuration"
  by (auto simp: check_def)

subsection \<open>Patterns\<close>

text \<open>A first character of one class and at most \<open>n\<close> more of another.\<close>

definition word_pattern :: "(char \<Rightarrow> bool) \<Rightarrow> (char \<Rightarrow> bool) \<Rightarrow> nat \<Rightarrow> string \<Rightarrow> bool" where
  "word_pattern p q n s = (case s of [] \<Rightarrow> False | c # cs \<Rightarrow> p c \<and> length cs \<le> n \<and> list_all q cs)"

fun split_on :: "char \<Rightarrow> string \<Rightarrow> string list" where
  "split_on d [] = [[]]"
| "split_on d (c # s) = (if c = d then [] # split_on d s
     else (case split_on d s of [] \<Rightarrow> [[c]] | p # ps \<Rightarrow> (c # p) # ps))"

definition ends_with :: "string \<Rightarrow> string \<Rightarrow> bool" where
  "ends_with t s \<longleftrightarrow> length t \<le> length s \<and> drop (length s - length t) s = t"

definition text_pattern :: "string \<Rightarrow> bool" where
  "text_pattern s = word_pattern is_alnum_char (\<lambda>c. is_alnum_char c \<or> c \<in> set ''._:/@+-'') 254 s"

definition scheme_pattern :: "string \<Rightarrow> bool" where
  "scheme_pattern s = word_pattern is_alnum_char (\<lambda>c. is_alnum_char c \<or> c \<in> set '' ._-'') 254 s"

definition remote_pattern :: "string \<Rightarrow> bool" where
  "remote_pattern s = word_pattern is_alnum_char (\<lambda>c. is_alnum_char c \<or> c \<in> set ''._-'') 63 s"

definition is_key_char :: "char \<Rightarrow> bool" where
  "is_key_char c \<longleftrightarrow> is_lower_char c \<or> is_digit_char c"

definition repository_key_pattern :: "string \<Rightarrow> bool" where
  "repository_key_pattern s = (case split_on (CHR ''/'') s of
     [owner, name] \<Rightarrow> word_pattern is_key_char (\<lambda>c. is_key_char c \<or> c = CHR ''-'') 38 owner \<and>
       word_pattern is_key_char (\<lambda>c. is_key_char c \<or> c \<in> set ''._-'') 99 name
   | _ \<Rightarrow> False)"

definition is_branch_char :: "char \<Rightarrow> bool" where
  "is_branch_char c \<longleftrightarrow> is_alnum_char c \<or> c \<in> set ''._/-''"

definition task_placeholder :: string where
  "task_placeholder = ''{task_id}''"

definition branch_template_pattern :: "string \<Rightarrow> bool" where
  "branch_template_pattern s = (let r = dropWhile is_branch_char s in
     starts_with task_placeholder r \<and> list_all is_branch_char (drop (length task_placeholder) r))"

definition email_pattern :: "string \<Rightarrow> bool" where
  "email_pattern s = (case split_on (CHR ''@'') s of
     [user, host] \<Rightarrow> user \<noteq> [] \<and> host \<noteq> [] \<and> list_all (\<lambda>c. \<not> is_space_char c \<and> c \<notin> set ''<>'') (user @ host)
   | _ \<Rightarrow> False)"

definition bundle_identifier_pattern :: "string \<Rightarrow> bool" where
  "bundle_identifier_pattern s = (let ps = split_on (CHR ''.'') s in 2 \<le> length ps \<and>
     list_all (\<lambda>p. word_pattern is_alnum_char (\<lambda>c. is_alnum_char c \<or> c = CHR ''-'') (length p) p) ps)"

definition git_object_pattern :: "string \<Rightarrow> bool" where
  "git_object_pattern s \<longleftrightarrow> (length s = 40 \<or> length s = 64) \<and> list_all is_hex_char s"

definition check_detail_pattern :: "string \<Rightarrow> bool" where
  "check_detail_pattern s = word_pattern is_lower_char (\<lambda>c. is_lower_char c \<or> is_digit_char c \<or> c \<in> set ''._-'') 79 s"

definition test_selector_pattern :: "string \<Rightarrow> bool" where
  "test_selector_pattern s = (let r = drop 14 s in
     (starts_with ''-only-testing:'' s \<or> starts_with ''-skip-testing:'' s) \<and> r \<noteq> [] \<and> length r \<le> 255 \<and>
     list_all (\<lambda>c. is_alnum_char c \<or> c \<in> set ''_./-'') r)"

definition is_word_char :: "char \<Rightarrow> bool" where
  "is_word_char c \<longleftrightarrow> is_alnum_char c \<or> c = CHR ''_''"

definition is_name_start :: "char \<Rightarrow> bool" where
  "is_name_start c \<longleftrightarrow> is_upper_char c \<or> is_lower_char c \<or> c = CHR ''_''"

definition test_identifier_pattern :: "string \<Rightarrow> bool" where
  "test_identifier_pattern s = (case split_on (CHR ''/'') s of
     [target, cls, method] \<Rightarrow> word_pattern is_name_start (\<lambda>c. is_word_char c \<or> c = CHR ''-'') 79 target \<and>
       word_pattern is_name_start is_word_char 79 cls \<and> starts_with ''test'' method \<and>
       4 < length method \<and> length method \<le> 95 \<and> list_all is_word_char (drop 4 method)
   | _ \<Rightarrow> False)"

definition pbx_object_pattern :: "string \<Rightarrow> bool" where
  "pbx_object_pattern s \<longleftrightarrow> length s = 24 \<and> list_all (\<lambda>c. is_digit_char c \<or> c \<in> set ''ABCDEF'') s"

subsection \<open>POSIX paths\<close>

text \<open>\<open>PurePosixPath\<close>: the root and the parts, without empty and dot parts.\<close>

record pure_path =
  pp_root :: string
  pp_parts :: "string list"

definition path_root :: "string \<Rightarrow> string" where
  "path_root s = (if \<not> starts_with ''/'' s then [] else if starts_with ''//'' s \<and> \<not> starts_with ''///'' s then ''//'' else ''/'')"

definition posix_path :: "string \<Rightarrow> pure_path" where
  "posix_path s = \<lparr>pp_root = path_root s,
     pp_parts = filter (\<lambda>p. p \<noteq> [] \<and> p \<noteq> ''.'') (split_on (CHR ''/'') s)\<rparr>"

fun join_slash :: "string list \<Rightarrow> string" where
  "join_slash [] = []"
| "join_slash [p] = p"
| "join_slash (p # ps) = p @ ''/'' @ join_slash ps"

definition path_str :: "pure_path \<Rightarrow> string" where
  "path_str p = (if pp_root p = [] \<and> pp_parts p = [] then ''.'' else pp_root p @ join_slash (pp_parts p))"

text \<open>\<open>d in p.parents\<close>\<close>

definition in_parents :: "pure_path \<Rightarrow> pure_path \<Rightarrow> bool" where
  "in_parents d p \<longleftrightarrow> pp_root d = pp_root p \<and> length (pp_parts d) < length (pp_parts p) \<and>
     take (length (pp_parts d)) (pp_parts p) = pp_parts d"

definition path_within :: "pure_path \<Rightarrow> pure_path \<Rightarrow> bool" where
  "path_within d p \<longleftrightarrow> d = p \<or> in_parents d p"

definition path_join :: "pure_path \<Rightarrow> string list \<Rightarrow> pure_path" where
  "path_join p names = p\<lparr>pp_parts := pp_parts p @ names\<rparr>"

definition path_name :: "pure_path \<Rightarrow> string" where
  "path_name p = (if pp_parts p = [] then [] else last (pp_parts p))"

definition path_parent :: "pure_path \<Rightarrow> pure_path" where
  "path_parent p = p\<lparr>pp_parts := butlast (pp_parts p)\<rparr>"

definition name_suffix :: "string \<Rightarrow> string" where
  "name_suffix s = (let t = rev (takeWhile (\<lambda>c. c \<noteq> CHR ''.'') (rev s)); i = length s - Suc (length t) in
     if CHR ''.'' \<in> set s \<and> 0 < i \<and> t \<noteq> [] then drop i s else [])"

definition path_suffix :: "pure_path \<Rightarrow> string" where
  "path_suffix p = name_suffix (path_name p)"

definition path_stem :: "pure_path \<Rightarrow> string" where
  "path_stem p = (let s = path_name p in take (length s - length (name_suffix s)) s)"

subsection \<open>Fields\<close>

definition bounded_text :: "nat \<Rightarrow> string \<Rightarrow> bool" where
  "bounded_text maximum s \<longleftrightarrow> s \<noteq> [] \<and> s = strip s \<and> length s \<le> maximum \<and> CHR 0x00 \<notin> set s"

definition config_identifier_ok :: "nat \<Rightarrow> string \<Rightarrow> bool" where
  "config_identifier_ok maximum s \<longleftrightarrow> bounded_text maximum s \<and> text_pattern s"

definition bundle_identifier_ok :: "string \<Rightarrow> bool" where
  "bundle_identifier_ok s \<longleftrightarrow> bounded_text 255 s \<and> bundle_identifier_pattern s"

definition unique_identifiers :: "string list \<Rightarrow> bool" where
  "unique_identifiers xs \<longleftrightarrow> list_all (config_identifier_ok 255) xs \<and> distinct xs"

definition canonical_key_ok :: "string \<Rightarrow> bool" where
  "canonical_key_ok s \<longleftrightarrow> bounded_text 500 s \<and> repository_key_pattern s \<and> \<not> ends_with ''.git'' s"

definition absolute_path_ok :: "string \<Rightarrow> bool" where
  "absolute_path_ok s \<longleftrightarrow> bounded_text 1024 s \<and> pp_root (posix_path s) \<noteq> [] \<and> path_str (posix_path s) = s \<and> s \<noteq> ''/''"

definition relative_path_ok :: "string \<Rightarrow> bool" where
  "relative_path_ok s \<longleftrightarrow> bounded_text 1024 s \<and> pp_root (posix_path s) = [] \<and> path_str (posix_path s) = s \<and>
     s \<notin> {''.'', ''..''} \<and> ''..'' \<notin> set (pp_parts (posix_path s)) \<and> CHR 0x5C \<notin> set s \<and>
     list_all (\<lambda>c. 32 \<le> (of_char c :: nat)) s"

definition git_ref_ok :: "string \<Rightarrow> bool" where
  "git_ref_ok s \<longleftrightarrow> bounded_text 255 s \<and> \<not> starts_with ''-'' s \<and> \<not> starts_with ''.'' s \<and> \<not> ends_with ''/'' s \<and>
     \<not> ends_with ''.'' s \<and> \<not> ends_with ''.lock'' s \<and>
     list_all (\<lambda>m. \<not> has_infix m s) [''..'', [CHR ''@'', CHR ''{''], [CHR 0x5C], '' '', ''~'', ''^'', '':'', ''?'', ''*'', ''['']"

definition base_ref_ok :: "string \<Rightarrow> string \<Rightarrow> bool" where
  "base_ref_ok s remote \<longleftrightarrow> (let prefix = ''refs/remotes/'' @ remote @ ''/'';
       branch = (if starts_with prefix s then drop (length prefix) s else s) in
     git_ref_ok s \<and> (starts_with ''refs/'' s \<longrightarrow> starts_with prefix s) \<and> branch \<noteq> [] \<and>
     \<not> starts_with ''refs/'' branch \<and> git_ref_ok branch)"

definition branch_template_ok :: "string \<Rightarrow> bool" where
  "branch_template_ok s \<longleftrightarrow> bounded_text 255 s \<and> branch_template_pattern s \<and> \<not> has_infix ''//'' s \<and> \<not> has_infix ''..'' s \<and>
     \<not> has_infix [CHR ''@'', CHR ''{''] s \<and> \<not> starts_with ''-'' s \<and> \<not> starts_with ''/'' s \<and> \<not> starts_with ''.'' s \<and>
     \<not> ends_with ''/'' s \<and> \<not> ends_with ''.'' s \<and> \<not> ends_with ''.lock'' s"

definition exact_mapping :: "string list \<Rightarrow> json \<Rightarrow> config_error + json" where
  "exact_mapping ks v = (if is_jobj v \<and> jkeys v = set ks then Inr v else Inl Bad_configuration)"

definition config_sequence :: "json \<Rightarrow> config_error + json list" where
  "config_sequence v = (case v of JArr xs \<Rightarrow> Inr xs | _ \<Rightarrow> Inl Bad_configuration)"

definition config_string :: "json \<Rightarrow> config_error + string" where
  "config_string v = (case v of JStr s \<Rightarrow> Inr s | _ \<Rightarrow> Inl Bad_configuration)"

definition config_integer :: "json \<Rightarrow> config_error + int" where
  "config_integer v = (case v of JInt i \<Rightarrow> Inr i | _ \<Rightarrow> Inl Bad_configuration)"

definition config_boolean :: "json \<Rightarrow> config_error + bool" where
  "config_boolean v = (case v of JBool b \<Rightarrow> Inr b | _ \<Rightarrow> Inl Bad_configuration)"

definition enum_value :: "'a list \<Rightarrow> ('a \<Rightarrow> string) \<Rightarrow> json \<Rightarrow> config_error + 'a" where
  "enum_value xs name v = bindE (config_string v) (\<lambda>s. case find (\<lambda>x. name x = s) xs of
     None \<Rightarrow> Inl Bad_configuration | Some x \<Rightarrow> Inr x)"

text \<open>The elements of a sequence, each read by a parser.\<close>

fun read_all :: "(json \<Rightarrow> config_error + 'a) \<Rightarrow> json list \<Rightarrow> config_error + 'a list" where
  "read_all p [] = Inr []"
| "read_all p (x # xs) = bindE (p x) (\<lambda>y. bindE (read_all p xs) (\<lambda>ys. Inr (y # ys)))"

text \<open>\<open>None if value is None else parse(value)\<close>.\<close>

definition optional_value :: "(json \<Rightarrow> config_error + 'a) \<Rightarrow> json \<Rightarrow> config_error + 'a option" where
  "optional_value p v = (if v = JNull then Inr None else bindE (p v) (\<lambda>x. Inr (Some x)))"

lemma optional_value_simps [simp]:
  "optional_value p JNull = Inr None" "v \<noteq> JNull \<Longrightarrow> optional_value p v = bindE (p v) (\<lambda>x. Inr (Some x))"
  by (simp_all add: optional_value_def)

lemma optional_value_Some: "optional_value p v = Inr (Some x) \<Longrightarrow> p v = Inr x"
  by (auto simp: optional_value_def split: if_split_asm)

definition sequence_of :: "(json \<Rightarrow> config_error + 'a) \<Rightarrow> json \<Rightarrow> config_error + 'a list" where
  "sequence_of p v = bindE (config_sequence v) (read_all p)"

definition string_tuple :: "json \<Rightarrow> config_error + string list" where
  "string_tuple v = sequence_of config_string v"

subsection \<open>Secret references\<close>

record secret_reference =
  sr_service :: string
  sr_account :: string

definition secret_reference_ok :: "secret_reference \<Rightarrow> bool" where
  "secret_reference_ok r \<longleftrightarrow> word_pattern is_alnum_char (\<lambda>c. is_alnum_char c \<or> c \<in> set ''._-'') 127 (sr_service r) \<and>
     word_pattern is_alnum_char (\<lambda>c. is_alnum_char c \<or> c \<in> set ''._@-'') 127 (sr_account r)"

text \<open>\<open>unquote\<close>; a byte above 127 stays a character above 127, which no pattern accepts, as none
  accepts what Python decodes it to.\<close>

fun unquote :: "string \<Rightarrow> string" where
  "unquote (c # a # b # s) = (if c = CHR ''%'' then
       (case (hex_code_value (char_code a), hex_code_value (char_code b)) of
          (Some m, Some n) \<Rightarrow> char_of (m * 16 + n) # unquote s
        | _ \<Rightarrow> c # unquote (a # b # s))
     else c # unquote (a # b # s))"
| "unquote s = s"

definition is_scheme_char :: "char \<Rightarrow> bool" where
  "is_scheme_char c \<longleftrightarrow> is_alnum_char c \<or> c \<in> set ''+-.''"

text \<open>\<open>urlsplit\<close>: what of a text comes before the first character of a class, and the rest.\<close>

definition url_clean :: "string \<Rightarrow> string" where
  "url_clean s = filter (\<lambda>c. c \<notin> {CHR 0x09, CHR 0x0A, CHR 0x0D}) (dropWhile (\<lambda>c. (of_char c :: nat) \<le> 32) s)"

definition url_scheme :: "string \<Rightarrow> string \<times> string" where
  "url_scheme s = (let p = takeWhile (\<lambda>c. c \<noteq> CHR '':'') s in
     if CHR '':'' \<in> set s \<and> (case p of [] \<Rightarrow> False | c # _ \<Rightarrow> is_upper_char c \<or> is_lower_char c) \<and> list_all is_scheme_char p
     then (py_lower p, drop (Suc (length p)) s) else ([], s))"

definition url_netloc :: "string \<Rightarrow> string \<times> string" where
  "url_netloc s = (if starts_with ''//'' s then
       (let n = takeWhile (\<lambda>c. c \<notin> set ''/?#'') (drop 2 s) in (n, drop (2 + length n) s))
     else ([], s))"

definition parse_secret_reference :: "string \<Rightarrow> config_error + secret_reference" where
  "parse_secret_reference s =
     (case url_scheme (url_clean s) of (scheme, r) \<Rightarrow>
      case url_netloc r of (netloc, rest) \<Rightarrow>
        let url = takeWhile (\<lambda>c. c \<noteq> CHR ''#'') rest; fragment = drop (Suc (length url)) rest;
            path = takeWhile (\<lambda>c. c \<noteq> CHR ''?'') url; query = drop (Suc (length path)) url;
            ref = \<lparr>sr_service = unquote netloc, sr_account = unquote (drop 1 path)\<rparr> in
        if scheme \<noteq> ''keychain'' \<or> netloc = [] \<or> \<not> starts_with ''/'' path \<or>
           length (filter (\<lambda>c. c = CHR ''/'') path) \<noteq> 1 \<or> query \<noteq> [] \<or> fragment \<noteq> [] then Inl Bad_secret_reference
        else if secret_reference_ok ref then Inr ref else Inl Bad_secret_reference)"

text \<open>\<open>quote\<close> leaves the characters of the patterns alone.\<close>

definition secret_uri :: "secret_reference \<Rightarrow> string" where
  "secret_uri r = ''keychain://'' @ sr_service r @ ''/'' @ sr_account r"

end
