(* ===== verification/Config_Settings.thy ===== *)
theory Config_Settings
  imports Config_Text
begin

text \<open>
  The settings and the end-to-end flow of \<open>libraries/configuration/.../repository.py\<close>.  A dataclass is a
  record, \<open>__post_init__\<close> its \<open>_ok\<close> predicate, \<open>to_dict\<close> and \<open>from_dict\<close> the functions to and from JSON;
  a \<open>from_dict\<close> ends with the constructor, so with the predicate.  Checks that a field has its declared
  type are the types of the records.
\<close>

text \<open>The constructor: the value when its checks pass.\<close>

definition construct :: "('a \<Rightarrow> bool) \<Rightarrow> 'a \<Rightarrow> config_error + 'a" where
  "construct ok x = (if ok x then Inr x else Inl Bad_configuration)"

lemma construct_Inr [simp]: "construct ok x = Inr y \<longleftrightarrow> y = x \<and> ok x"
  by (auto simp: construct_def)

subsection \<open>Vocabularies\<close>

datatype operation_kind = BUILD | UNIT_TEST | INTEGRATION_TEST | SIMULATOR_E2E

definition operation_kinds :: "operation_kind list" where
  "operation_kinds = [BUILD, UNIT_TEST, INTEGRATION_TEST, SIMULATOR_E2E]"

definition operation_kind_value :: "operation_kind \<Rightarrow> string" where
  "operation_kind_value k = (case k of BUILD \<Rightarrow> ''BUILD'' | UNIT_TEST \<Rightarrow> ''UNIT_TEST'' | INTEGRATION_TEST \<Rightarrow> ''INTEGRATION_TEST''
     | SIMULATOR_E2E \<Rightarrow> ''SIMULATOR_E2E'')"

datatype assertion_kind = ELEMENT_VALUE_PRESENT | NAVIGATION_STATE_REACHED | EXPECTED_NETWORK_RESPONSE
  | EXPECTED_LOG_EVENT | NO_CRASH

definition assertion_kinds :: "assertion_kind list" where
  "assertion_kinds = [ELEMENT_VALUE_PRESENT, NAVIGATION_STATE_REACHED, EXPECTED_NETWORK_RESPONSE, EXPECTED_LOG_EVENT, NO_CRASH]"

definition assertion_kind_value :: "assertion_kind \<Rightarrow> string" where
  "assertion_kind_value k = (case k of ELEMENT_VALUE_PRESENT \<Rightarrow> ''ELEMENT_VALUE_PRESENT''
     | NAVIGATION_STATE_REACHED \<Rightarrow> ''NAVIGATION_STATE_REACHED'' | EXPECTED_NETWORK_RESPONSE \<Rightarrow> ''EXPECTED_NETWORK_RESPONSE''
     | EXPECTED_LOG_EVENT \<Rightarrow> ''EXPECTED_LOG_EVENT'' | NO_CRASH \<Rightarrow> ''NO_CRASH'')"

datatype assertion_role = FLOW_BASELINE | TASK_SELECTABLE

definition assertion_role_value :: "assertion_role \<Rightarrow> string" where
  "assertion_role_value r = (case r of FLOW_BASELINE \<Rightarrow> ''FLOW_BASELINE'' | TASK_SELECTABLE \<Rightarrow> ''TASK_SELECTABLE'')"

datatype network_method = M_DELETE | M_GET | M_PATCH | M_POST | M_PUT

definition network_method_value :: "network_method \<Rightarrow> string" where
  "network_method_value m = (case m of M_DELETE \<Rightarrow> ''DELETE'' | M_GET \<Rightarrow> ''GET'' | M_PATCH \<Rightarrow> ''PATCH'' | M_POST \<Rightarrow> ''POST''
     | M_PUT \<Rightarrow> ''PUT'')"

datatype prohibited_operation = ARBITRARY_SHELL | DEPLOY | FORCE_PUSH | MERGE | PRODUCTION_SIGNING | RELEASE | TAG

definition mandatory_prohibited_operations :: "prohibited_operation list" where
  "mandatory_prohibited_operations = [ARBITRARY_SHELL, DEPLOY, FORCE_PUSH, MERGE, PRODUCTION_SIGNING, RELEASE, TAG]"

definition prohibited_operation_value :: "prohibited_operation \<Rightarrow> string" where
  "prohibited_operation_value p = (case p of ARBITRARY_SHELL \<Rightarrow> ''ARBITRARY_SHELL'' | DEPLOY \<Rightarrow> ''DEPLOY'' | FORCE_PUSH \<Rightarrow> ''FORCE_PUSH''
     | MERGE \<Rightarrow> ''MERGE'' | PRODUCTION_SIGNING \<Rightarrow> ''PRODUCTION_SIGNING'' | RELEASE \<Rightarrow> ''RELEASE'' | TAG \<Rightarrow> ''TAG'')"

definition simulator_destination :: string where
  "simulator_destination = ''MATHEWS_CONFIGURED_SIMULATOR''"

datatype container_kind = PROJECT | WORKSPACE

definition container_kind_value :: "container_kind \<Rightarrow> string" where
  "container_kind_value k = (case k of PROJECT \<Rightarrow> ''PROJECT'' | WORKSPACE \<Rightarrow> ''WORKSPACE'')"

subsection \<open>Settings\<close>

record git_identity =
  gi_name :: string
  gi_email :: string

definition git_identity_ok :: "git_identity \<Rightarrow> bool" where
  "git_identity_ok g \<longleftrightarrow> bounded_text 255 (gi_name g) \<and> CHR 0x0A \<notin> set (gi_name g) \<and> CHR 0x0D \<notin> set (gi_name g) \<and>
     email_pattern (gi_email g) \<and> length (gi_email g) \<le> 255"

definition git_identity_json :: "git_identity \<Rightarrow> json" where
  "git_identity_json g = JObj [(''name'', JStr (gi_name g)), (''email'', JStr (gi_email g))]"

definition git_identity_from :: "json \<Rightarrow> config_error + git_identity" where
  "git_identity_from v = bindE (exact_mapping [''name'', ''email''] v) (\<lambda>f.
     bindE (config_string (jfield ''name'' f)) (\<lambda>name.
     bindE (config_string (jfield ''email'' f)) (\<lambda>email.
     construct git_identity_ok \<lparr>gi_name = name, gi_email = email\<rparr>)))"

record repository_settings =
  rs_root :: string
  rs_prohibited :: "prohibited_operation list"

definition repository_settings_ok :: "repository_settings \<Rightarrow> bool" where
  "repository_settings_ok r \<longleftrightarrow> absolute_path_ok (rs_root r) \<and> distinct (rs_prohibited r) \<and>
     set mandatory_prohibited_operations \<subseteq> set (rs_prohibited r)"

definition repository_settings_json :: "repository_settings \<Rightarrow> json" where
  "repository_settings_json r = JObj [(''root'', JStr (rs_root r)),
     (''prohibited_operations'', JArr (map JStr (sort (map prohibited_operation_value (rs_prohibited r)))))]"

definition repository_settings_from :: "json \<Rightarrow> config_error + repository_settings" where
  "repository_settings_from v = bindE (exact_mapping [''root'', ''prohibited_operations''] v) (\<lambda>f.
     bindE (config_string (jfield ''root'' f)) (\<lambda>root.
     bindE (sequence_of (enum_value mandatory_prohibited_operations prohibited_operation_value)
       (jfield ''prohibited_operations'' f)) (\<lambda>ops.
     construct repository_settings_ok \<lparr>rs_root = root, rs_prohibited = ops\<rparr>)))"

record git_settings =
  gs_base_ref :: string
  gs_branch_template :: string
  gs_remote :: string
  gs_push_credential :: "secret_reference option"
  gs_author :: git_identity
  gs_committer :: git_identity

definition git_settings_ok :: "git_settings \<Rightarrow> bool" where
  "git_settings_ok g \<longleftrightarrow> remote_pattern (gs_remote g) \<and> base_ref_ok (gs_base_ref g) (gs_remote g) \<and>
     branch_template_ok (gs_branch_template g)"

definition git_settings_json :: "git_settings \<Rightarrow> json" where
  "git_settings_json g = JObj ([(''default_base_ref'', JStr (gs_base_ref g)),
     (''task_branch_template'', JStr (gs_branch_template g)), (''remote_name'', JStr (gs_remote g)),
     (''author'', git_identity_json (gs_author g)), (''committer'', git_identity_json (gs_committer g))] @
     (case gs_push_credential g of None \<Rightarrow> [] | Some r \<Rightarrow> [(''push_credential'', JStr (secret_uri r))]))"

definition git_settings_fields :: "string list" where
  "git_settings_fields = [''default_base_ref'', ''task_branch_template'', ''remote_name'', ''author'', ''committer'']"

definition git_settings_from :: "json \<Rightarrow> config_error + git_settings" where
  "git_settings_from f =
     bindE (check (is_jobj f \<and> (jkeys f = set git_settings_fields \<or> jkeys f = insert ''push_credential'' (set git_settings_fields)))) (\<lambda>_.
     bindE (config_string (jfield ''default_base_ref'' f)) (\<lambda>base.
     bindE (config_string (jfield ''task_branch_template'' f)) (\<lambda>branch_template.
     bindE (config_string (jfield ''remote_name'' f)) (\<lambda>remote.
     bindE (if ''push_credential'' \<notin> jkeys f then Inr None else
       bindE (config_string (jfield ''push_credential'' f)) (\<lambda>s. bindE (parse_secret_reference s) (\<lambda>r. Inr (Some r)))) (\<lambda>push.
     bindE (git_identity_from (jfield ''author'' f)) (\<lambda>author.
     bindE (git_identity_from (jfield ''committer'' f)) (\<lambda>committer.
     construct git_settings_ok \<lparr>gs_base_ref = base, gs_branch_template = branch_template, gs_remote = remote,
       gs_push_credential = push, gs_author = author, gs_committer = committer\<rparr>)))))))"

record simulator_settings =
  ss_runtime :: string
  ss_device_type :: string

definition simulator_settings_ok :: "simulator_settings \<Rightarrow> bool" where
  "simulator_settings_ok s \<longleftrightarrow> config_identifier_ok 255 (ss_runtime s) \<and> config_identifier_ok 255 (ss_device_type s)"

definition simulator_settings_json :: "simulator_settings \<Rightarrow> json" where
  "simulator_settings_json s = JObj [(''runtime_identifier'', JStr (ss_runtime s)),
     (''device_type_identifier'', JStr (ss_device_type s))]"

definition simulator_settings_from :: "json \<Rightarrow> config_error + simulator_settings" where
  "simulator_settings_from v = bindE (exact_mapping [''runtime_identifier'', ''device_type_identifier''] v) (\<lambda>f.
     bindE (config_string (jfield ''runtime_identifier'' f)) (\<lambda>runtime.
     bindE (config_string (jfield ''device_type_identifier'' f)) (\<lambda>device.
     construct simulator_settings_ok \<lparr>ss_runtime = runtime, ss_device_type = device\<rparr>)))"

record xcode_settings =
  xs_kind :: container_kind
  xs_path :: string
  xs_scheme :: string
  xs_simulator :: simulator_settings

definition xcode_settings_ok :: "xcode_settings \<Rightarrow> bool" where
  "xcode_settings_ok x \<longleftrightarrow> relative_path_ok (xs_path x) \<and>
     ends_with (case xs_kind x of PROJECT \<Rightarrow> ''.xcodeproj'' | WORKSPACE \<Rightarrow> ''.xcworkspace'') (xs_path x) \<and>
     bounded_text 255 (xs_scheme x) \<and> scheme_pattern (xs_scheme x)"

definition xcode_settings_json :: "xcode_settings \<Rightarrow> json" where
  "xcode_settings_json x = JObj [(''container_kind'', JStr (container_kind_value (xs_kind x))),
     (''container_path'', JStr (xs_path x)), (''scheme'', JStr (xs_scheme x)),
     (''simulator'', simulator_settings_json (xs_simulator x))]"

definition xcode_settings_from :: "json \<Rightarrow> config_error + xcode_settings" where
  "xcode_settings_from v = bindE (exact_mapping [''container_kind'', ''container_path'', ''scheme'', ''simulator''] v) (\<lambda>f.
     bindE (enum_value [PROJECT, WORKSPACE] container_kind_value (jfield ''container_kind'' f)) (\<lambda>kind.
     bindE (config_string (jfield ''container_path'' f)) (\<lambda>path.
     bindE (config_string (jfield ''scheme'' f)) (\<lambda>scheme.
     bindE (simulator_settings_from (jfield ''simulator'' f)) (\<lambda>simulator.
     construct xcode_settings_ok \<lparr>xs_kind = kind, xs_path = path, xs_scheme = scheme, xs_simulator = simulator\<rparr>)))))"

record pinned_file =
  pf_path :: string
  pf_digest :: string

definition pinned_file_ok :: "pinned_file \<Rightarrow> bool" where
  "pinned_file_ok p \<longleftrightarrow> relative_path_ok (pf_path p) \<and> configuration_digest_ok (pf_digest p)"

definition pinned_file_json :: "pinned_file \<Rightarrow> json" where
  "pinned_file_json p = JObj [(''path'', JStr (pf_path p)), (''digest'', JStr (pf_digest p))]"

definition pinned_file_from :: "json \<Rightarrow> config_error + pinned_file" where
  "pinned_file_from v = bindE (exact_mapping [''path'', ''digest''] v) (\<lambda>f.
     bindE (config_string (jfield ''path'' f)) (\<lambda>path.
     bindE (config_string (jfield ''digest'' f)) (\<lambda>digest.
     construct pinned_file_ok \<lparr>pf_path = path, pf_digest = digest\<rparr>)))"

subsection \<open>The end-to-end flow\<close>

record e2e_flow =
  ef_id :: string
  ef_version :: int
  ef_entry_point :: string
  ef_terminal_state :: string
  ef_fixture :: string
  ef_fixture_version :: int
  ef_fixture_digest :: string
  ef_recipe :: string
  ef_recipe_version :: int
  ef_recipe_digest :: string
  ef_test_account :: secret_reference
  ef_runner_test :: string
  ef_bundle :: string
  ef_harness_root :: string
  ef_harness_project :: string
  ef_harness_target :: string
  ef_runner_source :: string
  ef_harness_files :: "pinned_file list"
  ef_fixture_file :: pinned_file
  ef_recipe_file :: pinned_file
  ef_assertions :: "string list"
  ef_clean_state :: bool
  ef_locale :: string
  ef_time_zone :: string
  ef_clean_steps :: "string list"
  ef_network_signals :: "string list"
  ef_log_signals :: "string list"
  ef_warnings :: "string list"

definition expected_clean_state_steps :: "string list" where
  "expected_clean_state_steps = [''SHUTDOWN'', ''ERASE'', ''BOOT'', ''INSTALL_CANDIDATE'']"

definition pinned_paths :: "e2e_flow \<Rightarrow> string list" where
  "pinned_paths e = map pf_path (ef_harness_files e) @ [pf_path (ef_fixture_file e), pf_path (ef_recipe_file e)]"

definition e2e_flow_ok :: "e2e_flow \<Rightarrow> bool" where
  "e2e_flow_ok e \<longleftrightarrow> config_identifier_ok 128 (ef_id e) \<and> 0 < ef_version e \<and> config_identifier_ok 255 (ef_entry_point e) \<and>
     config_identifier_ok 255 (ef_terminal_state e) \<and> config_identifier_ok 128 (ef_fixture e) \<and> 0 < ef_fixture_version e \<and>
     configuration_digest_ok (ef_fixture_digest e) \<and> config_identifier_ok 128 (ef_recipe e) \<and> 0 < ef_recipe_version e \<and>
     configuration_digest_ok (ef_recipe_digest e) \<and> pf_digest (ef_fixture_file e) = ef_fixture_digest e \<and>
     pf_digest (ef_recipe_file e) = ef_recipe_digest e \<and> ef_harness_files e \<noteq> [] \<and> length (ef_harness_files e) \<le> 64 \<and>
     distinct (pinned_paths e) \<and> test_identifier_pattern (ef_runner_test e) \<and> relative_path_ok (ef_harness_root e) \<and>
     relative_path_ok (ef_harness_project e) \<and> ends_with ''.xcodeproj'' (ef_harness_project e) \<and>
     pbx_object_pattern (ef_harness_target e) \<and> relative_path_ok (ef_runner_source e) \<and>
     ends_with ''.swift'' (ef_runner_source e) \<and> ef_clean_state e \<and> bundle_identifier_ok (ef_bundle e) \<and>
     ef_locale e = ''en_US_POSIX'' \<and> ef_time_zone e = ''UTC'' \<and> ef_clean_steps e = expected_clean_state_steps \<and>
     unique_identifiers (ef_assertions e) \<and> ef_assertions e \<noteq> [] \<and> length (ef_assertions e) \<le> 256 \<and>
     unique_identifiers (ef_network_signals e) \<and> unique_identifiers (ef_log_signals e) \<and> unique_identifiers (ef_warnings e) \<and>
     length (ef_network_signals e) \<le> 64 \<and> length (ef_log_signals e) \<le> 64 \<and> length (ef_warnings e) \<le> 64 \<and>
     ef_network_signals e \<noteq> [] \<and> ef_log_signals e \<noteq> [] \<and>
     set (ef_warnings e) \<inter> (set (ef_network_signals e) \<union> set (ef_log_signals e)) = {}"

definition texts :: "string list \<Rightarrow> json" where
  "texts xs = JArr (map JStr xs)"

definition e2e_flow_fields :: "e2e_flow \<Rightarrow> (string \<times> json) list" where
  "e2e_flow_fields e = [(''flow_id'', JStr (ef_id e)), (''version'', JInt (ef_version e)),
     (''entry_point'', JStr (ef_entry_point e)), (''terminal_state'', JStr (ef_terminal_state e)),
     (''fixture_id'', JStr (ef_fixture e)), (''fixture_version'', JInt (ef_fixture_version e)),
     (''fixture_digest'', JStr (ef_fixture_digest e)), (''test_account_recipe_id'', JStr (ef_recipe e)),
     (''test_account_recipe_version'', JInt (ef_recipe_version e)),
     (''test_account_recipe_digest'', JStr (ef_recipe_digest e)), (''test_account'', JStr (secret_uri (ef_test_account e))),
     (''runner_test_identifier'', JStr (ef_runner_test e)), (''app_bundle_identifier'', JStr (ef_bundle e)),
     (''harness_source_root'', JStr (ef_harness_root e)), (''harness_project_path'', JStr (ef_harness_project e)),
     (''harness_target_identifier'', JStr (ef_harness_target e)), (''runner_source_file'', JStr (ef_runner_source e)),
     (''harness_files'', JArr (map pinned_file_json (ef_harness_files e))),
     (''fixture_file'', pinned_file_json (ef_fixture_file e)), (''test_account_recipe_file'', pinned_file_json (ef_recipe_file e)),
     (''required_assertion_ids'', texts (ef_assertions e)), (''clean_state_before_each_run'', JBool (ef_clean_state e)),
     (''locale_identifier'', JStr (ef_locale e)), (''time_zone_identifier'', JStr (ef_time_zone e)),
     (''clean_state_steps'', texts (ef_clean_steps e)), (''expected_network_signals'', texts (ef_network_signals e)),
     (''expected_log_signals'', texts (ef_log_signals e)), (''acceptable_warnings'', texts (ef_warnings e))]"

definition e2e_flow_json :: "e2e_flow \<Rightarrow> json" where
  "e2e_flow_json e = JObj (e2e_flow_fields e)"

definition e2e_flow_keys :: "string list" where
  "e2e_flow_keys = [''flow_id'', ''version'', ''entry_point'', ''terminal_state'', ''fixture_id'', ''fixture_version'',
     ''fixture_digest'', ''test_account_recipe_id'', ''test_account_recipe_version'', ''test_account_recipe_digest'',
     ''test_account'', ''runner_test_identifier'', ''app_bundle_identifier'', ''harness_source_root'',
     ''harness_project_path'', ''harness_target_identifier'', ''runner_source_file'', ''harness_files'', ''fixture_file'',
     ''test_account_recipe_file'', ''required_assertion_ids'', ''clean_state_before_each_run'', ''locale_identifier'',
     ''time_zone_identifier'', ''clean_state_steps'', ''expected_network_signals'', ''expected_log_signals'',
     ''acceptable_warnings'']"

definition e2e_flow_from :: "json \<Rightarrow> config_error + e2e_flow" where
  "e2e_flow_from v = bindE (exact_mapping e2e_flow_keys v) (\<lambda>f.
     bindE (config_string (jfield ''flow_id'' f)) (\<lambda>flow.
     bindE (config_integer (jfield ''version'' f)) (\<lambda>version.
     bindE (config_string (jfield ''entry_point'' f)) (\<lambda>entry_point.
     bindE (config_string (jfield ''terminal_state'' f)) (\<lambda>terminal_state.
     bindE (config_string (jfield ''fixture_id'' f)) (\<lambda>fixture.
     bindE (config_integer (jfield ''fixture_version'' f)) (\<lambda>fixture_version.
     bindE (config_string (jfield ''fixture_digest'' f)) (\<lambda>fixture_digest.
     bindE (config_string (jfield ''test_account_recipe_id'' f)) (\<lambda>recipe.
     bindE (config_integer (jfield ''test_account_recipe_version'' f)) (\<lambda>recipe_version.
     bindE (config_string (jfield ''test_account_recipe_digest'' f)) (\<lambda>recipe_digest.
     bindE (bindE (config_string (jfield ''test_account'' f)) parse_secret_reference) (\<lambda>account.
     bindE (config_string (jfield ''runner_test_identifier'' f)) (\<lambda>runner_test.
     bindE (config_string (jfield ''app_bundle_identifier'' f)) (\<lambda>bundle.
     bindE (config_string (jfield ''harness_source_root'' f)) (\<lambda>harness_root.
     bindE (config_string (jfield ''harness_project_path'' f)) (\<lambda>harness_project.
     bindE (config_string (jfield ''harness_target_identifier'' f)) (\<lambda>harness_target.
     bindE (config_string (jfield ''runner_source_file'' f)) (\<lambda>runner_source.
     bindE (sequence_of pinned_file_from (jfield ''harness_files'' f)) (\<lambda>harness_files.
     bindE (pinned_file_from (jfield ''fixture_file'' f)) (\<lambda>fixture_file.
     bindE (pinned_file_from (jfield ''test_account_recipe_file'' f)) (\<lambda>recipe_file.
     bindE (string_tuple (jfield ''required_assertion_ids'' f)) (\<lambda>assertions.
     bindE (config_boolean (jfield ''clean_state_before_each_run'' f)) (\<lambda>clean_state.
     bindE (config_string (jfield ''locale_identifier'' f)) (\<lambda>locale_identifier.
     bindE (config_string (jfield ''time_zone_identifier'' f)) (\<lambda>time_zone.
     bindE (string_tuple (jfield ''clean_state_steps'' f)) (\<lambda>clean_steps.
     bindE (string_tuple (jfield ''expected_network_signals'' f)) (\<lambda>network_signals.
     bindE (string_tuple (jfield ''expected_log_signals'' f)) (\<lambda>log_signals.
     bindE (string_tuple (jfield ''acceptable_warnings'' f)) (\<lambda>warnings.
     construct e2e_flow_ok \<lparr>ef_id = flow, ef_version = version, ef_entry_point = entry_point,
       ef_terminal_state = terminal_state, ef_fixture = fixture, ef_fixture_version = fixture_version,
       ef_fixture_digest = fixture_digest, ef_recipe = recipe, ef_recipe_version = recipe_version,
       ef_recipe_digest = recipe_digest, ef_test_account = account, ef_runner_test = runner_test, ef_bundle = bundle,
       ef_harness_root = harness_root, ef_harness_project = harness_project, ef_harness_target = harness_target,
       ef_runner_source = runner_source, ef_harness_files = harness_files, ef_fixture_file = fixture_file,
       ef_recipe_file = recipe_file, ef_assertions = assertions, ef_clean_state = clean_state, ef_locale = locale_identifier,
       ef_time_zone = time_zone, ef_clean_steps = clean_steps, ef_network_signals = network_signals,
       ef_log_signals = log_signals, ef_warnings = warnings\<rparr>)))))))))))))))))))))))))))))"

end
