(* ===== verification/Repository_Configuration.thy ===== *)
theory Repository_Configuration
  imports Config_Settings
begin

text \<open>
  The operations, the assertion catalogue and the whole configuration of
  \<open>libraries/configuration/.../repository.py\<close>, the allowlist of what the host may run, with the checks
  that span its parts, and the preflight report.
\<close>

subsection \<open>Operations\<close>

record test_operation =
  to_id :: string
  to_kind :: operation_kind
  to_argv :: "string list"
  to_timeout :: int
  to_flow :: "e2e_flow option"

definition prohibited_arguments :: "string list" where
  "prohibited_arguments = [''archive'', ''-exportarchive'', ''-exportnotarizedapp'', ''-allowprovisioningupdates'']"

definition argument_ok :: "string \<Rightarrow> bool" where
  "argument_ok a \<longleftrightarrow> a \<noteq> [] \<and> length a \<le> 1024 \<and> CHR 0x00 \<notin> set a \<and> CHR 0x0A \<notin> set a \<and> CHR 0x0D \<notin> set a \<and>
     CHR ''='' \<notin> set a \<and> \<not> starts_with ''/'' a \<and> \<not> starts_with ''~'' a \<and> ''..'' \<notin> set (pp_parts (posix_path a)) \<and>
     CHR 0x5C \<notin> set a"

definition test_operation_ok :: "test_operation \<Rightarrow> bool" where
  "test_operation_ok t \<longleftrightarrow> config_identifier_ok 128 (to_id t) \<and> 0 < to_timeout t \<and> to_timeout t \<le> 3600 \<and>
     to_argv t \<noteq> [] \<and> hd (to_argv t) = ''xcodebuild'' \<and> length (to_argv t) \<le> 32 \<and> list_all argument_ok (to_argv t) \<and>
     set (map py_lower (to_argv t)) \<inter> set prohibited_arguments = {} \<and>
     (to_kind t = BUILD \<longrightarrow> 2 \<le> length (to_argv t) \<and> py_lower (to_argv t ! 1) = ''build'') \<and>
     (to_kind t \<noteq> BUILD \<longrightarrow> 2 \<le> length (to_argv t) \<and> py_lower (to_argv t ! 1) \<in> {''test'', ''test-without-building''}) \<and>
     (to_kind t = SIMULATOR_E2E \<longrightarrow> to_argv t ! 1 = ''test'') \<and>
     (to_kind t = SIMULATOR_E2E \<longleftrightarrow> to_flow t \<noteq> None)"

definition test_operation_json :: "test_operation \<Rightarrow> json" where
  "test_operation_json t = JObj [(''operation_id'', JStr (to_id t)), (''kind'', JStr (operation_kind_value (to_kind t))),
     (''argv'', texts (to_argv t)), (''timeout_seconds'', JInt (to_timeout t)), (''e2e_flow'', jopt e2e_flow_json (to_flow t))]"

definition test_operation_from :: "json \<Rightarrow> config_error + test_operation" where
  "test_operation_from v = bindE (exact_mapping [''operation_id'', ''kind'', ''argv'', ''timeout_seconds'', ''e2e_flow''] v) (\<lambda>f.
     bindE (config_string (jfield ''operation_id'' f)) (\<lambda>i.
     bindE (enum_value operation_kinds operation_kind_value (jfield ''kind'' f)) (\<lambda>kind.
     bindE (string_tuple (jfield ''argv'' f)) (\<lambda>argv.
     bindE (config_integer (jfield ''timeout_seconds'' f)) (\<lambda>timeout.
     bindE (optional_value e2e_flow_from (jfield ''e2e_flow'' f)) (\<lambda>flow.
     construct test_operation_ok \<lparr>to_id = i, to_kind = kind, to_argv = argv, to_timeout = timeout, to_flow = flow\<rparr>))))))"

subsection \<open>Assertions\<close>

datatype assertion_verifier =
    Element_value string "string option"
  | Navigation_state string string
  | Network_response string network_method int
  | Log_event string string string int
  | No_crash string

definition element_value_ok :: "string \<Rightarrow> string option \<Rightarrow> bool" where
  "element_value_ok identifier fixture_key \<longleftrightarrow> config_identifier_ok 255 identifier \<and>
     (case fixture_key of None \<Rightarrow> True | Some k \<Rightarrow> config_identifier_ok 255 k)"

definition navigation_state_ok :: "string \<Rightarrow> string \<Rightarrow> bool" where
  "navigation_state_ok state marker \<longleftrightarrow> config_identifier_ok 255 state \<and> config_identifier_ok 255 marker"

definition network_response_ok :: "string \<Rightarrow> int \<Rightarrow> bool" where
  "network_response_ok endpoint status \<longleftrightarrow> config_identifier_ok 255 endpoint \<and> 100 \<le> status \<and> status \<le> 599"

definition log_event_ok :: "string \<Rightarrow> string \<Rightarrow> string \<Rightarrow> int \<Rightarrow> bool" where
  "log_event_ok subsystem category event minimum \<longleftrightarrow> bundle_identifier_ok subsystem \<and> config_identifier_ok 255 category \<and>
     config_identifier_ok 255 event \<and> 0 < minimum \<and> minimum \<le> 100"

definition no_crash_ok :: "string \<Rightarrow> bool" where
  "no_crash_ok bundle \<longleftrightarrow> bundle_identifier_ok bundle"

definition verifier_ok :: "assertion_verifier \<Rightarrow> bool" where
  "verifier_ok v = (case v of
     Element_value identifier fixture_key \<Rightarrow> element_value_ok identifier fixture_key
   | Navigation_state state marker \<Rightarrow> navigation_state_ok state marker
   | Network_response endpoint _ status \<Rightarrow> network_response_ok endpoint status
   | Log_event subsystem category event minimum \<Rightarrow> log_event_ok subsystem category event minimum
   | No_crash bundle \<Rightarrow> no_crash_ok bundle)"

definition element_value_json :: "string \<Rightarrow> string option \<Rightarrow> (string \<times> json) list" where
  "element_value_json identifier fixture_key =
     [(''accessibility_identifier'', JStr identifier), (''expected_value_fixture_key'', jopt JStr fixture_key)]"

definition navigation_state_json :: "string \<Rightarrow> string \<Rightarrow> (string \<times> json) list" where
  "navigation_state_json state marker =
     [(''state_id'', JStr state), (''marker_accessibility_identifier'', JStr marker)]"

definition network_response_json :: "string \<Rightarrow> network_method \<Rightarrow> int \<Rightarrow> (string \<times> json) list" where
  "network_response_json endpoint method status = [(''endpoint_class'', JStr endpoint),
     (''method'', JStr (network_method_value method)), (''expected_status_code'', JInt status)]"

definition log_event_json :: "string \<Rightarrow> string \<Rightarrow> string \<Rightarrow> int \<Rightarrow> (string \<times> json) list" where
  "log_event_json subsystem category event minimum = [(''subsystem'', JStr subsystem), (''category'', JStr category),
     (''event_key'', JStr event), (''minimum_count'', JInt minimum)]"

definition no_crash_json :: "string \<Rightarrow> (string \<times> json) list" where
  "no_crash_json bundle = [(''bundle_identifier'', JStr bundle)]"

definition verifier_json :: "assertion_verifier \<Rightarrow> json" where
  "verifier_json v = JObj (case v of
     Element_value identifier fixture_key \<Rightarrow> element_value_json identifier fixture_key
   | Navigation_state state marker \<Rightarrow> navigation_state_json state marker
   | Network_response endpoint method status \<Rightarrow> network_response_json endpoint method status
   | Log_event subsystem category event minimum \<Rightarrow> log_event_json subsystem category event minimum
   | No_crash bundle \<Rightarrow> no_crash_json bundle)"

lemmas verifier_json_defs = verifier_json_def element_value_json_def navigation_state_json_def network_response_json_def
  log_event_json_def no_crash_json_def

definition element_value_from :: "json \<Rightarrow> config_error + assertion_verifier" where
  "element_value_from v = bindE (exact_mapping [''accessibility_identifier'', ''expected_value_fixture_key''] v) (\<lambda>f.
     bindE (config_string (jfield ''accessibility_identifier'' f)) (\<lambda>identifier.
     bindE (optional_value config_string (jfield ''expected_value_fixture_key'' f)) (\<lambda>key.
     construct verifier_ok (Element_value identifier key))))"

definition navigation_state_from :: "json \<Rightarrow> config_error + assertion_verifier" where
  "navigation_state_from v = bindE (exact_mapping [''state_id'', ''marker_accessibility_identifier''] v) (\<lambda>f.
     bindE (config_string (jfield ''state_id'' f)) (\<lambda>state.
     bindE (config_string (jfield ''marker_accessibility_identifier'' f)) (\<lambda>marker.
     construct verifier_ok (Navigation_state state marker))))"

definition network_response_from :: "json \<Rightarrow> config_error + assertion_verifier" where
  "network_response_from v = bindE (exact_mapping [''endpoint_class'', ''method'', ''expected_status_code''] v) (\<lambda>f.
     bindE (config_string (jfield ''endpoint_class'' f)) (\<lambda>endpoint.
     bindE (enum_value [M_DELETE, M_GET, M_PATCH, M_POST, M_PUT] network_method_value (jfield ''method'' f)) (\<lambda>method.
     bindE (config_integer (jfield ''expected_status_code'' f)) (\<lambda>status.
     construct verifier_ok (Network_response endpoint method status)))))"

definition log_event_from :: "json \<Rightarrow> config_error + assertion_verifier" where
  "log_event_from v = bindE (exact_mapping [''subsystem'', ''category'', ''event_key'', ''minimum_count''] v) (\<lambda>f.
     bindE (config_string (jfield ''subsystem'' f)) (\<lambda>subsystem.
     bindE (config_string (jfield ''category'' f)) (\<lambda>category.
     bindE (config_string (jfield ''event_key'' f)) (\<lambda>event.
     bindE (config_integer (jfield ''minimum_count'' f)) (\<lambda>minimum.
     construct verifier_ok (Log_event subsystem category event minimum))))))"

definition no_crash_from :: "json \<Rightarrow> config_error + assertion_verifier" where
  "no_crash_from v = bindE (exact_mapping [''bundle_identifier''] v) (\<lambda>f.
     bindE (config_string (jfield ''bundle_identifier'' f)) (\<lambda>bundle. construct verifier_ok (No_crash bundle)))"

definition verifier_kind :: "assertion_verifier \<Rightarrow> assertion_kind" where
  "verifier_kind v = (case v of Element_value _ _ \<Rightarrow> ELEMENT_VALUE_PRESENT | Navigation_state _ _ \<Rightarrow> NAVIGATION_STATE_REACHED
     | Network_response _ _ _ \<Rightarrow> EXPECTED_NETWORK_RESPONSE | Log_event _ _ _ _ \<Rightarrow> EXPECTED_LOG_EVENT | No_crash _ \<Rightarrow> NO_CRASH)"

record catalog_entry =
  ce_id :: string
  ce_kind :: assertion_kind
  ce_role :: assertion_role
  ce_key :: string
  ce_verifier :: assertion_verifier

definition catalog_entry_ok :: "catalog_entry \<Rightarrow> bool" where
  "catalog_entry_ok c \<longleftrightarrow> config_identifier_ok 128 (ce_id c) \<and> config_identifier_ok 255 (ce_key c) \<and>
     verifier_kind (ce_verifier c) = ce_kind c"

definition catalog_entry_json :: "catalog_entry \<Rightarrow> json" where
  "catalog_entry_json c = JObj [(''assertion_id'', JStr (ce_id c)), (''kind'', JStr (assertion_kind_value (ce_kind c))),
     (''role'', JStr (assertion_role_value (ce_role c))), (''catalog_key'', JStr (ce_key c)),
     (''verifier'', verifier_json (ce_verifier c))]"

definition catalog_entry_from :: "json \<Rightarrow> config_error + catalog_entry" where
  "catalog_entry_from v = bindE (exact_mapping [''assertion_id'', ''kind'', ''role'', ''catalog_key'', ''verifier''] v) (\<lambda>f.
     bindE (enum_value assertion_kinds assertion_kind_value (jfield ''kind'' f)) (\<lambda>kind.
     bindE ((case kind of ELEMENT_VALUE_PRESENT \<Rightarrow> element_value_from | NAVIGATION_STATE_REACHED \<Rightarrow> navigation_state_from
       | EXPECTED_NETWORK_RESPONSE \<Rightarrow> network_response_from | EXPECTED_LOG_EVENT \<Rightarrow> log_event_from
       | NO_CRASH \<Rightarrow> no_crash_from) (jfield ''verifier'' f)) (\<lambda>verifier.
     bindE (config_string (jfield ''assertion_id'' f)) (\<lambda>i.
     bindE (enum_value [FLOW_BASELINE, TASK_SELECTABLE] assertion_role_value (jfield ''role'' f)) (\<lambda>role.
     bindE (config_string (jfield ''catalog_key'' f)) (\<lambda>key.
     construct catalog_entry_ok \<lparr>ce_id = i, ce_kind = kind, ce_role = role, ce_key = key, ce_verifier = verifier\<rparr>))))))"

definition artifact_paths_ok :: "string list \<Rightarrow> bool" where
  "artifact_paths_ok ps \<longleftrightarrow> ps \<noteq> [] \<and> list_all relative_path_ok ps \<and> distinct ps"

definition artifact_settings_json :: "string list \<Rightarrow> json" where
  "artifact_settings_json ps = JObj [(''collection_paths'', texts ps)]"

definition artifact_settings_from :: "json \<Rightarrow> config_error + string list" where
  "artifact_settings_from v = bindE (exact_mapping [''collection_paths''] v) (\<lambda>f.
     bindE (string_tuple (jfield ''collection_paths'' f)) (construct artifact_paths_ok))"

subsection \<open>The configuration\<close>

record repository_configuration =
  rc_id :: uuid
  rc_key :: string
  rc_version :: int
  rc_repository :: repository_settings
  rc_git :: git_settings
  rc_xcode :: xcode_settings
  rc_operations :: "test_operation list"
  rc_catalog :: "catalog_entry list"
  rc_artifacts :: "string list"
  rc_prohibited_paths :: "string list"
  rc_secrets :: "secret_reference list"

definition e2e_flows :: "repository_configuration \<Rightarrow> e2e_flow list" where
  "e2e_flows c = List.map_filter to_flow (filter (\<lambda>t. to_kind t = SIMULATOR_E2E) (rc_operations c))"

definition argv_prefix :: "xcode_settings \<Rightarrow> string \<Rightarrow> string list" where
  "argv_prefix x action = [''xcodebuild'', action, case xs_kind x of PROJECT \<Rightarrow> ''-project'' | WORKSPACE \<Rightarrow> ''-workspace'',
     xs_path x, ''-scheme'', xs_scheme x, ''-destination'', simulator_destination]"

definition is_test_selector :: "string \<Rightarrow> bool" where
  "is_test_selector s \<longleftrightarrow> starts_with ''-only-testing:'' s \<or> starts_with ''-skip-testing:'' s"

definition operation_bound :: "xcode_settings \<Rightarrow> test_operation \<Rightarrow> bool" where
  "operation_bound x t \<longleftrightarrow> (let extras = drop 8 (to_argv t) in
     take 8 (to_argv t) = argv_prefix x (to_argv t ! 1) \<and> distinct extras \<and>
     list_all (\<lambda>a. a = ''-quiet'' \<or> test_selector_pattern a) extras \<and>
     (to_kind t = SIMULATOR_E2E \<longrightarrow> (case to_flow t of None \<Rightarrow> False
       | Some e \<Rightarrow> filter is_test_selector extras = [''-only-testing:'' @ ef_runner_test e])))"

definition under_prohibited :: "string list \<Rightarrow> pure_path \<Rightarrow> bool" where
  "under_prohibited denied p \<longleftrightarrow> list_ex (\<lambda>d. path_within (posix_path d) p) denied"

definition control_files :: "xcode_settings \<Rightarrow> e2e_flow \<Rightarrow> pure_path list" where
  "control_files x e = (let container = posix_path (xs_path x) in
     [path_join container [''xcshareddata'', ''xcschemes'', xs_scheme x @ ''.xcscheme''],
      path_join container [''contents.xcworkspacedata''],
      path_join (posix_path (ef_harness_project e)) [''project.pbxproj'']])"

definition path_boundaries_ok :: "repository_configuration \<Rightarrow> e2e_flow \<Rightarrow> bool" where
  "path_boundaries_ok c e \<longleftrightarrow>
     (let denied = map posix_path (rc_prohibited_paths c); container = posix_path (xs_path (rc_xcode c));
          harness = map (posix_path \<circ> pf_path) (ef_harness_files e); controls = control_files (rc_xcode c) e;
          definitions = filter (\<lambda>p. path_name p = ''project.pbxproj'' \<and> ends_with ''.xcodeproj'' (path_name (path_parent p))) harness;
          root = posix_path (ef_harness_root e); runner = posix_path (ef_runner_source e);
          sources = filter (\<lambda>p. p \<notin> set controls) harness in
      \<not> list_ex (\<lambda>a. list_ex (\<lambda>d. path_within d a \<or> in_parents a d) denied) (map posix_path (rc_artifacts c)) \<and>
      \<not> list_ex (\<lambda>d. path_within d container) denied \<and>
      xs_kind (rc_xcode c) = WORKSPACE \<and> set controls \<subseteq> set harness \<and>
      set definitions = {path_join (posix_path (ef_harness_project e)) [''project.pbxproj'']} \<and> in_parents root runner \<and>
      sources \<noteq> [] \<and> runner \<in> set sources \<and> path_stem runner = split_on (CHR ''/'') (ef_runner_test e) ! 1 \<and>
      list_all (\<lambda>p. path_suffix p = ''.swift'') sources \<and>
      list_all (\<lambda>p. p \<in> set controls \<or> in_parents root p) harness \<and>
      list_all (\<lambda>p. under_prohibited (rc_prohibited_paths c) (posix_path p)) (pinned_paths e) \<and>
      under_prohibited (rc_prohibited_paths c) root)"

definition assertion_bindings_ok :: "repository_configuration \<Rightarrow> e2e_flow \<Rightarrow> bool" where
  "assertion_bindings_ok c e \<longleftrightarrow>
     (let required = filter (\<lambda>a. ce_id a \<in> set (ef_assertions e)) (rc_catalog c) in
      set (ef_assertions e) \<subseteq> set (map ce_id (rc_catalog c)) \<and> set (map ce_kind required) = set assertion_kinds \<and>
      list_all (\<lambda>a. ce_role a = FLOW_BASELINE) required \<and>
      set (List.map_filter (\<lambda>a. case ce_verifier a of Network_response k _ _ \<Rightarrow> Some k | _ \<Rightarrow> None) required) = set (ef_network_signals e) \<and>
      set (List.map_filter (\<lambda>a. case ce_verifier a of Log_event _ _ k _ \<Rightarrow> Some k | _ \<Rightarrow> None) required) = set (ef_log_signals e) \<and>
      ef_terminal_state e \<in> set (List.map_filter (\<lambda>a. case ce_verifier a of Navigation_state k _ \<Rightarrow> Some k | _ \<Rightarrow> None) required) \<and>
      set (List.map_filter (\<lambda>a. case ce_verifier a of No_crash k \<Rightarrow> Some k | _ \<Rightarrow> None) required) = {ef_bundle e} \<and>
      list_all (\<lambda>a. case ce_verifier a of No_crash k \<Rightarrow> k = ef_bundle e | _ \<Rightarrow> True) (rc_catalog c))"

definition configuration_ok :: "repository_configuration \<Rightarrow> bool" where
  "configuration_ok c \<longleftrightarrow> canonical_key_ok (rc_key c) \<and> 0 < rc_version c \<and>
     length (rc_operations c) = 4 \<and> set (map to_kind (rc_operations c)) = set operation_kinds \<and>
     distinct (map to_id (rc_operations c)) \<and> rc_catalog c \<noteq> [] \<and> length (rc_catalog c) \<le> 256 \<and>
     distinct (map ce_id (rc_catalog c)) \<and> distinct (map ce_key (rc_catalog c)) \<and>
     set (map ce_kind (rc_catalog c)) = set assertion_kinds \<and> list_ex (\<lambda>a. ce_role a = TASK_SELECTABLE) (rc_catalog c) \<and>
     list_all relative_path_ok (rc_prohibited_paths c) \<and> distinct (rc_prohibited_paths c) \<and>
     ''.git'' \<in> set (rc_prohibited_paths c) \<and> list_all (operation_bound (rc_xcode c)) (rc_operations c) \<and>
     distinct (map secret_uri (rc_secrets c)) \<and>
     (case gs_push_credential (rc_git c) of None \<Rightarrow> True | Some r \<Rightarrow> secret_uri r \<in> set (map secret_uri (rc_secrets c))) \<and>
     (case e2e_flows c of [e] \<Rightarrow> path_boundaries_ok c e \<and> secret_uri (ef_test_account e) \<in> set (map secret_uri (rc_secrets c)) \<and>
        gs_push_credential (rc_git c) \<noteq> Some (ef_test_account e) \<and> assertion_bindings_ok c e
      | _ \<Rightarrow> False)"

definition configuration_fields :: "repository_configuration \<Rightarrow> (string \<times> json) list" where
  "configuration_fields c = [(''repository_key'', JStr (rc_key c)), (''version'', JInt (rc_version c)),
     (''repository_settings'', repository_settings_json (rc_repository c)), (''git_settings'', git_settings_json (rc_git c)),
     (''xcode_settings'', xcode_settings_json (rc_xcode c)), (''operations'', JArr (map test_operation_json (rc_operations c))),
     (''e2e_assertions'', JArr (map catalog_entry_json (rc_catalog c))),
     (''artifact_settings'', artifact_settings_json (rc_artifacts c)), (''prohibited_paths'', texts (rc_prohibited_paths c)),
     (''secret_references'', texts (map secret_uri (rc_secrets c)))]"

definition configuration_json :: "repository_configuration \<Rightarrow> json" where
  "configuration_json c = JObj (configuration_fields c)"

text \<open>\<open>to_json\<close> and \<open>digest\<close>.\<close>

definition configuration_digest :: "(string \<Rightarrow> string) \<Rightarrow> repository_configuration \<Rightarrow> string" where
  "configuration_digest H c = ''sha256:'' @ hexdigest H (dumps (configuration_json c))"

definition configuration_from :: "uuid \<Rightarrow> json \<Rightarrow> config_error + repository_configuration" where
  "configuration_from i v = bindE (exact_mapping [''repository_key'', ''version'', ''repository_settings'', ''git_settings'',
       ''xcode_settings'', ''operations'', ''e2e_assertions'', ''artifact_settings'', ''prohibited_paths'', ''secret_references''] v) (\<lambda>f.
     bindE (config_string (jfield ''repository_key'' f)) (\<lambda>key.
     bindE (config_integer (jfield ''version'' f)) (\<lambda>version.
     bindE (repository_settings_from (jfield ''repository_settings'' f)) (\<lambda>repository.
     bindE (git_settings_from (jfield ''git_settings'' f)) (\<lambda>git.
     bindE (xcode_settings_from (jfield ''xcode_settings'' f)) (\<lambda>xcode.
     bindE (sequence_of test_operation_from (jfield ''operations'' f)) (\<lambda>operations.
     bindE (sequence_of catalog_entry_from (jfield ''e2e_assertions'' f)) (\<lambda>catalog.
     bindE (artifact_settings_from (jfield ''artifact_settings'' f)) (\<lambda>artifacts.
     bindE (string_tuple (jfield ''prohibited_paths'' f)) (\<lambda>paths.
     bindE (sequence_of (\<lambda>x. bindE (config_string x) parse_secret_reference) (jfield ''secret_references'' f)) (\<lambda>secrets.
     construct configuration_ok \<lparr>rc_id = i, rc_key = key, rc_version = version, rc_repository = repository, rc_git = git,
       rc_xcode = xcode, rc_operations = operations, rc_catalog = catalog, rc_artifacts = artifacts,
       rc_prohibited_paths = paths, rc_secrets = secrets\<rparr>)))))))))))"

end
