(* ===== verification/Config_Roundtrip.thy ===== *)
theory Config_Roundtrip
  imports Repository_Configuration
begin

text \<open>
  What \<open>to_dict\<close> writes, \<open>from_dict\<close> reads back, class by class, whatever the order of the keys.
\<close>

subsection \<open>Reading fields\<close>

lemma exact_mapping_jsort:
  "exact_mapping ks (jsort (JObj kvs)) = (if set (map fst kvs) = set ks then Inr (jsort (JObj kvs)) else Inl Bad_configuration)"
  by (simp add: exact_mapping_def jkeys_jsort del: jsort.simps) (simp add: jkeys_def)

lemma jkeys_JObj: "jkeys (JObj kvs) = set (map fst kvs)"
  by (simp add: jkeys_def)

lemma config_read_simps [simp]:
  "config_string (JStr s) = Inr s" "config_integer (JInt i) = Inr i" "config_boolean (JBool b) = Inr b"
  "config_sequence (JArr xs) = Inr xs"
  by (simp_all add: config_string_def config_integer_def config_boolean_def config_sequence_def)

lemma read_all_map: "(\<And>x. x \<in> set xs \<Longrightarrow> p (f x) = Inr x) \<Longrightarrow> read_all p (map f xs) = Inr xs"
  by (induction xs) auto

lemma sequence_of_map:
  "(\<And>x. x \<in> set xs \<Longrightarrow> p (jsort (f x)) = Inr x) \<Longrightarrow> sequence_of p (jsort (JArr (map f xs))) = Inr xs"
  using read_all_map [of xs p "jsort \<circ> f"] by (simp add: sequence_of_def)

lemma string_tuple_texts [simp]: "string_tuple (texts xs) = Inr xs"
  by (simp add: string_tuple_def sequence_of_def texts_def read_all_map)

lemma jsort_texts [simp]: "jsort (texts xs) = texts xs"
  by (simp add: texts_def)

lemma jsort_jopt [simp]: "jsort (jopt JStr x) = jopt JStr x"
  by (cases x) simp_all

text \<open>A vocabulary is read back when its words are distinct and all its values are listed.\<close>

lemma enum_value_name:
  assumes "inj name" "x \<in> set xs"
  shows "enum_value xs name (JStr (name x)) = Inr x"
proof -
  have "find (\<lambda>y. name y = name x) xs = Some x"
    using assms by (induction xs) (auto simp: inj_on_def)
  then show ?thesis by (simp add: enum_value_def)
qed

lemma enum_inj:
  "inj operation_kind_value" "inj assertion_kind_value" "inj assertion_role_value" "inj network_method_value"
  "inj prohibited_operation_value" "inj container_kind_value"
  by (auto simp: inj_on_def operation_kind_value_def assertion_kind_value_def assertion_role_value_def
      network_method_value_def prohibited_operation_value_def container_kind_value_def
      split: operation_kind.splits assertion_kind.splits assertion_role.splits network_method.splits
        prohibited_operation.splits container_kind.splits)

lemma enum_read [simp]:
  "enum_value operation_kinds operation_kind_value (JStr (operation_kind_value k)) = Inr k"
  "enum_value assertion_kinds assertion_kind_value (JStr (assertion_kind_value a)) = Inr a"
  "enum_value [FLOW_BASELINE, TASK_SELECTABLE] assertion_role_value (JStr (assertion_role_value r)) = Inr r"
  "enum_value [M_DELETE, M_GET, M_PATCH, M_POST, M_PUT] network_method_value (JStr (network_method_value m)) = Inr m"
  "enum_value mandatory_prohibited_operations prohibited_operation_value (JStr (prohibited_operation_value p)) = Inr p"
  "enum_value [PROJECT, WORKSPACE] container_kind_value (JStr (container_kind_value c)) = Inr c"
  by (rule enum_value_name, rule enum_inj, cases k, simp_all add: operation_kinds_def)
    (rule enum_value_name, rule enum_inj, cases a, simp_all add: assertion_kinds_def,
     rule enum_value_name, rule enum_inj, cases r, simp_all,
     rule enum_value_name, rule enum_inj, cases m, simp_all,
     rule enum_value_name, rule enum_inj, cases p, simp_all add: mandatory_prohibited_operations_def,
     rule enum_value_name, rule enum_inj, cases c, simp_all)

text \<open>A record is made of its fields.\<close>

lemma secret_reference_fields [simp]:
  "\<lparr>sr_service = sr_service r, sr_account = sr_account r\<rparr> = r"
  by (cases r) simp

lemma git_identity_fields [simp]:
  "\<lparr>gi_name = gi_name g, gi_email = gi_email g\<rparr> = g"
  by (cases g) simp

lemma repository_settings_fields [simp]:
  "\<lparr>rs_root = rs_root r, rs_prohibited = rs_prohibited r\<rparr> = r"
  by (cases r) simp

lemma git_settings_fields [simp]:
  "\<lparr>gs_base_ref = gs_base_ref g, gs_branch_template = gs_branch_template g, gs_remote = gs_remote g,
     gs_push_credential = gs_push_credential g, gs_author = gs_author g, gs_committer = gs_committer g\<rparr> = g"
  by (cases g) simp

lemma simulator_settings_fields [simp]:
  "\<lparr>ss_runtime = ss_runtime s, ss_device_type = ss_device_type s\<rparr> = s"
  by (cases s) simp

lemma xcode_settings_fields [simp]:
  "\<lparr>xs_kind = xs_kind x, xs_path = xs_path x, xs_scheme = xs_scheme x, xs_simulator = xs_simulator x\<rparr> = x"
  by (cases x) simp

lemma pinned_file_fields [simp]:
  "\<lparr>pf_path = pf_path p, pf_digest = pf_digest p\<rparr> = p"
  by (cases p) simp

lemma e2e_flow_fields [simp]:
  "\<lparr>ef_id = ef_id e, ef_version = ef_version e, ef_entry_point = ef_entry_point e, ef_terminal_state =
     ef_terminal_state e, ef_fixture = ef_fixture e, ef_fixture_version = ef_fixture_version e, ef_fixture_digest =
     ef_fixture_digest e, ef_recipe = ef_recipe e, ef_recipe_version = ef_recipe_version e, ef_recipe_digest =
     ef_recipe_digest e, ef_test_account = ef_test_account e, ef_runner_test = ef_runner_test e, ef_bundle = ef_bundle
     e, ef_harness_root = ef_harness_root e, ef_harness_project = ef_harness_project e, ef_harness_target =
     ef_harness_target e, ef_runner_source = ef_runner_source e, ef_harness_files = ef_harness_files e, ef_fixture_file
     = ef_fixture_file e, ef_recipe_file = ef_recipe_file e, ef_assertions = ef_assertions e, ef_clean_state =
     ef_clean_state e, ef_locale = ef_locale e, ef_time_zone = ef_time_zone e, ef_clean_steps = ef_clean_steps e,
     ef_network_signals = ef_network_signals e, ef_log_signals = ef_log_signals e, ef_warnings = ef_warnings e\<rparr> = e"
  by (cases e) simp

lemma test_operation_fields [simp]:
  "\<lparr>to_id = to_id t, to_kind = to_kind t, to_argv = to_argv t, to_timeout = to_timeout t, to_flow = to_flow t\<rparr> = t"
  by (cases t) simp

lemma catalog_entry_fields [simp]:
  "\<lparr>ce_id = ce_id c, ce_kind = ce_kind c, ce_role = ce_role c, ce_key = ce_key c, ce_verifier = ce_verifier c\<rparr> = c"
  by (cases c) simp

lemma repository_configuration_fields [simp]:
  "\<lparr>rc_id = rc_id c, rc_key = rc_key c, rc_version = rc_version c, rc_repository = rc_repository c, rc_git =
     rc_git c, rc_xcode = rc_xcode c, rc_operations = rc_operations c, rc_catalog = rc_catalog c, rc_artifacts =
     rc_artifacts c, rc_prohibited_paths = rc_prohibited_paths c, rc_secrets = rc_secrets c\<rparr> = c"
  by (cases c) simp

subsection \<open>Secret references\<close>

lemma secret_chars:
  assumes "secret_reference_ok r" "c \<in> set (sr_service r) \<union> set (sr_account r)"
  shows "32 < (of_char c :: nat)" "c \<notin> set ''/?#%:''"
proof -
  have "is_alnum_char c \<or> c \<in> set ''._@-''"
    using assms by (auto simp: secret_reference_ok_def word_pattern_def list_all_iff split: list.split_asm)
  then show "32 < (of_char c :: nat)" "c \<notin> set ''/?#%:''"
    by (auto simp: is_alnum_char_def is_digit_char_def is_upper_char_def is_lower_char_def)
qed

lemma unquote_plain: "CHR ''%'' \<notin> set s \<Longrightarrow> unquote s = s"
  by (induction s rule: unquote.induct) auto

lemma secret_reference_roundtrip:
  assumes "secret_reference_ok r"
  shows "parse_secret_reference (secret_uri r) = Inr r"
proof -
  have ne: "sr_service r \<noteq> []" using assms by (auto simp: secret_reference_ok_def word_pattern_def)
  have chars: "32 < (of_char c :: nat)" "c \<notin> set ''/?#%:''" if "c \<in> set (sr_service r) \<union> set (sr_account r)" for c
    using secret_chars [OF assms that] by simp_all
  have tab: "c \<notin> {CHR 0x09, CHR 0x0A, CHR 0x0D}" if "c \<in> set (sr_service r) \<union> set (sr_account r)" for c
    using chars(1) [OF that] by auto
  have clean: "url_clean (secret_uri r) = secret_uri r"
    using tab by (auto simp: url_clean_def secret_uri_def filter_id_conv)
  have scheme: "url_scheme (secret_uri r) = (''keychain'', ''//'' @ sr_service r @ ''/'' @ sr_account r)"
    by (simp add: url_scheme_def secret_uri_def Let_def is_scheme_char_def is_alnum_char_def is_lower_char_def is_upper_char_def
        is_digit_char_def py_lower_def lower_char_def)
  have tw: "takeWhile (\<lambda>c. c \<notin> set ''/?#'') (sr_service r @ CHR ''/'' # sr_account r) = sr_service r"
    using chars(2) by (subst takeWhile_append2) auto
  have netloc: "url_netloc (''//'' @ sr_service r @ ''/'' @ sr_account r) = (sr_service r, ''/'' @ sr_account r)"
    using tw by (simp add: url_netloc_def starts_with_def Let_def)
  have t1: "takeWhile (\<lambda>c. c \<noteq> CHR ''#'') (sr_account r) = sr_account r" "takeWhile (\<lambda>c. c \<noteq> CHR ''?'') (sr_account r) = sr_account r"
    using chars(2) by (auto simp: takeWhile_eq_all_conv)
  have f: "filter (\<lambda>c. c = CHR ''/'') (sr_account r) = []" using chars(2) by (auto simp: filter_empty_conv)
  have u: "unquote (sr_service r) = sr_service r" "unquote (sr_account r) = sr_account r"
    using chars(2) by (auto intro: unquote_plain)
  show ?thesis using ne assms by (simp add: parse_secret_reference_def clean scheme netloc [simplified] t1 f u Let_def starts_with_def)
qed

subsection \<open>Settings\<close>

lemmas read_simps = exact_mapping_jsort jfield_jsort insert_commute

lemma git_identity_roundtrip: "git_identity_ok g \<Longrightarrow> git_identity_from (jsort (git_identity_json g)) = Inr g"
  unfolding git_identity_json_def
  by (simp add: git_identity_from_def read_simps del: jsort.simps(2))

text \<open>
  The prohibited operations are written in the order of their names, and all seven are there: a
  configuration differs from what is read back in the order in which it lists them, and in nothing else.
\<close>

definition canonical_repository :: "repository_settings \<Rightarrow> repository_settings" where
  "canonical_repository r = r\<lparr>rs_prohibited := mandatory_prohibited_operations\<rparr>"

lemma sort_map: "sort (map f xs) = map f (sort_key f xs)"
  by (rule properties_for_sort) simp_all

lemma prohibited_sorted: "sorted (map prohibited_operation_value mandatory_prohibited_operations)"
  by (simp add: mandatory_prohibited_operations_def prohibited_operation_value_def)

lemma all_prohibited: "set mandatory_prohibited_operations = UNIV" "distinct mandatory_prohibited_operations"
  by (auto simp: mandatory_prohibited_operations_def intro: prohibited_operation.exhaust)

lemma canonical_prohibited:
  assumes "distinct xs" "set mandatory_prohibited_operations \<subseteq> set xs"
  shows "sort_key prohibited_operation_value xs = mandatory_prohibited_operations"
proof -
  let ?f = prohibited_operation_value
  have xs: "set xs = UNIV" using assms(2) all_prohibited by auto
  have "map ?f (sort_key ?f xs) = map ?f mandatory_prohibited_operations"
  proof (rule sorted_distinct_set_unique)
    show "sorted (map ?f (sort_key ?f xs))" by simp
    show "distinct (map ?f (sort_key ?f xs))"
      using assms(1) enum_inj(5) by (simp add: distinct_map inj_on_def)
    show "distinct (map ?f mandatory_prohibited_operations)"
      using all_prohibited(2) enum_inj(5) by (simp add: distinct_map inj_on_def)
  qed (simp_all add: prohibited_sorted xs all_prohibited)
  then show ?thesis using enum_inj(5) by (simp add: inj_map_eq_map)
qed

lemma repository_settings_roundtrip:
  "repository_settings_ok r \<Longrightarrow> repository_settings_from (jsort (repository_settings_json r)) = Inr (canonical_repository r)"
proof -
  assume ok: "repository_settings_ok r"
  have ok': "repository_settings_ok (canonical_repository r)" using ok all_prohibited(2) by (simp add: repository_settings_ok_def canonical_repository_def)
  have s: "sort_key prohibited_operation_value (rs_prohibited r) = mandatory_prohibited_operations"
    using ok by (intro canonical_prohibited) (simp_all add: repository_settings_ok_def)
  have "sequence_of (enum_value mandatory_prohibited_operations prohibited_operation_value)
      (jsort (JArr (map (JStr \<circ> prohibited_operation_value) xs))) = Inr xs" for xs
    by (rule sequence_of_map) simp
  then show ?thesis using ok' unfolding repository_settings_json_def sort_map map_map s
    by (cases r) (simp add: repository_settings_from_def read_simps canonical_repository_def del: jsort.simps(1,2))
qed

definition secret_settings_ok :: "git_settings \<Rightarrow> bool" where
  "secret_settings_ok g \<longleftrightarrow> git_settings_ok g \<and> git_identity_ok (gs_author g) \<and> git_identity_ok (gs_committer g) \<and>
     (case gs_push_credential g of None \<Rightarrow> True | Some r \<Rightarrow> secret_reference_ok r)"

lemma git_settings_roundtrip:
  "secret_settings_ok g \<Longrightarrow> git_settings_from (jsort (git_settings_json g)) = Inr g"
  unfolding git_settings_json_def
  by (cases g; cases "gs_push_credential g")
    (simp_all add: git_settings_from_def secret_settings_ok_def read_simps jkeys_jsort jkeys_JObj git_settings_fields_def
      git_identity_roundtrip secret_reference_roundtrip del: jsort.simps(2))

lemma simulator_settings_roundtrip:
  "simulator_settings_ok s \<Longrightarrow> simulator_settings_from (jsort (simulator_settings_json s)) = Inr s"
  unfolding simulator_settings_json_def
  by (simp add: simulator_settings_from_def read_simps del: jsort.simps(2))

lemma xcode_settings_roundtrip:
  "xcode_settings_ok x \<Longrightarrow> simulator_settings_ok (xs_simulator x) \<Longrightarrow> xcode_settings_from (jsort (xcode_settings_json x)) = Inr x"
  unfolding xcode_settings_json_def
  by (simp add: xcode_settings_from_def read_simps simulator_settings_roundtrip del: jsort.simps(2))

lemma pinned_file_roundtrip: "pinned_file_ok p \<Longrightarrow> pinned_file_from (jsort (pinned_file_json p)) = Inr p"
  unfolding pinned_file_json_def
  by (simp add: pinned_file_from_def read_simps del: jsort.simps(2))

definition e2e_flow_valid :: "e2e_flow \<Rightarrow> bool" where
  "e2e_flow_valid e \<longleftrightarrow> e2e_flow_ok e \<and> secret_reference_ok (ef_test_account e) \<and> list_all pinned_file_ok (ef_harness_files e) \<and>
     pinned_file_ok (ef_fixture_file e) \<and> pinned_file_ok (ef_recipe_file e)"

lemma e2e_keys_distinct: "map fst (e2e_flow_fields e) = e2e_flow_keys" "distinct e2e_flow_keys"
  by (simp_all add: e2e_flow_fields_def e2e_flow_keys_def)

lemma e2e_flow_roundtrip:
  assumes "e2e_flow_valid e"
  shows "e2e_flow_from (jsort (e2e_flow_json e)) = Inr e"
proof -
  have m: "exact_mapping e2e_flow_keys (jsort (JObj (e2e_flow_fields e))) = Inr (jsort (JObj (e2e_flow_fields e)))"
    by (simp only: exact_mapping_jsort e2e_keys_distinct simp_thms if_True)
  have p: "sequence_of pinned_file_from (jsort (JArr (map pinned_file_json (ef_harness_files e)))) = Inr (ef_harness_files e)"
    using assms by (intro sequence_of_map pinned_file_roundtrip) (simp add: e2e_flow_valid_def list_all_iff)
  have f: "jfield k (jsort (JObj (e2e_flow_fields e))) = (case map_of (e2e_flow_fields e) k of None \<Rightarrow> JNull | Some x \<Rightarrow> jsort x)" for k
    by (rule jfield_jsort) (simp only: e2e_keys_distinct)
  show ?thesis using assms
    by (simp add: e2e_flow_from_def e2e_flow_json_def m f p e2e_flow_valid_def pinned_file_roundtrip secret_reference_roundtrip
        del: jsort.simps(1,2)) (simp add: e2e_flow_fields_def p pinned_file_roundtrip secret_reference_roundtrip del: jsort.simps(1,2))
qed

subsection \<open>Operations and assertions\<close>

definition test_operation_valid :: "test_operation \<Rightarrow> bool" where
  "test_operation_valid t \<longleftrightarrow> test_operation_ok t \<and> (case to_flow t of None \<Rightarrow> True | Some e \<Rightarrow> e2e_flow_valid e)"

lemma test_operation_roundtrip:
  "test_operation_valid t \<Longrightarrow> test_operation_from (jsort (test_operation_json t)) = Inr t"
proof -
  assume v: "test_operation_valid t"
  have "optional_value e2e_flow_from (jsort (jopt e2e_flow_json (to_flow t))) = Inr (to_flow t)"
  proof (cases "to_flow t")
    case (Some e)
    then have "e2e_flow_from (jsort (e2e_flow_json e)) = Inr e" using v by (intro e2e_flow_roundtrip) (simp add: test_operation_valid_def)
    moreover obtain kvs where "jsort (e2e_flow_json e) = JObj kvs" by (simp add: e2e_flow_json_def)
    ultimately show ?thesis using Some by simp
  qed simp
  then show ?thesis using v unfolding test_operation_json_def
    by (cases t) (simp add: test_operation_from_def test_operation_valid_def read_simps del: jsort.simps(2))
qed

lemma verifier_roundtrip:
  assumes "verifier_ok v"
  shows "(case verifier_kind v of ELEMENT_VALUE_PRESENT \<Rightarrow> element_value_from | NAVIGATION_STATE_REACHED \<Rightarrow> navigation_state_from
       | EXPECTED_NETWORK_RESPONSE \<Rightarrow> network_response_from | EXPECTED_LOG_EVENT \<Rightarrow> log_event_from
       | NO_CRASH \<Rightarrow> no_crash_from) (jsort (verifier_json v)) = Inr v"
proof (cases v)
  case (Element_value i k)
  then show ?thesis using assms
    by (cases k) (simp_all add: verifier_kind_def verifier_json_defs element_value_from_def read_simps del: jsort.simps(2))
qed (use assms in \<open>simp_all add: verifier_kind_def verifier_json_defs navigation_state_from_def network_response_from_def
  log_event_from_def no_crash_from_def read_simps del: jsort.simps(2)\<close>)

lemma catalog_entry_roundtrip:
  assumes "catalog_entry_ok c" "verifier_ok (ce_verifier c)"
  shows "catalog_entry_from (jsort (catalog_entry_json c)) = Inr c"
proof -
  have "ce_kind c = verifier_kind (ce_verifier c)" using assms(1) by (simp add: catalog_entry_ok_def)
  then show ?thesis using assms verifier_roundtrip [OF assms(2)] unfolding catalog_entry_json_def
    by (cases c) (simp add: catalog_entry_from_def read_simps del: jsort.simps(2))
qed

lemma artifact_settings_roundtrip:
  "artifact_paths_ok ps \<Longrightarrow> artifact_settings_from (jsort (artifact_settings_json ps)) = Inr ps"
  unfolding artifact_settings_json_def by (simp add: artifact_settings_from_def read_simps del: jsort.simps(2))

subsection \<open>Configurations\<close>

text \<open>A configuration as the constructors build it.\<close>

definition configuration_valid :: "repository_configuration \<Rightarrow> bool" where
  "configuration_valid c \<longleftrightarrow> configuration_ok c \<and> repository_settings_ok (rc_repository c) \<and> secret_settings_ok (rc_git c) \<and>
     xcode_settings_ok (rc_xcode c) \<and> simulator_settings_ok (xs_simulator (rc_xcode c)) \<and>
     list_all test_operation_valid (rc_operations c) \<and>
     list_all (\<lambda>a. catalog_entry_ok a \<and> verifier_ok (ce_verifier a)) (rc_catalog c) \<and> artifact_paths_ok (rc_artifacts c) \<and>
     list_all secret_reference_ok (rc_secrets c)"

definition canonical_configuration :: "repository_configuration \<Rightarrow> repository_configuration" where
  "canonical_configuration c = c\<lparr>rc_repository := canonical_repository (rc_repository c)\<rparr>"

lemma configuration_ok_repository: "configuration_ok (c\<lparr>rc_repository := r, rc_id := i\<rparr>) = configuration_ok c"
  by (simp add: configuration_ok_def e2e_flows_def path_boundaries_ok_def assertion_bindings_ok_def
      cong: option.case_cong list.case_cong)

lemma configuration_keys_distinct: "distinct (map fst (configuration_fields c))"
  by (simp add: configuration_fields_def)

lemma configuration_roundtrip:
  assumes "configuration_valid c"
  shows "configuration_from i (jsort (configuration_json c)) = Inr (canonical_configuration c\<lparr>rc_id := i\<rparr>)"
proof -
  note v = assms [unfolded configuration_valid_def]
  have o: "sequence_of test_operation_from (jsort (JArr (map test_operation_json (rc_operations c)))) = Inr (rc_operations c)"
    using v by (intro sequence_of_map test_operation_roundtrip) (simp add: list_all_iff)
  have a: "sequence_of catalog_entry_from (jsort (JArr (map catalog_entry_json (rc_catalog c)))) = Inr (rc_catalog c)"
    using v by (intro sequence_of_map catalog_entry_roundtrip) (simp_all add: list_all_iff)
  have s: "sequence_of (\<lambda>x. bindE (config_string x) parse_secret_reference) (texts (map secret_uri (rc_secrets c))) = Inr (rc_secrets c)"
    using v sequence_of_map [of "rc_secrets c" "\<lambda>x. bindE (config_string x) parse_secret_reference" "JStr \<circ> secret_uri"]
    by (simp add: texts_def secret_reference_roundtrip list_all_iff comp_def)
  have ok: "configuration_ok (c\<lparr>rc_repository := canonical_repository (rc_repository c), rc_id := i\<rparr>)"
    using v by (simp add: configuration_ok_repository)
  have r: "\<lparr>rc_id = i, rc_key = rc_key c, rc_version = rc_version c, rc_repository = canonical_repository (rc_repository c),
      rc_git = rc_git c, rc_xcode = rc_xcode c, rc_operations = rc_operations c, rc_catalog = rc_catalog c,
      rc_artifacts = rc_artifacts c, rc_prohibited_paths = rc_prohibited_paths c, rc_secrets = rc_secrets c\<rparr>
    = c\<lparr>rc_repository := canonical_repository (rc_repository c), rc_id := i\<rparr>" by (cases c) simp
  have f: "jfield k (jsort (configuration_json c)) = (case map_of (configuration_fields c) k of None \<Rightarrow> JNull | Some x \<Rightarrow> jsort x)" for k
    unfolding configuration_json_def by (rule jfield_jsort) (rule configuration_keys_distinct)
  have m: "exact_mapping (map fst (configuration_fields c)) (jsort (configuration_json c)) = Inr (jsort (configuration_json c))"
    by (simp only: configuration_json_def exact_mapping_jsort simp_thms if_True)
  have "configuration_from i (jsort (configuration_json c))
     = construct configuration_ok (c\<lparr>rc_repository := canonical_repository (rc_repository c), rc_id := i\<rparr>)"
    using v unfolding configuration_from_def
    by (simp add: m [unfolded configuration_fields_def, simplified] f configuration_fields_def o a s r repository_settings_roundtrip git_settings_roundtrip
        xcode_settings_roundtrip artifact_settings_roundtrip del: jsort.simps(1,2))
  then show ?thesis using ok by (simp add: canonical_configuration_def)
qed

end
