(* ===== verification/Config_Sample.thy ===== *)
theory Config_Sample
  imports Config_Roundtrip
begin

text \<open>
  The configuration of \<open>test_repository_contract.py\<close>, at which the properties are applied.
\<close>

definition sample_digest_of :: "char \<Rightarrow> string" where
  "sample_digest_of c = ''sha256:'' @ replicate 64 c"

definition sample_secret :: secret_reference where
  "sample_secret = \<lparr>sr_service = ''mathews-tests'', sr_account = ''primary-account''\<rparr>"

definition sample_push :: secret_reference where
  "sample_push = \<lparr>sr_service = ''com.boppuh.mathews.git'', sr_account = ''example-ios-push''\<rparr>"

definition sample_flow :: e2e_flow where
  "sample_flow = \<lparr>ef_id = ''primary_journey'', ef_version = 1, ef_entry_point = ''app.launch'',
     ef_terminal_state = ''task.completed'', ef_fixture = ''primary_fixture'', ef_fixture_version = 1,
     ef_fixture_digest = sample_digest_of (CHR ''1''), ef_recipe = ''primary_account'', ef_recipe_version = 1,
     ef_recipe_digest = sample_digest_of (CHR ''2''), ef_test_account = sample_secret,
     ef_runner_test = ''ExampleUITests/PrimaryJourneyTests/testPrimaryJourney'', ef_bundle = ''com.example.Example'',
     ef_harness_root = ''ExampleUITests'', ef_harness_project = ''ExampleHarness.xcodeproj'',
     ef_harness_target = replicate 24 (CHR ''A''), ef_runner_source = ''ExampleUITests/PrimaryJourneyTests.swift'',
     ef_harness_files = [\<lparr>pf_path = ''Example.xcworkspace/contents.xcworkspacedata'', pf_digest = sample_digest_of (CHR ''3'')\<rparr>,
       \<lparr>pf_path = ''Example.xcworkspace/xcshareddata/xcschemes/Example.xcscheme'', pf_digest = sample_digest_of (CHR ''4'')\<rparr>,
       \<lparr>pf_path = ''ExampleHarness.xcodeproj/project.pbxproj'', pf_digest = sample_digest_of (CHR ''5'')\<rparr>,
       \<lparr>pf_path = ''ExampleUITests/PrimaryJourneyTests.swift'', pf_digest = sample_digest_of (CHR ''6'')\<rparr>],
     ef_fixture_file = \<lparr>pf_path = ''Fixtures/primary.json'', pf_digest = sample_digest_of (CHR ''1'')\<rparr>,
     ef_recipe_file = \<lparr>pf_path = ''Fixtures/primary-account.json'', pf_digest = sample_digest_of (CHR ''2'')\<rparr>,
     ef_assertions = [''task_title'', ''terminal_state'', ''network_response'', ''log_event'', ''no_crash''],
     ef_clean_state = True, ef_locale = ''en_US_POSIX'', ef_time_zone = ''UTC'', ef_clean_steps = expected_clean_state_steps,
     ef_network_signals = [''task.created''], ef_log_signals = [''task.completed''], ef_warnings = [''simulator.noise'']\<rparr>"

definition sample_xcode :: xcode_settings where
  "sample_xcode = \<lparr>xs_kind = WORKSPACE, xs_path = ''Example.xcworkspace'', xs_scheme = ''Example'',
     xs_simulator = \<lparr>ss_runtime = ''com.apple.CoreSimulator.SimRuntime.iOS-26-0'',
       ss_device_type = ''com.apple.CoreSimulator.SimDeviceType.iPhone-17-Pro''\<rparr>\<rparr>"

definition sample_run :: "operation_kind \<Rightarrow> test_operation" where
  "sample_run kind = \<lparr>to_id = map lower_char (operation_kind_value kind), to_kind = kind,
     to_argv = argv_prefix sample_xcode (if kind = BUILD then ''build'' else ''test'') @
       (if kind = SIMULATOR_E2E then [''-only-testing:'' @ ef_runner_test sample_flow] else []),
     to_timeout = 600, to_flow = (if kind = SIMULATOR_E2E then Some sample_flow else None)\<rparr>"

definition sample_catalog :: "catalog_entry list" where
  "sample_catalog =
    [\<lparr>ce_id = ''task_title'', ce_kind = ELEMENT_VALUE_PRESENT, ce_role = FLOW_BASELINE, ce_key = ''task.title'',
       ce_verifier = Element_value ''task.title'' (Some ''task.title'')\<rparr>,
     \<lparr>ce_id = ''terminal_state'', ce_kind = NAVIGATION_STATE_REACHED, ce_role = FLOW_BASELINE, ce_key = ''task.completed'',
       ce_verifier = Navigation_state ''task.completed'' ''task.completed''\<rparr>,
     \<lparr>ce_id = ''network_response'', ce_kind = EXPECTED_NETWORK_RESPONSE, ce_role = FLOW_BASELINE,
       ce_key = ''task.created.response'', ce_verifier = Network_response ''task.created'' M_POST 201\<rparr>,
     \<lparr>ce_id = ''log_event'', ce_kind = EXPECTED_LOG_EVENT, ce_role = FLOW_BASELINE, ce_key = ''task.completed.log'',
       ce_verifier = Log_event ''com.example.Example'' ''task'' ''task.completed'' 1\<rparr>,
     \<lparr>ce_id = ''no_crash'', ce_kind = NO_CRASH, ce_role = FLOW_BASELINE, ce_key = ''app.process'',
       ce_verifier = No_crash ''com.example.Example''\<rparr>,
     \<lparr>ce_id = ''changed_task_title'', ce_kind = ELEMENT_VALUE_PRESENT, ce_role = TASK_SELECTABLE,
       ce_key = ''task.title.changed'', ce_verifier = Element_value ''task.title'' None\<rparr>]"

definition sample_configuration :: repository_configuration where
  "sample_configuration = \<lparr>rc_id = 7, rc_key = ''boppuh/example-ios'', rc_version = 2,
     rc_repository = \<lparr>rs_root = ''/Users/operator/dev/example-ios'', rs_prohibited = mandatory_prohibited_operations\<rparr>,
     rc_git = \<lparr>gs_base_ref = ''refs/remotes/origin/main'', gs_branch_template = ''mathews/{task_id}'', gs_remote = ''origin'',
       gs_push_credential = Some sample_push, gs_author = \<lparr>gi_name = ''Mathews'', gi_email = ''mathews@example.test''\<rparr>,
       gs_committer = \<lparr>gi_name = ''Mathews'', gi_email = ''mathews@example.test''\<rparr>\<rparr>,
     rc_xcode = sample_xcode, rc_operations = map sample_run operation_kinds, rc_catalog = sample_catalog,
     rc_artifacts = [''artifacts''],
     rc_prohibited_paths = [''.git'', ''Secrets'', ''ExampleUITests'', ''ExampleHarness.xcodeproj'',
       ''Example.xcworkspace/contents.xcworkspacedata'', ''Example.xcworkspace/xcshareddata'', ''Fixtures''],
     rc_secrets = [sample_secret, sample_push]\<rparr>"

lemma sample_flow_valid: "e2e_flow_valid sample_flow"
  by code_simp

lemma sample_run_ok:
  "test_operation_ok (sample_run BUILD)" "test_operation_ok (sample_run UNIT_TEST)" "test_operation_ok (sample_run INTEGRATION_TEST)"
  "test_operation_ok (sample_run SIMULATOR_E2E)"
     apply code_simp
    apply code_simp
   apply code_simp
  apply code_simp
  done

lemma sample_operations_valid: "list_all test_operation_valid (rc_operations sample_configuration)"
  by (simp add: sample_configuration_def operation_kinds_def test_operation_valid_def sample_run_ok sample_flow_valid)
    (simp add: sample_run_def sample_flow_valid)

lemma sample_catalog_valid: "list_all (\<lambda>a. catalog_entry_ok a \<and> verifier_ok (ce_verifier a)) (rc_catalog sample_configuration)"
  by code_simp

lemma sample_repository_valid: "repository_settings_ok (rc_repository sample_configuration)"
  by code_simp

lemma sample_git_valid: "git_settings_ok (rc_git sample_configuration)"
  by code_simp

lemma sample_identity_valid: "git_identity_ok \<lparr>gi_name = ''Mathews'', gi_email = ''mathews@example.test''\<rparr>"
  by code_simp

lemma sample_secrets_valid: "secret_reference_ok sample_secret" "secret_reference_ok sample_push"
  by code_simp+

lemma sample_xcode_valid: "xcode_settings_ok sample_xcode"
  by code_simp

lemma sample_simulator_valid: "simulator_settings_ok (xs_simulator sample_xcode)"
  by code_simp

lemma sample_artifacts_valid: "artifact_paths_ok [''artifacts'']"
  by code_simp

lemma sample_settings_valid:
  "secret_settings_ok (rc_git sample_configuration)" "xcode_settings_ok (rc_xcode sample_configuration)"
  "simulator_settings_ok (xs_simulator (rc_xcode sample_configuration))"
  "artifact_paths_ok (rc_artifacts sample_configuration)" "list_all secret_reference_ok (rc_secrets sample_configuration)"
  using sample_git_valid sample_identity_valid sample_secrets_valid sample_xcode_valid sample_simulator_valid sample_artifacts_valid
  by (simp_all add: secret_settings_ok_def sample_configuration_def)

lemma sample_configuration_ok: "configuration_ok sample_configuration"
  by code_simp

lemma sample_configuration_valid: "configuration_valid sample_configuration"
  by (simp add: configuration_valid_def sample_configuration_ok sample_settings_valid sample_repository_valid sample_catalog_valid sample_operations_valid)

end
