(* ===== verification/Config_Properties.thy ===== *)
theory Config_Properties
  imports Config_Roundtrip Config_Sample Host_Journal_Ledger
begin

text \<open>
  What an accepted repository configuration promises: it is what the constructors allow, it survives
  its canonical JSON, its digest identifies it, and no operation in it runs anything but the
  configured Xcode action on the configured container, with the trust files out of the task's reach.
\<close>

subsection \<open>What the parser returns\<close>

lemma read_all_all: "read_all p xs = Inr ys \<Longrightarrow> (\<And>x y. p x = Inr y \<Longrightarrow> P y) \<Longrightarrow> list_all P ys"
  by (induction xs arbitrary: ys) auto

lemma sequence_of_all: "sequence_of p v = Inr ys \<Longrightarrow> (\<And>x y. p x = Inr y \<Longrightarrow> P y) \<Longrightarrow> list_all P ys"
  by (auto simp: sequence_of_def intro: read_all_all)

lemma parse_secret_ok: "parse_secret_reference s = Inr r \<Longrightarrow> secret_reference_ok r"
  by (auto simp: parse_secret_reference_def Let_def split: prod.split_asm if_split_asm)

lemma git_identity_from_ok: "git_identity_from v = Inr g \<Longrightarrow> git_identity_ok g"
  by (auto simp: git_identity_from_def)

lemma repository_settings_from_ok: "repository_settings_from v = Inr r \<Longrightarrow> repository_settings_ok r"
  by (auto simp: repository_settings_from_def)

lemma git_settings_from_ok:
  assumes "git_settings_from v = Inr g"
  shows "secret_settings_ok g"
proof -
  obtain push where "git_identity_from (jfield ''author'' v) = Inr (gs_author g)"
    "git_identity_from (jfield ''committer'' v) = Inr (gs_committer g)" "git_settings_ok g"
    "(if ''push_credential'' \<notin> jkeys v then Inr None else bindE (config_string (jfield ''push_credential'' v))
       (\<lambda>s. bindE (parse_secret_reference s) (\<lambda>r. Inr (Some r)))) = Inr push" "gs_push_credential g = push"
    using assms by (simp add: git_settings_from_def) (elim exE conjE, simp)
  then show ?thesis
    by (auto simp: secret_settings_ok_def git_identity_from_ok dest: parse_secret_ok split: if_split_asm option.split)
qed

lemma simulator_settings_from_ok: "simulator_settings_from v = Inr s \<Longrightarrow> simulator_settings_ok s"
  by (auto simp: simulator_settings_from_def)

lemma xcode_settings_from_ok:
  "xcode_settings_from v = Inr x \<Longrightarrow> xcode_settings_ok x \<and> simulator_settings_ok (xs_simulator x)"
  by (auto simp: xcode_settings_from_def dest: simulator_settings_from_ok)

lemma pinned_file_from_ok: "pinned_file_from v = Inr p \<Longrightarrow> pinned_file_ok p"
  by (auto simp: pinned_file_from_def)

lemma bindE_InrE: "bindE x f = Inr y \<Longrightarrow> (\<And>a. x = Inr a \<Longrightarrow> f a = Inr y \<Longrightarrow> thesis) \<Longrightarrow> thesis"
  by (cases x) auto

lemma constructE: "construct ok x = Inr y \<Longrightarrow> (y = x \<Longrightarrow> ok x \<Longrightarrow> thesis) \<Longrightarrow> thesis"
  by simp

lemma pinned_files_from_ok: "sequence_of pinned_file_from v = Inr ps \<Longrightarrow> list_all pinned_file_ok ps"
  by (rule sequence_of_all) (auto dest: pinned_file_from_ok)

lemma e2e_flow_from_ok: "e2e_flow_from v = Inr e \<Longrightarrow> e2e_flow_valid e"
  unfolding e2e_flow_from_def
  by (elim bindE_InrE constructE)
    (simp only: e2e_flow_valid_def e2e_flow.select_convs parse_secret_ok pinned_file_from_ok
      pinned_files_from_ok simp_thms)

lemma test_operation_from_ok: "test_operation_from v = Inr t \<Longrightarrow> test_operation_valid t"
  by (auto simp: test_operation_from_def test_operation_valid_def dest!: optional_value_Some e2e_flow_from_ok split: option.split)

definition verifier_from :: "assertion_kind \<Rightarrow> json \<Rightarrow> config_error + assertion_verifier" where
  "verifier_from kind = (case kind of ELEMENT_VALUE_PRESENT \<Rightarrow> element_value_from | NAVIGATION_STATE_REACHED \<Rightarrow> navigation_state_from
     | EXPECTED_NETWORK_RESPONSE \<Rightarrow> network_response_from | EXPECTED_LOG_EVENT \<Rightarrow> log_event_from
     | NO_CRASH \<Rightarrow> no_crash_from)"

lemma verifier_from_ok: "verifier_from kind v = Inr a \<Longrightarrow> verifier_ok a"
  by (cases kind) (auto simp: verifier_from_def element_value_from_def navigation_state_from_def network_response_from_def
      log_event_from_def no_crash_from_def)

lemma catalog_entry_from_ok: "catalog_entry_from v = Inr c \<Longrightarrow> catalog_entry_ok c \<and> verifier_ok (ce_verifier c)"
  by (auto simp: catalog_entry_from_def verifier_from_def [symmetric] dest: verifier_from_ok)

lemma artifact_settings_from_ok: "artifact_settings_from v = Inr ps \<Longrightarrow> artifact_paths_ok ps"
  by (auto simp: artifact_settings_from_def)

lemma configuration_from_ok:
  assumes "configuration_from i v = Inr c"
  shows "configuration_valid c" "rc_id c = i"
proof -
  obtain f where f: "repository_settings_from (jfield ''repository_settings'' f) = Inr (rc_repository c)"
    "git_settings_from (jfield ''git_settings'' f) = Inr (rc_git c)" "xcode_settings_from (jfield ''xcode_settings'' f) = Inr (rc_xcode c)"
    "sequence_of test_operation_from (jfield ''operations'' f) = Inr (rc_operations c)"
    "sequence_of catalog_entry_from (jfield ''e2e_assertions'' f) = Inr (rc_catalog c)"
    "artifact_settings_from (jfield ''artifact_settings'' f) = Inr (rc_artifacts c)"
    "sequence_of (\<lambda>x. bindE (config_string x) parse_secret_reference) (jfield ''secret_references'' f) = Inr (rc_secrets c)"
    "configuration_ok c" "rc_id c = i"
    using assms by (auto simp: configuration_from_def)
  have "list_all test_operation_valid (rc_operations c)" using f(4) by (rule sequence_of_all) (rule test_operation_from_ok)
  moreover have "list_all (\<lambda>a. catalog_entry_ok a \<and> verifier_ok (ce_verifier a)) (rc_catalog c)"
    using f(5) by (rule sequence_of_all) (rule catalog_entry_from_ok)
  moreover have "list_all secret_reference_ok (rc_secrets c)" using f(7) by (rule sequence_of_all) (auto dest: parse_secret_ok)
  ultimately show "configuration_valid c"
    using f xcode_settings_from_ok by (simp add: configuration_valid_def repository_settings_from_ok git_settings_from_ok artifact_settings_from_ok)
  show "rc_id c = i" by (rule f(9))
qed

subsection \<open>The canonical text\<close>

text \<open>Hooks that read every integer.\<close>

definition free_hooks :: json_hooks where
  "free_hooks = \<lparr>on_int = (\<lambda>s. Some (JInt (int_of_text s))), on_float = (\<lambda>_. None), on_constant = (\<lambda>_. None),
     on_object = (\<lambda>kvs. Some (JObj kvs))\<rparr>"

lemma free_hooks_read: "hooks_read (\<lambda>_. True) free_hooks"
  by (simp add: hooks_read_def free_hooks_def)

lemma canonical_text_inj:
  assumes "json_clean (\<lambda>_. True) v" "json_clean (\<lambda>_. True) w" "dumps v = dumps w"
  shows "jsort v = jsort w"
proof -
  have "loads free_hooks (max (json_depth v) (json_depth w)) (codes_of (dumps v)) = Inr (jsort v)"
    "loads free_hooks (max (json_depth v) (json_depth w)) (codes_of (dumps w)) = Inr (jsort w)"
    by (rule loads_dumps [OF free_hooks_read]; use assms in simp)+
  then show ?thesis using assms(3) by simp
qed

lemma texts_clean [simp]: "json_clean P (texts xs)"
  by (simp add: texts_def list_all_iff)

lemma e2e_flow_clean: "json_clean (\<lambda>_. True) (e2e_flow_json e)"
  by (simp add: e2e_flow_json_def e2e_keys_distinct) (simp add: e2e_flow_fields_def pinned_file_json_def list_all_iff)

lemma configuration_clean: "json_clean (\<lambda>_. True) (configuration_json c)"
proof -
  have "json_clean (\<lambda>_. True) (test_operation_json t)" for t
    by (cases "to_flow t") (simp_all add: test_operation_json_def e2e_flow_clean)
  moreover have "json_clean (\<lambda>_. True) (verifier_json v)" for v
    by (cases v) (simp_all add: verifier_json_defs jopt_def split: option.split)
  then have "json_clean (\<lambda>_. True) (catalog_entry_json a)" for a by (simp add: catalog_entry_json_def)
  moreover have "json_clean (\<lambda>_. True) (git_settings_json g)" for g
    by (cases "gs_push_credential g") (simp_all add: git_settings_json_def git_identity_json_def)
  ultimately show ?thesis
    by (simp add: configuration_json_def configuration_fields_def repository_settings_json_def xcode_settings_json_def simulator_settings_json_def
        artifact_settings_json_def list_all_iff)
qed

text \<open>
  Python neither writes nor reads integers of more than 4300 digits; the depth of the text is that of
  the pinned files of an operation's flow.
\<close>

definition printable_int :: "int \<Rightarrow> bool" where
  "printable_int i \<longleftrightarrow> length (dec_int i) \<le> 4300"

lemma printable_hooks: "hooks_read printable_int default_hooks"
proof -
  have "length (filter (\<lambda>c. c \<noteq> CHR ''-'') (dec_int i)) \<le> 4300" if "printable_int i" for i
    using that length_filter_le [of _ "dec_int i"] unfolding printable_int_def by (rule order_trans [rotated])
  then show ?thesis by (auto simp: hooks_read_def default_hooks_def dict_of_distinct linorder_not_less [symmetric])
qed

lemma fold_max_bound: "fold max xs a \<le> n \<longleftrightarrow> a \<le> n \<and> list_all (\<lambda>x. x \<le> n) xs" for n :: nat
  by (induction xs arbitrary: a) auto

lemma json_depth_le:
  "json_depth (JArr xs) \<le> Suc n \<longleftrightarrow> list_all (\<lambda>x. json_depth x \<le> n) xs"
  "json_depth (JObj kvs) \<le> Suc n \<longleftrightarrow> list_all (\<lambda>(k, v). json_depth v \<le> n) kvs"
  by (simp_all add: fold_max_bound list_all_iff split_beta)

lemma texts_depth: "json_depth (texts xs) \<le> Suc n"
  by (simp add: texts_def json_depth_le list_all_iff del: json_depth.simps(1))

lemma jopt_depth [simp]: "json_depth (jopt JStr x) = 0"
  by (cases x) simp_all

lemmas depth_simps = json_depth_le texts_depth list_all_iff

lemma e2e_flow_depth: "json_depth (e2e_flow_json e) \<le> 3"
  by (simp add: e2e_flow_json_def e2e_flow_fields_def pinned_file_json_def eval_nat_numeral depth_simps
      del: json_depth.simps(1,2))

lemma configuration_depth: "json_depth (configuration_json c) \<le> 6"
proof -
  have "json_depth (test_operation_json t) \<le> 4" for t
    using e2e_flow_depth by (cases "to_flow t") (simp_all add: test_operation_json_def eval_nat_numeral depth_simps del: json_depth.simps(1,2))
  moreover have "json_depth (catalog_entry_json a) \<le> 4" for a
    by (cases "ce_verifier a") (simp_all add: catalog_entry_json_def verifier_json_defs eval_nat_numeral depth_simps del: json_depth.simps(1,2))
  moreover have "json_depth (git_settings_json g) \<le> 5" for g
    by (cases "gs_push_credential g") (simp_all add: git_settings_json_def git_identity_json_def eval_nat_numeral depth_simps del: json_depth.simps(1,2))
  ultimately show ?thesis
    by (simp add: configuration_json_def configuration_fields_def repository_settings_json_def xcode_settings_json_def simulator_settings_json_def
        artifact_settings_json_def eval_nat_numeral depth_simps del: json_depth.simps(1,2))
qed

subsection \<open>Identity of configurations\<close>

definition configuration_text :: "repository_configuration \<Rightarrow> string" where
  "configuration_text c = dumps (configuration_json c)"

lemma canonical_json: "configuration_ok c \<Longrightarrow> repository_settings_ok (rc_repository c) \<Longrightarrow>
    configuration_json (canonical_configuration c\<lparr>rc_id := i\<rparr>) = configuration_json c"
  using canonical_prohibited [of "rs_prohibited (rc_repository c)"] canonical_prohibited [OF all_prohibited(2) subset_refl]
  by (simp add: configuration_json_def configuration_fields_def canonical_configuration_def canonical_repository_def
      repository_settings_json_def sort_map repository_settings_ok_def)

lemma configuration_text_inj:
  assumes "configuration_valid c" "configuration_valid d" "configuration_text c = configuration_text d"
  shows "canonical_configuration c\<lparr>rc_id := i\<rparr> = canonical_configuration d\<lparr>rc_id := i\<rparr>"
proof -
  have "jsort (configuration_json c) = jsort (configuration_json d)"
    using assms(3) by (intro canonical_text_inj configuration_clean) (simp add: configuration_text_def)
  then show ?thesis using configuration_roundtrip [OF assms(1), of i] configuration_roundtrip [OF assms(2), of i] by simp
qed

subsection \<open>The end-to-end operation\<close>

lemma one_of_each:
  assumes "length ts = 4" "set (map to_kind ts) = set operation_kinds"
  shows "distinct (map to_kind ts)"
proof -
  have "card (set (map to_kind ts)) = length (map to_kind ts)" using assms by (simp only: assms(2)) (simp add: operation_kinds_def assms(1))
  then show ?thesis by (rule card_distinct)
qed

lemma filter_unique_kind:
  assumes "distinct (map to_kind ts)" "t \<in> set ts"
  shows "filter (\<lambda>u. to_kind u = to_kind t) ts = [t]"
  using assms by (induction ts) (auto simp: filter_empty_conv image_iff)

lemma the_e2e_operation:
  assumes "configuration_valid c"
  obtains t e where "filter (\<lambda>t. to_kind t = SIMULATOR_E2E) (rc_operations c) = [t]" "to_flow t = Some e" "e2e_flows c = [e]"
    "t \<in> set (rc_operations c)" "to_kind t = SIMULATOR_E2E"
proof -
  have ok: "configuration_ok c" and all: "list_all test_operation_valid (rc_operations c)"
    using assms by (simp_all add: configuration_valid_def)
  have "SIMULATOR_E2E \<in> set (map to_kind (rc_operations c))" using ok by (simp add: configuration_ok_def operation_kinds_def)
  then obtain t where t: "t \<in> set (rc_operations c)" "to_kind t = SIMULATOR_E2E" by auto
  have f: "filter (\<lambda>u. to_kind u = SIMULATOR_E2E) (rc_operations c) = [t]"
    using filter_unique_kind [OF one_of_each t(1)] ok t(2) by (simp add: configuration_ok_def)
  have "to_flow t \<noteq> None" using all t by (simp add: list_all_iff test_operation_valid_def test_operation_ok_def)
  then obtain e where "to_flow t = Some e" by blast
  then show thesis using that f t by (simp add: e2e_flows_def)
qed

lemma runner_is_pinned:
  assumes "path_boundaries_ok c e"
  obtains p where "p \<in> set (ef_harness_files e)" "path_stem (posix_path (pf_path p)) = split_on (CHR ''/'') (ef_runner_test e) ! 1"
proof -
  have "posix_path (ef_runner_source e) \<in> set (map (posix_path \<circ> pf_path) (ef_harness_files e))"
    and "path_stem (posix_path (ef_runner_source e)) = split_on (CHR ''/'') (ef_runner_test e) ! 1"
    using assms by (simp_all add: path_boundaries_ok_def Let_def)
  then show thesis using that by force
qed

lemma selector_pattern: "test_selector_pattern a \<Longrightarrow> is_test_selector a"
  by (auto simp: test_selector_pattern_def is_test_selector_def Let_def)

lemma e2e_command:
  assumes "operation_bound x t" "test_operation_valid t" "to_kind t = SIMULATOR_E2E" "to_flow t = Some e"
  shows "take 8 (to_argv t) = argv_prefix x ''test''"
    "filter is_test_selector (drop 8 (to_argv t)) = [''-only-testing:'' @ ef_runner_test e]"
    "set (drop 8 (to_argv t)) \<subseteq> {''-quiet'', ''-only-testing:'' @ ef_runner_test e}"
proof -
  show "take 8 (to_argv t) = argv_prefix x ''test''"
    using assms by (simp add: operation_bound_def test_operation_valid_def test_operation_ok_def Let_def)
  show f: "filter is_test_selector (drop 8 (to_argv t)) = [''-only-testing:'' @ ef_runner_test e]"
    using assms by (simp add: operation_bound_def Let_def)
  show "set (drop 8 (to_argv t)) \<subseteq> {''-quiet'', ''-only-testing:'' @ ef_runner_test e}"
  proof
    fix a assume a: "a \<in> set (drop 8 (to_argv t))"
    have "a = ''-quiet'' \<or> test_selector_pattern a" using assms(1) a by (simp add: operation_bound_def Let_def list_all_iff)
    moreover have "a = ''-only-testing:'' @ ef_runner_test e" if "test_selector_pattern a"
    proof -
      have "a \<in> set (filter is_test_selector (drop 8 (to_argv t)))" using a selector_pattern [OF that] by simp
      then show ?thesis unfolding f by simp
    qed
    ultimately show "a \<in> {''-quiet'', ''-only-testing:'' @ ef_runner_test e}" by blast
  qed
qed

lemma sample_canonical: "canonical_configuration sample_configuration = sample_configuration"
  by (simp add: canonical_configuration_def canonical_repository_def sample_configuration_def)

lemma sample_id: "rc_id sample_configuration = 7" "sample_configuration\<lparr>rc_id := 7\<rparr> = sample_configuration"
  by (simp_all add: sample_configuration_def)

lemma sample_read: "configuration_from 7 (jsort (configuration_json sample_configuration)) = Inr sample_configuration"
  using configuration_roundtrip [OF sample_configuration_valid, of 7] by (simp add: sample_canonical sample_id)

lemma sample_read_again:
  "configuration_from 8 (jsort (configuration_json sample_configuration)) = Inr (sample_configuration\<lparr>rc_id := 8\<rparr>)"
  using configuration_roundtrip [OF sample_configuration_valid, of 8] by (simp add: sample_canonical)

lemma canonical_id: "canonical_configuration c\<lparr>rc_id := rc_id c\<rparr> = canonical_configuration c"
  by (simp add: canonical_configuration_def)

subsection \<open>Properties\<close>

text \<open>C38. What \<open>RepositoryConfiguration.from_dict\<close> accepts is a configuration every constructor
  accepts, and it is stable: its canonical JSON text is read back, by Python's JSON reader and by
  \<open>from_dict\<close>, as the same configuration with the seven prohibited operations in the order of their
  names (the stored form lists them sorted), which has the same text and so the same digest.\<close>

theorem configuration_stable:
  assumes "configuration_from i v = Inr c" and "json_clean printable_int (configuration_json c)" and "6 \<le> limit"
  shows "configuration_valid c \<and> rc_id c = i \<and>
    loads default_hooks limit (codes_of (configuration_text c)) = Inr (jsort (configuration_json c)) \<and>
    configuration_from i (jsort (configuration_json c)) = Inr (canonical_configuration c) \<and>
    configuration_text (canonical_configuration c) = configuration_text c \<and>
    configuration_digest H (canonical_configuration c) = configuration_digest H c"
proof -
  have v: "configuration_valid c" "rc_id c = i" using configuration_from_ok [OF assms(1)] by simp_all
  have "loads default_hooks limit (codes_of (configuration_text c)) = Inr (jsort (configuration_json c))"
    unfolding configuration_text_def by (rule loads_dumps [OF printable_hooks assms(2)]) (use configuration_depth [of c] assms(3) in simp)
  moreover have "configuration_from i (jsort (configuration_json c)) = Inr (canonical_configuration c)"
    using configuration_roundtrip [OF v(1), of i] v(2) canonical_id [of c] by simp
  moreover have "configuration_json (canonical_configuration c) = configuration_json c"
    using v canonical_json [of c i] canonical_id [of c] by (simp add: configuration_valid_def)
  ultimately show ?thesis using v by (simp add: configuration_text_def configuration_digest_def)
qed

theorem configuration_stable_witness:
  "configuration_valid sample_configuration \<and>
   loads default_hooks 100 (codes_of (configuration_text sample_configuration)) = Inr (jsort (configuration_json sample_configuration)) \<and>
   configuration_from 7 (jsort (configuration_json sample_configuration)) = Inr sample_configuration"
proof -
  have "json_clean printable_int (configuration_json sample_configuration)" by code_simp
  then show ?thesis using configuration_stable [OF sample_read, of 100] by (simp add: sample_canonical)
qed

text \<open>C39. The digest identifies the configuration: two accepted configurations with the same digest are
  the same up to the record's id and the order in which they list the prohibited operations, or SHA-256
  collides on their two canonical texts.\<close>

theorem configuration_digest_identifies:
  assumes "configuration_from i v = Inr c" and "configuration_from j w = Inr d" and "digest_length H"
    and "configuration_digest H c = configuration_digest H d"
  shows "canonical_configuration c\<lparr>rc_id := i\<rparr> = canonical_configuration d\<lparr>rc_id := i\<rparr> \<or>
    collides H (configuration_text c) (configuration_text d)"
proof -
  have v: "configuration_valid c" "configuration_valid d" using configuration_from_ok assms(1,2) by blast+
  have "hexdigest H (configuration_text c) = hexdigest H (configuration_text d)"
    using assms(4) by (simp add: configuration_digest_def configuration_text_def)
  then show ?thesis using hexdigest_inj [OF assms(3)] configuration_text_inj [OF v, of i] by blast
qed

theorem configuration_digest_identifies_witness:
  "canonical_configuration sample_configuration\<lparr>rc_id := 7\<rparr> = canonical_configuration (sample_configuration\<lparr>rc_id := 8\<rparr>)\<lparr>rc_id := 7\<rparr> \<or>
    collides sample_H (configuration_text sample_configuration) (configuration_text (sample_configuration\<lparr>rc_id := 8\<rparr>))"
  by (rule configuration_digest_identifies [OF sample_read sample_read_again sample_H_length])
    (simp add: configuration_digest_def configuration_json_def configuration_fields_def)

text \<open>C40. An accepted configuration has exactly one end-to-end operation, and what it runs is pinned: its
  command is \<open>xcodebuild test\<close> on the configured container, scheme and simulator, its only test selector
  is the flow's test, and the source file of that test's class is a harness file with a digest, under a
  path the task may not write, as are all harness, fixture and recipe files.\<close>

theorem e2e_operation_pinned:
  assumes "configuration_from i v = Inr c"
  shows "\<exists>t e p. filter (\<lambda>t. to_kind t = SIMULATOR_E2E) (rc_operations c) = [t] \<and> to_flow t = Some e \<and>
    take 8 (to_argv t) = argv_prefix (rc_xcode c) ''test'' \<and>
    set (drop 8 (to_argv t)) \<subseteq> {''-quiet'', ''-only-testing:'' @ ef_runner_test e} \<and>
    filter is_test_selector (drop 8 (to_argv t)) = [''-only-testing:'' @ ef_runner_test e] \<and>
    p \<in> set (ef_harness_files e) \<and> configuration_digest_ok (pf_digest p) \<and>
    path_stem (posix_path (pf_path p)) = split_on (CHR ''/'') (ef_runner_test e) ! 1 \<and>
    list_all (\<lambda>q. under_prohibited (rc_prohibited_paths c) (posix_path q)) (pinned_paths e)"
proof -
  have v: "configuration_valid c" using configuration_from_ok assms by blast
  obtain t e where t: "filter (\<lambda>t. to_kind t = SIMULATOR_E2E) (rc_operations c) = [t]" "to_flow t = Some e" "e2e_flows c = [e]"
    "t \<in> set (rc_operations c)" "to_kind t = SIMULATOR_E2E"
    using the_e2e_operation [OF v] .
  have b: "path_boundaries_ok c e" "operation_bound (rc_xcode c) t" "test_operation_valid t"
    using v t by (simp_all add: configuration_valid_def configuration_ok_def list_all_iff)
  obtain p where p: "p \<in> set (ef_harness_files e)" "path_stem (posix_path (pf_path p)) = split_on (CHR ''/'') (ef_runner_test e) ! 1"
    using runner_is_pinned [OF b(1)] .
  have "configuration_digest_ok (pf_digest p)"
    using b(3) t(2) p(1) by (simp add: test_operation_valid_def e2e_flow_valid_def list_all_iff pinned_file_ok_def)
  moreover have "list_all (\<lambda>q. under_prohibited (rc_prohibited_paths c) (posix_path q)) (pinned_paths e)"
    using b(1) by (simp add: path_boundaries_ok_def Let_def)
  moreover note e2e_command [OF b(2,3) t(5,2)]
  ultimately show ?thesis using t p by blast
qed

theorem e2e_operation_pinned_witness:
  "\<exists>t e p. filter (\<lambda>t. to_kind t = SIMULATOR_E2E) (rc_operations sample_configuration) = [t] \<and> to_flow t = Some e \<and>
    take 8 (to_argv t) = argv_prefix (rc_xcode sample_configuration) ''test'' \<and> p \<in> set (ef_harness_files e)"
  using e2e_operation_pinned [OF sample_read] by blast

end
