(* ===== verification/Preflight_Report.thy ===== *)
theory Preflight_Report
  imports Config_Properties
begin

text \<open>
  The preflight report of \<open>libraries/configuration/.../repository.py\<close>: what the host found about a
  configuration, as the control plane stores and reads it.  The ids are read by Python's \<open>UUID\<close>, which
  takes more forms than it writes.
\<close>

subsection \<open>Reading a UUID\<close>

function remove_all :: "string \<Rightarrow> string \<Rightarrow> string" where
  "remove_all t s = (if t \<noteq> [] \<and> starts_with t s then remove_all t (drop (length t) s)
     else case s of [] \<Rightarrow> [] | c # r \<Rightarrow> c # remove_all t r)"
  by pat_completeness auto
termination
  by (relation "measure (\<lambda>(t, s). length s)") (auto simp: starts_with_def split: list.splits intro: diff_less)

declare remove_all.simps [simp del]

definition strip_braces :: "string \<Rightarrow> string" where
  "strip_braces s = rev (dropWhile (\<lambda>c. c \<in> set ''{}'') (rev (dropWhile (\<lambda>c. c \<in> set ''{}'') s)))"

definition hex_char_value :: "char \<Rightarrow> nat option" where
  "hex_char_value c = (let n = char_code c in if 48 \<le> n \<and> n \<le> 57 then Some (n - 48)
     else if 65 \<le> n \<and> n \<le> 70 then Some (n - 55) else if 97 \<le> n \<and> n \<le> 102 then Some (n - 87) else None)"

text \<open>\<open>int(text, 16)\<close>: digits with single underscores between them, after a sign and a prefix.\<close>

fun hex_digits :: "bool \<Rightarrow> nat \<Rightarrow> string \<Rightarrow> nat option" where
  "hex_digits gap n [] = (if gap then None else Some n)"
| "hex_digits gap n (c # s) = (if c = CHR ''_'' then (if gap then None else hex_digits True n s)
     else case hex_char_value c of None \<Rightarrow> None | Some d \<Rightarrow> hex_digits False (n * 16 + d) s)"

definition hex_magnitude :: "string \<Rightarrow> nat option" where
  "hex_magnitude s = (if take 2 s \<in> {''0x'', ''0X''}
     then (if take 1 (drop 2 s) = ''_'' then hex_digits True 0 (drop 3 s) else hex_digits True 0 (drop 2 s))
     else hex_digits True 0 s)"

definition hex_int :: "string \<Rightarrow> int option" where
  "hex_int text = (let s = strip text in
     if take 1 s = ''-'' then map_option (\<lambda>n. - int n) (hex_magnitude (drop 1 s))
     else if take 1 s = ''+'' then map_option int (hex_magnitude (drop 1 s))
     else map_option int (hex_magnitude s))"

text \<open>\<open>uuid.UUID(text)\<close>, with \<open>None\<close> for its \<open>ValueError\<close>.\<close>

definition uuid_of_text :: "string \<Rightarrow> uuid option" where
  "uuid_of_text text = (let s = remove_all ''-'' (strip_braces (remove_all ''uuid:'' (remove_all ''urn:'' text))) in
     if length s \<noteq> 32 then None
     else (case hex_int s of None \<Rightarrow> None | Some i \<Rightarrow> if 0 \<le> i \<and> i < 2 ^ 128 then Some (word_of_int i) else None))"

subsection \<open>Checks and reports\<close>

datatype preflight_status = PREFLIGHT_PASSED | PREFLIGHT_BLOCKED

definition preflight_status_value :: "preflight_status \<Rightarrow> string" where
  "preflight_status_value s = (case s of PREFLIGHT_PASSED \<Rightarrow> ''PASSED'' | PREFLIGHT_BLOCKED \<Rightarrow> ''BLOCKED'')"

datatype preflight_code = CHECK_CONFIGURATION | CHECK_REPOSITORY_ROOT | CHECK_GIT_TOP_LEVEL | CHECK_GIT_REMOTE
  | CHECK_BASE_REVISION | CHECK_XCODE_CONTAINER | CHECK_SHARED_SCHEME | CHECK_SIMULATOR | CHECK_OPERATIONS
  | CHECK_E2E_FLOW | CHECK_ARTIFACT_PATHS | CHECK_PROHIBITIONS | CHECK_SECRET_REFERENCES

definition required_preflight_checks :: "preflight_code list" where
  "required_preflight_checks = [CHECK_CONFIGURATION, CHECK_REPOSITORY_ROOT, CHECK_GIT_TOP_LEVEL, CHECK_GIT_REMOTE,
     CHECK_BASE_REVISION, CHECK_XCODE_CONTAINER, CHECK_SHARED_SCHEME, CHECK_SIMULATOR, CHECK_OPERATIONS,
     CHECK_E2E_FLOW, CHECK_ARTIFACT_PATHS, CHECK_PROHIBITIONS, CHECK_SECRET_REFERENCES]"

definition preflight_code_value :: "preflight_code \<Rightarrow> string" where
  "preflight_code_value c = (case c of CHECK_CONFIGURATION \<Rightarrow> ''CONFIGURATION'' | CHECK_REPOSITORY_ROOT \<Rightarrow> ''REPOSITORY_ROOT''
     | CHECK_GIT_TOP_LEVEL \<Rightarrow> ''GIT_TOP_LEVEL'' | CHECK_GIT_REMOTE \<Rightarrow> ''GIT_REMOTE'' | CHECK_BASE_REVISION \<Rightarrow> ''BASE_REVISION''
     | CHECK_XCODE_CONTAINER \<Rightarrow> ''XCODE_CONTAINER'' | CHECK_SHARED_SCHEME \<Rightarrow> ''SHARED_SCHEME''
     | CHECK_SIMULATOR \<Rightarrow> ''SIMULATOR'' | CHECK_OPERATIONS \<Rightarrow> ''OPERATIONS'' | CHECK_E2E_FLOW \<Rightarrow> ''E2E_FLOW''
     | CHECK_ARTIFACT_PATHS \<Rightarrow> ''ARTIFACT_PATHS'' | CHECK_PROHIBITIONS \<Rightarrow> ''PROHIBITIONS''
     | CHECK_SECRET_REFERENCES \<Rightarrow> ''SECRET_REFERENCES'')"

definition preflight_detail :: "preflight_code \<Rightarrow> preflight_status \<Rightarrow> string" where
  "preflight_detail c s = (let passed = (s = PREFLIGHT_PASSED) in case c of
       CHECK_CONFIGURATION \<Rightarrow> if passed then ''configuration.canonical'' else ''configuration.invalid''
     | CHECK_REPOSITORY_ROOT \<Rightarrow> if passed then ''repository_root.canonical'' else ''repository_root.invalid''
     | CHECK_GIT_TOP_LEVEL \<Rightarrow> if passed then ''git_top_level.matches'' else ''git_top_level.mismatch''
     | CHECK_GIT_REMOTE \<Rightarrow> if passed then ''git_remote.matches'' else ''git_remote.mismatch''
     | CHECK_BASE_REVISION \<Rightarrow> if passed then ''base_revision.resolved'' else ''base_revision.unresolved''
     | CHECK_XCODE_CONTAINER \<Rightarrow> if passed then ''xcode_container.present'' else ''xcode_container.invalid''
     | CHECK_SHARED_SCHEME \<Rightarrow> if passed then ''shared_scheme.present'' else ''shared_scheme.missing''
     | CHECK_SIMULATOR \<Rightarrow> if passed then ''simulator.available'' else ''simulator.unavailable''
     | CHECK_OPERATIONS \<Rightarrow> if passed then ''operations.valid'' else ''operations.invalid''
     | CHECK_E2E_FLOW \<Rightarrow> if passed then ''e2e_flow.valid'' else ''e2e_flow.invalid''
     | CHECK_ARTIFACT_PATHS \<Rightarrow> if passed then ''artifact_paths.contained'' else ''artifact_paths.invalid''
     | CHECK_PROHIBITIONS \<Rightarrow> if passed then ''prohibitions.complete'' else ''prohibitions.incomplete''
     | CHECK_SECRET_REFERENCES \<Rightarrow> if passed then ''secret_references.opaque'' else ''secret_references.invalid'')"

record preflight_check =
  pc_code :: preflight_code
  pc_status :: preflight_status
  pc_detail :: string

definition preflight_check_ok :: "preflight_check \<Rightarrow> bool" where
  "preflight_check_ok p \<longleftrightarrow> check_detail_pattern (pc_detail p) \<and> pc_detail p = preflight_detail (pc_code p) (pc_status p)"

definition check_for_status :: "preflight_code \<Rightarrow> preflight_status \<Rightarrow> preflight_check" where
  "check_for_status c s = \<lparr>pc_code = c, pc_status = s, pc_detail = preflight_detail c s\<rparr>"

definition preflight_check_json :: "preflight_check \<Rightarrow> json" where
  "preflight_check_json p = JObj [(''code'', JStr (preflight_code_value (pc_code p))),
     (''status'', JStr (preflight_status_value (pc_status p))), (''detail_code'', JStr (pc_detail p))]"

definition preflight_check_from :: "json \<Rightarrow> config_error + preflight_check" where
  "preflight_check_from v = bindE (exact_mapping [''code'', ''status'', ''detail_code''] v) (\<lambda>f.
     bindE (enum_value required_preflight_checks preflight_code_value (jfield ''code'' f)) (\<lambda>code.
     bindE (enum_value [PREFLIGHT_PASSED, PREFLIGHT_BLOCKED] preflight_status_value (jfield ''status'' f)) (\<lambda>status.
     bindE (config_string (jfield ''detail_code'' f)) (\<lambda>detail.
     construct preflight_check_ok \<lparr>pc_code = code, pc_status = status, pc_detail = detail\<rparr>))))"

record preflight_report =
  pr_attempt :: uuid
  pr_configuration :: uuid
  pr_version :: int
  pr_digest :: string
  pr_status :: preflight_status
  pr_checks :: "preflight_check list"
  pr_base_sha :: "string option"

definition preflight_report_ok :: "preflight_report \<Rightarrow> bool" where
  "preflight_report_ok r \<longleftrightarrow> 0 < pr_version r \<and> configuration_digest_ok (pr_digest r) \<and>
     distinct (map pc_code (pr_checks r)) \<and> set (map pc_code (pr_checks r)) = set required_preflight_checks \<and>
     (let all_passed = list_all (\<lambda>p. pc_status p = PREFLIGHT_PASSED) (pr_checks r) in
      if pr_status r = PREFLIGHT_PASSED
      then all_passed \<and> (case pr_base_sha r of None \<Rightarrow> False | Some sha \<Rightarrow> git_object_pattern sha)
      else \<not> all_passed \<and> (case pr_base_sha r of None \<Rightarrow> True | Some sha \<Rightarrow> git_object_pattern sha))"

definition preflight_ready :: "preflight_report \<Rightarrow> bool" where
  "preflight_ready r \<longleftrightarrow> pr_status r = PREFLIGHT_PASSED"

definition preflight_report_json :: "preflight_report \<Rightarrow> json" where
  "preflight_report_json r = JObj [(''attempt_id'', JStr (uuid_str (pr_attempt r))),
     (''configuration_id'', JStr (uuid_str (pr_configuration r))), (''configuration_version'', JInt (pr_version r)),
     (''configuration_digest'', JStr (pr_digest r)), (''status'', JStr (preflight_status_value (pr_status r))),
     (''checks'', JArr (map preflight_check_json (pr_checks r))), (''resolved_base_sha'', jopt JStr (pr_base_sha r))]"

definition config_uuid :: "string \<Rightarrow> config_error + uuid" where
  "config_uuid s = (case uuid_of_text s of None \<Rightarrow> Inl Bad_configuration | Some u \<Rightarrow> Inr u)"

definition preflight_report_from :: "json \<Rightarrow> config_error + preflight_report" where
  "preflight_report_from v = bindE (exact_mapping [''attempt_id'', ''configuration_id'', ''configuration_version'',
       ''configuration_digest'', ''status'', ''checks'', ''resolved_base_sha''] v) (\<lambda>f.
     bindE (config_string (jfield ''configuration_id'' f)) (\<lambda>raw_configuration.
     bindE (config_string (jfield ''attempt_id'' f)) (\<lambda>raw_attempt.
     bindE (config_uuid raw_configuration) (\<lambda>configuration.
     bindE (config_uuid raw_attempt) (\<lambda>attempt.
     bindE (config_integer (jfield ''configuration_version'' f)) (\<lambda>version.
     bindE (config_string (jfield ''configuration_digest'' f)) (\<lambda>digest.
     bindE (enum_value [PREFLIGHT_PASSED, PREFLIGHT_BLOCKED] preflight_status_value (jfield ''status'' f)) (\<lambda>status.
     bindE (sequence_of preflight_check_from (jfield ''checks'' f)) (\<lambda>checks.
     bindE (optional_value config_string (jfield ''resolved_base_sha'' f)) (\<lambda>sha.
     construct preflight_report_ok \<lparr>pr_attempt = attempt, pr_configuration = configuration, pr_version = version,
       pr_digest = digest, pr_status = status, pr_checks = checks, pr_base_sha = sha\<rparr>))))))))))"

subsection \<open>What is written is read back\<close>

lemma hex_fixed_digit: "c \<in> set (hex_fixed k n) \<Longrightarrow> \<exists>d < 16. c = hex_digit d"
  by (induction k arbitrary: n) (auto intro: exI [of _ "_ mod 16"])

lemma hex_digit_code: "d < 16 \<Longrightarrow> char_code (hex_digit d) = (if d < 10 then 48 + d else 87 + d)"
  by (simp add: hex_digit_def)

lemma hex_digit_facts:
  assumes "d < 16"
  shows "hex_char_value (hex_digit d) = Some d" "hex_digit d \<notin> set ''-+_uxX{}''" "\<not> is_space_char (hex_digit d)"
    "(if char_code (hex_digit d) \<le> 57 then char_code (hex_digit d) - 48 else char_code (hex_digit d) - 87) = d"
proof -
  note code = hex_digit_code [OF assms]
  show "hex_char_value (hex_digit d) = Some d" using assms by (auto simp: hex_char_value_def code Let_def)
  have range: "48 \<le> char_code (hex_digit d)" "char_code (hex_digit d) \<le> 57 \<or> 97 \<le> char_code (hex_digit d) \<and> char_code (hex_digit d) \<le> 102"
    using assms by (auto simp: code)
  show "hex_digit d \<notin> set ''-+_uxX{}''"
  proof
    assume "hex_digit d \<in> set ''-+_uxX{}''"
    then have "char_code (hex_digit d) \<in> char_code ` set ''-+_uxX{}''" by (rule imageI)
    then show False using range by (auto simp: char_code_def)
  qed
  have "of_char (hex_digit d) = (if d < 10 then 48 + d else 87 + d)" using code by (simp add: char_code_def)
  then show "\<not> is_space_char (hex_digit d)" using assms by (simp add: is_space_char_def)
  show "(if char_code (hex_digit d) \<le> 57 then char_code (hex_digit d) - 48 else char_code (hex_digit d) - 87) = d"
    using assms by (simp add: code)
qed

lemma hex_digits_read:
  "list_all (\<lambda>c. \<exists>d < 16. c = hex_digit d) s \<Longrightarrow> s \<noteq> [] \<or> \<not> gap \<Longrightarrow>
   hex_digits gap n s = Some (foldl (\<lambda>acc c. acc * 16 + (if char_code c \<le> 57 then char_code c - 48 else char_code c - 87)) n s)"
proof (induction s arbitrary: gap n)
  case (Cons c s)
  then obtain d where "d < 16" "c = hex_digit d" by auto
  then show ?case using Cons hex_digit_facts [of d] by auto
qed simp

lemma remove_absent: "c \<notin> set s \<Longrightarrow> remove_all (c # t) s = s"
proof (induction s)
  case Nil
  then show ?case by (subst remove_all.simps) (simp add: starts_with_def)
next
  case (Cons b s)
  then have "c \<noteq> b" "remove_all (c # t) s = s" by simp_all
  then show ?case by (subst remove_all.simps) (simp add: starts_with_def)
qed

lemma remove_char: "remove_all [c] s = filter (\<lambda>x. x \<noteq> c) s"
proof (induction s)
  case Nil
  then show ?case by (subst remove_all.simps) (simp add: starts_with_def)
next
  case (Cons b s)
  then show ?case by (subst remove_all.simps) (simp add: starts_with_def)
qed

lemma drop_absent: "\<forall>c \<in> set s. \<not> P c \<Longrightarrow> dropWhile P s = s"
  by (cases s) auto

lemma strip_braces_absent: "\<forall>c \<in> set s. c \<notin> set ''{}'' \<Longrightarrow> strip_braces s = s"
  using drop_absent [of s "\<lambda>c. c \<in> set ''{}''"] drop_absent [of "rev s" "\<lambda>c. c \<in> set ''{}''"] by (simp only: strip_braces_def set_rev rev_rev_ident)

lemma strip_absent: "\<forall>c \<in> set s. \<not> is_space_char c \<Longrightarrow> strip s = s"
  using drop_absent [of s is_space_char] drop_absent [of "rev s" is_space_char] by (simp add: strip_def)

lemma hex_int_read:
  assumes "list_all (\<lambda>c. \<exists>d < 16. c = hex_digit d) h" "h \<noteq> []"
  shows "hex_int h = Some (int (read_hex h))"
proof -
  have dig: "c \<notin> set ''-+_uxX{}''" "\<not> is_space_char c" if "c \<in> set h" for c
    using that assms(1) hex_digit_facts by (auto simp: list_all_iff simp del: list.set)
  have "strip h = h" using dig(2) by (intro strip_absent) blast
  moreover have "take 1 h \<noteq> ''-''" "take 1 h \<noteq> ''+''" using assms(2) dig(1) [of "hd h"] by (cases h; auto)+
  moreover have "take 2 h \<notin> {''0x'', ''0X''}" using dig(1) by (cases h; cases "tl h"; auto)
  ultimately show ?thesis using hex_digits_read [OF assms(1), of True 0] assms(2)
    by (simp add: hex_int_def hex_magnitude_def read_hex_def)
qed

lemma uuid_str_chars: "c \<in> set (uuid_str u) \<Longrightarrow> c = CHR ''-'' \<or> (\<exists>d < 16. c = hex_digit d)"
  using hex_fixed_digit [of c 32 "unat u"] by (auto simp: uuid_str_def Let_def dest: in_set_takeD in_set_dropD)

lemma uuid_str_groups: "filter (\<lambda>x. x \<noteq> CHR ''-'') (uuid_str u) = hex_fixed 32 (unat u)"
proof -
  define h where "h = hex_fixed 32 (unat u)"
  have "CHR ''-'' \<notin> set h"
  proof
    assume "CHR ''-'' \<in> set h"
    then obtain d where "d < 16" "CHR ''-'' = hex_digit d" using hex_fixed_digit unfolding h_def by blast
    then show False using hex_digit_facts(2) [of d] by simp
  qed
  then have keep: "filter (\<lambda>x. x \<noteq> CHR ''-'') t = t" if "set t \<subseteq> set h" for t
    using that by (auto simp: filter_id_conv)
  have sub: "set (take n (drop m h)) \<subseteq> set h" "set (take n h) \<subseteq> set h" "set (drop n h) \<subseteq> set h" for n m
    by (auto dest: in_set_takeD in_set_dropD)
  have "filter (\<lambda>x. x \<noteq> CHR ''-'') (uuid_str u) = take 8 h @ take 4 (drop 8 h) @ take 4 (drop 12 h) @ take 4 (drop 16 h) @ drop 20 h"
    by (simp add: uuid_str_def h_def [symmetric] Let_def keep sub)
  also have "\<dots> = uuid_digits (uuid_str u)"
    by (simp add: uuid_digits_def uuid_str_def h_def [symmetric] Let_def, simp add: h_def)
  finally show ?thesis by (simp add: uuid_digits_str)
qed

lemma uuid_of_str [simp]: "uuid_of_text (uuid_str u) = Some u"
proof -
  define h where "h = hex_fixed 32 (unat u)"
  have cs: "c \<notin> set ''+_uxX{}''" if "c \<in> set (uuid_str u)" for c
    using uuid_str_chars [OF that] hex_digit_facts(2) by auto
  have "remove_all ''uuid:'' (remove_all ''urn:'' (uuid_str u)) = uuid_str u"
  proof -
    have "CHR ''u'' \<notin> set (uuid_str u)" using cs [of "CHR ''u''"] by auto
    then show ?thesis by (simp add: remove_absent)
  qed
  moreover have "strip_braces (uuid_str u) = uuid_str u" using cs by (intro strip_braces_absent) auto
  ultimately have t: "remove_all ''-'' (strip_braces (remove_all ''uuid:'' (remove_all ''urn:'' (uuid_str u)))) = h"
    by (simp add: remove_char uuid_str_groups h_def)
  have "list_all (\<lambda>c. \<exists>d < 16. c = hex_digit d) h" using hex_fixed_digit by (auto simp: list_all_iff h_def)
  moreover have "length h = 32" by (simp add: h_def)
  ultimately have "hex_int h = Some (int (read_hex h))" by (intro hex_int_read) auto
  moreover have lt: "unat u < 2 ^ 128" using unsigned_less [of u, where ?'a = nat] by simp
  then have "read_hex h = unat u" by (simp add: h_def)
  moreover have "int (unat u) < 2 ^ 128" using lt by (simp only: of_nat_less_iff [symmetric, where ?'a = int] of_nat_power of_nat_numeral)
  ultimately show ?thesis using \<open>length h = 32\<close> by (simp add: uuid_of_text_def t Let_def)
qed

lemma preflight_inj: "inj preflight_code_value" "inj preflight_status_value"
  by (auto simp: inj_on_def preflight_code_value_def preflight_status_value_def split: preflight_code.splits preflight_status.splits)

lemma preflight_enum [simp]:
  "enum_value required_preflight_checks preflight_code_value (JStr (preflight_code_value c)) = Inr c"
  "enum_value [PREFLIGHT_PASSED, PREFLIGHT_BLOCKED] preflight_status_value (JStr (preflight_status_value s)) = Inr s"
  by (rule enum_value_name, rule preflight_inj, cases c, simp_all add: required_preflight_checks_def)
    (rule enum_value_name, rule preflight_inj, cases s, simp_all)

lemma preflight_detail_pattern: "check_detail_pattern (preflight_detail c s)"
  by (cases c; cases s) (simp_all add: preflight_detail_def check_detail_pattern_def word_pattern_def is_lower_char_def is_digit_char_def)

lemma preflight_check_roundtrip: "preflight_check_ok p \<Longrightarrow> preflight_check_from (jsort (preflight_check_json p)) = Inr p"
  unfolding preflight_check_json_def
  by (cases p) (simp add: preflight_check_from_def read_simps del: jsort.simps(2))

lemma optional_text [simp]: "optional_value config_string (jopt JStr x) = Inr x"
  by (cases x) simp_all

lemma preflight_report_roundtrip:
  assumes "preflight_report_ok r" "list_all preflight_check_ok (pr_checks r)"
  shows "preflight_report_from (jsort (preflight_report_json r)) = Inr r"
proof -
  have c: "sequence_of preflight_check_from (jsort (JArr (map preflight_check_json (pr_checks r)))) = Inr (pr_checks r)"
    using assms(2) by (intro sequence_of_map preflight_check_roundtrip) (simp add: list_all_iff)
  have r: "\<lparr>pr_attempt = pr_attempt r, pr_configuration = pr_configuration r, pr_version = pr_version r, pr_digest = pr_digest r,
    pr_status = pr_status r, pr_checks = pr_checks r, pr_base_sha = pr_base_sha r\<rparr> = r" by (cases r) simp
  show ?thesis using assms(1) unfolding preflight_report_json_def
    by (simp add: preflight_report_from_def read_simps config_uuid_def c r del: jsort.simps(1,2))
qed

lemma preflight_report_from_ok:
  assumes "preflight_report_from v = Inr r"
  shows "preflight_report_ok r" "list_all preflight_check_ok (pr_checks r)"
proof -
  obtain f where "preflight_report_ok r" "sequence_of preflight_check_from (jfield ''checks'' f) = Inr (pr_checks r)"
    using assms unfolding preflight_report_from_def by (elim bindE_InrE constructE) simp
  moreover have "preflight_check_from w = Inr p \<Longrightarrow> preflight_check_ok p" for w p by (auto simp: preflight_check_from_def)
  ultimately show "preflight_report_ok r" "list_all preflight_check_ok (pr_checks r)"
    using sequence_of_all [of preflight_check_from _ _ preflight_check_ok] by blast+
qed

lemma all_checks: "set required_preflight_checks = UNIV" "distinct required_preflight_checks" "length required_preflight_checks = 13"
  by (auto simp: required_preflight_checks_def intro: preflight_code.exhaust)

lemma filter_code: "distinct (map f xs) \<Longrightarrow> x \<in> set xs \<Longrightarrow> filter (\<lambda>y. f y = f x) xs = [x]"
  by (induction xs) (auto simp: filter_empty_conv image_iff)

lemma check_is_its_detail: "preflight_check_ok p \<Longrightarrow> p = check_for_status (pc_code p) (pc_status p)"
  by (cases p) (simp add: preflight_check_ok_def check_for_status_def)

definition sample_report :: preflight_report where
  "sample_report = \<lparr>pr_attempt = 5, pr_configuration = 7, pr_version = 2, pr_digest = sample_digest_of (CHR ''0''),
     pr_status = PREFLIGHT_PASSED, pr_checks = map (\<lambda>c. check_for_status c PREFLIGHT_PASSED) required_preflight_checks,
     pr_base_sha = Some (replicate 40 (CHR ''a''))\<rparr>"

lemma sample_report_ok: "preflight_report_ok sample_report" "list_all preflight_check_ok (pr_checks sample_report)"
proof -
  show "preflight_report_ok sample_report" by code_simp
  show "list_all preflight_check_ok (pr_checks sample_report)"
    by (simp add: sample_report_def list_all_iff preflight_check_ok_def check_for_status_def preflight_detail_pattern)
qed

subsection \<open>Property\<close>

text \<open>C26. A preflight report that \<open>from_dict\<close> accepts is a verdict on all thirteen checks: each code has
  exactly one check, with the detail of its status; the report is ready exactly when every check passed,
  and then it names the Git object of the base; and it is read back from what it writes, whatever form
  its ids had.\<close>

theorem preflight_verdict:
  assumes "preflight_report_from v = Inr r"
  shows "length (pr_checks r) = 13 \<and>
    (\<forall>c. \<exists>s. filter (\<lambda>p. pc_code p = c) (pr_checks r) = [check_for_status c s]) \<and>
    preflight_ready r = list_all (\<lambda>p. pc_status p = PREFLIGHT_PASSED) (pr_checks r) \<and>
    (preflight_ready r \<longrightarrow> (\<exists>sha. pr_base_sha r = Some sha \<and> git_object_pattern sha)) \<and>
    preflight_report_from (jsort (preflight_report_json r)) = Inr r"
proof (intro conjI allI)
  note ok = preflight_report_from_ok [OF assms]
  have d: "distinct (map pc_code (pr_checks r))" "set (map pc_code (pr_checks r)) = UNIV"
    using ok(1) all_checks(1) by (simp_all add: preflight_report_ok_def)
  have "card (set (map pc_code (pr_checks r))) = card (set required_preflight_checks)" by (simp only: d(2) all_checks(1))
  then show "length (pr_checks r) = 13"
    using distinct_card [OF d(1)] distinct_card [OF all_checks(2)] all_checks(3) by simp
  show "\<exists>s. filter (\<lambda>p. pc_code p = c) (pr_checks r) = [check_for_status c s]" for c
  proof -
    have "c \<in> set (map pc_code (pr_checks r))" by (simp only: d(2) UNIV_I)
    then obtain p where p: "p \<in> set (pr_checks r)" "pc_code p = c" by auto
    then have "p = check_for_status c (pc_status p)" using ok(2) check_is_its_detail [of p] by (simp add: list_all_iff)
    then show ?thesis using filter_code [OF d(1) p(1)] p(2) by metis
  qed
  show "preflight_ready r = list_all (\<lambda>p. pc_status p = PREFLIGHT_PASSED) (pr_checks r)"
    "preflight_ready r \<longrightarrow> (\<exists>sha. pr_base_sha r = Some sha \<and> git_object_pattern sha)"
    using ok(1) by (auto simp: preflight_report_ok_def preflight_ready_def Let_def split: if_splits option.splits)
  show "preflight_report_from (jsort (preflight_report_json r)) = Inr r" by (rule preflight_report_roundtrip [OF ok])
qed

theorem preflight_verdict_witness:
  "length (pr_checks sample_report) = 13 \<and> preflight_ready sample_report \<and>
   preflight_report_from (jsort (preflight_report_json sample_report)) = Inr sample_report"
  using preflight_verdict [OF preflight_report_roundtrip [OF sample_report_ok]] by (simp add: preflight_ready_def sample_report_def)

end
