(* ===== verification/Host_Arguments.thy ===== *)
theory Host_Arguments
  imports Preflight_Report
begin

text \<open>
  The argument validators of \<open>services/host-agent/.../dispatch.py\<close>.  A validator returns its argument or
  raises, and \<open>dispatch\<close> answers \<open>INVALID_ARGUMENTS\<close> to everything it raises, so each is a predicate.
\<close>

definition is_printable_char :: "char \<Rightarrow> bool" where
  "is_printable_char c \<longleftrightarrow> (let n = char_code c in 32 \<le> n \<and> n \<le> 126 \<or> 161 \<le> n \<and> n \<noteq> 173)"

definition utf8_length :: "string \<Rightarrow> nat" where
  "utf8_length s = length (utf8_encode s)"

definition validate_empty :: "json \<Rightarrow> bool" where
  "validate_empty v \<longleftrightarrow> jkeys v = {}"

definition configuration_field_ok :: "json \<Rightarrow> bool" where
  "configuration_field_ok v \<longleftrightarrow> is_jobj (jfield ''configuration'' v)"

definition uuid_argument :: "json \<Rightarrow> uuid option" where
  "uuid_argument v = (case v of JStr s \<Rightarrow> (case uuid_of_text s of None \<Rightarrow> None
       | Some u \<Rightarrow> if uuid_str u = s then Some u else None)
     | _ \<Rightarrow> None)"

definition validate_preflight :: "json \<Rightarrow> bool" where
  "validate_preflight v \<longleftrightarrow> jkeys v = {''attempt_id'', ''configuration''} \<and>
     uuid_argument (jfield ''attempt_id'' v) \<noteq> None \<and> is_jobj (jfield ''configuration'' v)"

definition validate_configuration :: "json \<Rightarrow> bool" where
  "validate_configuration v \<longleftrightarrow> jkeys v = {''configuration''} \<and> is_jobj (jfield ''configuration'' v)"

definition workspace_path_argument :: "bool \<Rightarrow> json \<Rightarrow> bool" where
  "workspace_path_argument allow_root v = (case v of
     JStr s \<Rightarrow> length s \<le> 4096 \<and> (allow_root \<and> s = ''.'' \<or>
       s \<noteq> [] \<and> \<not> starts_with ''/'' s \<and> CHR 0x5C \<notin> set s \<and>
       list_all (\<lambda>p. p \<notin> {[], ''.'', ''..''}) (split_on (CHR ''/'') s) \<and> list_all (\<lambda>c. 32 \<le> char_code c) s)
   | _ \<Rightarrow> False)"

definition bounded_limit :: "json \<Rightarrow> bool" where
  "bounded_limit v = (case v of JInt i \<Rightarrow> 0 < i \<and> i \<le> 200 | _ \<Rightarrow> False)"

definition validate_workspace_list :: "json \<Rightarrow> bool" where
  "validate_workspace_list v \<longleftrightarrow> jkeys v = {''configuration'', ''path_prefix'', ''limit''} \<and> configuration_field_ok v \<and>
     workspace_path_argument True (jfield ''path_prefix'' v) \<and> bounded_limit (jfield ''limit'' v)"

definition validate_workspace_read :: "json \<Rightarrow> bool" where
  "validate_workspace_read v \<longleftrightarrow> jkeys v = {''configuration'', ''path''} \<and> configuration_field_ok v \<and>
     workspace_path_argument False (jfield ''path'' v)"

definition validate_workspace_search :: "json \<Rightarrow> bool" where
  "validate_workspace_search v \<longleftrightarrow> jkeys v = {''configuration'', ''query'', ''path_prefix'', ''limit''} \<and>
     configuration_field_ok v \<and>
     (case jfield ''query'' v of
        JStr q \<Rightarrow> q \<noteq> [] \<and> utf8_length q \<le> 1000 \<and> list_all (\<lambda>c. 32 \<le> char_code c \<or> c = CHR 0x09) q
      | _ \<Rightarrow> False) \<and>
     workspace_path_argument True (jfield ''path_prefix'' v) \<and> bounded_limit (jfield ''limit'' v)"

text \<open>One change of a patch, and the loop that adds up the bytes of the contents.\<close>

definition change_ok :: "json \<Rightarrow> bool" where
  "change_ok v \<longleftrightarrow> is_jobj v \<and> jkeys v = {''path'', ''expected_digest'', ''content''} \<and>
     workspace_path_argument False (jfield ''path'' v) \<and>
     (case jfield ''expected_digest'' v of JNull \<Rightarrow> True | JStr d \<Rightarrow> configuration_digest_ok d | _ \<Rightarrow> False) \<and>
     (case jfield ''content'' v of JNull \<Rightarrow> jfield ''expected_digest'' v \<noteq> JNull | JStr _ \<Rightarrow> True | _ \<Rightarrow> False)"

definition content_bytes :: "json \<Rightarrow> nat" where
  "content_bytes v = (case jfield ''content'' v of JStr s \<Rightarrow> utf8_length s | _ \<Rightarrow> 0)"

fun changes_ok :: "nat \<Rightarrow> json list \<Rightarrow> bool" where
  "changes_ok used [] \<longleftrightarrow> True"
| "changes_ok used (v # vs) \<longleftrightarrow> change_ok v \<and> used + content_bytes v \<le> 256 * 1024 \<and>
     changes_ok (used + content_bytes v) vs"

definition validate_apply_patch :: "json \<Rightarrow> bool" where
  "validate_apply_patch v \<longleftrightarrow> jkeys v = {''configuration'', ''changes''} \<and> configuration_field_ok v \<and>
     (case jfield ''changes'' v of JArr cs \<Rightarrow> cs \<noteq> [] \<and> length cs \<le> 32 \<and> changes_ok 0 cs | _ \<Rightarrow> False)"

definition validate_workspace_cleanup :: "json \<Rightarrow> bool" where
  "validate_workspace_cleanup v \<longleftrightarrow> jkeys v = {''configuration'', ''reason'', ''cancellation_id''} \<and>
     is_jobj (jfield ''configuration'' v) \<and>
     (jfield ''reason'' v = JStr ''CANCELLED'' \<and> uuid_argument (jfield ''cancellation_id'' v) \<noteq> None \<or>
      jfield ''reason'' v = JStr ''COMPLETED'' \<and> jfield ''cancellation_id'' v = JNull)"

definition git_object_argument :: "json \<Rightarrow> bool" where
  "git_object_argument v = (case v of JStr s \<Rightarrow> git_object_pattern s | _ \<Rightarrow> False)"

definition validate_git_commit :: "json \<Rightarrow> bool" where
  "validate_git_commit v \<longleftrightarrow> jkeys v = {''configuration'', ''expected_head_sha'', ''message''} \<and> configuration_field_ok v \<and>
     git_object_argument (jfield ''expected_head_sha'' v) \<and>
     (case jfield ''message'' v of
        JStr m \<Rightarrow> m \<noteq> [] \<and> strip m = m \<and> length m \<le> 255 \<and> list_all is_printable_char m
      | _ \<Rightarrow> False)"

definition validate_git_push :: "json \<Rightarrow> bool" where
  "validate_git_push v \<longleftrightarrow> jkeys v = {''configuration'', ''expected_head_sha''} \<and> configuration_field_ok v \<and>
     git_object_argument (jfield ''expected_head_sha'' v)"

definition operation_id_pattern :: "string \<Rightarrow> bool" where
  "operation_id_pattern s = word_pattern is_alnum_char (\<lambda>c. is_alnum_char c \<or> c \<in> set ''._:/@+-'') 127 s"

definition validate_validation_run :: "json \<Rightarrow> bool" where
  "validate_validation_run v \<longleftrightarrow>
     jkeys v = {''configuration'', ''expected_head_sha'', ''operation_id'', ''validation_contract_version''} \<and>
     configuration_field_ok v \<and> git_object_argument (jfield ''expected_head_sha'' v) \<and>
     (case jfield ''operation_id'' v of JStr s \<Rightarrow> operation_id_pattern s | _ \<Rightarrow> False) \<and>
     (case jfield ''validation_contract_version'' v of JInt i \<Rightarrow> 0 < i \<and> i \<le> 2147483647 | _ \<Rightarrow> False)"

definition validate_artifact_read :: "json \<Rightarrow> bool" where
  "validate_artifact_read v \<longleftrightarrow> jkeys v = {''address'', ''offset'', ''length''} \<and>
     (case jfield ''address'' v of JStr s \<Rightarrow> configuration_digest_ok s | _ \<Rightarrow> False) \<and>
     (case jfield ''offset'' v of JInt i \<Rightarrow> 0 \<le> i | _ \<Rightarrow> False) \<and>
     (case jfield ''length'' v of JInt i \<Rightarrow> 0 < i \<and> i \<le> 256 * 1024 | _ \<Rightarrow> False)"

definition validate_artifact_verify :: "json \<Rightarrow> bool" where
  "validate_artifact_verify v \<longleftrightarrow> jkeys v = {''address'', ''expected_size_bytes''} \<and>
     (case jfield ''address'' v of JStr s \<Rightarrow> configuration_digest_ok s | _ \<Rightarrow> False) \<and>
     (case jfield ''expected_size_bytes'' v of JInt i \<Rightarrow> 0 \<le> i \<and> i \<le> 128 * 1024 * 1024 | _ \<Rightarrow> False)"

definition validate_reconcile :: "json \<Rightarrow> bool" where
  "validate_reconcile v \<longleftrightarrow> jkeys v = {''operation_name'', ''idempotency_key''} \<and>
     (case (jfield ''operation_name'' v, jfield ''idempotency_key'' v) of
        (JStr name, JStr key) \<Rightarrow> isInr (mk_operation name key (JObj []) 1)
      | _ \<Rightarrow> False)"

end
