(* ===== verification/Host_Dispatch.thy ===== *)
theory Host_Dispatch
  imports Host_Arguments
begin

text \<open>
  \<open>services/host-agent/.../dispatch.py\<close>: the registry of operations, the handlers and the dispatcher, over
  the journal and the rest of the host, whose state has the type \<open>'w\<close>.  The workspace lifecycle, the
  execution runner, the artifact store, the preflight runner and the keychain are the functions of
  \<open>host_services\<close>.  A handler is one step, except the renewable one of \<open>validation.run\<close>, which starts
  under the task guard and then lets others in: the guard of a task makes the check of the fence, the
  mutation and the second check one step among the requests of the same job.
\<close>

subsection \<open>Handlers and services\<close>

datatype host_handler = Health | Preflight | Workspace_create | Workspace_inspect | Workspace_cleanup | Git_inspect
  | Workspace_list_files | Workspace_read_file | Workspace_search | Workspace_diff | Git_apply_patch | Git_commit
  | Git_push | Validation_run | Artifact_read | Artifact_verify | Lease_probe | Reconcile

text \<open>What a service raises: a lifecycle or execution error with its code, or anything else.\<close>

datatype service_error = Service_code string | Service_failure

text \<open>What a handler raises: \<open>HostOperationRejected\<close>, \<open>HostJournalError\<close>, \<open>HostEffectAmbiguous\<close>, or
  anything else.\<close>

datatype handler_error = Rejected string | Journal_failed journal_error | Effect_ambiguous json | Handler_failed

definition raised :: "service_error \<Rightarrow> handler_error" where
  "raised x = (case x of Service_code code \<Rightarrow> Rejected code | Service_failure \<Rightarrow> Handler_failed)"

definition serviced :: "service_error + 'a \<Rightarrow> handler_error + 'a" where
  "serviced x = (case x of Inl y \<Rightarrow> Inl (raised y) | Inr v \<Rightarrow> Inr v)"

record 'w host_services =
  sv_preflight :: "repository_configuration \<Rightarrow> uuid \<Rightarrow> 'w \<Rightarrow> service_error + json"
  sv_read :: "host_handler \<Rightarrow> lease_authority \<Rightarrow> repository_configuration \<Rightarrow> json \<Rightarrow> 'w \<Rightarrow> service_error + json"
  sv_artifact :: "host_handler \<Rightarrow> uuid \<Rightarrow> json \<Rightarrow> 'w \<Rightarrow> service_error + json"
  sv_credential :: "secret_reference \<Rightarrow> string option"
  sv_effect :: "host_handler \<Rightarrow> lease_authority \<Rightarrow> repository_configuration \<Rightarrow> json \<Rightarrow> 'w \<Rightarrow> (service_error + json) \<times> 'w"
  sv_push :: "lease_authority \<Rightarrow> repository_configuration \<Rightarrow> json \<Rightarrow> string \<Rightarrow> 'w \<Rightarrow> (service_error + json) \<times> bool \<times> 'w"

subsection \<open>The operation context\<close>

record host_context =
  cx_request :: host_request
  cx_effects :: nat
  cx_attempted :: bool

definition used_authorized_effect :: "host_context \<Rightarrow> bool" where
  "used_authorized_effect c \<longleftrightarrow> 0 < cx_effects c"

definition effect_attempted :: "host_context \<Rightarrow> bool" where
  "effect_attempted c = cx_attempted c"

text \<open>\<open>perform_authorized_effect\<close>: the clock is read at \<open>t\<close> and, after the effect, at \<open>u\<close>.\<close>

definition perform_authorized_effect :: "int \<Rightarrow> int \<Rightarrow> ('w \<Rightarrow> (service_error + json) \<times> 'w) \<Rightarrow> journal \<Rightarrow> host_context \<Rightarrow> 'w \<Rightarrow>
    (handler_error + json) \<times> host_context \<times> 'w" where
  "perform_authorized_effect t u effect j c w =
     (if \<not> task_scoped (cx_request c) then (Inl (Rejected ''AUTHORITY_NOT_ALLOWED''), c, w)
      else case assert_authorized t (cx_request c) j of
        Inl x \<Rightarrow> (Inl (Journal_failed x), c, w)
      | Inr _ \<Rightarrow> (let c1 = c\<lparr>cx_attempted := True\<rparr> in
          case effect w of
            (Inl y, w1) \<Rightarrow> (Inl (raised y), c1, w1)
          | (Inr v, w1) \<Rightarrow> (case assert_authorized u (cx_request c) j of
                Inl x \<Rightarrow> (Inl (Journal_failed x), c1, w1)
              | Inr _ \<Rightarrow> (Inr v, c1\<lparr>cx_effects := Suc (cx_effects c1)\<rparr>, w1))))"

text \<open>\<open>perform_staged_authorized_effect\<close>: the effect says whether it began to mutate.\<close>

definition perform_staged_authorized_effect :: "int \<Rightarrow> int \<Rightarrow> ('w \<Rightarrow> (service_error + json) \<times> bool \<times> 'w) \<Rightarrow> journal \<Rightarrow>
    host_context \<Rightarrow> 'w \<Rightarrow> (handler_error + json) \<times> host_context \<times> 'w" where
  "perform_staged_authorized_effect t u effect j c w =
     (if \<not> task_scoped (cx_request c) then (Inl (Rejected ''AUTHORITY_NOT_ALLOWED''), c, w)
      else case assert_authorized t (cx_request c) j of
        Inl x \<Rightarrow> (Inl (Journal_failed x), c, w)
      | Inr _ \<Rightarrow> (case effect w of (res, marked, w1) \<Rightarrow>
          let c1 = c\<lparr>cx_attempted := cx_attempted c \<or> marked\<rparr> in
          case res of
            Inl y \<Rightarrow> (Inl (raised y), c1, w1)
          | Inr v \<Rightarrow> (case assert_authorized u (cx_request c) j of
                Inl x \<Rightarrow> (Inl (Journal_failed x), c1, w1)
              | Inr _ \<Rightarrow> (Inr v, c1\<lparr>cx_effects := Suc (cx_effects c1)\<rparr>, w1))))"

text \<open>\<open>perform_renewable_authorized_effect\<close>, up to the start of the process and from its end.\<close>

definition start_renewable_effect :: "int \<Rightarrow> journal \<Rightarrow> host_context \<Rightarrow> handler_error + unit" where
  "start_renewable_effect t j c =
     (if \<not> task_scoped (cx_request c) then Inl (Rejected ''AUTHORITY_NOT_ALLOWED'')
      else case assert_authorized t (cx_request c) j of Inl x \<Rightarrow> Inl (Journal_failed x) | Inr _ \<Rightarrow> Inr ())"

definition end_renewable_effect :: "int \<Rightarrow> bool \<Rightarrow> handler_error + json \<Rightarrow> journal \<Rightarrow> host_context \<Rightarrow>
    (handler_error + json) \<times> host_context" where
  "end_renewable_effect u marked res j c = (let c1 = c\<lparr>cx_attempted := cx_attempted c \<or> marked\<rparr> in
     case res of Inl x \<Rightarrow> (Inl x, c1)
     | Inr v \<Rightarrow> (case assert_authorized u (cx_request c) j of
           Inl _ \<Rightarrow> (Inl (Effect_ambiguous v), c1)
         | Inr _ \<Rightarrow> (Inr v, c1\<lparr>cx_effects := Suc (cx_effects c1)\<rparr>)))"

subsection \<open>The handlers\<close>

definition configuration_argument ::
  "(string \<Rightarrow> string) \<Rightarrow> string \<Rightarrow> uuid \<Rightarrow> string \<Rightarrow> json \<Rightarrow> handler_error + repository_configuration" where
  "configuration_argument H repository configuration digest arguments =
     (case configuration_from configuration (jfield ''configuration'' arguments) of
        Inl Bad_configuration \<Rightarrow> Inl (Rejected ''INVALID_CONFIGURATION'')
      | Inl Bad_secret_reference \<Rightarrow> Inl Handler_failed
      | Inr c \<Rightarrow> if rc_key c \<noteq> repository \<or> configuration_digest H c \<noteq> digest
          then Inl (Rejected ''CONFIGURATION_BINDING_MISMATCH'') else Inr c)"

definition task_authority :: "host_request \<Rightarrow> handler_error + lease_authority" where
  "task_authority r = (case hr_authority r of Task_lease_authority a \<Rightarrow> Inr a | _ \<Rightarrow> Inl (Rejected ''AUTHORITY_NOT_ALLOWED''))"

definition task_configuration ::
  "(string \<Rightarrow> string) \<Rightarrow> host_request \<Rightarrow> json \<Rightarrow> handler_error + lease_authority \<times> repository_configuration" where
  "task_configuration H r arguments = bindE (task_authority r) (\<lambda>a.
     bindE (configuration_argument H (la_repository a) (la_configuration a) (la_digest a) arguments) (\<lambda>c. Inr (a, c)))"

definition host_agent_version :: string where
  "host_agent_version = ''0.1.0''"

definition handle_health :: "handler_error + json" where
  "handle_health = Inr (JObj [(''service'', JStr ''host-agent''), (''status'', JStr ''ok''), (''version'', JStr host_agent_version)])"

definition handle_preflight :: "(string \<Rightarrow> string) \<Rightarrow> 'w host_services \<Rightarrow> host_request \<Rightarrow> json \<Rightarrow> 'w \<Rightarrow> handler_error + json" where
  "handle_preflight H sv r arguments w = (case hr_authority r of
     Repository_authority repository configuration digest \<Rightarrow>
       bindE (configuration_argument H repository configuration digest arguments) (\<lambda>c.
         (case uuid_argument (jfield ''attempt_id'' arguments) of None \<Rightarrow> Inl (Rejected ''INVALID_ARGUMENTS'')
          | Some attempt \<Rightarrow> serviced (sv_preflight sv c attempt w)))
   | _ \<Rightarrow> Inl (Rejected ''AUTHORITY_NOT_ALLOWED''))"

definition handle_read ::
  "(string \<Rightarrow> string) \<Rightarrow> 'w host_services \<Rightarrow> host_handler \<Rightarrow> host_request \<Rightarrow> json \<Rightarrow> 'w \<Rightarrow> handler_error + json" where
  "handle_read H sv h r arguments w =
     bindE (task_configuration H r arguments) (\<lambda>(a, c). serviced (sv_read sv h a c arguments w))"

definition handle_artifact :: "'w host_services \<Rightarrow> host_handler \<Rightarrow> host_request \<Rightarrow> json \<Rightarrow> 'w \<Rightarrow> handler_error + json" where
  "handle_artifact sv h r arguments w =
     bindE (task_authority r) (\<lambda>a. serviced (sv_artifact sv h (la_task a) arguments w))"

definition handle_lease_probe :: "host_request \<Rightarrow> handler_error + json" where
  "handle_lease_probe r = bindE (task_authority r) (\<lambda>a. Inr (JObj [(''accepted'', JBool True),
     (''job_id'', JStr (uuid_str (la_job a))), (''task_id'', JStr (uuid_str (la_task a))),
     (''fencing_token'', JInt (la_token a))]))"

definition json_text :: "json \<Rightarrow> string" where
  "json_text v = (case v of JStr s \<Rightarrow> s | _ \<Rightarrow> [])"

definition handle_reconcile :: "host_request \<Rightarrow> json \<Rightarrow> journal \<Rightarrow> handler_error + json" where
  "handle_reconcile r arguments j = bindE (task_authority r) (\<lambda>_.
     case journal_status (scope_key r) (json_text (jfield ''operation_name'' arguments))
         (json_text (jfield ''idempotency_key'' arguments)) j of
       Inl x \<Rightarrow> Inl (Journal_failed x)
     | Inr None \<Rightarrow> Inr (JObj [(''found'', JBool False)])
     | Inr (Some s) \<Rightarrow> Inr (JObj [(''found'', JBool True), (''state'', JStr (os_state s)),
         (''request_id'', JStr (uuid_str (os_request s))), (''status'', jopt (JStr \<circ> response_status_value) (os_status s)),
         (''code'', jopt JStr (os_code s)), (''execution_fencing_token'', jopt JInt (os_token s))]))"

definition handle_effect :: "(string \<Rightarrow> string) \<Rightarrow> 'w host_services \<Rightarrow> host_handler \<Rightarrow> int \<Rightarrow> int \<Rightarrow> json \<Rightarrow> journal \<Rightarrow>
    host_context \<Rightarrow> 'w \<Rightarrow> (handler_error + json) \<times> host_context \<times> 'w" where
  "handle_effect H sv h t u arguments j c w =
     (case task_configuration H (cx_request c) arguments of
        Inl x \<Rightarrow> (Inl x, c, w)
      | Inr (a, conf) \<Rightarrow> perform_authorized_effect t u (sv_effect sv h a conf arguments) j c w)"

definition handle_push :: "(string \<Rightarrow> string) \<Rightarrow> 'w host_services \<Rightarrow> int \<Rightarrow> int \<Rightarrow> json \<Rightarrow> journal \<Rightarrow>
    host_context \<Rightarrow> 'w \<Rightarrow> (handler_error + json) \<times> host_context \<times> 'w" where
  "handle_push H sv t u arguments j c w =
     (case task_configuration H (cx_request c) arguments of
        Inl x \<Rightarrow> (Inl x, c, w)
      | Inr (a, conf) \<Rightarrow> (case gs_push_credential (rc_git conf) of
            None \<Rightarrow> (Inl (Rejected ''GIT_PUSH_CREDENTIAL_REQUIRED''), c, w)
          | Some ref \<Rightarrow> (case sv_credential sv ref of
                None \<Rightarrow> (Inl Handler_failed, c, w)
              | Some credential \<Rightarrow>
                  perform_staged_authorized_effect t u (sv_push sv a conf arguments credential) j c w)))"

text \<open>A handler that runs in one step; \<open>Validation_run\<close> is started and ended by steps of its own.\<close>

definition run_handler :: "(string \<Rightarrow> string) \<Rightarrow> 'w host_services \<Rightarrow> host_handler \<Rightarrow> int \<Rightarrow> int \<Rightarrow> json \<Rightarrow> journal \<Rightarrow>
    host_context \<Rightarrow> 'w \<Rightarrow> (handler_error + json) \<times> host_context \<times> 'w" where
  "run_handler H sv h t u arguments j c w = (let r = cx_request c in case h of
     Health \<Rightarrow> (handle_health, c, w)
   | Preflight \<Rightarrow> (handle_preflight H sv r arguments w, c, w)
   | Workspace_inspect \<Rightarrow> (handle_read H sv h r arguments w, c, w)
   | Git_inspect \<Rightarrow> (handle_read H sv h r arguments w, c, w)
   | Workspace_list_files \<Rightarrow> (handle_read H sv h r arguments w, c, w)
   | Workspace_read_file \<Rightarrow> (handle_read H sv h r arguments w, c, w)
   | Workspace_search \<Rightarrow> (handle_read H sv h r arguments w, c, w)
   | Workspace_diff \<Rightarrow> (handle_read H sv h r arguments w, c, w)
   | Artifact_read \<Rightarrow> (handle_artifact sv h r arguments w, c, w)
   | Artifact_verify \<Rightarrow> (handle_artifact sv h r arguments w, c, w)
   | Lease_probe \<Rightarrow> (handle_lease_probe r, c, w)
   | Reconcile \<Rightarrow> (handle_reconcile r arguments j, c, w)
   | Workspace_create \<Rightarrow> handle_effect H sv h t u arguments j c w
   | Workspace_cleanup \<Rightarrow> handle_effect H sv h t u arguments j c w
   | Git_apply_patch \<Rightarrow> handle_effect H sv h t u arguments j c w
   | Git_commit \<Rightarrow> handle_effect H sv h t u arguments j c w
   | Git_push \<Rightarrow> handle_push H sv t u arguments j c w
   | Validation_run \<Rightarrow> (Inl Handler_failed, c, w))"

subsection \<open>The registry\<close>

record operation_definition =
  od_authority :: string
  od_validate :: "json \<Rightarrow> bool"
  od_handler :: host_handler
  od_mutates :: bool

type_synonym operation_registry = "(string \<times> operation_definition) list"

definition registry_ok :: "operation_registry \<Rightarrow> bool" where
  "registry_ok reg \<longleftrightarrow> reg \<noteq> [] \<and>
     list_all (\<lambda>(name, d). operation_name_ok name \<and> (od_mutates d \<longrightarrow> od_authority d = ''TASK_LEASE'')) reg"

definition read_only :: "string \<Rightarrow> (json \<Rightarrow> bool) \<Rightarrow> host_handler \<Rightarrow> operation_definition" where
  "read_only kind validate h = \<lparr>od_authority = kind, od_validate = validate, od_handler = h, od_mutates = False\<rparr>"

definition mutating :: "(json \<Rightarrow> bool) \<Rightarrow> host_handler \<Rightarrow> operation_definition" where
  "mutating validate h = \<lparr>od_authority = ''TASK_LEASE'', od_validate = validate, od_handler = h, od_mutates = True\<rparr>"

definition default_registry :: operation_registry where
  "default_registry =
    [(''artifact.read'', read_only ''TASK_LEASE'' validate_artifact_read Artifact_read),
     (''artifact.verify'', read_only ''TASK_LEASE'' validate_artifact_verify Artifact_verify),
     (''git.commit'', mutating validate_git_commit Git_commit),
     (''git.inspect'', read_only ''TASK_LEASE'' validate_configuration Git_inspect),
     (''git.apply_patch'', mutating validate_apply_patch Git_apply_patch),
     (''git.push'', mutating validate_git_push Git_push),
     (''host.health'', read_only ''SYSTEM'' validate_empty Health),
     (''operation.reconcile'', read_only ''TASK_LEASE'' validate_reconcile Reconcile),
     (''repository.preflight'', read_only ''REPOSITORY'' validate_preflight Preflight),
     (''task.lease_probe'', read_only ''TASK_LEASE'' validate_empty Lease_probe),
     (''validation.run'', mutating validate_validation_run Validation_run),
     (''workspace.cleanup'', mutating validate_workspace_cleanup Workspace_cleanup),
     (''workspace.create'', mutating validate_configuration Workspace_create),
     (''workspace.inspect'', read_only ''TASK_LEASE'' validate_configuration Workspace_inspect),
     (''workspace.diff'', read_only ''TASK_LEASE'' validate_configuration Workspace_diff),
     (''workspace.list_files'', read_only ''TASK_LEASE'' validate_workspace_list Workspace_list_files),
     (''workspace.read_file'', read_only ''TASK_LEASE'' validate_workspace_read Workspace_read_file),
     (''workspace.search'', read_only ''TASK_LEASE'' validate_workspace_search Workspace_search)]"

definition resolve :: "operation_registry \<Rightarrow> string \<Rightarrow> string + operation_definition" where
  "resolve reg name = (case map_of reg name of None \<Rightarrow> Inl ''OPERATION_NOT_ALLOWLISTED'' | Some d \<Rightarrow> Inr d)"

text \<open>What \<open>dispatch\<close> checks before the journal.\<close>

definition accept_request :: "operation_registry \<Rightarrow> host_request \<Rightarrow> string + operation_definition" where
  "accept_request reg r = bindE (resolve reg (ho_name (hr_operation r))) (\<lambda>d.
     if od_authority d \<noteq> authority_kind (hr_authority r) then Inl ''AUTHORITY_NOT_ALLOWED''
     else if od_validate d (ho_arguments (hr_operation r)) then Inr d else Inl ''INVALID_ARGUMENTS'')"

end
