(* ===== verification/Host_Agent.thy ===== *)
theory Host_Agent
  imports Host_Dispatch
begin

text \<open>
  \<open>HostRequestDispatcher\<close> of \<open>services/host-agent/.../dispatch.py\<close> and the runs of a host agent that serves
  requests on any number of threads: the journal and the rest of the host are shared, a transaction
  of the journal and a handler are single steps, and the agent may stop at any moment, which loses
  every thread and keeps the journal.
\<close>

subsection \<open>Responses\<close>

record 'w host_setup =
  hd_H :: "string \<Rightarrow> string"
  hd_limit :: nat
  hd_authenticator :: authenticator
  hd_host :: string
  hd_registry :: operation_registry
  hd_services :: "'w host_services"

definition fencing_token :: "host_request \<Rightarrow> int option" where
  "fencing_token r = (case hr_authority r of Task_lease_authority a \<Rightarrow> Some (la_token a) | _ \<Rightarrow> None)"

definition safe_journal_code :: "journal_error \<Rightarrow> string" where
  "safe_journal_code x = (case x of AUTHORITY_CONFLICT \<Rightarrow> ''AUTHORITY_CONFLICT'' | FENCED \<Rightarrow> ''FENCED''
     | FENCING_TOKEN_CONFLICT \<Rightarrow> ''FENCING_TOKEN_CONFLICT'' | IDEMPOTENCY_CONFLICT \<Rightarrow> ''IDEMPOTENCY_CONFLICT''
     | JOURNAL_CORRUPT \<Rightarrow> ''JOURNAL_CORRUPT'' | JOURNAL_UNAVAILABLE \<Rightarrow> ''JOURNAL_UNAVAILABLE''
     | JOURNAL_LEASE_EXPIRED \<Rightarrow> ''LEASE_EXPIRED'' | OPERATION_NOT_RESERVED \<Rightarrow> ''OPERATION_NOT_RESERVED''
     | REQUEST_ID_CONFLICT \<Rightarrow> ''REQUEST_ID_CONFLICT'' | JOURNAL_BEYOND_TEXT \<Rightarrow> ''JOURNAL_UNAVAILABLE'')"

definition respond :: "'w host_setup \<Rightarrow> int \<Rightarrow> host_request \<Rightarrow> response_status \<Rightarrow> string \<Rightarrow> json \<Rightarrow> bool \<Rightarrow> int option \<Rightarrow>
    host_error + signed_response" where
  "respond e completed r status code result replayed token =
     bindE (mk_host_response \<lparr>hs_request = hr_id r, hs_operation = ho_name (hr_operation r),
       hs_key = ho_key (hr_operation r), hs_host = hd_host e, hs_host_version = host_agent_version, hs_status = status,
       hs_code = code, hs_replayed = replayed, hs_completed = completed, hs_result = result, hs_token = token,
       hs_version = host_protocol_version\<rparr>) (sign_response (hd_H e) (hd_authenticator e))"

definition respond_rejected :: "'w host_setup \<Rightarrow> int \<Rightarrow> host_request \<Rightarrow> string \<Rightarrow> host_error + signed_response" where
  "respond_rejected e completed r code = respond e completed r R_REJECTED code (JObj []) False None"

definition respond_ambiguous :: "'w host_setup \<Rightarrow> int \<Rightarrow> host_request \<Rightarrow> json \<Rightarrow> host_error + signed_response" where
  "respond_ambiguous e completed r result = respond e completed r R_AMBIGUOUS ''OPERATION_AMBIGUOUS'' result False None"

definition respond_result :: "'w host_setup \<Rightarrow> int \<Rightarrow> host_request \<Rightarrow> bool \<Rightarrow> journal_result \<Rightarrow> host_error + signed_response" where
  "respond_result e completed r replayed res =
     respond e completed r (jr_status res) (jr_code res) (jr_result res) replayed (jr_token res)"

subsection \<open>Dispatch\<close>

text \<open>What a received envelope leads to: an answer, an exception, or a handler to run.\<close>

datatype dispatch_answer =
    Answered host_request "host_error + signed_response"
  | Refused_envelope host_error
  | Handed_out host_request operation_definition

definition dispatch_request ::
  "'w host_setup \<Rightarrow> int \<Rightarrow> int \<Rightarrow> int \<Rightarrow> signed_request \<Rightarrow> journal \<Rightarrow> dispatch_answer \<times> journal" where
  "dispatch_request e verified t completed env j =
     (case verify_request (hd_H e) (hd_authenticator e) verified env of
        Inl x \<Rightarrow> (Refused_envelope x, j)
      | Inr r \<Rightarrow> (case accept_request (hd_registry e) r of
          Inl code \<Rightarrow> (Answered r (respond_rejected e completed r code), j)
        | Inr d \<Rightarrow> (case journal_begin (hd_H e) (hd_limit e) t r j of
            (Inl x, j1) \<Rightarrow> (Answered r (respond_rejected e completed r (safe_journal_code x)), j1)
          | (Inr AMBIGUOUS, j1) \<Rightarrow> (Answered r (respond_ambiguous e completed r (JObj [])), j1)
          | (Inr (REPLAY res), j1) \<Rightarrow> (Answered r (respond_result e completed r True res), j1)
          | (Inr EXECUTE, j1) \<Rightarrow> (Handed_out r d, j1))))"

text \<open>The result that is journaled, from what the handler returned or raised; \<open>Inl\<close> is the ambiguous
  answer.\<close>

definition rejected_result :: "host_request \<Rightarrow> string \<Rightarrow> journal_result" where
  "rejected_result r code = \<lparr>jr_status = R_REJECTED, jr_code = code, jr_result = JObj [], jr_token = fencing_token r\<rparr>"

definition conclude :: "bool \<Rightarrow> host_context \<Rightarrow> handler_error + json \<Rightarrow> json + journal_result" where
  "conclude mutates c res = (let r = cx_request c in case res of
     Inr v \<Rightarrow> if mutates \<and> \<not> used_authorized_effect c then Inr (rejected_result r ''AUTHORIZATION_GUARD_REQUIRED'')
       else (case json_object v of Inl _ \<Rightarrow> Inr (rejected_result r ''OPERATION_FAILED'')
         | Inr w \<Rightarrow> Inr \<lparr>jr_status = R_OK, jr_code = ''OK'', jr_result = w, jr_token = fencing_token r\<rparr>)
   | Inl (Effect_ambiguous v) \<Rightarrow> Inl v
   | Inl (Rejected code) \<Rightarrow> Inr (rejected_result r code)
   | Inl (Journal_failed x) \<Rightarrow> Inr (rejected_result r (safe_journal_code x))
   | Inl Handler_failed \<Rightarrow> Inr (rejected_result r ''OPERATION_FAILED''))"

definition dispatch_finish :: "'w host_setup \<Rightarrow> int \<Rightarrow> int \<Rightarrow> bool \<Rightarrow> host_context \<Rightarrow> handler_error + json \<Rightarrow> journal \<Rightarrow>
    (host_error + signed_response) \<times> journal" where
  "dispatch_finish e t completed mutates c res j = (let r = cx_request c in case conclude mutates c res of
     Inl v \<Rightarrow> (bindE (json_object v) (respond_ambiguous e completed r), j)
   | Inr result \<Rightarrow>
       if effect_attempted c \<and> jr_status result \<noteq> R_OK then (respond_ambiguous e completed r (JObj []), j)
       else (case journal_finish (hd_H e) t r result j of
           Inl _ \<Rightarrow> (respond_ambiguous e completed r (JObj []), j)
         | Inr j1 \<Rightarrow> (respond_result e completed r False result, j1)))"

subsection \<open>The agent\<close>

datatype thread_phase = Ready | In_flight | Returned "handler_error + json"

record host_thread =
  th_context :: host_context
  th_definition :: operation_definition
  th_phase :: thread_phase

record 'w host_state =
  ag_journal :: journal
  ag_world :: 'w
  ag_threads :: "nat \<Rightarrow> host_thread option"

text \<open>The steps: a connection is served on a free thread; a handler runs; the renewable handler starts,
  the process it owns changes the host, and it ends; a handled request is finished; the agent stops.\<close>

datatype 'w host_event =
    Receive nat signed_request int int int
  | Handle nat int int
  | Start nat int
  | Progress nat "'w \<Rightarrow> 'w"
  | Stop nat "handler_error + json" bool int
  | Close nat int int
  | Crash

datatype host_answer =
    Served dispatch_answer
  | Effect host_request
  | Handled host_request
  | Ended host_request
  | Closed host_request "host_error + signed_response"
  | Idle

definition fresh_context :: "host_request \<Rightarrow> host_context" where
  "fresh_context r = \<lparr>cx_request = r, cx_effects = 0, cx_attempted = False\<rparr>"

definition renewable :: "host_handler \<Rightarrow> bool" where
  "renewable h \<longleftrightarrow> h = Validation_run"

definition set_thread :: "nat \<Rightarrow> host_thread \<Rightarrow> 'w host_state \<Rightarrow> 'w host_state" where
  "set_thread n th s = s\<lparr>ag_threads := (ag_threads s)(n \<mapsto> th)\<rparr>"

definition receive :: "'w host_setup \<Rightarrow> nat \<Rightarrow> signed_request \<Rightarrow> int \<Rightarrow> int \<Rightarrow> int \<Rightarrow> 'w host_state \<Rightarrow> host_answer \<times> 'w host_state" where
  "receive e n env verified t completed s =
     (case dispatch_request e verified t completed env (ag_journal s) of
        (Handed_out r d, j) \<Rightarrow> (Served (Handed_out r d), set_thread n \<lparr>th_context = fresh_context r, th_definition = d,
          th_phase = Ready\<rparr> (s\<lparr>ag_journal := j\<rparr>))
      | (a, j) \<Rightarrow> (Served a, s\<lparr>ag_journal := j\<rparr>))"

text \<open>Whether a handler starts its effect: its configuration is bound, a push has its credential, and the
  fence lets it.\<close>

definition starts_effect :: "'w host_setup \<Rightarrow> int \<Rightarrow> host_handler \<Rightarrow> host_request \<Rightarrow> journal \<Rightarrow> bool" where
  "starts_effect e t h r j \<longleftrightarrow> h \<in> {Workspace_create, Workspace_cleanup, Git_apply_patch, Git_commit, Git_push} \<and>
     isInr (assert_authorized t r j) \<and>
     (case task_configuration (hd_H e) r (ho_arguments (hr_operation r)) of Inl _ \<Rightarrow> False
      | Inr (_, conf) \<Rightarrow> h = Git_push \<longrightarrow> (case gs_push_credential (rc_git conf) of None \<Rightarrow> False
          | Some ref \<Rightarrow> sv_credential (hd_services e) ref \<noteq> None))"

definition handle :: "'w host_setup \<Rightarrow> nat \<Rightarrow> host_thread \<Rightarrow> int \<Rightarrow> int \<Rightarrow> 'w host_state \<Rightarrow> host_answer \<times> 'w host_state" where
  "handle e n th t u s = (let c = th_context th; r = cx_request c; h = od_handler (th_definition th) in
     case run_handler (hd_H e) (hd_services e) h t u (ho_arguments (hr_operation r)) (ag_journal s) c (ag_world s) of
       (res, c1, w) \<Rightarrow>
         (if starts_effect e t h r (ag_journal s) then Effect r else Handled r,
          set_thread n (th\<lparr>th_context := c1, th_phase := Returned res\<rparr>) (s\<lparr>ag_world := w\<rparr>)))"

definition start :: "'w host_setup \<Rightarrow> nat \<Rightarrow> host_thread \<Rightarrow> int \<Rightarrow> 'w host_state \<Rightarrow> host_answer \<times> 'w host_state" where
  "start e n th t s = (let c = th_context th; r = cx_request c in
     case task_configuration (hd_H e) r (ho_arguments (hr_operation r)) of
       Inl x \<Rightarrow> (Handled r, set_thread n (th\<lparr>th_phase := Returned (Inl x)\<rparr>) s)
     | Inr _ \<Rightarrow> (case start_renewable_effect t (ag_journal s) c of
         Inl x \<Rightarrow> (Handled r, set_thread n (th\<lparr>th_phase := Returned (Inl x)\<rparr>) s)
       | Inr _ \<Rightarrow> (Effect r, set_thread n (th\<lparr>th_phase := In_flight\<rparr>) s)))"

definition stop :: "nat \<Rightarrow> host_thread \<Rightarrow> handler_error + json \<Rightarrow> bool \<Rightarrow> int \<Rightarrow> 'w host_state \<Rightarrow> host_answer \<times> 'w host_state" where
  "stop n th res marked u s = (case end_renewable_effect u marked res (ag_journal s) (th_context th) of
     (out, c) \<Rightarrow> (Ended (cx_request c), set_thread n (th\<lparr>th_context := c, th_phase := Returned out\<rparr>) s))"

definition close :: "'w host_setup \<Rightarrow> nat \<Rightarrow> host_thread \<Rightarrow> handler_error + json \<Rightarrow> int \<Rightarrow> int \<Rightarrow> 'w host_state \<Rightarrow>
    host_answer \<times> 'w host_state" where
  "close e n th res t completed s =
     (case dispatch_finish e t completed (od_mutates (th_definition th)) (th_context th) res (ag_journal s) of
        (a, j) \<Rightarrow> (Closed (cx_request (th_context th)) a, s\<lparr>ag_journal := j, ag_threads := (ag_threads s)(n := None)\<rparr>))"

text \<open>A step that is not enabled leaves the agent idle.\<close>

fun host_step :: "'w host_setup \<Rightarrow> 'w host_event \<Rightarrow> 'w host_state \<Rightarrow> host_answer \<times> 'w host_state" where
  "host_step e (Receive n env verified t completed) s =
     (if ag_threads s n = None then receive e n env verified t completed s else (Idle, s))"
| "host_step e (Handle n t u) s = (case ag_threads s n of
     Some th \<Rightarrow> if th_phase th = Ready \<and> \<not> renewable (od_handler (th_definition th)) then handle e n th t u s else (Idle, s)
   | None \<Rightarrow> (Idle, s))"
| "host_step e (Start n t) s = (case ag_threads s n of
     Some th \<Rightarrow> if th_phase th = Ready \<and> renewable (od_handler (th_definition th)) then start e n th t s else (Idle, s)
   | None \<Rightarrow> (Idle, s))"
| "host_step e (Progress n f) s = (case ag_threads s n of
     Some th \<Rightarrow> (Idle, if th_phase th = In_flight then s\<lparr>ag_world := f (ag_world s)\<rparr> else s)
   | None \<Rightarrow> (Idle, s))"
| "host_step e (Stop n res marked u) s = (case ag_threads s n of
     Some th \<Rightarrow> if th_phase th = In_flight then stop n th res marked u s else (Idle, s)
   | None \<Rightarrow> (Idle, s))"
| "host_step e (Close n t completed) s = (case ag_threads s n of
     Some th \<Rightarrow> (case th_phase th of Returned res \<Rightarrow> close e n th res t completed s | _ \<Rightarrow> (Idle, s))
   | None \<Rightarrow> (Idle, s))"
| "host_step e Crash s = (Idle, s\<lparr>ag_threads := (\<lambda>_. None)\<rparr>)"

fun host_run :: "'w host_setup \<Rightarrow> 'w host_event list \<Rightarrow> 'w host_state \<Rightarrow> 'w host_state" where
  "host_run e [] s = s"
| "host_run e (x # xs) s = host_run e xs (snd (host_step e x s))"

fun host_trace :: "'w host_setup \<Rightarrow> 'w host_event list \<Rightarrow> 'w host_state \<Rightarrow> host_answer list" where
  "host_trace e [] s = []"
| "host_trace e (x # xs) s = fst (host_step e x s) # host_trace e xs (snd (host_step e x s))"

definition fresh_agent :: "'w \<Rightarrow> 'w host_state" where
  "fresh_agent w = \<lparr>ag_journal = empty_journal, ag_world = w, ag_threads = (\<lambda>_. None)\<rparr>"

end
