(* ===== verification/Host_Agent_Runs.thy ===== *)
theory Host_Agent_Runs
  imports Host_Agent
begin

text \<open>
  What every run of the agent keeps: an operation is handed to a handler once, a handler starts its
  effect once, and the fence of a job only moves forward.
\<close>

subsection \<open>Traces\<close>

definition handed_request :: "host_answer \<Rightarrow> host_request option" where
  "handed_request a = (case a of Served (Handed_out r _) \<Rightarrow> Some r | _ \<Rightarrow> None)"

definition started_request :: "host_answer \<Rightarrow> host_request option" where
  "started_request a = (case a of Effect r \<Rightarrow> Some r | _ \<Rightarrow> None)"

definition handed :: "host_answer list \<Rightarrow> host_request list" where
  "handed es = List.map_filter handed_request es"

definition started :: "host_answer list \<Rightarrow> host_request list" where
  "started es = List.map_filter started_request es"

lemma map_filter_append: "List.map_filter f (xs @ ys) = List.map_filter f xs @ List.map_filter f ys"
  by (simp add: List.map_filter_def)

lemma handed_append [simp]: "handed (xs @ ys) = handed xs @ handed ys" "handed [] = []"
  "handed [a] = (case handed_request a of None \<Rightarrow> [] | Some r \<Rightarrow> [r])"
  by (simp_all add: handed_def map_filter_append map_filter_simps split: option.split)

lemma started_append [simp]: "started (xs @ ys) = started xs @ started ys" "started [] = []"
  "started [a] = (case started_request a of None \<Rightarrow> [] | Some r \<Rightarrow> [r])"
  by (simp_all add: started_def map_filter_append map_filter_simps split: option.split)

lemma host_run_snoc: "host_run e (xs @ [x]) s = snd (host_step e x (host_run e xs s))"
  by (induction xs arbitrary: s) simp_all

lemma host_trace_snoc: "host_trace e (xs @ [x]) s = host_trace e xs s @ [fst (host_step e x (host_run e xs s))]"
  by (induction xs arbitrary: s) simp_all

lemma host_run_append: "host_run e (xs @ ys) s = host_run e ys (host_run e xs s)"
  by (induction xs arbitrary: s) simp_all

lemma host_trace_append: "host_trace e (xs @ ys) s = host_trace e xs s @ host_trace e ys (host_run e xs s)"
  by (induction xs arbitrary: s) simp_all

text \<open>What holds of the fresh agent and is kept by every step holds of every run and its trace.\<close>

lemma host_run_induct:
  assumes "P s []" and "\<And>s es x. P s es \<Longrightarrow> P (snd (host_step e x s)) (es @ [fst (host_step e x s)])"
  shows "P (host_run e xs s) (host_trace e xs s)"
  by (induction xs rule: rev_induct) (simp_all add: assms host_run_snoc host_trace_snoc)

subsection \<open>The operations of the journal\<close>

definition journal_keys :: "journal \<Rightarrow> operation_key set" where
  "journal_keys j = row_key ` set (operations j)"

lemma journal_keys_frame: "operations j' = operations j \<Longrightarrow> journal_keys j' = journal_keys j"
  by (simp add: journal_keys_def)

lemma find_operation_None: "find_operation r j = None \<longleftrightarrow> request_key r \<notin> journal_keys j"
  by (force simp: find_operation_key find_None_iff journal_keys_def)

lemma decide_operation_keys:
  assumes "decide_operation H limit r j = Inr (a, j')"
  shows "journal_keys j \<subseteq> journal_keys j'" "a = EXECUTE \<Longrightarrow> request_key r \<notin> journal_keys j \<and> request_key r \<in> journal_keys j'"
  using assms find_operation_None [of r j]
  by (auto simp: decide_operation_def reserve_def journal_keys_def row_key_def request_key_def
      split: option.split_asm if_split_asm dest!: record_delivery_frame)

lemma journal_begin_keys:
  assumes "journal_begin H limit t r j = (a, j')"
  shows "journal_keys j \<subseteq> journal_keys j'"
    "a = Inr EXECUTE \<Longrightarrow> request_key r \<notin> journal_keys j \<and> request_key r \<in> journal_keys j'"
proof -
  have f: "journal_keys j1 = journal_keys j" if "apply_fence t r j = Inr j0" "record_receipt H r j0 = Inr j1" for j0 j1
    using apply_fence_frame [OF that(1)] record_receipt_frame [OF that(2)] by (simp add: journal_keys_def)
  show "journal_keys j \<subseteq> journal_keys j'"
    using assms by (cases rule: journal_begin_cases) (use f decide_operation_keys(1) in blast)+
  show "a = Inr EXECUTE \<Longrightarrow> request_key r \<notin> journal_keys j \<and> request_key r \<in> journal_keys j'"
    using assms
  proof (cases rule: journal_begin_cases)
    case (decided j0 j1 b)
    moreover assume "a = Inr EXECUTE"
    ultimately show ?thesis using f decide_operation_keys(2) [OF decided(4)] by simp
  qed (auto elim: bindE_InrE)
qed

lemma journal_finish_keys:
  assumes "journal_finish H t r res j = Inr j'"
  shows "journal_keys j' = journal_keys j"
proof -
  have "map row_key (upd_rows (running_operation H r) (finish_row res) xs) = map row_key xs" for xs
    by (simp add: upd_rows_def)
  then show ?thesis using journal_finish_Inr(3) [OF assms] unfolding journal_keys_def by (metis set_map)
qed

lemma dispatch_request_keys:
  assumes "dispatch_request e v t c env j = (a, j')"
  shows "journal_keys j \<subseteq> journal_keys j'"
    "a = Handed_out r d \<Longrightarrow> request_key r \<notin> journal_keys j \<and> request_key r \<in> journal_keys j'"
  using assms by (auto simp: dispatch_request_def split: sum.split_asm prod.split_asm journal_decision.split_asm
      dest: journal_begin_keys)

lemma dispatch_finish_keys: "dispatch_finish e t c m cx res j = (a, j') \<Longrightarrow> journal_keys j' = journal_keys j"
  by (auto simp: dispatch_finish_def Let_def split: sum.split_asm if_split_asm dest: journal_finish_keys)

subsection \<open>Once\<close>

text \<open>The threads work on different operations, each handed out before and reserved in the journal, and a
  handler that has not run has not started its effect.\<close>

definition thread_request :: "host_thread \<Rightarrow> host_request" where
  "thread_request th = cx_request (th_context th)"

definition once_inv :: "'w host_state \<Rightarrow> host_answer list \<Rightarrow> bool" where
  "once_inv s es \<longleftrightarrow> distinct (map request_key (handed es)) \<and> request_key ` set (handed es) \<subseteq> journal_keys (ag_journal s) \<and>
     distinct (map request_key (started es)) \<and> set (started es) \<subseteq> set (handed es) \<and>
     (\<forall>n th. ag_threads s n = Some th \<longrightarrow> thread_request th \<in> set (handed es) \<and>
        (th_phase th = Ready \<longrightarrow> request_key (thread_request th) \<notin> request_key ` set (started es)) \<and>
        (\<forall>m th'. ag_threads s m = Some th' \<longrightarrow> request_key (thread_request th) = request_key (thread_request th') \<longrightarrow> m = n))"

lemma run_handler_request: "run_handler H sv h t u args j c w = (res, c1, w1) \<Longrightarrow> cx_request c1 = cx_request c"
  by (auto simp: run_handler_def handle_effect_def handle_push_def perform_authorized_effect_def
      perform_staged_authorized_effect_def Let_def split: host_handler.split_asm sum.split_asm prod.split_asm if_split_asm
        option.split_asm)

lemma end_renewable_request: "end_renewable_effect u m res j c = (out, c1) \<Longrightarrow> cx_request c1 = cx_request c"
  by (auto simp: end_renewable_effect_def Let_def split: sum.split_asm)

text \<open>A thread moves on, with or without having started its effect.\<close>

lemma once_move:
  assumes "once_inv s es" "ag_threads s n = Some th" "thread_request th' = thread_request th" "th_phase th' \<noteq> Ready"
    "journal_keys j = journal_keys (ag_journal s)" "handed_request a = None"
    "started_request a = None \<or> th_phase th = Ready \<and> started_request a = Some (thread_request th)"
  shows "once_inv (set_thread n th' (s\<lparr>ag_journal := j, ag_world := w\<rparr>)) (es @ [a])"
proof -
  have th: "thread_request th \<in> set (handed es)" "th_phase th = Ready \<Longrightarrow> request_key (thread_request th) \<notin> request_key ` set (started es)"
    "\<And>m th'. ag_threads s m = Some th' \<Longrightarrow> request_key (thread_request th) = request_key (thread_request th') \<Longrightarrow> m = n"
    using assms(1,2) unfolding once_inv_def by blast+
  have e: "distinct (map request_key (started (es @ [a])))" "set (started (es @ [a])) \<subseteq> set (handed es)"
    "set (started (es @ [a])) \<subseteq> insert (thread_request th) (set (started es))"
    using assms(1,7) th unfolding once_inv_def by auto
  have h: "handed (es @ [a]) = handed es" using assms(6) by simp
  have fresh: "request_key (thread_request u) \<notin> request_key ` set (started (es @ [a]))"
    if u: "ag_threads s m = Some u" "m \<noteq> n" "th_phase u = Ready" for m u
  proof -
    have "request_key (thread_request u) \<notin> request_key ` set (started es)" using assms(1) u(1,3) unfolding once_inv_def by blast
    moreover have "request_key (thread_request u) \<noteq> request_key (thread_request th)" using th(3) [OF u(1)] u(2) by auto
    ultimately show ?thesis using e(3) by blast
  qed
  show ?thesis using assms(1-5) e(1,2) th fresh unfolding once_inv_def h set_thread_def
    by (auto split: if_split_asm simp del: started_append)
qed

lemma once_serve:
  assumes "once_inv s es" "ag_threads s n = None" "thread_request th = r"
    "request_key r \<notin> journal_keys (ag_journal s)" "request_key r \<in> journal_keys j" "journal_keys (ag_journal s) \<subseteq> journal_keys j"
  shows "once_inv (set_thread n th (s\<lparr>ag_journal := j\<rparr>)) (es @ [Served (Handed_out r d)])"
proof -
  have new: "request_key r \<notin> request_key ` set (handed es)" using assms(1,4) unfolding once_inv_def by blast
  then have "request_key r \<notin> request_key ` set (started es)" "r \<notin> set (handed es)" using assms(1) unfolding once_inv_def by blast+
  moreover have "request_key (thread_request u) \<noteq> request_key r" if "ag_threads s m = Some u" for m u
    using assms(1) new that unfolding once_inv_def by (metis imageI)
  ultimately show ?thesis using assms new unfolding once_inv_def set_thread_def
    by (auto simp: handed_request_def started_request_def split: if_split_asm)
qed

lemma once_frame:
  assumes "once_inv s es" "journal_keys (ag_journal s) \<subseteq> journal_keys (ag_journal s')" "handed_request a = None" "started_request a = None"
    "\<And>n th. ag_threads s' n = Some th \<Longrightarrow> ag_threads s n = Some th"
  shows "once_inv s' (es @ [a])"
  using assms unfolding once_inv_def by (auto split: option.split) blast+

lemma handle_once:
  assumes "once_inv s es" "ag_threads s n = Some th" "th_phase th = Ready" "handle e n th t u s = (a, s')"
  shows "once_inv s' (es @ [a])"
proof -
  obtain res c1 w where r: "run_handler (hd_H e) (hd_services e) (od_handler (th_definition th)) t u
      (ho_arguments (hr_operation (cx_request (th_context th)))) (ag_journal s) (th_context th) (ag_world s) = (res, c1, w)"
    using prod_cases3 by blast
  let ?th = "th\<lparr>th_context := c1, th_phase := Returned res\<rparr>"
  have s': "s' = set_thread n ?th (s\<lparr>ag_journal := ag_journal s, ag_world := w\<rparr>)"
    and a: "a = Effect (thread_request th) \<or> a = Handled (thread_request th)"
    using assms(4) r by (auto simp: handle_def Let_def thread_request_def split: if_splits)
  have "thread_request ?th = thread_request th" using run_handler_request [OF r] by (simp add: thread_request_def)
  then show ?thesis unfolding s' using a assms(3)
    by (intro once_move [OF assms(1,2)]) (auto simp: handed_request_def started_request_def)
qed

lemma start_once:
  assumes "once_inv s es" "ag_threads s n = Some th" "th_phase th = Ready" "start e n th t s = (a, s')"
  shows "once_inv s' (es @ [a])"
proof -
  obtain p where p: "p \<noteq> Ready" "s' = set_thread n (th\<lparr>th_phase := p\<rparr>) (s\<lparr>ag_journal := ag_journal s, ag_world := ag_world s\<rparr>)"
    "a = Effect (thread_request th) \<or> a = Handled (thread_request th)"
    using assms(4) by (auto simp: start_def Let_def thread_request_def split: sum.split_asm)
  show ?thesis unfolding p(2) using p(1,3) assms(3)
    by (intro once_move [OF assms(1,2)]) (auto simp: thread_request_def handed_request_def started_request_def)
qed

lemma stop_once:
  assumes "once_inv s es" "ag_threads s n = Some th" "stop n th res marked u s = (a, s')"
  shows "once_inv s' (es @ [a])"
proof -
  obtain out c where o: "end_renewable_effect u marked res (ag_journal s) (th_context th) = (out, c)" by force
  let ?th = "th\<lparr>th_context := c, th_phase := Returned out\<rparr>"
  have s': "s' = set_thread n ?th (s\<lparr>ag_journal := ag_journal s, ag_world := ag_world s\<rparr>)" and a: "a = Ended (thread_request th)"
    using assms(3) o end_renewable_request [OF o] by (auto simp: stop_def thread_request_def)
  have "thread_request ?th = thread_request th" using end_renewable_request [OF o] by (simp add: thread_request_def)
  then show ?thesis unfolding s' using a
    by (intro once_move [OF assms(1,2)]) (auto simp: handed_request_def started_request_def)
qed

lemma close_once:
  assumes "once_inv s es" "close e n th res t c s = (a, s')"
  shows "once_inv s' (es @ [a])"
proof -
  obtain ans j where d: "dispatch_finish e t c (od_mutates (th_definition th)) (th_context th) res (ag_journal s) = (ans, j)" by force
  then show ?thesis using assms(2) dispatch_finish_keys [OF d]
    by (intro once_frame [OF assms(1)]) (auto simp: close_def handed_request_def started_request_def split: if_split_asm)
qed

lemma receive_once:
  assumes "once_inv s es" "ag_threads s n = None" "receive e n env v t c s = (a, s')"
  shows "once_inv s' (es @ [a])"
proof -
  obtain ans j where d: "dispatch_request e v t c env (ag_journal s) = (ans, j)" by force
  note k = dispatch_request_keys [OF d]
  show ?thesis
  proof (cases ans)
    case (Handed_out r od)
    then show ?thesis using assms(3) d k
      by (auto simp: receive_def fresh_context_def thread_request_def intro!: once_serve [OF assms(1,2)])
  qed (use assms d k in \<open>auto simp: receive_def handed_request_def started_request_def intro!: once_frame [OF assms(1)]\<close>)
qed

lemma idle_once: "once_inv s es \<Longrightarrow> (\<And>n th. ag_threads s' n = Some th \<Longrightarrow> ag_threads s n = Some th) \<Longrightarrow>
    ag_journal s' = ag_journal s \<Longrightarrow> once_inv s' (es @ [Idle])"
  by (erule once_frame) (simp_all add: handed_request_def started_request_def)

lemma host_step_once:
  assumes "once_inv s es"
  shows "once_inv (snd (host_step e x s)) (es @ [fst (host_step e x s)])"
proof (cases x)
  case (Receive n env v t c)
  then show ?thesis using assms by (auto intro: idle_once receive_once [OF _ _ surjective_pairing])
next
  case (Handle n t u)
  then show ?thesis using assms by (auto intro: idle_once handle_once [OF _ _ _ surjective_pairing] split: option.split)
next
  case (Start n t)
  then show ?thesis using assms by (auto intro: idle_once start_once [OF _ _ _ surjective_pairing] split: option.split)
next
  case (Progress n f)
  then show ?thesis by (auto intro: idle_once [OF assms] split: option.split)
next
  case (Stop n res m u)
  then show ?thesis using assms by (auto intro: idle_once stop_once [OF _ _ surjective_pairing] split: option.split)
next
  case (Close n t c)
  then show ?thesis using assms
    by (auto intro: idle_once close_once [OF _ surjective_pairing] split: option.split thread_phase.split)
next
  case Crash
  then show ?thesis by (auto intro: idle_once [OF assms])
qed

lemma fresh_once: "once_inv (fresh_agent w) []"
  by (simp add: once_inv_def fresh_agent_def)

lemmas host_run_once = host_run_induct [where P = once_inv, OF fresh_once host_step_once]

subsection \<open>Effects and the host\<close>

text \<open>The host only changes when a handler starts its effect, or while a renewable effect is in flight.\<close>

lemma run_handler_world:
  assumes "run_handler (hd_H e) (hd_services e) h t u args j c w = (res, c1, w1)" "args = ho_arguments (hr_operation (cx_request c))"
    and "\<not> starts_effect e t h (cx_request c) j"
  shows "w1 = w"
  using assms
  by (cases h) (auto simp: run_handler_def handle_effect_def handle_push_def perform_authorized_effect_def
      perform_staged_authorized_effect_def starts_effect_def Let_def split: sum.split_asm prod.split_asm if_split_asm option.split_asm)

definition quiet_inv :: "'w \<Rightarrow> 'w host_state \<Rightarrow> host_answer list \<Rightarrow> bool" where
  "quiet_inv w s es \<longleftrightarrow> started es = [] \<longrightarrow> ag_world s = w \<and> (\<forall>n th. ag_threads s n = Some th \<longrightarrow> th_phase th \<noteq> In_flight)"

lemma quiet_kept:
  assumes "quiet_inv w s es" "started_request a = None \<Longrightarrow> ag_world s' = ag_world s"
    "\<And>n th. started_request a = None \<Longrightarrow> ag_threads s' n = Some th \<Longrightarrow> th_phase th = In_flight \<Longrightarrow> ag_threads s n = Some th"
  shows "quiet_inv w s' (es @ [a])"
  unfolding quiet_inv_def
proof (rule impI)
  assume "started (es @ [a]) = []"
  then have n: "started es = []" "started_request a = None" by (auto split: option.split_asm)
  then have "ag_world s = w" "\<And>n th. ag_threads s n = Some th \<Longrightarrow> th_phase th \<noteq> In_flight"
    using assms(1) unfolding quiet_inv_def by blast+
  then show "ag_world s' = w \<and> (\<forall>n th. ag_threads s' n = Some th \<longrightarrow> th_phase th \<noteq> In_flight)"
    using assms(2,3) [OF n(2)] by metis
qed

lemma handle_quiet:
  assumes "quiet_inv w s es" "handle e n th t u s = (a, s')"
  shows "quiet_inv w s' (es @ [a])"
proof -
  obtain res c1 w1 where r: "run_handler (hd_H e) (hd_services e) (od_handler (th_definition th)) t u
      (ho_arguments (hr_operation (cx_request (th_context th)))) (ag_journal s) (th_context th) (ag_world s) = (res, c1, w1)"
    using prod_cases3 by blast
  show ?thesis using assms(2) r run_handler_world [OF r refl]
    by (intro quiet_kept [OF assms(1)])
      (auto simp: handle_def Let_def started_request_def set_thread_def split: if_split_asm)
qed

lemma start_quiet: "quiet_inv w s es \<Longrightarrow> start e n th t s = (a, s') \<Longrightarrow> quiet_inv w s' (es @ [a])"
  by (erule quiet_kept) (auto simp: start_def Let_def started_request_def set_thread_def split: sum.split_asm if_split_asm)

lemma stop_quiet: "quiet_inv w s es \<Longrightarrow> stop n th res m u s = (a, s') \<Longrightarrow> quiet_inv w s' (es @ [a])"
  by (erule quiet_kept) (auto simp: stop_def set_thread_def split: prod.split_asm if_split_asm)

lemma close_quiet: "quiet_inv w s es \<Longrightarrow> close e n th res t c s = (a, s') \<Longrightarrow> quiet_inv w s' (es @ [a])"
  by (erule quiet_kept) (auto simp: close_def split: prod.split_asm if_split_asm)

lemma receive_quiet: "quiet_inv w s es \<Longrightarrow> receive e n env v t c s = (a, s') \<Longrightarrow> quiet_inv w s' (es @ [a])"
  by (erule quiet_kept) (auto simp: receive_def set_thread_def split: prod.split_asm dispatch_answer.split_asm if_split_asm)

lemma progress_quiet:
  assumes "quiet_inv w s es" "ag_threads s n = Some th" "th_phase th = In_flight"
  shows "quiet_inv w (s\<lparr>ag_world := f (ag_world s)\<rparr>) (es @ [Idle])"
  using assms unfolding quiet_inv_def by (auto simp: started_request_def)

lemma idle_quiet: "quiet_inv w s es \<Longrightarrow> (\<And>n th. ag_threads s' n = Some th \<Longrightarrow> ag_threads s n = Some th) \<Longrightarrow>
    ag_world s' = ag_world s \<Longrightarrow> quiet_inv w s' (es @ [Idle])"
  by (erule quiet_kept) auto

lemma host_step_quiet:
  assumes "quiet_inv w s es"
  shows "quiet_inv w (snd (host_step e x s)) (es @ [fst (host_step e x s)])"
proof (cases x)
  case (Receive n env v t c)
  then show ?thesis by (simp add: idle_quiet [OF assms] receive_quiet [OF assms surjective_pairing])
next
  case (Handle n t u)
  then show ?thesis by (auto intro: idle_quiet [OF assms] handle_quiet [OF assms surjective_pairing] split: option.split)
next
  case (Start n t)
  then show ?thesis by (auto intro: idle_quiet [OF assms] start_quiet [OF assms surjective_pairing] split: option.split)
next
  case (Progress n f)
  then show ?thesis by (auto intro: idle_quiet [OF assms] progress_quiet [OF assms] split: option.split)
next
  case (Stop n res m u)
  then show ?thesis by (auto intro: idle_quiet [OF assms] stop_quiet [OF assms surjective_pairing] split: option.split)
next
  case (Close n t c)
  then show ?thesis
    by (auto intro: idle_quiet [OF assms] close_quiet [OF assms surjective_pairing] split: option.split thread_phase.split)
next
  case Crash
  then show ?thesis by (auto intro: idle_quiet [OF assms])
qed

lemma fresh_quiet: "quiet_inv w (fresh_agent w) []"
  by (simp add: quiet_inv_def fresh_agent_def)

lemmas host_run_quiet = host_run_induct [where P = "quiet_inv w" for w, OF fresh_quiet host_step_quiet]

subsection \<open>The fence\<close>

text \<open>The fence of a job goes to a larger token, or stays with the lease that has its token.\<close>

definition fence_at :: "journal \<Rightarrow> lease_authority \<Rightarrow> bool" where
  "fence_at j a \<longleftrightarrow> (\<exists>f. find_fence (la_job a) j = Some f \<and>
     (la_token a < fe_token f \<or> la_token a = fe_token f \<and> fe_lease f = la_lease a \<and> fe_worker f = la_worker a))"

lemma fence_at_frame: "fences j' = fences j \<Longrightarrow> fence_at j' a = fence_at j a"
  by (simp add: fence_at_def find_fence_def)

lemma apply_fence_sets: "apply_fence t r j = Inr j' \<Longrightarrow> hr_authority r = Task_lease_authority a \<Longrightarrow> fence_at j' a"
  using apply_fence_lease by (fastforce simp: fence_at_def)

lemma apply_fence_keeps:
  assumes "fence_at j a" "apply_fence t r j = Inr j'"
  shows "fence_at j' a"
proof (cases "\<exists>b. hr_authority r = Task_lease_authority b \<and> la_job b = la_job a")
  case True
  then obtain b where b: "hr_authority r = Task_lease_authority b" "la_job b = la_job a" by blast
  obtain f where f: "find_fence (la_job a) j = Some f"
    "la_token a < fe_token f \<or> la_token a = fe_token f \<and> fe_lease f = la_lease a \<and> fe_worker f = la_worker a"
    using assms(1) unfolding fence_at_def by blast
  obtain f' where f': "find_fence (la_job a) j' = Some f'" "fe_token f' = la_token b" "fe_lease f' = la_lease b" "fe_worker f' = la_worker b"
    using apply_fence_lease [OF assms(2) b(1)] b(2) by auto
  have "fe_token f < la_token b \<or> fe_token f = la_token b \<and> fe_lease f = la_lease b \<and> fe_worker f = la_worker b"
    using assms(2) b f(1) by (auto simp: apply_fence_def split: if_split_asm)
  then show ?thesis using f f' unfolding fence_at_def by auto
next
  case False
  then have "find_fence (la_job a) j' = find_fence (la_job a) j" by (intro apply_fence_other [OF assms(2)]) auto
  then show ?thesis using assms(1) by (simp add: fence_at_def)
qed

lemma journal_begin_fence_at:
  assumes "journal_begin H limit t r j = (ans, j')"
  shows "fence_at j a \<Longrightarrow> fence_at j' a" "ans = Inr d \<Longrightarrow> hr_authority r = Task_lease_authority b \<Longrightarrow> fence_at j' b"
proof -
  show "fence_at j a \<Longrightarrow> fence_at j' a"
    using journal_begin_fences [OF assms] apply_fence_keeps fence_at_frame by blast
  assume "ans = Inr d" "hr_authority r = Task_lease_authority b"
  then show "fence_at j' b" using assms apply_fence_sets fence_at_frame by (metis journal_begin_accepts)
qed

lemma dispatch_request_fence_at:
  assumes "dispatch_request e v t c env j = (ans, j')"
  shows "fence_at j a \<Longrightarrow> fence_at j' a" "ans = Handed_out r d \<Longrightarrow> hr_authority r = Task_lease_authority b \<Longrightarrow> fence_at j' b"
  using assms by (auto simp: dispatch_request_def split: sum.split_asm prod.split_asm journal_decision.split_asm
      dest: journal_begin_fence_at)

lemma dispatch_finish_fence_at: "dispatch_finish e t c m cx res j = (ans, j') \<Longrightarrow> fence_at j' a = fence_at j a"
  by (auto simp: dispatch_finish_def Let_def split: sum.split_asm if_split_asm dest!: journal_finish_Inr(4) intro!: fence_at_frame)

lemma host_step_fence_at: "fence_at (ag_journal s) a \<Longrightarrow> fence_at (ag_journal (snd (host_step e x s))) a"
  by (cases x) (auto simp: receive_def handle_def start_def stop_def close_def set_thread_def Let_def dispatch_finish_fence_at
      split: option.split thread_phase.split prod.split sum.split dispatch_answer.split dest: dispatch_request_fence_at(1))

lemma host_run_fence_at: "fence_at (ag_journal s) a \<Longrightarrow> fence_at (ag_journal (host_run e xs s)) a"
  by (induction xs arbitrary: s) (simp_all add: host_step_fence_at)

lemma host_step_handed:
  "fst (host_step e x s) = Served (Handed_out r d) \<Longrightarrow> hr_authority r = Task_lease_authority b \<Longrightarrow>
   fence_at (ag_journal (snd (host_step e x s))) b"
  by (cases x) (auto simp: receive_def handle_def start_def stop_def close_def set_thread_def Let_def
      split: option.split_asm thread_phase.split_asm prod.split_asm sum.split_asm dispatch_answer.split_asm if_split_asm
      dest: dispatch_request_fence_at(2))

text \<open>An effect starts only under the lease that the fence is at.\<close>

lemma assert_current_fence_token:
  "assert_authorized t r j = Inr u \<Longrightarrow> hr_authority r = Task_lease_authority b \<Longrightarrow>
   \<exists>f. find_fence (la_job b) j = Some f \<and> fe_token f = la_token b \<and> fe_lease f = la_lease b \<and> fe_worker f = la_worker b \<and> t < fe_expires f"
  by (auto simp: assert_authorized_def assert_current_fence_def split: option.split_asm if_split_asm)

lemma task_configuration_scoped: "task_configuration H r args = Inr (a, c) \<Longrightarrow> hr_authority r = Task_lease_authority a"
  by (auto simp: task_configuration_def task_authority_def split: host_authority.split_asm)

lemma host_step_effect:
  assumes "fst (host_step e x s) = Effect r"
  shows "\<exists>t b. assert_authorized t r (ag_journal s) = Inr () \<and> hr_authority r = Task_lease_authority b"
proof (cases x)
  case (Handle n t u)
  then show ?thesis using assms
    by (auto simp: handle_def Let_def starts_effect_def isInr_iff dest: task_configuration_scoped
        split: option.split_asm prod.split_asm if_split_asm sum.split_asm)
next
  case (Start n t)
  then show ?thesis using assms
    by (auto simp: start_def Let_def start_renewable_effect_def dest: task_configuration_scoped
        split: option.split_asm if_split_asm sum.split_asm)
qed (use assms in \<open>auto simp: receive_def stop_def close_def
  split: option.split_asm thread_phase.split_asm prod.split_asm dispatch_answer.split_asm if_split_asm\<close>)

lemma no_effect_behind:
  assumes "fence_at (ag_journal s) a" "Effect r \<in> set (host_trace e xs s)" "hr_authority r = Task_lease_authority b" "la_job b = la_job a"
  shows "la_token a < la_token b \<or> la_token a = la_token b \<and> la_lease a = la_lease b \<and> la_worker a = la_worker b"
  using assms(1,2)
proof (induction xs arbitrary: s)
  case (Cons x xs)
  show ?case
  proof (cases "fst (host_step e x s) = Effect r")
    case True
    then obtain t where "assert_authorized t r (ag_journal s) = Inr ()" using host_step_effect by blast
    then obtain f where "find_fence (la_job b) (ag_journal s) = Some f" "fe_token f = la_token b" "fe_lease f = la_lease b" "fe_worker f = la_worker b"
      using assert_current_fence_token [OF _ assms(3)] by blast
    then show ?thesis using Cons.prems(1) assms(4) by (auto simp: fence_at_def)
  next
    case False
    then show ?thesis using Cons host_step_fence_at [OF Cons.prems(1)] by auto
  qed
qed simp

end
