(* ===== verification/Host_Transport.thy ===== *)
theory Host_Transport
  imports Host_Agent Complex_Main
begin

text \<open>
  The socket between the control plane and the host agent: the frames and the connection of
  \<open>services/host-agent/.../server.py\<close>.  What a peer writes before it closes its side is a byte string.
  A call of \<open>send\<close> or \<open>recv\<close> is a pair of the reading of the monotonic clock before it and the number of
  bytes the kernel moves; a call that times out or fails is the end of the list of calls.
\<close>

datatype server_error = Invalid_frame_length | Deadline_exceeded | Connection_closed | Truncated_frame
  | Multiple_frames | Peer_rejected | Protocol_failed host_error

type_synonym socket_calls = "(int \<times> nat) list"

subsection \<open>Headers\<close>

definition pack_length :: "nat \<Rightarrow> string" where
  "pack_length n = map char_of [n div 2 ^ 24 mod 256, n div 2 ^ 16 mod 256, n div 2 ^ 8 mod 256, n mod 256]"

definition unpack_length :: "string \<Rightarrow> nat" where
  "unpack_length s = foldl (\<lambda>n c. n * 256 + char_code c) 0 s"

lemma unpack_pack: "n < 2 ^ 32 \<Longrightarrow> unpack_length (pack_length n) = n"
proof -
  assume n: "n < 2 ^ 32"
  have c: "char_code (char_of (i mod 256)) = i mod 256" for i :: nat by (simp add: char_code_def)
  have d: "n div 2 ^ 16 = n div 256 div 256" "n div 2 ^ 24 = n div 256 div 256 div 256" "n div 2 ^ 8 = n div 256"
    by (simp_all add: div_mult2_eq [symmetric])
  have e: "n div 256 div 256 div 256 mod 256 = n div 256 div 256 div 256" using n by (intro mod_less) (simp add: div_mult2_eq [symmetric])
  show ?thesis unfolding unpack_length_def pack_length_def list.map foldl.simps c d
    by (simp only: e mult_0 add_0 div_mult_mod_eq)
qed

lemma length_pack [simp]: "length (pack_length n) = 4"
  by (simp add: pack_length_def)

subsection \<open>Sending\<close>

definition remaining :: "int \<Rightarrow> int \<Rightarrow> server_error + unit" where
  "remaining deadline now = (if deadline - now \<le> 0 then Inl Deadline_exceeded else Inr ())"

fun send_loop :: "int \<Rightarrow> socket_calls \<Rightarrow> string \<Rightarrow> string \<Rightarrow> server_error + string" where
  "send_loop deadline calls [] sent = Inr sent"
| "send_loop deadline [] view sent = Inl Deadline_exceeded"
| "send_loop deadline ((now, k) # calls) view sent = bindE (remaining deadline now) (\<lambda>_.
     if k = 0 then Inl Connection_closed else send_loop deadline calls (drop k view) (sent @ take k view))"

definition send_frame :: "nat \<Rightarrow> int \<Rightarrow> socket_calls \<Rightarrow> string \<Rightarrow> server_error + string" where
  "send_frame maximum deadline calls payload =
     (if payload = [] \<or> maximum < length payload then Inl Invalid_frame_length
      else send_loop deadline calls (pack_length (length payload) @ payload) [])"

subsection \<open>Receiving\<close>

fun receive_exact ::
  "int \<Rightarrow> socket_calls \<Rightarrow> nat \<Rightarrow> string \<Rightarrow> string \<Rightarrow> server_error + string \<times> socket_calls \<times> string" where
  "receive_exact deadline [] n got stream = (if n \<le> length got then Inr (got, [], stream) else Inl Deadline_exceeded)"
| "receive_exact deadline ((now, k) # calls) n got stream =
     (if n \<le> length got then Inr (got, (now, k) # calls, stream)
      else bindE (remaining deadline now) (\<lambda>_. let chunk = take (min k (n - length got)) stream in
        if chunk = [] then Inl Truncated_frame
        else receive_exact deadline calls n (got @ chunk) (drop (length chunk) stream)))"

definition receive_frame ::
  "nat \<Rightarrow> int \<Rightarrow> socket_calls \<Rightarrow> string \<Rightarrow> server_error + string \<times> socket_calls \<times> string" where
  "receive_frame maximum deadline calls stream =
     bindE (receive_exact deadline calls 4 [] stream) (\<lambda>(header, calls1, stream1).
       let n = unpack_length header in
       if n = 0 \<or> maximum < n then Inl Invalid_frame_length else receive_exact deadline calls1 n [] stream1)"

definition require_write_eof :: "int \<Rightarrow> socket_calls \<Rightarrow> string \<Rightarrow> server_error + unit" where
  "require_write_eof deadline calls stream = (case calls of [] \<Rightarrow> Inl Deadline_exceeded
     | (now, k) # _ \<Rightarrow> bindE (remaining deadline now) (\<lambda>_. if stream \<noteq> [] then Inl Multiple_frames else Inr ()))"

subsection \<open>A connection\<close>

text \<open>The options of a \<open>HostSocketServer\<close>: floats as their finite values, \<open>None\<close> for the others.\<close>

definition timeout_within :: "rat \<Rightarrow> rat option \<Rightarrow> bool" where
  "timeout_within maximum t = (case t of None \<Rightarrow> False | Some x \<Rightarrow> 0 < x \<and> x \<le> maximum)"

definition server_options_ok :: "rat option \<Rightarrow> int \<Rightarrow> rat option \<Rightarrow> bool" where
  "server_options_ok io connections grace \<longleftrightarrow>
     timeout_within 30 io \<and> 0 < connections \<and> connections \<le> 8 \<and> timeout_within 5 grace"

definition protocol_step :: "host_error + 'a \<Rightarrow> server_error + 'a" where
  "protocol_step x = (case x of Inl y \<Rightarrow> Inl (Protocol_failed y) | Inr v \<Rightarrow> Inr v)"

text \<open>\<open>_serve_connection\<close> up to the dispatch and from its answer on; what it raises closes the connection.\<close>

definition connection_request :: "bool \<Rightarrow> nat \<Rightarrow> int \<Rightarrow> socket_calls \<Rightarrow> string \<Rightarrow> server_error + signed_request" where
  "connection_request same_user limit deadline calls stream =
     bindE (if same_user then Inr () else Inl Peer_rejected) (\<lambda>_.
     bindE (receive_frame max_host_request_bytes deadline calls stream) (\<lambda>(payload, calls1, stream1).
     bindE (require_write_eof deadline calls1 stream1) (\<lambda>_.
     protocol_step (decode_signed_host_request limit payload))))"

definition connection_response :: "int \<Rightarrow> socket_calls \<Rightarrow> host_error + signed_response \<Rightarrow> server_error + string" where
  "connection_response deadline calls answer =
     bindE (protocol_step answer) (\<lambda>response.
     bindE (protocol_step (encode_signed_host_response response)) (\<lambda>payload.
     send_frame max_host_response_bytes deadline calls payload))"

text \<open>\<open>HostSocketClient.exchange\<close>: the bytes that are sent, and the payload of the frame that comes back.\<close>

definition client_options_ok :: "string \<Rightarrow> rat option \<Rightarrow> rat option \<Rightarrow> bool" where
  "client_options_ok path io response \<longleftrightarrow> starts_with ''/'' path \<and> timeout_within 30 io \<and> timeout_within 30 response"

definition exchange_request :: "int \<Rightarrow> socket_calls \<Rightarrow> string \<Rightarrow> server_error + string" where
  "exchange_request deadline calls payload = send_frame max_host_request_bytes deadline calls payload"

definition exchange_response :: "int \<Rightarrow> socket_calls \<Rightarrow> string \<Rightarrow> server_error + string" where
  "exchange_response deadline calls stream =
     bindE (receive_frame max_host_response_bytes deadline calls stream) (\<lambda>(payload, _, _). Inr payload)"

subsection \<open>Frames survive every division into calls\<close>

lemma remaining_simps [simp]: "remaining d t = Inr u \<longleftrightarrow> t < d"
  by (auto simp: remaining_def)

lemma take_chunk: "take n s @ drop (length (take n s)) s = s"
  by (cases "n \<le> length s") simp_all

lemma send_loop_sends: "send_loop deadline calls view sent = Inr w \<Longrightarrow> w = sent @ view"
proof (induction deadline calls view sent rule: send_loop.induct)
  case (3 d t k calls c cs sent)
  then have "send_loop d calls (drop k (c # cs)) (sent @ take k (c # cs)) = Inr w" "k \<noteq> 0" "t < d"
    by (auto split: if_split_asm elim: bindE_InrE)
  then show ?case using 3(1) [of "()"] by simp
qed auto

lemma send_frame_wire:
  "send_frame maximum deadline calls payload = Inr wire \<Longrightarrow>
   wire = pack_length (length payload) @ payload \<and> payload \<noteq> [] \<and> length payload \<le> maximum"
  by (auto simp: send_frame_def dest: send_loop_sends split: if_split_asm)

lemma receive_exact_splits:
  "receive_exact deadline calls n got stream = Inr (value, calls1, stream1) \<Longrightarrow> length got \<le> n \<Longrightarrow>
   value @ stream1 = got @ stream \<and> length value = n"
proof (induction deadline calls n got stream rule: receive_exact.induct)
  case (2 d t k calls n got stream)
  show ?case
  proof (cases "n \<le> length got")
    case False
    let ?chunk = "take (min k (n - length got)) stream"
    have r: "?chunk \<noteq> []" "receive_exact d calls n (got @ ?chunk) (drop (length ?chunk) stream) = Inr (value, calls1, stream1)"
      using 2(2) False by (auto simp: Let_def split: if_split_asm elim!: bindE_InrE)
    have t: "remaining d t = Inr ()" using 2(2) False by (auto split: if_split_asm elim: bindE_InrE)
    have "length (got @ ?chunk) \<le> n" using False by simp
    from 2(1) [OF False t refl r(1,2) this] show ?thesis using take_chunk [of "min k (n - length got)" stream] by (metis append.assoc)
  qed (use 2 in auto)
qed (auto split: if_split_asm)

text \<open>What is received is what was sent, whatever the two sides' calls move at a time.\<close>

lemma header_delivered:
  assumes "send_frame maximum deadline calls payload = Inr wire" "maximum < 2 ^ 32"
    and "receive_exact deadline' calls' 4 [] (wire @ rest) = Inr (header, calls0, stream0)"
  shows "unpack_length header = length payload \<and> stream0 = payload @ rest \<and> payload \<noteq> [] \<and> length payload \<le> maximum"
proof -
  have w: "wire = pack_length (length payload) @ payload" "payload \<noteq> []" "length payload \<le> maximum" using send_frame_wire [OF assms(1)] by blast+
  have "header @ stream0 = wire @ rest" "length header = 4" using receive_exact_splits [OF assms(3)] by simp_all
  then have e: "header = pack_length (length payload)" "stream0 = payload @ rest" unfolding w(1) by (simp_all add: append_eq_append_conv)
  have "unpack_length header = length payload" unfolding e(1) using w(3) assms(2) by (intro unpack_pack) simp
  then show ?thesis using e(2) w by simp
qed

lemma payload_delivered:
  assumes "receive_exact deadline calls (length payload) [] (payload @ rest) = Inr (got, calls1, rest1)"
  shows "got = payload \<and> rest1 = rest"
proof -
  have "got @ rest1 = payload @ rest" "length got = length payload" using receive_exact_splits [OF assms] by simp_all
  then show ?thesis by (simp add: append_eq_append_conv)
qed

lemma frame_delivered:
  assumes "send_frame maximum deadline calls payload = Inr wire" "maximum < 2 ^ 32"
    and "receive_frame maximum' deadline' calls' (wire @ rest) = Inr (got, calls1, rest1)"
  shows "got = payload \<and> rest1 = rest"
proof -
  obtain header calls0 stream0 where h: "receive_exact deadline' calls' 4 [] (wire @ rest) = Inr (header, calls0, stream0)"
    and r: "receive_exact deadline' calls0 (unpack_length header) [] stream0 = Inr (got, calls1, rest1)"
    using assms(3) by (auto simp: receive_frame_def Let_def split: if_split_asm elim!: bindE_InrE)
  show ?thesis using r header_delivered [OF assms(1,2) h] payload_delivered by auto
qed

text \<open>Calls that are in time and move at least a byte each deliver the frame.\<close>

definition timely :: "int \<Rightarrow> socket_calls \<Rightarrow> bool" where
  "timely deadline calls \<longleftrightarrow> list_all (\<lambda>(t, k). t < deadline \<and> 0 < k) calls"

lemma send_loop_timely: "timely deadline calls \<Longrightarrow> length view \<le> length calls \<Longrightarrow> send_loop deadline calls view sent = Inr (sent @ view)"
proof (induction deadline calls view sent rule: send_loop.induct)
  case (3 d t k calls c cs sent)
  then have k: "t < d" "0 < k" "timely d calls" by (simp_all add: timely_def)
  have "length (drop k (c # cs)) \<le> length calls" using 3(3) k(2) by (cases k) auto
  then have "send_loop d calls (drop k (c # cs)) (sent @ take k (c # cs)) = Inr (sent @ take k (c # cs) @ drop k (c # cs))"
    using 3(1) [of "()"] k by simp
  then show ?case using k by (simp add: remaining_def)
qed auto

lemma receive_exact_timely:
  "timely deadline calls \<Longrightarrow> n \<le> length got + length stream \<Longrightarrow> n - length got \<le> length calls \<Longrightarrow> length got \<le> n \<Longrightarrow>
   \<exists>calls1. receive_exact deadline calls n got stream = Inr (take n (got @ stream), calls1, drop (n - length got) stream) \<and>
     timely deadline calls1 \<and> length calls \<le> length calls1 + (n - length got)"
proof (induction deadline calls n got stream rule: receive_exact.induct)
  case (2 d t k calls n got stream)
  show ?case
  proof (cases "n \<le> length got")
    case False
    let ?chunk = "take (min k (n - length got)) stream"
    have t: "t < d" "0 < k" "timely d calls" using 2(2) by (simp_all add: timely_def)
    have len: "length ?chunk = min k (n - length got)" using 2(3) by simp
    have ne: "?chunk \<noteq> []" using False t(2) 2(3) by auto
    have p: "n \<le> length (got @ ?chunk) + length (drop (length ?chunk) stream)" "n - length (got @ ?chunk) \<le> length calls"
      "length (got @ ?chunk) \<le> n" using 2(3,4) False t(2) by auto
    obtain calls1 where r: "receive_exact d calls n (got @ ?chunk) (drop (length ?chunk) stream) =
        Inr (take n ((got @ ?chunk) @ drop (length ?chunk) stream), calls1, drop (n - length (got @ ?chunk)) (drop (length ?chunk) stream))"
      "timely d calls1" "length calls \<le> length calls1 + (n - length (got @ ?chunk))"
      using 2(1) [OF False _ refl ne t(3) p] t(1) by (metis remaining_simps)
    have s: "(got @ ?chunk) @ drop (length ?chunk) stream = got @ stream" using take_chunk by (metis append.assoc)
    have d: "drop (n - length (got @ ?chunk)) (drop (length ?chunk) stream) = drop (n - length got) stream"
    proof -
      have "min k (n - length got) + (n - (length got + min k (n - length got))) = n - length got" by auto
      then show ?thesis using len by (simp add: drop_drop add.commute)
    qed
    have "length ((t, k) # calls) \<le> length calls1 + (n - length got)" using r(3) ne False len t(2) 2(3) by auto
    then show ?thesis using r False t(1) ne unfolding s d by (auto simp: remaining_def Let_def)
  qed (use 2 in \<open>auto simp: take_Cons'\<close>)
qed auto

end
