(* ===== verification/Host_Gateway.thy ===== *)
theory Host_Gateway
  imports Host_Transport Background_Jobs "HOL-Library.Log_Nat"
begin

text \<open>
  \<open>services/control-plane/.../host_gateway.py\<close>: the client of the host agent.  Timeouts are the finite
  values of Python floats, or \<open>None\<close> for the others; the times of the monotonic clock are in any unit.
\<close>

datatype gateway_error = INVALID_SOCKET_PATH | INVALID_TIMEOUT | INVALID_LEASE | INVALID_REQUEST_FRAME
  | INVALID_RESPONSE_FRAME | HOST_UNAVAILABLE | UNAUTHENTICATED_HOST_RESPONSE | HOST_RESPONSE_MISMATCH
  | HOST_AUTHENTICATION_UNAVAILABLE | Gateway_protocol host_error

subsection \<open>The client\<close>

record gateway =
  gw_path :: string
  gw_authenticator :: authenticator
  gw_connection :: rat
  gw_response :: rat
  gw_timeouts :: "(string \<times> rat) list"

definition validate_timeout :: "rat \<Rightarrow> rat option \<Rightarrow> gateway_error + rat" where
  "validate_timeout maximum t = (case t of None \<Rightarrow> Inl INVALID_TIMEOUT
     | Some x \<Rightarrow> if x \<le> 0 \<or> maximum < x then Inl INVALID_TIMEOUT else Inr x)"

definition default_response_timeouts :: "(string \<times> rat option) list" where
  "default_response_timeouts = [(''git.push'', Some 30), (''repository.preflight'', Some 30), (''validation.run'', Some 3720)]"

definition operation_timeout :: "string \<times> rat option \<Rightarrow> gateway_error + string \<times> rat" where
  "operation_timeout kv = (case kv of (name, t) \<Rightarrow>
     (case mk_operation name ''timeout-validation'' (JObj []) 1 of
        Inl _ \<Rightarrow> Inl INVALID_TIMEOUT
      | Inr _ \<Rightarrow> bindE (validate_timeout (if name = ''validation.run'' then 3720 else 30) t) (\<lambda>x. Inr (name, x))))"

fun operation_timeouts :: "(string \<times> rat option) list \<Rightarrow> gateway_error + (string \<times> rat) list" where
  "operation_timeouts [] = Inr []"
| "operation_timeouts (kv # kvs) =
     bindE (operation_timeout kv) (\<lambda>x. bindE (operation_timeouts kvs) (\<lambda>xs. Inr (x # xs)))"

definition mk_gateway :: "string \<Rightarrow> authenticator \<Rightarrow> rat option \<Rightarrow> rat option \<Rightarrow> (string \<times> rat option) list option \<Rightarrow>
    gateway_error + gateway" where
  "mk_gateway path au connection response timeouts =
     (if \<not> starts_with ''/'' path then Inl INVALID_SOCKET_PATH
      else bindE (validate_timeout 30 connection) (\<lambda>c.
        bindE (validate_timeout 30 response) (\<lambda>r.
        bindE (operation_timeouts (case timeouts of None \<Rightarrow> default_response_timeouts | Some kvs \<Rightarrow> kvs)) (\<lambda>kvs.
        Inr \<lparr>gw_path = path, gw_authenticator = au, gw_connection = c, gw_response = r, gw_timeouts = kvs\<rparr>))))"

text \<open>\<open>configured_local_host_gateway\<close>: the secret store gives the key, or fails.\<close>

definition configured_local_host_gateway :: "(secret_reference \<Rightarrow> string option) \<Rightarrow> secret_reference \<Rightarrow> string \<Rightarrow> string \<Rightarrow>
    rat option \<Rightarrow> rat option \<Rightarrow> (string \<times> rat option) list option \<Rightarrow> gateway_error + gateway" where
  "configured_local_host_gateway secrets key_ref key_id path connection response timeouts =
     (case secrets key_ref of None \<Rightarrow> Inl HOST_AUTHENTICATION_UNAVAILABLE
      | Some secret \<Rightarrow> (case mk_authenticator secret key_id of
            Inl _ \<Rightarrow> Inl HOST_AUTHENTICATION_UNAVAILABLE
          | Inr au \<Rightarrow> mk_gateway path au connection response timeouts))"

definition response_timeout :: "gateway \<Rightarrow> host_request \<Rightarrow> rat" where
  "response_timeout g r = (case map_of (gw_timeouts g) (ho_name (hr_operation r)) of None \<Rightarrow> gw_response g | Some t \<Rightarrow> t)"

subsection \<open>Frames\<close>

definition gateway_send :: "int \<Rightarrow> socket_calls \<Rightarrow> string \<Rightarrow> gateway_error + string" where
  "gateway_send deadline calls payload =
     (if payload = [] \<or> max_host_request_bytes < length payload then Inl INVALID_REQUEST_FRAME
      else (case send_loop deadline calls (pack_length (length payload) @ payload) [] of
          Inl _ \<Rightarrow> Inl HOST_UNAVAILABLE | Inr wire \<Rightarrow> Inr wire))"

definition gateway_exact ::
  "int \<Rightarrow> socket_calls \<Rightarrow> nat \<Rightarrow> string \<Rightarrow> gateway_error + string \<times> socket_calls \<times> string" where
  "gateway_exact deadline calls n stream = (case receive_exact deadline calls n [] stream of
     Inl _ \<Rightarrow> Inl HOST_UNAVAILABLE | Inr x \<Rightarrow> Inr x)"

definition gateway_frame :: "int \<Rightarrow> socket_calls \<Rightarrow> string \<Rightarrow> gateway_error + string \<times> socket_calls \<times> string" where
  "gateway_frame deadline calls stream =
     bindE (gateway_exact deadline calls 4 stream) (\<lambda>(header, calls1, stream1).
       let n = unpack_length header in
       if n = 0 \<or> max_host_response_bytes < n then Inl INVALID_RESPONSE_FRAME else gateway_exact deadline calls1 n stream1)"

text \<open>\<open>_exchange\<close> after the request is sent: the frame of the answer, and no byte after it at \<open>now\<close>.\<close>

definition gateway_exchange :: "int \<Rightarrow> socket_calls \<Rightarrow> int \<Rightarrow> string \<Rightarrow> gateway_error + string" where
  "gateway_exchange deadline calls now stream =
     bindE (gateway_frame deadline calls stream) (\<lambda>(payload, _, stream1).
       if deadline - now \<le> 0 then Inl HOST_UNAVAILABLE
       else if stream1 \<noteq> [] then Inl INVALID_RESPONSE_FRAME else Inr payload)"

subsection \<open>Requests and responses\<close>

definition gateway_error_of :: "host_error + 'a \<Rightarrow> gateway_error + 'a" where
  "gateway_error_of x = (case x of Inl y \<Rightarrow> Inl (Gateway_protocol y) | Inr v \<Rightarrow> Inr v)"

definition gateway_payload :: "(string \<Rightarrow> string) \<Rightarrow> gateway \<Rightarrow> host_request \<Rightarrow> gateway_error + string" where
  "gateway_payload H g r =
     gateway_error_of (bindE (sign_request H (gw_authenticator g) r) encode_signed_host_request)"

definition validate_execution_fence :: "host_request \<Rightarrow> host_response \<Rightarrow> gateway_error + unit" where
  "validate_execution_fence r s = (case hr_authority r of
     Task_lease_authority a \<Rightarrow>
       if hs_status s \<noteq> R_OK then
         (case hs_token s of None \<Rightarrow> Inr () | Some t \<Rightarrow> if la_token a < t then Inl HOST_RESPONSE_MISMATCH else Inr ())
       else (case hs_token s of None \<Rightarrow> Inl HOST_RESPONSE_MISMATCH
         | Some t \<Rightarrow> if la_token a < t then Inl HOST_RESPONSE_MISMATCH
             else if \<not> hs_replayed s \<and> t \<noteq> la_token a then Inl HOST_RESPONSE_MISMATCH else Inr ())
   | _ \<Rightarrow> if hs_token s \<noteq> None then Inl HOST_RESPONSE_MISMATCH else Inr ())"

definition gateway_accept :: "(string \<Rightarrow> string) \<Rightarrow> nat \<Rightarrow> gateway \<Rightarrow> host_request \<Rightarrow> string \<Rightarrow> gateway_error + host_response" where
  "gateway_accept H limit g r payload =
     (case bindE (decode_signed_host_response limit payload) (verify_response H (gw_authenticator g)) of
        Inl _ \<Rightarrow> Inl UNAUTHENTICATED_HOST_RESPONSE
      | Inr s \<Rightarrow>
          if hs_request s \<noteq> hr_id r \<or> hs_operation s \<noteq> ho_name (hr_operation r) \<or> hs_key s \<noteq> ho_key (hr_operation r)
          then Inl HOST_RESPONSE_MISMATCH
          else bindE (validate_execution_fence r s) (\<lambda>_. Inr s))"

text \<open>\<open>execute\<close>: the bytes it sends, and what it makes of the bytes that come back.\<close>

definition gateway_request ::
  "(string \<Rightarrow> string) \<Rightarrow> gateway \<Rightarrow> host_request \<Rightarrow> int \<Rightarrow> socket_calls \<Rightarrow> gateway_error + string" where
  "gateway_request H g r deadline calls = bindE (gateway_payload H g r) (gateway_send deadline calls)"

definition gateway_response :: "(string \<Rightarrow> string) \<Rightarrow> nat \<Rightarrow> gateway \<Rightarrow> host_request \<Rightarrow> int \<Rightarrow> socket_calls \<Rightarrow> int \<Rightarrow> string \<Rightarrow>
    gateway_error + host_response" where
  "gateway_response H limit g r deadline calls now stream =
     bindE (gateway_exchange deadline calls now stream) (gateway_accept H limit g r)"

subsection \<open>The authority of a job lease\<close>

text \<open>\<open>int(value.timestamp() * 1_000)\<close> of a number of microseconds: the quotient and the product are
  rounded to 53 bits, half to even, as the floats of Python are.  A float is a mantissa and an exponent.\<close>

definition round_even :: "nat \<Rightarrow> nat \<Rightarrow> nat" where
  "round_even a b = (let q = a div b; r = a mod b in if 2 * r < b \<or> 2 * r = b \<and> even q then q else Suc q)"

definition scaled :: "nat \<Rightarrow> nat \<Rightarrow> int \<Rightarrow> nat \<times> nat" where
  "scaled a b s = (if 0 \<le> s then (a * 2 ^ nat s, b) else (a, b * 2 ^ nat (- s)))"

definition float_quotient :: "nat \<Rightarrow> nat \<Rightarrow> nat \<times> int" where
  "float_quotient a b = (if a = 0 then (0, 0) else
     let s = 53 + int (floorlog 2 b) - int (floorlog 2 a);
         s' = (case scaled a b s of (n, d) \<Rightarrow> if 2 ^ 53 * d \<le> n then s - 1 else s)
     in (case scaled a b s' of (n, d) \<Rightarrow> (round_even n d, - s')))"

definition float_times :: "nat \<times> int \<Rightarrow> nat \<Rightarrow> nat \<times> int" where
  "float_times f k = (case f of (m, e) \<Rightarrow> (case scaled (m * k) 1 e of (n, d) \<Rightarrow> float_quotient n d))"

definition float_floor :: "nat \<times> int \<Rightarrow> nat" where
  "float_floor f = (case f of (m, e) \<Rightarrow> (case scaled m 1 e of (n, d) \<Rightarrow> n div d))"

definition datetime_milliseconds :: "instant \<Rightarrow> int" where
  "datetime_milliseconds us =
     (let ms = int (float_floor (float_times (float_quotient (nat \<bar>us\<bar>) 1000000) 1000)) in if us < 0 then - ms else ms)"

definition authority_for_job_lease ::
  "(string \<Rightarrow> string) \<Rightarrow> bool \<Rightarrow> grant \<Rightarrow> repository_configuration \<Rightarrow> gateway_error + host_authority" where
  "authority_for_job_lease H aware g c =
     (if \<not> aware then Inl INVALID_LEASE
      else gateway_error_of (mk_lease_authority \<lparr>la_task = gr_task g, la_job = gr_job g, la_lease = gr_lease g,
        la_worker = gr_worker g, la_attempt = gr_attempt g, la_token = gr_token g,
        la_expires_ms = datetime_milliseconds (gr_expires g), la_repository = rc_key c, la_configuration = rc_id c,
        la_digest = configuration_digest H c\<rparr>))"

end
