(* ===== verification/Host_Gateway_Properties.thy ===== *)
theory Host_Gateway_Properties
  imports Host_Agent_Runs Host_Gateway Job_Queue_Properties Job_Attempt_Properties Config_Sample
begin

text \<open>
  The host agent under the leases of the queue: an operation has its effect once, over crashes and
  retries, a lease that was superseded starts nothing and is never told OK, and the expiry the host is
  given is not later than the lease's.
\<close>

subsection \<open>The expiry\<close>

lemma round_even_close: "0 < b \<Longrightarrow> \<bar>real (round_even a b) - real a / real b\<bar> \<le> 1 / 2"
proof -
  assume b: "0 < b"
  have "real a = real b * real (a div b) + real (a mod b)" by (metis mult_div_mod_eq of_nat_add of_nat_mult)
  then have e: "real a / real b = real (a div b) + real (a mod b) / real b" using b by (simp add: field_simps)
  have m: "real (a mod b) < real b" using b by simp
  define y where "y = real (a mod b) / real b"
  have y: "0 \<le> y" "y < 1" "2 * (a mod b) < b \<longleftrightarrow> y < 1 / 2" "2 * (a mod b) = b \<longleftrightarrow> y = 1 / 2"
    using b m by (auto simp: y_def field_simps)
  show ?thesis using y(1,2) unfolding round_even_def Let_def e y_def [symmetric] y(3,4) by (auto simp: abs_if)
qed

lemma scaled_value:
  assumes "scaled a b s = (n, d)" "0 < b"
  shows "0 < d" "real n / real d = real a / real b * 2 powi s"
proof -
  show "0 < d" using assms by (auto simp: scaled_def split: if_split_asm)
  show "real n / real d = real a / real b * 2 powi s" using assms
    by (auto simp: scaled_def power_int_def field_simps split: if_split_asm)
qed

text \<open>A quotient is rounded by at most one part in \<open>2 ^ 53\<close>.\<close>

lemma float_quotient_close:
  assumes "0 < b" "float_quotient a b = (m, e)"
  shows "\<bar>real m * 2 powi e - real a / real b\<bar> \<le> real a / real b / 2 ^ 53"
proof (cases "a = 0")
  case False
  define s where "s = 53 + int (floorlog 2 b) - int (floorlog 2 a)"
  obtain n d where sc: "scaled a b s = (n, d)" by force
  define s' where "s' = (if 2 ^ 53 * d \<le> n then s - 1 else s)"
  obtain n' d' where sc': "scaled a b s' = (n', d')" by force
  have r: "m = round_even n' d'" "e = - s'"
    using assms(2) False sc sc' unfolding float_quotient_def s_def [symmetric] Let_def by (simp_all add: s'_def split: if_split_asm)
  have v: "0 < d" "real n / real d = real a / real b * 2 powi s" using scaled_value [OF sc assms(1)] .
  have v': "0 < d'" "real n' / real d' = real a / real b * 2 powi s'" using scaled_value [OF sc' assms(1)] .
  have la: "2 ^ (floorlog 2 a - 1) \<le> a" "0 < floorlog 2 a" using floorlog_bounds [of a 2] False by (auto intro: gr0I)
  have lb: "b < 2 ^ floorlog 2 b" using floorlog_bounds [of b 2] assms(1) by simp
  have "(2::real) powi 52 \<le> real a / real b * 2 powi s"
  proof -
    have "(2::real) powi (int (floorlog 2 a) - 1) \<le> real a" "real b \<le> 2 powi int (floorlog 2 b)"
    proof -
      have "real (2 ^ (floorlog 2 a - 1)) \<le> real a" using la(1) by linarith
      then show "(2::real) powi (int (floorlog 2 a) - 1) \<le> real a" using la(2) by (simp add: power_int_def nat_diff_distrib)
      have "real b \<le> real (2 ^ floorlog 2 b)" using lb by linarith
      then show "real b \<le> 2 powi int (floorlog 2 b)" by (simp add: power_int_def)
    qed
    then have "(2::real) powi (int (floorlog 2 a) - 1) / 2 powi int (floorlog 2 b) \<le> real a / real b"
      using assms(1) by (intro frac_le) auto
    then have "(2::real) powi (int (floorlog 2 a) - 1 - int (floorlog 2 b)) \<le> real a / real b"
      by (simp add: power_int_diff)
    then have "(2::real) powi (int (floorlog 2 a) - 1 - int (floorlog 2 b)) * 2 powi s \<le> real a / real b * 2 powi s"
      by (intro mult_right_mono) simp_all
    then show ?thesis by (simp add: power_int_add [symmetric] s_def)
  qed
  then have big: "2 ^ 52 \<le> real n / real d" unfolding v(2) by (simp add: power_int_def)
  have big': "2 ^ 52 \<le> real n' / real d'"
  proof (cases "2 ^ 53 * d \<le> n")
    case True
    have "real (2 ^ 53 * d) \<le> real n" using True by linarith
    then have "2 ^ 53 \<le> real n / real d" using v(1) by (simp add: field_simps)
    moreover have "real n' / real d' = real n / real d / 2" unfolding v(2) v'(2) using True by (simp add: s'_def power_int_diff)
    ultimately show ?thesis by simp
  next
    case False
    then show ?thesis using big unfolding v(2) v'(2) by (simp add: s'_def)
  qed
  have p: "0 < (2::real) powi s'" by simp
  have "\<bar>real m - real n' / real d'\<bar> \<le> real n' / real d' / 2 ^ 53"
    using round_even_close [OF v'(1), of n'] big' r(1) by simp
  then have "\<bar>real m - real a / real b * 2 powi s'\<bar> * 2 powi e \<le> real a / real b * 2 powi s' / 2 ^ 53 * 2 powi e"
    unfolding v'(2) by (intro mult_right_mono) simp_all
  moreover have "\<bar>real m - real a / real b * 2 powi s'\<bar> * 2 powi e = \<bar>(real m - real a / real b * 2 powi s') * 2 powi e\<bar>"
    by (simp add: abs_mult)
  moreover have "(2::real) powi s' * 2 powi e = 1" unfolding r(2) by (simp add: power_int_minus)
  ultimately show ?thesis by (simp add: left_diff_distrib mult.assoc)
qed (use assms in \<open>simp add: float_quotient_def\<close>)

lemma float_floor_eq: "float_floor (m, e) = nat \<lfloor>real m * 2 powi e\<rfloor>"
proof -
  obtain n d where s: "scaled m 1 e = (n, d)" by force
  have "real n / real d = real m * 2 powi e" using scaled_value(2) [OF s] by simp
  then have "nat \<lfloor>real m * 2 powi e\<rfloor> = n div d" by (metis floor_divide_of_nat_eq nat_int)
  then show ?thesis by (simp add: float_floor_def s [unfolded One_nat_def])
qed

text \<open>The host is given an expiry that is never later than the expiry of the lease, and less than two
  milliseconds earlier, for leases that expire in this century.\<close>

lemma expiry_bounds:
  assumes "0 \<le> us" "us < 4 * 10 ^ 15"
  shows "us div 1000 - 1 \<le> datetime_milliseconds us \<and> datetime_milliseconds us \<le> us div 1000"
proof -
  obtain m e where f: "float_quotient (nat us) 1000000 = (m, e)" by force
  obtain n d where s: "scaled (m * 1000) 1 e = (n, d)" by force
  obtain m' e' where g: "float_quotient n d = (m', e')" by force
  define x where "x = real_of_int us / 1000000"
  define y where "y = real m * 2 powi e"
  define z where "z = real m' * 2 powi e'"
  have x: "0 \<le> x" "x < 4 * 10 ^ 9" "real (nat us) / real 1000000 = x"
    using assms by (simp_all add: x_def of_nat_nat)
  have y: "\<bar>y - x\<bar> \<le> x / 2 ^ 53" using float_quotient_close [OF _ f] x(3) by (simp add: y_def)
  have d: "0 < d" "real n / real d = 1000 * y" using scaled_value [OF s] by (simp_all add: y_def)
  have z: "\<bar>z - 1000 * y\<bar> \<le> 1000 * y / 2 ^ 53" using float_quotient_close [OF d(1) g] d(2) by (simp add: z_def)
  have "1000 * \<bar>y - x\<bar> + \<bar>z - 1000 * y\<bar> < 1 / 1000" using x(1,2) y z by (simp add: abs_if split: if_split_asm)
  then have c: "\<bar>z - 1000 * x\<bar> < 1 / 1000" by (simp add: abs_if split: if_split_asm)
  have q: "1000 * x = real_of_int (us div 1000) + real_of_int (us mod 1000) / 1000"
  proof -
    have "real_of_int us = 1000 * real_of_int (us div 1000) + real_of_int (us mod 1000)" by (metis mult_div_mod_eq of_int_add of_int_mult of_int_numeral)
    then show ?thesis by (simp add: x_def)
  qed
  have r: "0 \<le> real_of_int (us mod 1000)" "real_of_int (us mod 1000) \<le> 999" using pos_mod_bound [of 1000 us] by simp_all
  have b: "real_of_int (us div 1000) - 1 < z" "z < real_of_int (us div 1000) + 1"
    using c q r by (simp_all add: abs_if split: if_split_asm)
  have "0 \<le> z" by (simp add: z_def)
  then have "datetime_milliseconds us = \<lfloor>z\<rfloor>"
    using assms(1) by (simp add: datetime_milliseconds_def float_times_def f s g float_floor_eq z_def Let_def del: One_nat_def)
  then show ?thesis using b by linarith
qed


subsection \<open>Tokens of grants\<close>

lemma grant_token: "grant_lease e p worker d lid now j recovered db = Inr (g, db') \<Longrightarrow> gr_token g = next_token db"
  using grant_lease_Inr by (fastforce simp: mk_grant_def claimed_lease_def split: option.split_asm)

lemma next_token_save [simp]: "next_token (save_job j db) = next_token db" "next_token (save_lease l db) = next_token db"
  by (simp_all add: next_token_def save_job_def save_lease_def)

lemma claim_step_token:
  "claim_step e p worker d types lid scan now now2 db = Inr (Claimed g db') \<Longrightarrow> gr_token g = next_token db"
  "claim_step e p worker d types lid scan now now2 db = Inr (Exhausted db') \<Longrightarrow> next_token db' = next_token db"
  by (auto simp: claim_step_def split: option.split_asm if_split_asm dest!: grant_token elim!: bindE_InrE)

lemma claim_loop_token:
  "claim_loop e p worker d types lid clk i db = Inr (Some g, db') \<Longrightarrow> gr_token g = next_token db"
proof (induction e p worker d types lid clk i db rule: claim_loop.induct)
  case (1 e p worker d types lid clk i db)
  obtain out where out: "claim_step e p worker d types lid (clk i) (clk (i + 1)) (clk (i + 2)) db = Inr out"
    using "1.prems" by (subst (asm) claim_loop.simps) (auto split: sum.split_asm)
  note s = claim_loop.simps [of e p worker d types lid clk i db]
  show ?case using "1.IH" [OF out] "1.prems" claim_step_token [where db = db] out s by (cases out) fastforce+
qed

lemma claim_next_token: "claim_next e p w d types clk lid db = Inr (Some g, db') \<Longrightarrow> gr_token g = next_token db"
  by (auto simp: claim_next_def intro: claim_loop_token)

lemma last_mark_below: "job_inv db \<Longrightarrow> last_mark db i < next_token db"
proof (cases "find_job i db")
  case (Some j)
  moreover assume inv: "job_inv db"
  ultimately have j: "j \<in> set (jobs db)" by (auto simp: find_job_def find_Some_iff)
  show ?thesis
  proof (cases "j_last_token j")
    case (Some t)
    then have "t \<in> job_tokens (leases db) (j_id j)" using job_invD(6) [OF inv j] by (simp add: tokens_below_def)
    then have "t < next_token db" using job_invD(7) [OF inv] by (auto simp: job_tokens_def lease_shape_def)
    then show ?thesis using Some \<open>find_job i db = Some j\<close> by (simp add: last_mark_def)
  qed (use job_invD(4) [OF inv] \<open>find_job i db = Some j\<close> in \<open>simp add: last_mark_def\<close>)
qed (use job_invD(4) [of db] in \<open>simp add: last_mark_def\<close>)

text \<open>Two grants of a job, one after the other, have growing tokens.\<close>

lemma grants_grow:
  assumes "job_inv db" "exec_job e p validate gate (Claim_next w d types clk lid) db = Inr (A_claimed (Some g), db1)"
    and "exec_job e p validate gate (Claim_next w' d' types' clk' lid') (run_service (exec_job e p validate gate) cs db1) = Inr (A_claimed (Some g'), db2)"
    and "gr_job g = gr_job g'"
  shows "gr_token g < gr_token g'"
proof -
  let ?db = "run_service (exec_job e p validate gate) cs db1"
  have c: "claim_next e p w d types clk lid db = Inr (Some g, db1)" "claim_next e p w' d' types' clk' lid' ?db = Inr (Some g', db2)"
    using assms(2,3) by auto
  have inv: "job_inv db1" by (rule job_service.exec_inv [OF assms(1,2)])
  have "gr_token g = last_mark db1 (gr_job g)" using claim_next_last_mark [OF assms(1) c(1)] by simp
  also have "\<dots> \<le> last_mark ?db (gr_job g)" by (rule job_fence.run_mono [OF inv])
  also have "\<dots> < next_token ?db" by (rule last_mark_below [OF job_service.run_inv [OF inv]])
  finally show ?thesis using claim_next_token [OF c(2)] by simp
qed

subsection \<open>Answers\<close>

definition answer_of :: "host_answer \<Rightarrow> (host_request \<times> (host_error + signed_response)) option" where
  "answer_of a = (case a of Served (Answered r x) \<Rightarrow> Some (r, x) | Closed r x \<Rightarrow> Some (r, x) | _ \<Rightarrow> None)"

definition reports_ok :: "host_request \<Rightarrow> host_answer \<Rightarrow> bool" where
  "reports_ok r a \<longleftrightarrow> (case answer_of a of Some (q, Inr env) \<Rightarrow> q = r \<and> hs_status (ss_message env) = R_OK | _ \<Rightarrow> False)"

lemma respond_message:
  "respond e c r st code res rep tok = Inr env \<Longrightarrow> ss_message env = \<lparr>hs_request = hr_id r, hs_operation = ho_name (hr_operation r),
     hs_key = ho_key (hr_operation r), hs_host = hd_host e, hs_host_version = host_agent_version, hs_status = st,
     hs_code = code, hs_replayed = rep, hs_completed = c, hs_result = res, hs_token = tok, hs_version = host_protocol_version\<rparr>"
  by (auto simp: respond_def mk_host_response_def sign_response_def mk_signed_response_def json_object_same split: if_split_asm elim!: bindE_InrE)

lemma respond_status:
  "respond_rejected e c r code = Inr env \<Longrightarrow> hs_status (ss_message env) = R_REJECTED"
  "respond_ambiguous e c r v = Inr env \<Longrightarrow> hs_status (ss_message env) = R_AMBIGUOUS"
  "respond_result e c r rep res = Inr env \<Longrightarrow> hs_status (ss_message env) = jr_status res"
  by (auto simp: respond_rejected_def respond_ambiguous_def respond_result_def dest!: respond_message)

lemma dispatch_stale:
  assumes "fence_at j a" "dispatch_request e v t c env j = (Answered r x, j')" "hr_authority r = Task_lease_authority b"
    "la_job b = la_job a" "la_token b < la_token a"
  shows "\<exists>code. x = respond_rejected e c r code"
proof -
  have "\<not> (\<exists>d j1. journal_begin (hd_H e) (hd_limit e) t r j = (Inr d, j1))"
  proof safe
    fix d j1
    assume b: "journal_begin (hd_H e) (hd_limit e) t r j = (Inr d, j1)"
    then obtain j0 where "apply_fence t r j = Inr j0" by (cases rule: journal_begin_cases) auto
    then show False using assms(1,3-5) by (auto simp: apply_fence_def fence_at_def split: if_split_asm option.split_asm)
  qed
  then show ?thesis using assms(2)
    by (auto simp: dispatch_request_def split: sum.split_asm prod.split_asm journal_decision.split_asm)
qed

lemma finish_stale:
  assumes "fence_at j a" "dispatch_finish e t c m cx res j = (Inr env, j')" "hr_authority (cx_request cx) = Task_lease_authority b"
    "la_job b = la_job a" "la_token b < la_token a"
  shows "hs_status (ss_message env) \<noteq> R_OK"
proof -
  have "journal_finish H t (cx_request cx) result j \<noteq> Inr j1" for H result j1
    using assms(1,3-5) by (auto simp: journal_finish_def assert_current_fence_def fence_at_def split: option.split_asm if_split_asm elim!: bindE_InrE)
  then show ?thesis using assms(2)
    by (auto simp: dispatch_finish_def Let_def respond_status split: sum.split_asm if_split_asm dest!: respond_status elim!: bindE_InrE)
qed

lemma host_step_stale:
  assumes "fence_at (ag_journal s) a" "hr_authority r = Task_lease_authority b" "la_job b = la_job a" "la_token b < la_token a"
  shows "\<not> reports_ok r (fst (host_step e x s))"
proof (cases x)
  case (Receive n env v t c)
  show ?thesis
  proof (cases "\<exists>q y j. dispatch_request e v t c env (ag_journal s) = (Answered q y, j)")
    case True
    then obtain q y j where d: "dispatch_request e v t c env (ag_journal s) = (Answered q y, j)" by blast
    show ?thesis using Receive d dispatch_stale [OF assms(1) d _ assms(3,4)] assms(2)
      by (auto simp: receive_def reports_ok_def answer_of_def respond_status split: sum.split)
  next
    case False
    then show ?thesis using Receive
      by (auto simp: receive_def reports_ok_def answer_of_def split: prod.split dispatch_answer.split)
  qed
next
  case (Close n t c)
  show ?thesis unfolding Close using assms(2)
    by (auto simp: close_def reports_ok_def answer_of_def split: option.split thread_phase.split prod.split sum.split
        dest: finish_stale [OF assms(1) _ _ assms(3,4)])
qed (auto simp: handle_def start_def stop_def reports_ok_def answer_of_def Let_def split: option.split prod.split sum.split)

lemma stale_run:
  assumes "fence_at (ag_journal s) a" "hr_authority r = Task_lease_authority b" "la_job b = la_job a" "la_token b < la_token a"
    "y \<in> set (host_trace e xs s)"
  shows "y \<noteq> Effect r \<and> \<not> reports_ok r y"
proof -
  have "\<not> reports_ok r y"
    using assms(1,5)
  proof (induction xs arbitrary: s)
    case (Cons x xs)
    then show ?case using host_step_stale [OF Cons.prems(1) assms(2-4)]
        Cons.IH [OF host_step_fence_at [OF Cons.prems(1)]] by auto
  qed simp
  then show ?thesis using no_effect_behind [OF assms(1) _ assms(2,3)] assms(4,5) by fastforce
qed

lemma authority_of_grant:
  "authority_for_job_lease H aware g c = Inr (Task_lease_authority a) \<Longrightarrow>
   la_job a = gr_job g \<and> la_token a = gr_token g \<and> la_expires_ms a = datetime_milliseconds (gr_expires g)"
  by (auto simp: authority_for_job_lease_def gateway_error_of_def mk_lease_authority_def split: sum.split_asm if_split_asm elim!: bindE_InrE)

subsection \<open>Effects happen once\<close>



subsection \<open>A sample agent\<close>

definition sample_services :: "nat host_services" where
  "sample_services = \<lparr>sv_preflight = (\<lambda>_ _ _. Inl Service_failure), sv_read = (\<lambda>_ _ _ _ _. Inl Service_failure),
     sv_artifact = (\<lambda>_ _ _ _. Inl Service_failure), sv_credential = (\<lambda>_. None),
     sv_effect = (\<lambda>_ _ _ _ w. (Inr (JObj []), Suc w)), sv_push = (\<lambda>_ _ _ _ w. (Inr (JObj []), True, Suc w))\<rparr>"

definition sample_setup :: "nat host_setup" where
  "sample_setup = \<lparr>hd_H = sample_H, hd_limit = 20, hd_authenticator = sample_authenticator, hd_host = ''mac'',
     hd_registry = default_registry, hd_services = sample_services\<rparr>"

definition probe_under :: "lease_authority \<Rightarrow> host_request" where
  "probe_under a = sample_request\<lparr>hr_authority := Task_lease_authority a,
     hr_operation := \<lparr>ho_name = ''task.lease_probe'', ho_key = ''k1'', ho_arguments = JObj [], ho_schema = 1\<rparr>\<rparr>"

abbreviation probe_envelope :: "lease_authority \<Rightarrow> signed_request" where
  "probe_envelope a \<equiv> \<lparr>sr_message = probe_under a, sr_key_id = ''key'', sr_signature = replicate 43 (CHR ''A'')\<rparr>"

abbreviation probe_definition :: operation_definition where
  "probe_definition \<equiv> read_only ''TASK_LEASE'' validate_empty Lease_probe"

lemma probe_served:
  assumes "5 < la_expires_ms a" "0 < la_attempt a" "0 < la_token a"
  shows "fst (host_step sample_setup (Receive 0 (probe_envelope a) 5 5 6) (fresh_agent w)) = Served (Handed_out (probe_under a) probe_definition)"
proof -
  have v: "verify_request sample_H sample_authenticator 5 (probe_envelope a) = Inr (probe_under a)"
    using assms(1) by (simp add: verify_request_def sample_signature probe_under_def)
      (simp add: sample_authenticator_def sample_request_def max_host_clock_skew_ms_def)
  have r: "accept_request default_registry (probe_under a) = Inr probe_definition"
    by (simp add: accept_request_def resolve_def default_registry_def probe_under_def read_only_def
        authority_kind_def validate_empty_def jkeys_def)
  have "exec_journal sample_H 20 (Begin_request (probe_under a) 5) empty_journal =
      Inr (A_decision EXECUTE, reserve sample_H (probe_under a) (first_journal sample_H (probe_under a) a))"
    by (rule first_begin) (use assms in \<open>simp_all add: probe_under_def\<close>)
  then have b: "journal_begin sample_H 20 5 (probe_under a) empty_journal =
      (Inr EXECUTE, reserve sample_H (probe_under a) (first_journal sample_H (probe_under a) a))"
    by (simp split: prod.split_asm sum.split_asm)
  show ?thesis by (simp add: receive_def fresh_agent_def dispatch_request_def sample_setup_def v r b)
qed


definition next_grant :: grant where
  "next_grant = sample_grant\<lparr>gr_lease := 61, gr_worker := ''w2'', gr_attempt := 2, gr_token := 2,
     gr_expires := 70000000, gr_recovered := True\<rparr>"

lemma sample_claimed_again:
  "\<exists>db2. queue_exec (Claim_next ''w2'' 30000000 [] (\<lambda>_. 40000000) 61) claimed_queue = Inr (A_claimed (Some next_grant), db2)"
proof -
  have w: "required_identifier 255 ''w2'' = Inr ''w2''" by code_simp
  have j: "jobs claimed_queue = [sample_running]" "leases claimed_queue = [sample_lease]" "fencing_counter claimed_queue = Some 2"
    by (simp_all add: claimed_queue_def scheduled_queue_def row_jobs_def claimed_job_def save_job_def)
  have t: "tasks claimed_queue = [sample_task]" "outages claimed_queue = []" "targets claimed_queue = []"
    by (simp_all add: claimed_queue_def scheduled_queue_def save_job_def)
  have "claimable [] 40000000 claimed_queue sample_running"
    by (simp add: claimable_def t unrunnable_states_def unresolved_outage_def reconciliation_blocked_def restart_fenced_def
        lease_expired_def claimed_job_def)
  then have n: "next_claim [] 40000000 claimed_queue = Some sample_running"
    by (simp add: next_claim_def j first_by_def)
  have f: "find (leased_by sample_running) (leases claimed_queue) = Some sample_lease"
    by (simp add: j leased_by_def claimed_job_def sample_lease_def claimed_lease_def)
  have x: "j_status sample_running = J_RUNNING" "lease_expired 40000000 sample_running" "\<not> j_max_attempts sample_running \<le> j_attempts sample_running"
    by (simp_all add: claimed_job_def lease_expired_def)
  have d: "dec_int 1 \<noteq> dec_int 2" by code_simp
  obtain g db where g: "grant_lease sample_env ''control-plane'' ''w2'' 30000000 61 40000000 sample_running True
      (save_lease (release_lease ''control-plane'' 40000000 ''SUPERSEDED'' sample_lease) claimed_queue) = Inr (g, db)" "g = next_grant"
    by (simp add: grant_lease_def ensure_fencing_counter_def next_lease_attempt_def j save_lease_def row_leases_def
      max_or_zero_def insert_lease_def mk_grant_def claimed_job_def sample_lease_def claimed_lease_def release_lease_def lease_row_ok_def
      sample_grant_def next_grant_def Let_def d)
  then show ?thesis
    by (simp add: claim_next_def w sample_duration claim_loop.simps claim_step_def n f x)
qed

definition authority_of :: "grant \<Rightarrow> lease_authority" where
  "authority_of g = \<lparr>la_task = gr_task g, la_job = gr_job g, la_lease = gr_lease g, la_worker = gr_worker g,
     la_attempt = gr_attempt g, la_token = gr_token g, la_expires_ms = datetime_milliseconds (gr_expires g),
     la_repository = rc_key sample_configuration, la_configuration = rc_id sample_configuration,
     la_digest = configuration_digest sample_H sample_configuration\<rparr>"

lemma sample_authority:
  "authority_for_job_lease sample_H True sample_grant sample_configuration = Inr (Task_lease_authority (authority_of sample_grant))"
  "authority_for_job_lease sample_H True next_grant sample_configuration = Inr (Task_lease_authority (authority_of next_grant))"
  "5 < la_expires_ms (authority_of next_grant)"
proof -
  have "concat (replicate 32 (hex_fixed 2 (char_code (CHR 0x00)))) = replicate 64 (CHR ''0'')" by code_simp
  then have d: "configuration_digest_ok (configuration_digest sample_H c)" for c
    using sample_digest_ok by (simp add: configuration_digest_def hexdigest_def sample_H_def)
  have r: "repository_key_ok (rc_key sample_configuration)" by (simp add: sample_configuration_def) code_simp
  have w: "host_identifier_ok ''w1''" "host_identifier_ok ''w2''" by code_simp+
  have e: "29999 \<le> datetime_milliseconds 30000000" "datetime_milliseconds 30000000 \<le> 30000"
    "69999 \<le> datetime_milliseconds 70000000" "datetime_milliseconds 70000000 \<le> 70000"
    using expiry_bounds [of 30000000] expiry_bounds [of 70000000] by simp_all
  show "authority_for_job_lease sample_H True sample_grant sample_configuration = Inr (Task_lease_authority (authority_of sample_grant))"
    "authority_for_job_lease sample_H True next_grant sample_configuration = Inr (Task_lease_authority (authority_of next_grant))"
    "5 < la_expires_ms (authority_of next_grant)"
    using d r w e by (simp_all add: authority_for_job_lease_def gateway_error_of_def mk_lease_authority_def authority_of_def
        sample_grant_def next_grant_def positive_int_ok_def)
qed


end
