(* ===== verification/Host_Delivery.thy ===== *)
theory Host_Delivery
  imports Host_Gateway_Properties
begin

text \<open>
  Every answer of the agent is one the gateway accepts: it names the request, and the fencing token it
  carries is not ahead of the lease the request came under.
\<close>

subsection \<open>Tokens in the journal\<close>

definition rows_fenced :: "journal \<Rightarrow> bool" where
  "rows_fenced j \<longleftrightarrow> (\<forall>x \<in> set (operations j). \<forall>t u. op_token x = Some t \<longrightarrow> op_scope x = ''job:'' @ uuid_str u \<longrightarrow> t \<le> fence_token j u)"

definition delivery_fenced :: "(string \<Rightarrow> string) \<Rightarrow> host_request set \<Rightarrow> delivery_row \<Rightarrow> bool" where
  "delivery_fenced H R d \<longleftrightarrow> (\<forall>t. de_token d = Some t \<longrightarrow>
     (\<exists>r \<in> R. de_digest d = request_digest H r \<and> (\<exists>a. hr_authority r = Task_lease_authority a \<and> t \<le> la_token a)))"

definition tokens_ok :: "(string \<Rightarrow> string) \<Rightarrow> host_request set \<Rightarrow> journal \<Rightarrow> bool" where
  "tokens_ok H R j \<longleftrightarrow> rows_fenced j \<and> list_all (delivery_fenced H R) (deliveries j)"

definition token_fits :: "host_request \<Rightarrow> int option \<Rightarrow> bool" where
  "token_fits r t \<longleftrightarrow> (case t of None \<Rightarrow> \<not> task_scoped r | Some i \<Rightarrow> \<exists>a. hr_authority r = Task_lease_authority a \<and> i \<le> la_token a)"

lemma stored_result_token:
  assumes "stored_result limit scoped result status code token = Inr res"
  shows "jr_token res = token \<and> scoped = (token \<noteq> None)"
proof -
  obtain t where "stored_fencing_token token = Inr t" "scoped = (t \<noteq> None)" "jr_token res = t"
    using assms by (cases result; cases status; cases code)
      (auto simp: stored_result_def corrupt_def split: option.split_asm sum.split_asm scan_error.split_asm if_split_asm elim!: bindE_InrE)
  then show ?thesis by (auto simp: stored_fencing_token_def split: option.split_asm elim: bindE_InrE)
qed

lemma rows_fenced_frame:
  assumes "rows_fenced j" "operations j' = operations j" "\<And>u. fence_token j u \<le> fence_token j' u"
  shows "rows_fenced j'"
  unfolding rows_fenced_def assms(2)
proof (intro ballI allI impI)
  fix x t u
  assume "x \<in> set (operations j)" "op_token x = Some t" "op_scope x = ''job:'' @ uuid_str u"
  then have "t \<le> fence_token j u" using assms(1) unfolding rows_fenced_def by blast
  then show "t \<le> fence_token j' u" using assms(3) [of u] by (rule order_trans)
qed

lemma tokens_ok_frame:
  assumes "tokens_ok H R j" "operations j' = operations j" "deliveries j' = deliveries j" "\<And>u. fence_token j u \<le> fence_token j' u"
  shows "tokens_ok H R j'"
proof -
  have "rows_fenced j'" by (rule rows_fenced_frame [OF _ assms(2,4)]) (use assms(1) in \<open>simp add: tokens_ok_def\<close>)
  then show ?thesis using assms(1,3) by (simp add: tokens_ok_def)
qed

lemma delivery_of_fenced:
  "r \<in> R \<Longrightarrow> token_fits r (jr_token res) \<Longrightarrow> de_digest d = request_digest H r \<Longrightarrow> de_token d = jr_token res \<Longrightarrow> delivery_fenced H R d"
  unfolding delivery_fenced_def token_fits_def by (cases "jr_token res") auto

lemma fence_token_frame: "fences j' = fences j \<Longrightarrow> fence_token j' u = fence_token j u"
  by (simp add: fence_token_def find_fence_def)

lemma tokens_ok_deliver:
  assumes "tokens_ok H R j" "record_delivery H r res j = Inr j'" "r \<in> R" "token_fits r (jr_token res)"
  shows "tokens_ok H R j'"
proof -
  have f: "fences j' = fences j" "operations j' = operations j" using record_delivery_frame [OF assms(2)] by simp_all
  have "rows_fenced j'" by (rule rows_fenced_frame [of j]) (use assms(1) f fence_token_frame [OF f(1)] in \<open>simp_all add: tokens_ok_def\<close>)
  moreover obtain d where d: "deliveries j' = deliveries j @ [d]" "de_digest d = request_digest H r" "de_token d = jr_token res"
    using assms(2) by (auto simp: record_delivery_def split: if_split_asm)
  have "delivery_fenced H R d" by (rule delivery_of_fenced [OF assms(3,4) d(2,3)])
  ultimately show ?thesis using assms(1) d(1) by (simp add: tokens_ok_def)
qed

lemma tokens_ok_reserve: "tokens_ok H R j \<Longrightarrow> tokens_ok H R (reserve H r j)"
  by (auto simp: tokens_ok_def rows_fenced_def reserve_def fence_token_def find_fence_def)

text \<open>A request that passed the fence finds no later token in the rows of its job.\<close>

lemma operation_token_fits:
  assumes "tokens_ok H R j" "find_operation r j = Some x" "operation_result limit (task_scoped r) x = Inr res"
    and "\<And>a. hr_authority r = Task_lease_authority a \<Longrightarrow> fence_token j (la_job a) = la_token a"
  shows "token_fits r (jr_token res)"
proof -
  have x: "x \<in> set (operations j)" "op_scope x = scope_key r"
    using assms(2) by (auto simp: find_operation_def find_Some_iff is_operation_def)
  have t: "jr_token res = op_token x" "task_scoped r = (op_token x \<noteq> None)"
    using stored_result_token assms(3) unfolding operation_result_def by blast+
  show ?thesis
  proof (cases "op_token x")
    case (Some i)
    then obtain a where a: "hr_authority r = Task_lease_authority a" using t(2) by (auto simp: task_scoped_def split: host_authority.split_asm)
    then have "i \<le> fence_token j (la_job a)" using assms(1) x Some by (simp add: tokens_ok_def rows_fenced_def scope_key_def)
    then show ?thesis using assms(4) a t Some by (simp add: token_fits_def)
  qed (use t in \<open>simp add: token_fits_def\<close>)
qed

lemma delivered_token_fits:
  assumes "tokens_ok H R j" "digest_length H" "digests_apart H R" "\<forall>q \<in> R. request_ok q" "r \<in> R"
    and "d \<in> set (deliveries j)" "de_digest d = request_digest H r" "delivered_result limit (task_scoped r) d = Inr res"
  shows "token_fits r (jr_token res)"
proof -
  have t: "jr_token res = de_token d" "task_scoped r = (de_token d \<noteq> None)"
    using stored_result_token assms(8) unfolding delivered_result_def by blast+
  show ?thesis
  proof (cases "de_token d")
    case (Some i)
    then obtain q a where q: "q \<in> R" "de_digest d = request_digest H q" "hr_authority q = Task_lease_authority a" "i \<le> la_token a"
      using assms(1,6) unfolding tokens_ok_def delivery_fenced_def list_all_iff by blast
    have "canonical_request q = canonical_request r"
      using request_digest_inj [OF assms(2,3) q(1) assms(5)] q(1,2) assms(4,5,7) by simp
    then have "hr_authority r = Task_lease_authority a" using q(3) by (metis canonical_simps(3))
    then show ?thesis using t Some q(4) by (simp add: token_fits_def)
  qed (use t in \<open>simp add: token_fits_def\<close>)
qed

subsection \<open>The transactions\<close>

lemma journal_begin_tokens:
  assumes "journal_begin H limit t r j = (ans, j')" "tokens_ok H R j" "digest_length H" "digests_apart H R" "\<forall>q \<in> R. request_ok q" "r \<in> R"
  shows "tokens_ok H R j'" "ans = Inr (REPLAY res) \<Longrightarrow> token_fits r (jr_token res)"
proof -
  have passed: "tokens_ok H R j1 \<and> (\<forall>a. hr_authority r = Task_lease_authority a \<longrightarrow> fence_token j1 (la_job a) = la_token a)"
    if p: "apply_fence t r j = Inr j0" "record_receipt H r j0 = Inr j1" for j0 j1
  proof -
    have f: "fences j1 = fences j0" "operations j1 = operations j" "deliveries j1 = deliveries j"
      using record_receipt_frame [OF p(2)] apply_fence_frame [OF p(1)] by simp_all
    have "tokens_ok H R j1"
      by (rule tokens_ok_frame [OF assms(2) f(2,3)]) (simp add: fence_token_frame [OF f(1)] apply_fence_mono [OF p(1)])
    moreover have "fence_token j1 (la_job a) = la_token a" if "hr_authority r = Task_lease_authority a" for a
      using apply_fence_lease [OF p(1) that] unfolding fence_token_frame [OF f(1)] by (auto simp: fence_token_def)
    ultimately show ?thesis by blast
  qed
  have "tokens_ok H R j' \<and> (ans = Inr (REPLAY res) \<longrightarrow> token_fits r (jr_token res))"
    using assms(1)
  proof (cases rule: journal_begin_cases)
    case (refused x)
    then show ?thesis using assms(2) by simp
  next
    case (delivered j0 j1 d)
    note i = passed [OF delivered(1,2), THEN conjunct1]
    have "d \<in> set (deliveries j1)" using delivered(3) by (auto simp: find_Some_iff)
    then show ?thesis using i delivered_token_fits [OF i assms(3-6) _ delivered(4)] delivered(5,6) by (auto elim!: bindE_InrE)
  next
    case (decided j0 j1 a)
    note i = passed [OF decided(1,2)]
    show ?thesis
    proof (cases "find_operation r j1")
      case None
      then show ?thesis using decided(4,5) i by (auto simp: decide_operation_def tokens_ok_reserve)
    next
      case (Some x)
      show ?thesis
      proof (cases "op_state x = ''RUNNING''")
        case False
        then obtain q where q: "operation_result limit (task_scoped r) x = Inr q" "record_delivery H r q j1 = Inr j'" "a = REPLAY q"
          using decided(4) Some by (auto simp: decide_operation_def split: if_split_asm elim!: bindE_InrE)
        have "token_fits r (jr_token q)" using operation_token_fits [OF _ Some q(1)] i by blast
        then show ?thesis using tokens_ok_deliver [OF _ q(2) assms(6)] i q(3) decided(5) by auto
      qed (use Some decided(4,5) i in \<open>auto simp: decide_operation_def split: if_split_asm\<close>)
    qed
  qed
  then show "tokens_ok H R j'" "ans = Inr (REPLAY res) \<Longrightarrow> token_fits r (jr_token res)" by simp_all
qed

lemma fencing_token_fits: "token_fits r (fencing_token r)"
  by (simp add: token_fits_def fencing_token_def task_scoped_def split: host_authority.split)

lemma assert_current_fence_at:
  "assert_current_fence t r j = Inr () \<Longrightarrow> hr_authority r = Task_lease_authority a \<Longrightarrow> fence_token j (la_job a) = la_token a"
  by (auto simp: assert_current_fence_def fence_token_def split: option.split_asm if_split_asm)

lemma journal_finish_tokens:
  assumes "journal_finish H t r res j = Inr j'" "tokens_ok H R j" "r \<in> R" "jr_token res = fencing_token r"
  shows "tokens_ok H R j'"
proof -
  note f = journal_finish_Inr [OF assms(1)]
  have "t' \<le> fence_token j' u" if x: "x \<in> set (operations j')" "op_token x = Some t'" "op_scope x = ''job:'' @ uuid_str u" for x t' u
  proof (cases "x \<in> set (operations j)")
    case True
    then show ?thesis using assms(2) x(2,3) fence_token_frame [OF f(4)] by (simp add: tokens_ok_def rows_fenced_def)
  next
    case False
    then obtain y where y: "running_operation H r y" "x = finish_row res y"
      using x(1) f(3) by (auto simp: upd_rows_def split: if_split_asm)
    then have s: "scope_key r = ''job:'' @ uuid_str u" "fencing_token r = Some t'"
      using x(2,3) assms(4) by (auto simp: finish_row_def running_operation_def is_operation_def)
    then obtain a where a: "hr_authority r = Task_lease_authority a" "t' = la_token a"
      by (auto simp: fencing_token_def split: host_authority.split_asm)
    then have "u = la_job a" using s(1) uuid_str_inj by (simp add: scope_key_def)
    then show ?thesis using assert_current_fence_at [OF f(1) a(1)] fence_token_frame [OF f(4)] a(2) by simp
  qed
  moreover have "delivery_fenced H R \<lparr>de_request = hr_id r, de_digest = request_digest H r,
        de_status = response_status_value (jr_status res), de_code = jr_code res,
        de_result = encode_result (jr_result res), de_token = jr_token res\<rparr>"
    by (rule delivery_of_fenced [OF assms(3), of res]) (simp_all add: assms(4) fencing_token_fits)
  ultimately show ?thesis using assms(2) f(7) unfolding tokens_ok_def rows_fenced_def by simp
qed

subsection \<open>Accepted answers\<close>

definition accepted :: "'w host_setup \<Rightarrow> host_request \<Rightarrow> signed_response \<Rightarrow> bool" where
  "accepted e r env \<longleftrightarrow> (let m = ss_message env in
     mk_host_response m = Inr m \<and> sign_response (hd_H e) (hd_authenticator e) m = Inr env \<and>
     hs_request m = hr_id r \<and> hs_operation m = ho_name (hr_operation r) \<and> hs_key m = ho_key (hr_operation r) \<and>
     validate_execution_fence r m = Inr ())"

lemma respond_accepted:
  assumes "respond e c r st code res rep tok = Inr env"
    and "st = R_OK \<or> tok \<noteq> None \<Longrightarrow> token_fits r tok" "st = R_OK \<Longrightarrow> \<not> rep \<Longrightarrow> tok = fencing_token r"
  shows "accepted e r env"
proof -
  let ?m = "\<lparr>hs_request = hr_id r, hs_operation = ho_name (hr_operation r), hs_key = ho_key (hr_operation r), hs_host = hd_host e,
     hs_host_version = host_agent_version, hs_status = st, hs_code = code, hs_replayed = rep, hs_completed = c, hs_result = res,
     hs_token = tok, hs_version = host_protocol_version\<rparr>"
  have m: "ss_message env = ?m" by (rule respond_message [OF assms(1)])
  obtain m' where b: "mk_host_response ?m = Inr m'" "sign_response (hd_H e) (hd_authenticator e) m' = Inr env"
    using assms(1) by (auto simp: respond_def elim: bindE_InrE)
  have "ss_message env = m'" using b(2) by (auto simp: sign_response_def mk_signed_response_def elim!: bindE_InrE)
  moreover have "validate_execution_fence r ?m = Inr ()"
    using assms(2,3) by (cases "hr_authority r"; cases tok)
      (auto simp: validate_execution_fence_def token_fits_def task_scoped_def fencing_token_def)
  moreover have "m' = ?m" using m calculation by simp
  ultimately show ?thesis using b unfolding accepted_def Let_def m by simp
qed

lemma respond_rejected_accepted:
  "respond_rejected e c r code = Inr env \<Longrightarrow> accepted e r env"
  "respond_ambiguous e c r v = Inr env \<Longrightarrow> accepted e r env"
  unfolding respond_rejected_def respond_ambiguous_def by (auto intro: respond_accepted)

lemma respond_result_accepted:
  "respond_result e c r rep res = Inr env \<Longrightarrow> token_fits r (jr_token res) \<Longrightarrow> (\<not> rep \<Longrightarrow> jr_token res = fencing_token r) \<Longrightarrow> accepted e r env"
  unfolding respond_result_def by (auto intro: respond_accepted)

lemma dispatch_request_tokens:
  assumes "dispatch_request e v t c env j = (ans, j')" "tokens_ok (hd_H e) R j" "digest_length (hd_H e)" "digests_apart (hd_H e) R"
    and "\<forall>q \<in> R. request_ok q" "sr_message env \<in> R"
  shows "tokens_ok (hd_H e) R j'" "ans = Handed_out r d \<Longrightarrow> r \<in> R" "ans = Answered r (Inr x) \<Longrightarrow> r \<in> R \<and> accepted e r x"
proof -
  have v: "sr_message env = q" if "verify_request (hd_H e) (hd_authenticator e) v env = Inr q" for q
    using that by (auto simp: verify_request_def Let_def split: if_split_asm host_authority.split_asm)
  have "tokens_ok (hd_H e) R j' \<and> (\<forall>r d. ans = Handed_out r d \<longrightarrow> r \<in> R) \<and>
      (\<forall>r x. ans = Answered r (Inr x) \<longrightarrow> r \<in> R \<and> accepted e r x)"
  proof (cases "verify_request (hd_H e) (hd_authenticator e) v env")
    case (Inl y)
    then show ?thesis using assms(1,2) by (auto simp: dispatch_request_def)
  next
    case (Inr q)
    have q: "q \<in> R" using v [OF Inr] assms(6) by simp
    show ?thesis
    proof (cases "accept_request (hd_registry e) q")
      case (Inl y)
      then show ?thesis using assms(1,2) Inr q by (auto simp: dispatch_request_def intro: respond_rejected_accepted)
    next
      case d: (Inr d)
      obtain b j1 where b: "journal_begin (hd_H e) (hd_limit e) t q j = (b, j1)" by force
      note k = journal_begin_tokens [OF b assms(2-5) q]
      show ?thesis
      proof (cases b)
        case (Inl y)
        then show ?thesis using assms(1) Inr d b k(1) q by (auto simp: dispatch_request_def intro: respond_rejected_accepted)
      next
        case c: (Inr y)
        then show ?thesis using assms(1) Inr d b k q
          by (cases y) (auto simp: dispatch_request_def intro: respond_rejected_accepted respond_result_accepted)
      qed
    qed
  qed
  then show "tokens_ok (hd_H e) R j'" "ans = Handed_out r d \<Longrightarrow> r \<in> R" "ans = Answered r (Inr x) \<Longrightarrow> r \<in> R \<and> accepted e r x"
    by blast+
qed

lemma conclude_token: "conclude m c res = Inr out \<Longrightarrow> jr_token out = fencing_token (cx_request c)"
  by (auto simp: conclude_def rejected_result_def Let_def split: sum.split_asm handler_error.split_asm if_split_asm)

lemma dispatch_finish_tokens:
  assumes "dispatch_finish e t c m cx res j = (ans, j')" "tokens_ok (hd_H e) R j" "cx_request cx \<in> R"
  shows "tokens_ok (hd_H e) R j'" "ans = Inr x \<Longrightarrow> accepted e (cx_request cx) x"
proof -
  have "tokens_ok (hd_H e) R j' \<and> (\<forall>x. ans = Inr x \<longrightarrow> accepted e (cx_request cx) x)"
  proof (cases "conclude m cx res")
    case (Inl v)
    then show ?thesis using assms(1,2) by (auto simp: dispatch_finish_def Let_def intro: respond_rejected_accepted elim!: bindE_InrE)
  next
    case (Inr out)
    note o = conclude_token [OF Inr]
    show ?thesis using assms(1,2) Inr journal_finish_tokens [OF _ assms(2,3) o] o fencing_token_fits
      by (auto simp: dispatch_finish_def Let_def split: if_split_asm sum.split_asm
          intro: respond_rejected_accepted respond_result_accepted)
  qed
  then show "tokens_ok (hd_H e) R j'" "ans = Inr x \<Longrightarrow> accepted e (cx_request cx) x" by blast+
qed

subsection \<open>Runs\<close>

definition event_requests :: "'w host_event \<Rightarrow> host_request set" where
  "event_requests x = (case x of Receive n env verified t completed \<Rightarrow> {sr_message env} | _ \<Rightarrow> {})"

definition received :: "'w host_event list \<Rightarrow> host_request set" where
  "received xs = \<Union> (event_requests ` set xs)"

definition delivery_inv :: "'w host_setup \<Rightarrow> host_request set \<Rightarrow> 'w host_state \<Rightarrow> bool" where
  "delivery_inv e R s \<longleftrightarrow> tokens_ok (hd_H e) R (ag_journal s) \<and> (\<forall>n th. ag_threads s n = Some th \<longrightarrow> thread_request th \<in> R)"

definition answer_ok :: "'w host_setup \<Rightarrow> host_request set \<Rightarrow> host_answer \<Rightarrow> bool" where
  "answer_ok e R a \<longleftrightarrow> (\<forall>r env. answer_of a = Some (r, Inr env) \<longrightarrow> r \<in> R \<and> accepted e r env)"

lemma delivery_frame:
  "delivery_inv e R s \<Longrightarrow> ag_journal s' = ag_journal s \<Longrightarrow> (\<And>n th. ag_threads s' n = Some th \<Longrightarrow> \<exists>th0. ag_threads s n = Some th0 \<and> thread_request th = thread_request th0) \<Longrightarrow>
   delivery_inv e R s'"
  unfolding delivery_inv_def by metis

lemma set_thread_request:
  "ag_threads s n = Some th \<Longrightarrow> thread_request th' = thread_request th \<Longrightarrow> ag_threads (set_thread n th' (s\<lparr>ag_world := w\<rparr>)) m = Some u \<Longrightarrow>
   \<exists>th0. ag_threads s m = Some th0 \<and> thread_request u = thread_request th0"
  by (auto simp: set_thread_def split: if_split_asm)

lemma move_thread_delivery:
  "delivery_inv e R s \<Longrightarrow> ag_threads s n = Some th \<Longrightarrow> thread_request th' = thread_request th \<Longrightarrow> delivery_inv e R (set_thread n th' (s\<lparr>ag_world := w\<rparr>))"
  by (rule delivery_frame) (auto simp: set_thread_def split: if_split_asm)

lemma receive_delivery:
  assumes "delivery_inv e R s" "digest_length (hd_H e)" "digests_apart (hd_H e) R" "\<forall>q \<in> R. request_ok q" "sr_message env \<in> R"
    and "receive e n env v t c s = (a, s')"
  shows "delivery_inv e R s' \<and> answer_ok e R a"
proof -
  obtain ans j where d: "dispatch_request e v t c env (ag_journal s) = (ans, j)" by force
  have "tokens_ok (hd_H e) R (ag_journal s)" using assms(1) by (simp add: delivery_inv_def)
  note k = dispatch_request_tokens [OF d this assms(2-5)]
  show ?thesis using assms(1,6) d k
    by (cases ans) (auto simp: receive_def delivery_inv_def answer_ok_def answer_of_def set_thread_def thread_request_def
        fresh_context_def split: if_split_asm)
qed

lemma close_delivery:
  assumes "delivery_inv e R s" "ag_threads s n = Some th" "close e n th res t c s = (a, s')"
  shows "delivery_inv e R s' \<and> answer_ok e R a"
proof -
  obtain ans j where d: "dispatch_finish e t c (od_mutates (th_definition th)) (th_context th) res (ag_journal s) = (ans, j)" by force
  have "tokens_ok (hd_H e) R (ag_journal s)" "cx_request (th_context th) \<in> R"
    using assms(1,2) by (auto simp: delivery_inv_def thread_request_def)
  note k = dispatch_finish_tokens [OF d this]
  show ?thesis using assms(1,3) d k \<open>cx_request (th_context th) \<in> R\<close>
    by (auto simp: close_def delivery_inv_def answer_ok_def answer_of_def split: if_split_asm)
qed

lemma no_answer: "answer_of a = None \<Longrightarrow> answer_ok e R a"
  by (simp add: answer_ok_def)

lemma answer_of_simps [simp]: "answer_of Idle = None" "answer_of (Effect r) = None" "answer_of (Handled r) = None" "answer_of (Ended r) = None"
  by (simp_all add: answer_of_def)

lemma idle_delivery: "delivery_inv e R s \<Longrightarrow> delivery_inv e R s \<and> answer_ok e R Idle"
  by (simp add: no_answer)

lemma handle_delivery:
  assumes "delivery_inv e R s" "ag_threads s n = Some th" "handle e n th t u s = (a, s')"
  shows "delivery_inv e R s' \<and> answer_ok e R a"
proof -
  obtain res c1 w where r: "run_handler (hd_H e) (hd_services e) (od_handler (th_definition th)) t u
      (ho_arguments (hr_operation (cx_request (th_context th)))) (ag_journal s) (th_context th) (ag_world s) = (res, c1, w)"
    using prod_cases3 by blast
  have s': "s' = set_thread n (th\<lparr>th_context := c1, th_phase := Returned res\<rparr>) (s\<lparr>ag_world := w\<rparr>)" "answer_of a = None"
    using assms(3) r by (auto simp: handle_def Let_def split: if_splits)
  show ?thesis unfolding s'(1) using no_answer [OF s'(2)] run_handler_request [OF r]
    by (auto intro!: move_thread_delivery [OF assms(1,2)] simp: thread_request_def)
qed

lemma start_delivery:
  assumes "delivery_inv e R s" "ag_threads s n = Some th" "start e n th t s = (a, s')"
  shows "delivery_inv e R s' \<and> answer_ok e R a"
proof -
  obtain p where p: "s' = set_thread n (th\<lparr>th_phase := p\<rparr>) (s\<lparr>ag_world := ag_world s\<rparr>)" "answer_of a = None"
    using assms(3) by (auto simp: start_def Let_def split: sum.split_asm)
  show ?thesis unfolding p(1)
    by (intro conjI move_thread_delivery [OF assms(1,2)] no_answer [OF p(2)]) (simp add: thread_request_def)
qed

lemma stop_delivery:
  assumes "delivery_inv e R s" "ag_threads s n = Some th" "stop n th res m u s = (a, s')"
  shows "delivery_inv e R s' \<and> answer_ok e R a"
proof -
  obtain out c where o: "end_renewable_effect u m res (ag_journal s) (th_context th) = (out, c)" by force
  have p: "s' = set_thread n (th\<lparr>th_context := c, th_phase := Returned out\<rparr>) (s\<lparr>ag_world := ag_world s\<rparr>)" "answer_of a = None"
    using assms(3) o by (auto simp: stop_def)
  show ?thesis unfolding p(1)
    by (intro conjI move_thread_delivery [OF assms(1,2)] no_answer [OF p(2)]) (simp add: thread_request_def end_renewable_request [OF o])
qed

lemma host_step_delivery:
  assumes "delivery_inv e R s" "digest_length (hd_H e)" "digests_apart (hd_H e) R" "\<forall>q \<in> R. request_ok q" "event_requests x \<subseteq> R"
  shows "delivery_inv e R (snd (host_step e x s)) \<and> answer_ok e R (fst (host_step e x s))"
proof (cases x)
  case (Receive n env v t c)
  then show ?thesis using receive_delivery [OF assms(1-4) _ surjective_pairing] assms(5) idle_delivery [OF assms(1)]
    by (simp add: event_requests_def)
next
  case (Handle n t u)
  then show ?thesis using handle_delivery [OF assms(1) _ surjective_pairing] idle_delivery [OF assms(1)] by (simp split: option.split)
next
  case (Start n t)
  then show ?thesis using start_delivery [OF assms(1) _ surjective_pairing] idle_delivery [OF assms(1)] by (simp split: option.split)
next
  case (Progress n f)
  then show ?thesis using assms(1) no_answer [of Idle] by (auto simp: delivery_inv_def split: option.split)
next
  case (Stop n res m u)
  then show ?thesis using stop_delivery [OF assms(1) _ surjective_pairing] idle_delivery [OF assms(1)] by (simp split: option.split)
next
  case (Close n t c)
  then show ?thesis using close_delivery [OF assms(1) _ surjective_pairing] idle_delivery [OF assms(1)]
    by (simp split: option.split thread_phase.split)
next
  case Crash
  then show ?thesis using assms(1) no_answer [of Idle] by (auto simp: delivery_inv_def)
qed

lemma host_trace_delivery:
  assumes "digest_length (hd_H e)" "digests_apart (hd_H e) R" "\<forall>q \<in> R. request_ok q"
  shows "delivery_inv e R s \<Longrightarrow> received xs \<subseteq> R \<Longrightarrow> a \<in> set (host_trace e xs s) \<Longrightarrow> answer_ok e R a"
proof (induction xs arbitrary: s)
  case (Cons x xs)
  have "event_requests x \<subseteq> R" "received xs \<subseteq> R" using Cons.prems(2) by (auto simp: received_def)
  then show ?case using host_step_delivery [OF Cons.prems(1) assms, of x] Cons.IH Cons.prems(3) by auto
qed simp

lemma fresh_delivery: "delivery_inv e R (fresh_agent w)"
  by (simp add: delivery_inv_def fresh_agent_def tokens_ok_def rows_fenced_def empty_journal_def)

subsection \<open>The gateway\<close>

lemma gateway_exchange_wire:
  assumes "send_frame max_host_response_bytes deadline calls payload = Inr wire"
  shows "gateway_exchange deadline' calls' now wire = Inr payload \<or> gateway_exchange deadline' calls' now wire = Inl HOST_UNAVAILABLE"
proof (cases "receive_exact deadline' calls' 4 [] wire")
  case (Inr x)
  obtain header calls0 stream0 where h: "receive_exact deadline' calls' 4 [] wire = Inr (header, calls0, stream0)" using Inr by (cases x) auto
  have u: "unpack_length header = length payload \<and> stream0 = payload @ [] \<and> payload \<noteq> [] \<and> length payload \<le> max_host_response_bytes"
    by (rule header_delivered [OF assms]) (use h in \<open>simp_all add: max_host_response_bytes_def\<close>)
  show ?thesis
  proof (cases "receive_exact deadline' calls0 (length payload) [] (payload @ [])")
    case (Inr y)
    obtain got calls1 rest1 where y: "receive_exact deadline' calls0 (length payload) [] (payload @ []) = Inr (got, calls1, rest1)"
      using Inr by (cases y) auto
    then show ?thesis using payload_delivered [OF y] h u by (simp add: gateway_exchange_def gateway_frame_def gateway_exact_def)
  qed (use h u in \<open>simp add: gateway_exchange_def gateway_frame_def gateway_exact_def\<close>)
qed (simp add: gateway_exchange_def gateway_frame_def gateway_exact_def)

lemma gateway_exchange_timely:
  assumes "send_frame max_host_response_bytes deadline calls payload = Inr wire"
    and "timely deadline' calls'" "length wire \<le> length calls'" "now < deadline'"
  shows "gateway_exchange deadline' calls' now wire = Inr payload"
proof -
  have w: "wire = pack_length (length payload) @ payload" using send_frame_wire [OF assms(1)] by blast
  obtain calls1 where h: "receive_exact deadline' calls' 4 [] wire = Inr (take 4 wire, calls1, drop 4 wire)" "timely deadline' calls1"
    "length calls' \<le> length calls1 + 4"
    using receive_exact_timely [OF assms(2), of 4 "[]" wire] assms(3) w by auto
  have u: "unpack_length (take 4 wire) = length payload \<and> drop 4 wire = payload @ [] \<and> payload \<noteq> [] \<and> length payload \<le> max_host_response_bytes"
    by (rule header_delivered [OF assms(1)]) (use h(1) in \<open>simp_all add: max_host_response_bytes_def\<close>)
  obtain calls2 where "receive_exact deadline' calls1 (length payload) [] payload = Inr (take (length payload) payload, calls2, drop (length payload) payload)"
    using receive_exact_timely [OF h(2), of "length payload" "[]" payload] assms(3) h(3) w by auto
  then show ?thesis using h(1) u assms(4) by (simp add: gateway_exchange_def gateway_frame_def gateway_exact_def)
qed

lemma validate_canonical: "validate_execution_fence r (canonical_response m) = validate_execution_fence (canonical_request r) m"
  by (cases "hr_authority r"; cases "hs_token m") (simp_all add: validate_execution_fence_def canonical_response_def canonical_request_def)

text \<open>C29. What the host answers is what the control plane gets.  In every run of an agent that began with
  an empty journal on well-formed requests whose digests are apart, take any answer to a request, a
  dictionary that fits a frame, sent over the socket with the calls of both sides moving any number of
  bytes at a time: the gateway either returns that answer, with the keys of its result in order, or
  reports that the host is unavailable, which it does not when it has time for as many calls as there are
  bytes.  It never finds the answer unauthenticated, of another request, or of a later lease.\<close>

theorem answer_delivered:
  assumes "mk_authenticator secret kid = Inr (hd_authenticator e)" "gw_authenticator g = hd_authenticator e"
    and "digest_length (hd_H e)" "digests_apart (hd_H e) (received xs)" "\<forall>q \<in> received xs. request_ok q" "protocol_nesting \<le> limit"
    and "a \<in> set (host_trace e xs (fresh_agent w))" "answer_of a = Some (canonical_request r, Inr env)"
    and "json_clean (\<lambda>_. True) (hs_result (ss_message env))"
    and "connection_response deadline calls (Inr env) = Inr wire"
  shows "gateway_response (hd_H e) limit g r deadline' calls' now wire
      \<in> {Inr (canonical_response (ss_message env)), Inl HOST_UNAVAILABLE} \<and>
    (timely deadline' calls' \<and> length wire \<le> length calls' \<and> now < deadline' \<longrightarrow>
       gateway_response (hd_H e) limit g r deadline' calls' now wire = Inr (canonical_response (ss_message env)))"
proof -
  let ?m = "ss_message env"
  have "answer_ok e (received xs) a" by (rule host_trace_delivery [OF assms(3-5) fresh_delivery subset_refl assms(7)])
  then have acc: "accepted e (canonical_request r) env" using assms(8) by (simp add: answer_ok_def)
  have m: "response_ok ?m" "sign_response (hd_H e) (hd_authenticator e) ?m = Inr env"
    using acc assms(9) by (simp_all add: accepted_def Let_def response_ok_def)
  obtain payload where p: "encode_signed_host_response env = Inr payload" "send_frame max_host_response_bytes deadline calls payload = Inr wire"
    using assms(10) by (auto simp: connection_response_def protocol_step_def split: sum.split_asm elim!: bindE_InrE)
  obtain env' where d: "decode_signed_host_response limit payload = Inr env'"
    "verify_response (hd_H e) (hd_authenticator e) env' = Inr (canonical_response ?m)"
    using response_delivered [OF assms(1,3) m(1) assms(6) m(2) p(1)] unfolding canonical_response_def by blast
  have f: "validate_execution_fence r (canonical_response ?m) = Inr ()"
    using acc by (simp add: accepted_def Let_def validate_canonical)
  have i: "hs_request ?m = hr_id r" "hs_operation ?m = ho_name (hr_operation r)" "hs_key ?m = ho_key (hr_operation r)"
    using acc by (simp_all add: accepted_def Let_def canonical_request_def canonical_operation_def)
  have "gateway_accept (hd_H e) limit g r payload = Inr (canonical_response ?m)"
    using d f i assms(2) by (simp add: gateway_accept_def canonical_response_def)
  then show ?thesis using gateway_exchange_wire [OF p(2), of deadline' calls' now] gateway_exchange_timely [OF p(2), of deadline' calls' now]
    by (auto simp: gateway_response_def)
qed

subsection \<open>A sample answer\<close>

abbreviation unlisted_setup :: "nat host_setup" where
  "unlisted_setup \<equiv> sample_setup\<lparr>hd_registry := []\<rparr>"

abbreviation sample_probe :: host_request where
  "sample_probe \<equiv> probe_under sample_host_authority"

definition unlisted_answer :: host_response where
  "unlisted_answer = \<lparr>hs_request = hr_id sample_probe, hs_operation = ''task.lease_probe'', hs_key = ''k1'', hs_host = ''mac'',
     hs_host_version = host_agent_version, hs_status = R_REJECTED, hs_code = ''OPERATION_NOT_ALLOWLISTED'', hs_replayed = False,
     hs_completed = 6, hs_result = JObj [], hs_token = None, hs_version = host_protocol_version\<rparr>"

abbreviation unlisted_envelope :: signed_response where
  "unlisted_envelope \<equiv> \<lparr>ss_message = unlisted_answer, ss_key_id = ''key'', ss_signature = replicate 43 (CHR ''A'')\<rparr>"

lemma sample_probe_ok: "request_ok sample_probe"
proof -
  have "operation_ok \<lparr>ho_name = ''task.lease_probe'', ho_key = ''k1'', ho_arguments = JObj [], ho_schema = 1\<rparr>"
    using sample_texts_ok by (simp add: operation_ok_def mk_operation_def json_object_same json_bounds) code_simp
  then show ?thesis using sample_request_ok sample_lease_ok(1)
    by (simp add: request_ok_def mk_host_request_def probe_under_def)
qed

lemma unlisted_ok: "mk_host_response unlisted_answer = Inr unlisted_answer"
proof -
  have "operation_name_ok ''task.lease_probe''" "matches_code ''OPERATION_NOT_ALLOWLISTED''" "host_identifier_ok ''0.1.0''" by code_simp+
  then show ?thesis using sample_texts_ok
    by (simp add: mk_host_response_def unlisted_answer_def host_agent_version_def json_object_same json_bounds positive_int_ok_def)
qed

lemma unlisted_signed: "sign_response sample_H sample_authenticator unlisted_answer = Inr unlisted_envelope"
  unfolding sign_response_Inr [OF sample_key sample_H_length] sample_signature by (simp add: sample_authenticator_def)

lemma unlisted_served:
  "fst (host_step unlisted_setup (Receive 0 (probe_envelope sample_host_authority) 5 5 6) (fresh_agent 7)) =
     Served (Answered sample_probe (Inr unlisted_envelope))"
proof -
  have v: "verify_request sample_H sample_authenticator 5 (probe_envelope sample_host_authority) = Inr sample_probe"
    by (simp add: verify_request_def sample_signature probe_under_def)
      (simp add: sample_authenticator_def sample_request_def max_host_clock_skew_ms_def sample_host_authority_def)
  have "respond_rejected unlisted_setup 6 sample_probe ''OPERATION_NOT_ALLOWLISTED'' = Inr unlisted_envelope"
    using unlisted_ok unlisted_signed
    by (simp add: respond_rejected_def respond_def sample_setup_def unlisted_answer_def probe_under_def)
  then show ?thesis
    by (simp add: receive_def fresh_agent_def dispatch_request_def v accept_request_def resolve_def sample_setup_def)
qed

lemma unlisted_sent:
  "\<exists>wire k. connection_response 9 [(0, k)] (Inr unlisted_envelope) = Inr wire"
proof -
  let ?v = "envelope_json (response_json unlisted_answer) ''key'' (replicate 43 (CHR ''A''))"
  have "response_ok unlisted_answer" using unlisted_ok by (simp add: response_ok_def unlisted_answer_def)
  then have c: "json_clean int64_ok ?v" using envelope_clean response_clean by blast
  have "text_bound ?v \<le> 10000"
    by (simp add: envelope_json_def response_json_def response_status_value_def unlisted_answer_def host_agent_version_def)
  then have "length (dumps ?v) \<le> 10000" using length_dumps_le [OF c] order_trans by blast
  moreover have "dumps ?v \<noteq> []" by (rule dumps_nonempty [OF c])
  ultimately have "connection_response 9 [(0, 4 + length (dumps ?v))] (Inr unlisted_envelope) = Inr (pack_length (length (dumps ?v)) @ dumps ?v)"
    by (simp add: connection_response_def protocol_step_def encode_signed_host_response_def send_frame_def
        max_host_response_bytes_def pack_length_def remaining_def)
  then show ?thesis by blast
qed

theorem answer_delivered_witness:
  "\<exists>wire k. connection_response 9 [(0, k)] (Inr unlisted_envelope) = Inr wire \<and>
     gateway_response sample_H 20 \<lparr>gw_path = ''/s'', gw_authenticator = sample_authenticator, gw_connection = 5, gw_response = 5, gw_timeouts = []\<rparr>
       sample_probe 9 (replicate (length wire) (0, 1)) 5 wire = Inr (canonical_response unlisted_answer)"
proof -
  obtain wire k where w: "connection_response 9 [(0, k)] (Inr unlisted_envelope) = Inr wire" using unlisted_sent by blast
  let ?x = "Receive 0 (probe_envelope sample_host_authority) 5 5 6" and ?c = "replicate (length wire) (0::int, 1::nat)" and
    ?g = "\<lparr>gw_path = ''/s'', gw_authenticator = sample_authenticator, gw_connection = 5, gw_response = 5, gw_timeouts = []\<rparr>"
  have s: "hd_authenticator unlisted_setup = sample_authenticator" "hd_H unlisted_setup = sample_H" by (simp_all add: sample_setup_def)
  have R: "received [?x] = {sample_probe}" by (simp add: received_def event_requests_def)
  have t: "host_trace unlisted_setup [?x] (fresh_agent 7) = [Served (Answered sample_probe (Inr unlisted_envelope))]"
    by (simp only: host_trace.simps unlisted_served)
  have c: "canonical_request sample_probe = sample_probe" by (simp add: canonical_request_def canonical_operation_def probe_under_def)
  have "timely 9 ?c" by (simp add: timely_def list_all_iff)
  then have "gateway_response sample_H 20 ?g sample_probe 9 ?c 5 wire = Inr (canonical_response (ss_message unlisted_envelope))"
    using answer_delivered [of "replicate 32 (CHR ''a'')" "''key''" unlisted_setup ?g "[?x]" 20
        "Served (Answered sample_probe (Inr unlisted_envelope))" 7 sample_probe unlisted_envelope 9 "[(0, k)]" wire 9 ?c 5]
    unfolding s R t using sample_key sample_H_length sample_probe_ok sample_nesting w c
    by (simp add: answer_of_def digests_apart_def unlisted_answer_def)
  then show ?thesis using w by auto
qed

end
