(* ===== verification/Authentication.thy ===== *)
theory Authentication
  imports Host_Arguments Services
begin

text \<open>
  \<open>services/control-plane/.../authentication.py\<close> over the tables of \<open>database.py\<close>: the bootstrap of the one
  local user, password checks with their throttle, sessions and CSRF tokens, and the middleware in front
  of every route.  Argon2 and SHA-256 are functions of \<open>auth_env\<close>; what is drawn at random (tokens, salts,
  the ids of sessions) is an argument.  An exception inside \<open>session_scope\<close> rolls the transaction back; the
  code leaves the scope before it raises where a failed attempt has to be kept.
\<close>

subsection \<open>Tables\<close>

record login_row =
  lg_digest :: "string option"
  lg_failures :: int
  lg_blocked :: "instant option"

record session_row =
  sn_id :: uuid
  sn_user :: int
  sn_token :: string
  sn_csrf :: string
  sn_seen :: instant
  sn_expires :: instant
  sn_absolute :: instant
  sn_reauth :: instant
  sn_revoked :: "instant option"

record auth_db =
  ad_state :: "login_row option"
  ad_user :: "string option"
  ad_sessions :: "session_row list"

datatype auth_error = Invalid_credentials | Bootstrap_unavailable | Bootstrap_completed | Invalid_bootstrap_token
  | Password_policy | Auth_integrity

subsection \<open>The environment\<close>

record auth_env =
  ae_H :: "string \<Rightarrow> string"
  ae_hash :: "string \<Rightarrow> string \<Rightarrow> string"
  ae_verify :: "string \<Rightarrow> string \<Rightarrow> bool"
  ae_rehash :: "string \<Rightarrow> bool"
  ae_dummy :: string
  ae_idle :: int
  ae_absolute :: int
  ae_reauth :: int

definition auth_env_ok :: "auth_env \<Rightarrow> bool" where
  "auth_env_ok e \<longleftrightarrow> 0 < ae_idle e \<and> 0 < ae_absolute e \<and> ae_idle e \<le> ae_absolute e \<and> 0 < ae_reauth e"

definition token_digest :: "auth_env \<Rightarrow> string \<Rightarrow> string" where
  "token_digest e t = ae_H e (utf8_encode t)"

definition token_is_canonical :: "string option \<Rightarrow> bool" where
  "token_is_canonical t = (case t of None \<Rightarrow> False | Some s \<Rightarrow> length s = 43 \<and> list_all is_base64_char s)"

definition invalid_token_digest :: "auth_env \<Rightarrow> string" where
  "invalid_token_digest e = ae_H e ''invalid-mathews-authentication-token''"

definition new_password_ok :: "string \<Rightarrow> bool" where
  "new_password_ok p \<longleftrightarrow> 15 \<le> length p \<and> utf8_length p \<le> 1024"

definition authentication_input_is_bounded :: "string \<Rightarrow> bool" where
  "authentication_input_is_bounded p \<longleftrightarrow> utf8_length p \<le> 1024"

definition fresh_login :: login_row where
  "fresh_login = \<lparr>lg_digest = None, lg_failures = 0, lg_blocked = None\<rparr>"

definition get_or_create_state :: "auth_db \<Rightarrow> login_row \<times> auth_db" where
  "get_or_create_state db = (case ad_state db of Some s \<Rightarrow> (s, db) | None \<Rightarrow> (fresh_login, db\<lparr>ad_state := Some fresh_login\<rparr>))"

definition save_login :: "login_row \<Rightarrow> auth_db \<Rightarrow> auth_db" where
  "save_login s db = db\<lparr>ad_state := Some s\<rparr>"

subsection \<open>Sessions\<close>

record authenticated =
  an_session :: uuid
  an_user :: int
  an_csrf :: string
  an_expires :: instant
  an_absolute :: instant
  an_until :: instant
  an_evaluated :: instant
  an_recent :: bool

record issued_session =
  is_authentication :: authenticated
  is_token :: string
  is_csrf :: string

definition authentication_from_record :: "auth_env \<Rightarrow> instant \<Rightarrow> session_row \<Rightarrow> authenticated" where
  "authentication_from_record e now s = (let until = sn_reauth s + ae_reauth e in
     \<lparr>an_session = sn_id s, an_user = sn_user s, an_csrf = sn_csrf s, an_expires = sn_expires s, an_absolute = sn_absolute s,
      an_until = (if now < sn_reauth s then now else until), an_evaluated = now,
      an_recent = (sn_reauth s \<le> now \<and> now < until)\<rparr>)"

definition stale_session :: "instant \<Rightarrow> session_row \<Rightarrow> bool" where
  "stale_session now s \<longleftrightarrow> sn_revoked s \<noteq> None \<or> sn_expires s \<le> now \<or> sn_absolute s \<le> now"

definition delete_stale_sessions :: "instant \<Rightarrow> auth_db \<Rightarrow> auth_db" where
  "delete_stale_sessions now db = db\<lparr>ad_sessions := filter (\<lambda>s. \<not> stale_session now s) (ad_sessions db)\<rparr>"

text \<open>What a new session draws at random.\<close>

record session_seed =
  sd_id :: uuid
  sd_token :: string
  sd_csrf :: string

definition issued_row :: "auth_env \<Rightarrow> instant \<Rightarrow> session_seed \<Rightarrow> session_row" where
  "issued_row e now d = \<lparr>sn_id = sd_id d, sn_user = 1, sn_token = token_digest e (sd_token d), sn_csrf = token_digest e (sd_csrf d),
     sn_seen = now, sn_expires = min (now + ae_idle e) (now + ae_absolute e), sn_absolute = now + ae_absolute e,
     sn_reauth = now, sn_revoked = None\<rparr>"

definition issue_session :: "auth_env \<Rightarrow> instant \<Rightarrow> session_seed \<Rightarrow> auth_db \<Rightarrow> auth_error + issued_session \<times> auth_db" where
  "issue_session e now d db = (let db1 = delete_stale_sessions now db; s = issued_row e now d in
     if list_ex (\<lambda>x. sn_id x = sn_id s \<or> sn_token x = sn_token s) (ad_sessions db1) then Inl Auth_integrity
     else Inr (\<lparr>is_authentication = authentication_from_record e now s, is_token = sd_token d, is_csrf = sd_csrf d\<rparr>,
       db1\<lparr>ad_sessions := ad_sessions db1 @ [s]\<rparr>))"

definition find_token :: "string \<Rightarrow> auth_db \<Rightarrow> session_row option" where
  "find_token digest db = find (\<lambda>s. sn_token s = digest) (ad_sessions db)"

definition find_session :: "uuid \<Rightarrow> auth_db \<Rightarrow> session_row option" where
  "find_session i db = find (\<lambda>s. sn_id s = i) (ad_sessions db)"

definition update_session :: "(session_row \<Rightarrow> session_row) \<Rightarrow> uuid \<Rightarrow> auth_db \<Rightarrow> auth_db" where
  "update_session f i db = db\<lparr>ad_sessions := upd_rows (\<lambda>s. sn_id s = i) f (ad_sessions db)\<rparr>"

definition delete_session :: "uuid \<Rightarrow> auth_db \<Rightarrow> auth_db" where
  "delete_session i db = db\<lparr>ad_sessions := filter (\<lambda>s. sn_id s \<noteq> i) (ad_sessions db)\<rparr>"

definition revoke_session :: "instant \<Rightarrow> session_row \<Rightarrow> session_row" where
  "revoke_session now s = s\<lparr>sn_revoked := Some now\<rparr>"

definition revoke_token :: "auth_env \<Rightarrow> instant \<Rightarrow> string option \<Rightarrow> auth_db \<Rightarrow> auth_db" where
  "revoke_token e now t db = (case t of None \<Rightarrow> db
     | Some s \<Rightarrow> if \<not> token_is_canonical t then db
       else (case find_token (token_digest e s) db of None \<Rightarrow> db
         | Some x \<Rightarrow> if sn_revoked x = None then update_session (revoke_session now) (sn_id x) db else db))"

definition record_login_failure :: "instant \<Rightarrow> login_row \<Rightarrow> login_row" where
  "record_login_failure now s = (let failures = min (lg_failures s + 1) 16 in
     s\<lparr>lg_failures := failures,
       lg_blocked := (if 5 \<le> failures then Some (now + min (2 ^ nat (failures - 5 + 1)) 300 * 1000000) else lg_blocked s)\<rparr>)"

definition login_blocked :: "instant \<Rightarrow> login_row \<Rightarrow> bool" where
  "login_blocked now s = (case lg_blocked s of None \<Rightarrow> False | Some t \<Rightarrow> now < t)"

definition login_passed :: "login_row \<Rightarrow> login_row" where
  "login_passed s = s\<lparr>lg_failures := 0, lg_blocked := None\<rparr>"

definition rehashed :: "auth_env \<Rightarrow> string \<Rightarrow> string \<Rightarrow> string \<Rightarrow> string" where
  "rehashed e salt password stored = (if ae_rehash e stored then ae_hash e salt password else stored)"

subsection \<open>The service\<close>

definition generate_bootstrap_token :: "auth_env \<Rightarrow> string \<Rightarrow> auth_db \<Rightarrow> (auth_error + string) \<times> auth_db" where
  "generate_bootstrap_token e token db = (case get_or_create_state db of (s, db1) \<Rightarrow>
     if ad_user db1 \<noteq> None then (Inl Bootstrap_completed, db)
     else (Inr token, save_login (s\<lparr>lg_digest := Some (token_digest e token)\<rparr>) db1))"

definition bootstrap_status :: "auth_db \<Rightarrow> (bool \<times> bool) \<times> auth_db" where
  "bootstrap_status db = (case get_or_create_state db of (s, db1) \<Rightarrow>
     ((ad_user db1 = None, ad_user db1 = None \<and> lg_digest s \<noteq> None), db1))"

definition presented_digest :: "auth_env \<Rightarrow> string \<Rightarrow> string" where
  "presented_digest e token = (if token_is_canonical (Some token) then token_digest e token else invalid_token_digest e)"

definition bootstrap :: "auth_env \<Rightarrow> instant \<Rightarrow> session_seed \<Rightarrow> string \<Rightarrow> string \<Rightarrow> string \<Rightarrow> auth_db \<Rightarrow>
    (auth_error + issued_session) \<times> auth_db" where
  "bootstrap e now d salt token password db =
     (if \<not> new_password_ok password then (Inl Password_policy, db)
      else (case get_or_create_state db of (s, db1) \<Rightarrow>
        if ad_user db1 \<noteq> None then (Inl Bootstrap_completed, db)
        else (case lg_digest s of None \<Rightarrow> (Inl Bootstrap_unavailable, db)
          | Some expected \<Rightarrow>
              if expected \<noteq> presented_digest e token then (Inl Invalid_bootstrap_token, db)
              else (case issue_session e now d ((save_login ((login_passed s)\<lparr>lg_digest := None\<rparr>) db1)\<lparr>ad_user := Some (ae_hash e salt password)\<rparr>) of
                  Inl x \<Rightarrow> (Inl x, db) | Inr (i, db2) \<Rightarrow> (Inr i, db2)))))"

definition login :: "auth_env \<Rightarrow> instant \<Rightarrow> session_seed \<Rightarrow> string \<Rightarrow> string \<Rightarrow> string option \<Rightarrow> auth_db \<Rightarrow>
    (auth_error + issued_session) \<times> auth_db" where
  "login e now d salt password existing db =
     (if \<not> authentication_input_is_bounded password then (Inl Invalid_credentials, db)
      else (case get_or_create_state db of (s, db1) \<Rightarrow>
        if login_blocked now s then (Inl Invalid_credentials, db1)
        else (case ad_user db1 of
            None \<Rightarrow> (Inl Invalid_credentials, save_login (record_login_failure now s) db1)
          | Some stored \<Rightarrow>
              if \<not> ae_verify e stored password then (Inl Invalid_credentials, save_login (record_login_failure now s) db1)
              else (case issue_session e now d (revoke_token e now existing
                    ((save_login (login_passed s) db1)\<lparr>ad_user := Some (rehashed e salt password stored)\<rparr>)) of
                  Inl x \<Rightarrow> (Inl x, db) | Inr (i, db2) \<Rightarrow> (Inr i, db2)))))"

definition authenticate :: "auth_env \<Rightarrow> instant \<Rightarrow> string option \<Rightarrow> auth_db \<Rightarrow> authenticated option \<times> auth_db" where
  "authenticate e now t db = (case t of None \<Rightarrow> (None, db)
     | Some token \<Rightarrow> if \<not> token_is_canonical t then (None, db)
       else (case find_token (token_digest e token) db of None \<Rightarrow> (None, db)
         | Some s \<Rightarrow> if sn_revoked s \<noteq> None then (None, db)
             else if sn_expires s \<le> now \<or> sn_absolute s \<le> now then (None, delete_session (sn_id s) db)
             else (let s' = s\<lparr>sn_seen := now, sn_expires := min (now + ae_idle e) (sn_absolute s)\<rparr> in
               (Some (authentication_from_record e now s'), update_session (\<lambda>_. s') (sn_id s) db))))"

definition reauthenticate :: "auth_env \<Rightarrow> instant \<Rightarrow> session_seed \<Rightarrow> string \<Rightarrow> uuid \<Rightarrow> string \<Rightarrow> auth_db \<Rightarrow>
    (auth_error + issued_session) \<times> auth_db" where
  "reauthenticate e now d salt sid password db =
     (if \<not> authentication_input_is_bounded password then (Inl Invalid_credentials, db)
      else (case get_or_create_state db of (s, db1) \<Rightarrow>
        if login_blocked now s then (Inl Invalid_credentials, db1)
        else (case find_session sid db1 of
            None \<Rightarrow> (Inl Invalid_credentials, db1)
          | Some x \<Rightarrow>
              if sn_revoked x \<noteq> None then (Inl Invalid_credentials, db1)
              else if sn_expires x \<le> now \<or> sn_absolute x \<le> now then (Inl Invalid_credentials, delete_session sid db1)
              else (case ad_user db1 of
                  None \<Rightarrow> (Inl Invalid_credentials, save_login (record_login_failure now s) db1)
                | Some stored \<Rightarrow>
                    if \<not> ae_verify e stored password
                    then (Inl Invalid_credentials, save_login (record_login_failure now s) db1)
                    else (case issue_session e now d (update_session (revoke_session now) sid
                          ((save_login (login_passed s) db1)\<lparr>ad_user := Some (rehashed e salt password stored)\<rparr>)) of
                        Inl y \<Rightarrow> (Inl y, db) | Inr (i, db2) \<Rightarrow> (Inr i, db2))))))"

definition logout :: "instant \<Rightarrow> uuid \<Rightarrow> auth_db \<Rightarrow> auth_db" where
  "logout now sid db = (case find_session sid db of None \<Rightarrow> db
     | Some s \<Rightarrow> if sn_revoked s = None then update_session (revoke_session now) sid db else db)"

definition rotate_csrf :: "auth_env \<Rightarrow> instant \<Rightarrow> string \<Rightarrow> uuid \<Rightarrow> auth_db \<Rightarrow> (auth_error + string) \<times> auth_db" where
  "rotate_csrf e now token sid db = (case find_session sid db of None \<Rightarrow> (Inl Invalid_credentials, db)
     | Some s \<Rightarrow> if sn_revoked s \<noteq> None then (Inl Invalid_credentials, db)
         else if sn_expires s \<le> now \<or> sn_absolute s \<le> now then (Inl Invalid_credentials, db)
         else (Inr token, update_session (\<lambda>x. x\<lparr>sn_csrf := token_digest e token\<rparr>) sid db))"

definition cleanup_stale_sessions :: "instant \<Rightarrow> auth_db \<Rightarrow> auth_db" where
  "cleanup_stale_sessions now db = delete_stale_sessions now db"

definition verify_double_submit_csrf :: "string option \<Rightarrow> string option \<Rightarrow> bool" where
  "verify_double_submit_csrf cookie header \<longleftrightarrow> token_is_canonical cookie \<and> token_is_canonical header \<and> cookie = header"

definition verify_bound_csrf :: "auth_env \<Rightarrow> authenticated \<Rightarrow> string option \<Rightarrow> string option \<Rightarrow> bool" where
  "verify_bound_csrf e a cookie header \<longleftrightarrow> verify_double_submit_csrf cookie header \<and>
     (case header of None \<Rightarrow> False | Some t \<Rightarrow> an_csrf a = token_digest e t)"

definition csrf_cookie_is_bound :: "auth_env \<Rightarrow> authenticated \<Rightarrow> string option \<Rightarrow> bool" where
  "csrf_cookie_is_bound e a cookie = (case cookie of None \<Rightarrow> False
     | Some t \<Rightarrow> token_is_canonical cookie \<and> an_csrf a = token_digest e t)"

subsection \<open>Runs\<close>

datatype auth_command =
    Generate_token string
  | Bootstrap_status
  | Bootstrap_user instant session_seed string string string
  | Login instant session_seed string string "string option"
  | Authenticate instant "string option"
  | Reauthenticate instant session_seed string uuid string
  | Logout instant uuid
  | Rotate_csrf instant string uuid
  | Cleanup instant

datatype auth_answer = Generated string | Status_answer bool bool | Issued issued_session | Session_answer "authenticated option"
  | Rotated string | Auth_done | Auth_failed auth_error

definition issued_answer :: "(auth_error + issued_session) \<times> auth_db \<Rightarrow> auth_answer \<times> auth_db" where
  "issued_answer x = (case x of (Inl y, db) \<Rightarrow> (Auth_failed y, db) | (Inr i, db) \<Rightarrow> (Issued i, db))"

fun auth_exec :: "auth_env \<Rightarrow> auth_command \<Rightarrow> auth_db \<Rightarrow> auth_answer \<times> auth_db" where
  "auth_exec e (Generate_token token) db = (case generate_bootstrap_token e token db of
     (Inl y, db1) \<Rightarrow> (Auth_failed y, db1) | (Inr t, db1) \<Rightarrow> (Generated t, db1))"
| "auth_exec e Bootstrap_status db = (case bootstrap_status db of ((a, b), db1) \<Rightarrow> (Status_answer a b, db1))"
| "auth_exec e (Bootstrap_user now d salt token password) db = issued_answer (bootstrap e now d salt token password db)"
| "auth_exec e (Login now d salt password existing) db = issued_answer (login e now d salt password existing db)"
| "auth_exec e (Authenticate now t) db = (case authenticate e now t db of (a, db1) \<Rightarrow> (Session_answer a, db1))"
| "auth_exec e (Reauthenticate now d salt sid password) db = issued_answer (reauthenticate e now d salt sid password db)"
| "auth_exec e (Logout now sid) db = (Auth_done, logout now sid db)"
| "auth_exec e (Rotate_csrf now token sid) db = (case rotate_csrf e now token sid db of
     (Inl y, db1) \<Rightarrow> (Auth_failed y, db1) | (Inr t, db1) \<Rightarrow> (Rotated t, db1))"
| "auth_exec e (Cleanup now) db = (Auth_done, cleanup_stale_sessions now db)"

fun auth_run :: "auth_env \<Rightarrow> auth_command list \<Rightarrow> auth_db \<Rightarrow> auth_db" where
  "auth_run e [] db = db"
| "auth_run e (c # cs) db = auth_run e cs (snd (auth_exec e c db))"

fun auth_trace :: "auth_env \<Rightarrow> auth_command list \<Rightarrow> auth_db \<Rightarrow> (auth_command \<times> auth_answer) list" where
  "auth_trace e [] db = []"
| "auth_trace e (c # cs) db = (c, fst (auth_exec e c db)) # auth_trace e cs (snd (auth_exec e c db))"

definition empty_auth :: auth_db where
  "empty_auth = \<lparr>ad_state = None, ad_user = None, ad_sessions = []\<rparr>"

end
