(* ===== verification/Authentication_Gateway.thy ===== *)
theory Authentication_Gateway
  imports Authentication
begin

text \<open>
  The HTTP side of \<open>authentication.py\<close>: the body limit, the middleware that stands in front of every route
  (\<open>AuthenticationMiddleware.dispatch\<close>), the cookies, and the routes under \<open>/api/auth\<close>.  A request is what
  the code reads of it; every other route of the application is the parameter \<open>other\<close>, a function of the
  request and of the session the middleware admitted.  What an operation takes from the clock or at random
  is in \<open>auth_draws\<close>.
\<close>

subsection \<open>Requests and responses\<close>

datatype auth_body = Bootstrap_body string string | Password_body string | Other_body

record http_request =
  rq_method :: string
  rq_path :: string
  rq_origin :: "string option"
  rq_session :: "string option"
  rq_csrf :: "string option"
  rq_header :: "string option"
  rq_body :: auth_body

datatype auth_cookie =
    Session_cookie string int instant
  | Csrf_cookie string "instant option"
  | Clear_session
  | Clear_csrf

datatype response_body = Detail string | Session_body instant instant | Status_body bool bool | Empty_body | Other_response string

record http_response =
  rp_status :: int
  rp_body :: response_body
  rp_cookies :: "auth_cookie list"
  rp_no_store :: bool

record auth_draws =
  dw_gate :: instant
  dw_first :: instant
  dw_second :: instant
  dw_seed :: session_seed
  dw_salt :: string
  dw_token :: string

definition http_answer :: "int \<Rightarrow> response_body \<Rightarrow> auth_cookie list \<Rightarrow> http_response" where
  "http_answer code body cs = \<lparr>rp_status = code, rp_body = body, rp_cookies = cs, rp_no_store = False\<rparr>"

definition set_authenticated_cookies :: "issued_session \<Rightarrow> auth_cookie list" where
  "set_authenticated_cookies i = (let a = is_authentication i in
     [Session_cookie (is_token i) (max 0 ((an_absolute a - an_evaluated a) div 1000000)) (an_absolute a),
      Csrf_cookie (is_csrf i) (Some (an_absolute a))])"

definition clear_authentication_cookies :: "auth_cookie list" where
  "clear_authentication_cookies = [Clear_session, Clear_csrf]"

definition session_response :: "authenticated \<Rightarrow> response_body" where
  "session_response a = Session_body (an_expires a) (an_until a)"

definition require_recent_password :: "authenticated option \<Rightarrow> http_response + authenticated" where
  "require_recent_password s = (case s of
      None \<Rightarrow> Inl (http_answer 401 (Detail ''authentication required'') [])
    | Some a \<Rightarrow> if an_recent a then Inr a else Inl (http_answer 403 (Detail ''recent password authentication required'') []))"

subsection \<open>The middleware\<close>

definition public_endpoints :: "(string \<times> string) list" where
  "public_endpoints = [(''GET'', ''/health''), (''GET'', ''/api/auth/status''), (''POST'', ''/api/auth/bootstrap''), (''POST'', ''/api/auth/login'')]"

definition public_unsafe_endpoints :: "(string \<times> string) list" where
  "public_unsafe_endpoints = [(''POST'', ''/api/auth/bootstrap''), (''POST'', ''/api/auth/login'')]"

definition safe_methods :: "string list" where
  "safe_methods = [''GET'', ''HEAD'', ''OPTIONS'', ''TRACE'']"

definition external_endpoints :: "(string \<times> string) list" where
  "external_endpoints = [(''POST'', ''/api/github/webhooks'')]"

definition strip_slashes :: "string \<Rightarrow> string" where
  "strip_slashes s = rev (dropWhile (\<lambda>c. c = CHR ''/'') (rev s))"

definition prevent_authentication_caching :: "bool \<Rightarrow> http_response \<times> auth_db \<Rightarrow> http_response \<times> auth_db" where
  "prevent_authentication_caching enabled x = (if enabled then ((fst x)\<lparr>rp_no_store := True\<rparr>, snd x) else x)"

definition auth_dispatch :: "auth_env \<Rightarrow> string \<Rightarrow> instant \<Rightarrow> (authenticated option \<Rightarrow> auth_db \<Rightarrow> http_response \<times> auth_db) \<Rightarrow>
    http_request \<Rightarrow> auth_db \<Rightarrow> http_response \<times> auth_db" where
  "auth_dispatch e origin now call_next rq db = (let endpoint = (rq_method rq, rq_path rq) in
     if endpoint \<in> set external_endpoints then prevent_authentication_caching True (call_next None db)
     else (let public = endpoint \<in> set public_endpoints;
               no_store = (take 10 (rq_path rq) = ''/api/auth/'' \<or> \<not> public);
               unsafe = (rq_method rq \<notin> set safe_methods);
               forbidden = \<lambda>d db. prevent_authentication_caching no_store (http_answer 403 (Detail d) [], db) in
       if unsafe \<and> rq_origin rq \<noteq> Some (strip_slashes origin) then forbidden ''trusted origin required'' db
       else if public then
         (if endpoint \<in> set public_unsafe_endpoints \<and> \<not> verify_double_submit_csrf (rq_csrf rq) (rq_header rq)
          then forbidden ''CSRF validation failed'' db
          else prevent_authentication_caching no_store (call_next None db))
       else (case authenticate e now (rq_session rq) db of
           (None, db1) \<Rightarrow> prevent_authentication_caching no_store
             (http_answer 401 (Detail ''authentication required'') clear_authentication_cookies, db1)
         | (Some a, db1) \<Rightarrow>
             if unsafe \<and> \<not> verify_bound_csrf e a (rq_csrf rq) (rq_header rq) then forbidden ''CSRF validation failed'' db1
             else prevent_authentication_caching no_store (call_next (Some a) db1))))"

subsection \<open>The routes\<close>

definition status_route :: "auth_env \<Rightarrow> auth_draws \<Rightarrow> http_request \<Rightarrow> auth_db \<Rightarrow> http_response \<times> auth_db" where
  "status_route e w rq db = (case authenticate e (dw_first w) (rq_session rq) db of (current, db1) \<Rightarrow>
     (case (case current of None \<Rightarrow> ([Csrf_cookie (dw_token w) None], db1)
        | Some a \<Rightarrow> if csrf_cookie_is_bound e a (rq_csrf rq) then ([], db1)
            else (case rotate_csrf e (dw_second w) (dw_token w) (an_session a) db1 of
                (Inl x, db2) \<Rightarrow> (clear_authentication_cookies, db2)
              | (Inr t, db2) \<Rightarrow> ([Csrf_cookie t (Some (an_absolute a))], db2))) of (cookies, db2) \<Rightarrow>
       (case bootstrap_status db2 of ((required, available), db3) \<Rightarrow> (http_answer 200 (Status_body required available) cookies, db3))))"

definition issued_response :: "int \<Rightarrow> issued_session \<Rightarrow> http_response" where
  "issued_response code i = http_answer code (session_response (is_authentication i)) (set_authenticated_cookies i)"

definition failed_response :: "auth_error \<Rightarrow> http_response" where
  "failed_response x = (case x of
      Password_policy \<Rightarrow> http_answer 422 (Detail ''password must contain at least 15 characters and at most 1024 UTF-8 bytes'') []
    | Bootstrap_completed \<Rightarrow> http_answer 409 (Detail ''local authentication is already configured'') []
    | Bootstrap_unavailable \<Rightarrow> http_answer 503 (Detail ''bootstrap is not available'') []
    | Invalid_bootstrap_token \<Rightarrow> http_answer 403 (Detail ''bootstrap authorization failed'') []
    | Invalid_credentials \<Rightarrow> http_answer 401 (Detail ''invalid credentials'') []
    | Auth_integrity \<Rightarrow> http_answer 500 (Detail ''Internal Server Error'') [])"

definition issue_route :: "int \<Rightarrow> (auth_error + issued_session) \<times> auth_db \<Rightarrow> http_response \<times> auth_db" where
  "issue_route code x = (case x of (Inl y, db) \<Rightarrow> (failed_response y, db) | (Inr i, db) \<Rightarrow> (issued_response code i, db))"

definition invalid_request :: http_response where
  "invalid_request = http_answer 422 (Detail ''invalid request'') []"

definition bootstrap_route :: "auth_env \<Rightarrow> auth_draws \<Rightarrow> http_request \<Rightarrow> auth_db \<Rightarrow> http_response \<times> auth_db" where
  "bootstrap_route e w rq db = (case rq_body rq of
      Bootstrap_body token password \<Rightarrow> issue_route 201 (bootstrap e (dw_first w) (dw_seed w) (dw_salt w) token password db)
    | _ \<Rightarrow> (invalid_request, db))"

definition login_route :: "auth_env \<Rightarrow> auth_draws \<Rightarrow> http_request \<Rightarrow> auth_db \<Rightarrow> http_response \<times> auth_db" where
  "login_route e w rq db = (case rq_body rq of
      Password_body password \<Rightarrow> issue_route 200 (login e (dw_first w) (dw_seed w) (dw_salt w) password (rq_session rq) db)
    | _ \<Rightarrow> (invalid_request, db))"

definition session_route :: "auth_env \<Rightarrow> auth_draws \<Rightarrow> http_request \<Rightarrow> authenticated \<Rightarrow> auth_db \<Rightarrow> http_response \<times> auth_db" where
  "session_route e w rq a db = (if csrf_cookie_is_bound e a (rq_csrf rq) then (http_answer 200 (session_response a) [], db)
     else (case rotate_csrf e (dw_first w) (dw_token w) (an_session a) db of
         (Inl x, db1) \<Rightarrow> (http_answer 401 (Detail ''authentication required'') [], db1)
       | (Inr t, db1) \<Rightarrow> (http_answer 200 (session_response a) [Csrf_cookie t (Some (an_absolute a))], db1)))"

definition reauthenticate_route :: "auth_env \<Rightarrow> auth_draws \<Rightarrow> http_request \<Rightarrow> authenticated \<Rightarrow> auth_db \<Rightarrow> http_response \<times> auth_db" where
  "reauthenticate_route e w rq a db = (case rq_body rq of
      Password_body password \<Rightarrow> issue_route 200 (reauthenticate e (dw_first w) (dw_seed w) (dw_salt w) (an_session a) password db)
    | _ \<Rightarrow> (invalid_request, db))"

definition logout_route :: "auth_draws \<Rightarrow> authenticated \<Rightarrow> auth_db \<Rightarrow> http_response \<times> auth_db" where
  "logout_route w a db = (http_answer 204 Empty_body clear_authentication_cookies, logout (dw_first w) (an_session a) db)"

definition require_authenticated_session :: "(authenticated \<Rightarrow> auth_db \<Rightarrow> http_response \<times> auth_db) \<Rightarrow> authenticated option \<Rightarrow> auth_db \<Rightarrow>
    http_response \<times> auth_db" where
  "require_authenticated_session handler s db = (case s of
      None \<Rightarrow> (http_answer 401 (Detail ''authentication required'') [], db) | Some a \<Rightarrow> handler a db)"

definition authentication_router :: "auth_env \<Rightarrow> (http_request \<Rightarrow> authenticated option \<Rightarrow> http_response) \<Rightarrow> auth_draws \<Rightarrow> http_request \<Rightarrow>
    authenticated option \<Rightarrow> auth_db \<Rightarrow> http_response \<times> auth_db" where
  "authentication_router e other w rq s db = (let endpoint = (rq_method rq, rq_path rq) in
     if endpoint = (''GET'', ''/api/auth/status'') then status_route e w rq db
     else if endpoint = (''POST'', ''/api/auth/bootstrap'') then bootstrap_route e w rq db
     else if endpoint = (''POST'', ''/api/auth/login'') then login_route e w rq db
     else if endpoint = (''GET'', ''/api/auth/session'') then require_authenticated_session (session_route e w rq) s db
     else if endpoint = (''POST'', ''/api/auth/reauthenticate'') then require_authenticated_session (reauthenticate_route e w rq) s db
     else if endpoint = (''POST'', ''/api/auth/logout'') then require_authenticated_session (logout_route w) s db
     else (other rq s, db))"

subsection \<open>The body limit\<close>

datatype asgi_message = Http_request nat bool | Http_disconnect | Other_message

definition body_endpoints :: "(string \<times> string) list" where
  "body_endpoints = [(''POST'', ''/api/auth/bootstrap''), (''POST'', ''/api/auth/login''), (''POST'', ''/api/auth/reauthenticate'')]"

text \<open>What the loop does with the messages the client sends: refuse, or hand the captured ones on.\<close>

fun capture_body :: "nat \<Rightarrow> nat \<Rightarrow> asgi_message list \<Rightarrow> asgi_message list option" where
  "capture_body limit received [] = Some []"
| "capture_body limit received (Http_disconnect # ms) = Some [Http_disconnect]"
| "capture_body limit received (Other_message # ms) = map_option (\<lambda>cs. Other_message # cs) (capture_body limit received ms)"
| "capture_body limit received (Http_request n again # ms) =
     (if limit < received + n then None
      else if \<not> again then Some [Http_request n again]
      else map_option (\<lambda>cs. Http_request n again # cs) (capture_body limit (received + n) ms))"

text \<open>\<open>declared\<close> is the parsed \<open>Content-Length\<close>; \<open>app\<close> gets the captured messages first, then what is still to come.\<close>

definition body_limit :: "nat \<Rightarrow> (asgi_message list \<Rightarrow> asgi_message list \<Rightarrow> 'r) \<Rightarrow> 'r \<Rightarrow> int option \<Rightarrow> string \<Rightarrow> string \<Rightarrow> asgi_message list \<Rightarrow> 'r" where
  "body_limit limit app too_large declared verb path ms =
     (if (verb, path) \<notin> set body_endpoints then app [] ms
      else if (case declared of None \<Rightarrow> False | Some n \<Rightarrow> int limit < max 0 n) then too_large
      else (case capture_body limit 0 ms of None \<Rightarrow> too_large | Some cs \<Rightarrow> app cs (drop (length cs) ms)))"

definition too_large_response :: http_response where
  "too_large_response = (http_answer 413 (Detail ''authentication request body too large'') [])\<lparr>rp_no_store := True\<rparr>"

subsection \<open>The server\<close>

datatype http_event = Bootstrap_token_main string | Served auth_draws http_request | Cleanup_event instant

definition serve :: "auth_env \<Rightarrow> string \<Rightarrow> (http_request \<Rightarrow> authenticated option \<Rightarrow> http_response) \<Rightarrow> auth_draws \<Rightarrow> http_request \<Rightarrow>
    auth_db \<Rightarrow> http_response \<times> auth_db" where
  "serve e origin other w rq db = auth_dispatch e origin (dw_gate w) (authentication_router e other w rq) rq db"

fun server_step :: "auth_env \<Rightarrow> string \<Rightarrow> (http_request \<Rightarrow> authenticated option \<Rightarrow> http_response) \<Rightarrow> http_event \<Rightarrow> auth_db \<Rightarrow> auth_db" where
  "server_step e origin other (Bootstrap_token_main t) db = snd (generate_bootstrap_token e t db)"
| "server_step e origin other (Served w rq) db = snd (serve e origin other w rq db)"
| "server_step e origin other (Cleanup_event now) db = cleanup_stale_sessions now db"

fun server_run :: "auth_env \<Rightarrow> string \<Rightarrow> (http_request \<Rightarrow> authenticated option \<Rightarrow> http_response) \<Rightarrow> http_event list \<Rightarrow> auth_db \<Rightarrow> auth_db" where
  "server_run e origin other [] db = db"
| "server_run e origin other (x # xs) db = server_run e origin other xs (server_step e origin other x db)"

end
