(* ===== verification/Authentication_Properties.thy ===== *)
theory Authentication_Properties
  imports Authentication
begin

text \<open>
  What every run of the authentication service keeps, and what follows for the sessions it admits and
  the number of passwords that can be tried.
\<close>

subsection \<open>Runs\<close>

lemma auth_run_snoc: "auth_run e (cs @ [c]) db = snd (auth_exec e c (auth_run e cs db))"
  by (induction cs arbitrary: db) simp_all

lemma auth_trace_snoc: "auth_trace e (cs @ [c]) db = auth_trace e cs db @ [(c, fst (auth_exec e c (auth_run e cs db)))]"
  by (induction cs arbitrary: db) simp_all

lemma auth_run_induct:
  assumes "P [] db" and "\<And>es db c. c \<in> set cs \<Longrightarrow> P es db \<Longrightarrow> P (es @ [(c, fst (auth_exec e c db))]) (snd (auth_exec e c db))"
  shows "P (auth_trace e cs db) (auth_run e cs db)"
  using assms(2)
proof (induction cs rule: rev_induct)
  case (snoc c cs)
  have "P (auth_trace e cs db) (auth_run e cs db)" by (rule snoc.IH) (simp add: snoc.prems)
  then show ?case using snoc.prems by (simp add: auth_run_snoc auth_trace_snoc)
qed (simp add: assms(1))

subsection \<open>Where a session comes from\<close>

definition password_of :: "auth_command \<Rightarrow> string option" where
  "password_of c = (case c of Bootstrap_user _ _ _ _ p \<Rightarrow> Some p | Login _ _ _ p _ \<Rightarrow> Some p | Reauthenticate _ _ _ _ p \<Rightarrow> Some p
     | _ \<Rightarrow> None)"

definition passwords :: "auth_command list \<Rightarrow> string set" where
  "passwords cs = {p. \<exists>c \<in> set cs. password_of c = Some p}"

text \<open>Verification accepts the password that was hashed and, of the passwords that are tried, no other.\<close>

definition verifies :: "auth_env \<Rightarrow> string set \<Rightarrow> bool" where
  "verifies e P \<longleftrightarrow> (\<forall>salt. \<forall>p \<in> P. \<forall>q \<in> P. ae_verify e (ae_hash e salt p) q \<longleftrightarrow> q = p)"

definition bootstrapped :: "(auth_command \<times> auth_answer) list \<Rightarrow> string list" where
  "bootstrapped es = List.map_filter (\<lambda>(c, a). case (c, a) of (Bootstrap_user _ _ _ _ p, Issued _) \<Rightarrow> Some p | _ \<Rightarrow> None) es"

definition issued_at :: "issued_session \<Rightarrow> instant" where
  "issued_at i = an_evaluated (is_authentication i)"

definition issued_id :: "issued_session \<Rightarrow> uuid" where
  "issued_id i = an_session (is_authentication i)"

definition ends_session :: "uuid \<Rightarrow> auth_command \<times> auth_answer \<Rightarrow> bool" where
  "ends_session sid x \<longleftrightarrow> (case x of (Logout _ i, _) \<Rightarrow> i = sid | (Reauthenticate _ _ _ i _, Issued _) \<Rightarrow> i = sid | _ \<Rightarrow> False)"

definition session_uses :: "issued_session \<Rightarrow> (auth_command \<times> auth_answer) list \<Rightarrow> instant set" where
  "session_uses i es = insert (issued_at i) {an_evaluated a | a. Session_answer (Some a) \<in> snd ` set es \<and> an_session a = issued_id i}"

definition csrf_tokens :: "issued_session \<Rightarrow> (auth_command \<times> auth_answer) list \<Rightarrow> string set" where
  "csrf_tokens i es = insert (is_csrf i) {t. \<exists>now x. (Rotate_csrf now x (issued_id i), Rotated t) \<in> set es}"

definition session_from :: "auth_env \<Rightarrow> string \<Rightarrow> (auth_command \<times> auth_answer) list \<Rightarrow> session_row \<Rightarrow>
    (auth_command \<times> auth_answer) list \<Rightarrow> auth_command \<Rightarrow> issued_session \<Rightarrow> (auth_command \<times> auth_answer) list \<Rightarrow> bool" where
  "session_from e p es s es1 c i es2 \<longleftrightarrow> es = es1 @ (c, Issued i) # es2 \<and> password_of c = Some p \<and>
     token_digest e (is_token i) = sn_token s \<and> issued_id i = sn_id s \<and> sn_reauth s = issued_at i \<and>
     sn_absolute s = issued_at i + ae_absolute e \<and> (\<forall>x \<in> set es2. \<not> ends_session (sn_id s) x) \<and>
     (\<exists>t \<in> session_uses i es2. sn_expires s \<le> t + ae_idle e) \<and> sn_csrf s \<in> token_digest e ` csrf_tokens i es2"

definition session_live :: "auth_env \<Rightarrow> string \<Rightarrow> (auth_command \<times> auth_answer) list \<Rightarrow> session_row \<Rightarrow> bool" where
  "session_live e p es s \<longleftrightarrow> (\<exists>es1 c i es2. session_from e p es s es1 c i es2)"

lemma session_live_more:
  assumes "session_live e p es s" "\<not> ends_session (sn_id s) x"
  shows "session_live e p (es @ [x]) s"
proof -
  obtain es1 c i es2 where f: "session_from e p es s es1 c i es2" using assms(1) by (auto simp: session_live_def)
  have "session_uses i es2 \<subseteq> session_uses i (es2 @ [x])" "csrf_tokens i es2 \<subseteq> csrf_tokens i (es2 @ [x])"
    by (auto simp: session_uses_def csrf_tokens_def)
  then have "session_from e p (es @ [x]) s es1 c i (es2 @ [x])" using f assms(2) unfolding session_from_def by auto
  then show ?thesis by (auto simp: session_live_def)
qed

lemma session_live_used:
  assumes "session_live e p es s" "an_session a = sn_id s"
  shows "session_live e p (es @ [(Authenticate now t, Session_answer (Some a))])
    (s\<lparr>sn_seen := now, sn_expires := min (an_evaluated a + ae_idle e) (sn_absolute s)\<rparr>)"
proof -
  obtain es1 c i es2 where f: "session_from e p es s es1 c i es2" using assms(1) by (auto simp: session_live_def)
  let ?x = "(Authenticate now t, Session_answer (Some a))" and ?s = "s\<lparr>sn_seen := now, sn_expires := min (an_evaluated a + ae_idle e) (sn_absolute s)\<rparr>"
  have "issued_id i = sn_id s" using f by (simp add: session_from_def)
  then have "an_evaluated a \<in> session_uses i (es2 @ [?x])" using assms(2) unfolding session_uses_def by (auto intro!: exI [of _ a])
  moreover have "sn_expires ?s \<le> an_evaluated a + ae_idle e" by simp
  ultimately have "\<exists>u \<in> session_uses i (es2 @ [?x]). sn_expires ?s \<le> u + ae_idle e" by blast
  moreover have "csrf_tokens i es2 \<subseteq> csrf_tokens i (es2 @ [?x])" by (auto simp: csrf_tokens_def)
  ultimately have "session_from e p (es @ [?x]) ?s es1 c i (es2 @ [?x])"
    using f unfolding session_from_def by (auto simp: ends_session_def)
  then show ?thesis by (auto simp: session_live_def)
qed

lemma session_live_csrf:
  assumes "session_live e p es s"
  shows "session_live e p (es @ [(Rotate_csrf now x (sn_id s), Rotated t)]) (s\<lparr>sn_csrf := token_digest e t\<rparr>)"
proof -
  let ?x = "(Rotate_csrf now x (sn_id s), Rotated t)"
  obtain es1 c i es2 where f: "session_from e p es s es1 c i es2" using assms by (auto simp: session_live_def)
  have "session_uses i es2 \<subseteq> session_uses i (es2 @ [?x])" "t \<in> csrf_tokens i (es2 @ [?x])"
    using f by (auto simp: session_uses_def csrf_tokens_def session_from_def)
  then have "session_from e p (es @ [?x]) (s\<lparr>sn_csrf := token_digest e t\<rparr>) es1 c i (es2 @ [?x])"
    using f unfolding session_from_def by (auto simp: ends_session_def)
  then show ?thesis by (auto simp: session_live_def)
qed

lemma session_live_new:
  assumes "password_of c = Some p" "is_token i = sd_token d" "is_csrf i = sd_csrf d" "issued_id i = sd_id d" "issued_at i = now"
  shows "session_live e p (es @ [(c, Issued i)]) (issued_row e now d)"
proof -
  have "session_from e p (es @ [(c, Issued i)]) (issued_row e now d) es c i []"
    using assms by (auto simp: session_from_def issued_row_def session_uses_def csrf_tokens_def)
  then show ?thesis by (auto simp: session_live_def)
qed

subsection \<open>The steps\<close>

lemma issue_session_Inr:
  assumes "issue_session e now d db = Inr (i, db')"
  shows "is_token i = sd_token d" "is_csrf i = sd_csrf d" "issued_id i = sd_id d" "issued_at i = now"
    "ad_sessions db' = filter (\<lambda>s. \<not> stale_session now s) (ad_sessions db) @ [issued_row e now d]"
    "ad_user db' = ad_user db" "ad_state db' = ad_state db"
    "sd_id d \<notin> sn_id ` set (filter (\<lambda>s. \<not> stale_session now s) (ad_sessions db))"
  using assms by (auto simp: issue_session_def Let_def delete_stale_sessions_def authentication_from_record_def
      issued_id_def issued_at_def issued_row_def list_ex_iff split: if_split_asm)

lemma update_session_simps [simp]:
  "ad_user (update_session f i db) = ad_user db" "ad_state (update_session f i db) = ad_state db"
  "ad_sessions (update_session f i db) = upd_rows (\<lambda>s. sn_id s = i) f (ad_sessions db)"
  by (simp_all add: update_session_def)

lemma ids_update: "(\<And>s. sn_id (f s) = sn_id s) \<Longrightarrow> map sn_id (upd_rows Q f ss) = map sn_id ss"
  by (induction ss) auto

lemma revoked_stale: "s \<in> set (upd_rows Q (revoke_session now) ss) \<Longrightarrow> \<not> stale_session now s \<Longrightarrow> s \<in> set ss \<and> \<not> Q s"
  by (induction ss) (auto simp: revoke_session_def stale_session_def split: if_split_asm)

lemma revoke_token_frame:
  "ad_user (revoke_token e now t db) = ad_user db" "ad_state (revoke_token e now t db) = ad_state db"
  "map sn_id (ad_sessions (revoke_token e now t db)) = map sn_id (ad_sessions db)"
  "s \<in> set (ad_sessions (revoke_token e now t db)) \<Longrightarrow> \<not> stale_session now s \<Longrightarrow> s \<in> set (ad_sessions db)"
  using ids_update [of "revoke_session now"] revoked_stale [of s _ now "ad_sessions db"]
  by (auto simp: revoke_token_def revoke_session_def split: option.split option.split_asm if_split_asm)

text \<open>A session is issued to whoever knows the password; it joins what is left of the old sessions.\<close>

definition sessions_join :: "auth_env \<Rightarrow> instant \<Rightarrow> session_seed \<Rightarrow> auth_db \<Rightarrow> auth_db \<Rightarrow> bool" where
  "sessions_join e now d db db' \<longleftrightarrow> (\<exists>ss. ad_sessions db' = ss @ [issued_row e now d] \<and> set ss \<subseteq> set (ad_sessions db) \<and>
     sd_id d \<notin> sn_id ` set ss \<and> (distinct (map sn_id (ad_sessions db)) \<longrightarrow> distinct (map sn_id ss)))"

lemma issue_session_joins:
  assumes "issue_session e now d db1 = Inr (i, db')" "map sn_id (ad_sessions db1) = map sn_id (ad_sessions db)"
    and "\<And>s. s \<in> set (ad_sessions db1) \<Longrightarrow> \<not> stale_session now s \<Longrightarrow> s \<in> set (ad_sessions db)"
  shows "sessions_join e now d db db'"
proof -
  let ?ss = "filter (\<lambda>s. \<not> stale_session now s) (ad_sessions db1)"
  have "distinct (map sn_id ?ss)" if "distinct (map sn_id (ad_sessions db))"
    using that assms(2) by (metis distinct_map_filter)
  then show ?thesis unfolding sessions_join_def using issue_session_Inr(5,8) [OF assms(1)] assms(3) by (intro exI [of _ ?ss]) auto
qed

lemma get_or_create_frame:
  "get_or_create_state db = (s, db1) \<Longrightarrow> ad_user db1 = ad_user db \<and> ad_sessions db1 = ad_sessions db \<and> ad_state db1 = Some s"
  by (auto simp: get_or_create_state_def split: option.split_asm)

lemma save_login_simps [simp]: "ad_user (save_login s db) = ad_user db" "ad_sessions (save_login s db) = ad_sessions db"
  "ad_state (save_login s db) = Some s"
  by (simp_all add: save_login_def)

text \<open>The steps that issue nothing keep the user and drop sessions at most.\<close>

definition sessions_kept :: "auth_db \<Rightarrow> auth_db \<Rightarrow> bool" where
  "sessions_kept db db' \<longleftrightarrow> ad_user db' = ad_user db \<and> set (ad_sessions db') \<subseteq> set (ad_sessions db) \<and>
     (distinct (map sn_id (ad_sessions db)) \<longrightarrow> distinct (map sn_id (ad_sessions db')))"

lemma sessions_kept_same: "ad_user db' = ad_user db \<Longrightarrow> ad_sessions db' = ad_sessions db \<Longrightarrow> sessions_kept db db'"
  by (simp add: sessions_kept_def)

lemma sessions_kept_filter: "ad_user db' = ad_user db \<Longrightarrow> ad_sessions db' = filter Q (ad_sessions db) \<Longrightarrow> sessions_kept db db'"
  by (auto simp: sessions_kept_def distinct_map_filter)

lemma bootstrap_Inr:
  assumes "bootstrap e now d salt token password db = (Inr i, db')"
  shows "ad_user db = None \<and> ad_user db' = Some (ae_hash e salt password) \<and> sessions_join e now d db db' \<and>
    is_token i = sd_token d \<and> is_csrf i = sd_csrf d \<and> issued_id i = sd_id d \<and> issued_at i = now"
proof -
  obtain s db1 where g: "get_or_create_state db = (s, db1)" by force
  note f = get_or_create_frame [OF g]
  let ?db = "(save_login ((login_passed s)\<lparr>lg_digest := None\<rparr>) db1)\<lparr>ad_user := Some (ae_hash e salt password)\<rparr>"
  have u: "ad_user db = None" and iss: "issue_session e now d ?db = Inr (i, db')"
    using assms f by (auto simp: bootstrap_def g split: if_split_asm option.split_asm sum.split_asm)
  have "sessions_join e now d db db'" by (rule issue_session_joins [OF iss]) (use f in auto)
  then show ?thesis using u issue_session_Inr [OF iss] by simp
qed

lemma bootstrap_Inl: "bootstrap e now d salt token password db = (Inl x, db') \<Longrightarrow> db' = db"
  by (auto simp: bootstrap_def split: if_split_asm option.split_asm sum.split_asm prod.split_asm)

lemma login_Inr:
  assumes "login e now d salt password existing db = (Inr i, db')"
  shows "\<exists>stored. ad_user db = Some stored \<and> ae_verify e stored password \<and> ad_user db' = Some (rehashed e salt password stored) \<and>
    sessions_join e now d db db' \<and> is_token i = sd_token d \<and> is_csrf i = sd_csrf d \<and> issued_id i = sd_id d \<and> issued_at i = now"
proof -
  obtain s db1 where g: "get_or_create_state db = (s, db1)" by force
  note f = get_or_create_frame [OF g]
  obtain stored where st: "ad_user db = Some stored" "ae_verify e stored password"
    and iss: "issue_session e now d (revoke_token e now existing
      ((save_login (login_passed s) db1)\<lparr>ad_user := Some (rehashed e salt password stored)\<rparr>)) = Inr (i, db')"
    using assms f by (auto simp: login_def g split: if_split_asm option.split_asm sum.split_asm)
  have "sessions_join e now d db db'"
    by (rule issue_session_joins [OF iss]) (use f in \<open>auto simp: revoke_token_frame(3) dest: revoke_token_frame(4)\<close>)
  then show ?thesis using st issue_session_Inr [OF iss] by (simp add: revoke_token_frame)
qed

lemma login_Inl:
  assumes "login e now d salt password existing db = (Inl x, db')"
  shows "sessions_kept db db'"
proof -
  obtain s db1 where g: "get_or_create_state db = (s, db1)" by force
  show ?thesis using assms get_or_create_frame [OF g]
    by (intro sessions_kept_same) (auto simp: login_def g split: if_split_asm option.split_asm sum.split_asm prod.split_asm)
qed

lemma reauthenticate_Inr:
  assumes "reauthenticate e now d salt sid password db = (Inr i, db')"
  shows "\<exists>stored ss. ad_user db = Some stored \<and> ae_verify e stored password \<and> ad_user db' = Some (rehashed e salt password stored) \<and>
    ad_sessions db' = ss @ [issued_row e now d] \<and> set ss \<subseteq> {s \<in> set (ad_sessions db). sn_id s \<noteq> sid} \<and> sd_id d \<notin> sn_id ` set ss \<and>
    (distinct (map sn_id (ad_sessions db)) \<longrightarrow> distinct (map sn_id ss)) \<and>
    is_token i = sd_token d \<and> is_csrf i = sd_csrf d \<and> issued_id i = sd_id d \<and> issued_at i = now"
proof -
  obtain s db1 where g: "get_or_create_state db = (s, db1)" by force
  note f = get_or_create_frame [OF g]
  obtain stored where st: "ad_user db = Some stored" "ae_verify e stored password"
    and iss: "issue_session e now d (update_session (revoke_session now) sid
      ((save_login (login_passed s) db1)\<lparr>ad_user := Some (rehashed e salt password stored)\<rparr>)) = Inr (i, db')"
    using assms f by (auto simp: reauthenticate_def g split: if_split_asm option.split_asm sum.split_asm)
  let ?us = "upd_rows (\<lambda>s. sn_id s = sid) (revoke_session now) (ad_sessions db)"
  let ?ss = "filter (\<lambda>s. \<not> stale_session now s) ?us"
  note r = issue_session_Inr [OF iss]
  have ids: "map sn_id ?us = map sn_id (ad_sessions db)" by (rule ids_update) (simp add: revoke_session_def)
  have "distinct (map sn_id ?ss)" if "distinct (map sn_id (ad_sessions db))" using that ids by (metis distinct_map_filter)
  moreover have "set ?ss \<subseteq> {s \<in> set (ad_sessions db). sn_id s \<noteq> sid}" using revoked_stale by fastforce
  ultimately show ?thesis using st r f by (intro exI [of _ stored] exI [of _ ?ss]) auto
qed

lemma reauthenticate_Inl:
  assumes "reauthenticate e now d salt sid password db = (Inl x, db')"
  shows "sessions_kept db db'"
proof -
  obtain s db1 where g: "get_or_create_state db = (s, db1)" by force
  have "ad_user db' = ad_user db \<and> (ad_sessions db' = ad_sessions db \<or> ad_sessions db' = filter (\<lambda>s. sn_id s \<noteq> sid) (ad_sessions db))"
    using assms get_or_create_frame [OF g]
    by (auto simp: reauthenticate_def g delete_session_def split: if_split_asm option.split_asm sum.split_asm prod.split_asm)
  then show ?thesis using sessions_kept_same sessions_kept_filter by metis
qed

subsection \<open>The invariant\<close>

definition auth_inv :: "auth_env \<Rightarrow> string set \<Rightarrow> (auth_command \<times> auth_answer) list \<Rightarrow> auth_db \<Rightarrow> bool" where
  "auth_inv e P es db \<longleftrightarrow> distinct (map sn_id (ad_sessions db)) \<and>
     (case ad_user db of
        None \<Rightarrow> bootstrapped es = [] \<and> ad_sessions db = [] \<and> (\<forall>c i. (c, Issued i) \<notin> set es)
      | Some h \<Rightarrow> (\<exists>p \<in> P. \<exists>salt. bootstrapped es = [p] \<and> h = ae_hash e salt p \<and>
          (\<forall>c i. (c, Issued i) \<in> set es \<longrightarrow> password_of c = Some p) \<and>
          (\<forall>s \<in> set (ad_sessions db). sn_revoked s = None \<longrightarrow> session_live e p es s)))"

lemma bootstrapped_append [simp]: "bootstrapped (es @ fs) = bootstrapped es @ bootstrapped fs" "bootstrapped [] = []"
  by (simp_all add: bootstrapped_def List.map_filter_def)

lemma bootstrapped_one:
  "(\<And>now d salt t p i. x \<noteq> (Bootstrap_user now d salt t p, Issued i)) \<Longrightarrow> bootstrapped [x] = []"
  by (cases x; cases "fst x"; cases "snd x") (simp_all add: bootstrapped_def map_filter_simps)

lemma auth_inv_Some:
  assumes "auth_inv e P es db" "ad_user db = Some h"
  obtains p salt where "p \<in> P" "bootstrapped es = [p]" "h = ae_hash e salt p"
    "\<And>c i. (c, Issued i) \<in> set es \<Longrightarrow> password_of c = Some p"
    "\<And>s. s \<in> set (ad_sessions db) \<Longrightarrow> sn_revoked s = None \<Longrightarrow> session_live e p es s"
proof -
  have "\<exists>p \<in> P. \<exists>salt. bootstrapped es = [p] \<and> h = ae_hash e salt p \<and> (\<forall>c i. (c, Issued i) \<in> set es \<longrightarrow> password_of c = Some p) \<and>
      (\<forall>s \<in> set (ad_sessions db). sn_revoked s = None \<longrightarrow> session_live e p es s)"
    using assms by (simp add: auth_inv_def)
  then show thesis using that by blast
qed

text \<open>A step that issues nothing.\<close>

lemma auth_inv_moved:
  assumes "auth_inv e P es db" "ad_user db' = ad_user db" "map sn_id (ad_sessions db) = [] \<Longrightarrow> ad_sessions db' = []"
    and "distinct (map sn_id (ad_sessions db)) \<Longrightarrow> distinct (map sn_id (ad_sessions db'))" "\<And>i. snd x \<noteq> Issued i"
    and "\<And>p s. s \<in> set (ad_sessions db') \<Longrightarrow> sn_revoked s = None \<Longrightarrow> (\<And>s. s \<in> set (ad_sessions db) \<Longrightarrow> sn_revoked s = None \<Longrightarrow> session_live e p es s) \<Longrightarrow>
      session_live e p (es @ [x]) s"
  shows "auth_inv e P (es @ [x]) db'"
proof -
  have b: "bootstrapped [x] = []" by (rule bootstrapped_one) (metis assms(5) snd_conv)
  have n: "(c, Issued i) \<in> set (es @ [x]) \<longleftrightarrow> (c, Issued i) \<in> set es" for c i using assms(5) [of i] by auto
  have d: "distinct (map sn_id (ad_sessions db'))" using assms(1,4) by (simp add: auth_inv_def)
  show ?thesis
  proof (cases "ad_user db")
    case None
    then show ?thesis using assms(1-3) b d unfolding auth_inv_def n by simp
  next
    case (Some h)
    then obtain p salt where p: "p \<in> P" "bootstrapped es = [p]" "h = ae_hash e salt p"
      "\<And>c i. (c, Issued i) \<in> set es \<Longrightarrow> password_of c = Some p" "\<And>s. s \<in> set (ad_sessions db) \<Longrightarrow> sn_revoked s = None \<Longrightarrow> session_live e p es s"
      using auth_inv_Some [OF assms(1)] by blast
    have "\<forall>s \<in> set (ad_sessions db'). sn_revoked s = None \<longrightarrow> session_live e p (es @ [x]) s" using assms(6) p(5) by blast
    then show ?thesis using Some p(1-4) b d assms(2) unfolding auth_inv_def n by (auto intro!: bexI [of _ p] exI [of _ salt])
  qed
qed

lemma auth_inv_kept:
  assumes "auth_inv e P es db" "sessions_kept db db'" "\<And>i. a \<noteq> Issued i" "\<And>i. \<not> ends_session i (c, a)"
  shows "auth_inv e P (es @ [(c, a)]) db'"
proof (rule auth_inv_moved [OF assms(1)])
  show "ad_sessions db' = []" if "map sn_id (ad_sessions db) = []" using that assms(2) by (simp add: sessions_kept_def)
  show "session_live e p (es @ [(c, a)]) s" if "s \<in> set (ad_sessions db')" "sn_revoked s = None"
    "\<And>s. s \<in> set (ad_sessions db) \<Longrightarrow> sn_revoked s = None \<Longrightarrow> session_live e p es s" for p s
  proof (rule session_live_more [OF that(3) assms(4)])
    show "s \<in> set (ad_sessions db)" using that(1) assms(2) by (auto simp: sessions_kept_def)
  qed (rule that(2))
qed (use assms(2,3) in \<open>auto simp: sessions_kept_def\<close>)

text \<open>A step that issues a session.\<close>

lemma auth_inv_issued:
  assumes "auth_inv e P es db" "p \<in> P" "password_of c = Some p" "ad_user db' = Some (ae_hash e salt p)"
    and "bootstrapped (es @ [(c, Issued i)]) = [p]" "\<And>c i. (c, Issued i) \<in> set es \<Longrightarrow> password_of c = Some p"
    and "\<And>s. s \<in> set (ad_sessions db) \<Longrightarrow> sn_revoked s = None \<Longrightarrow> session_live e p es s"
    and "ad_sessions db' = ss @ [issued_row e now d]" "set ss \<subseteq> set (ad_sessions db)" "sd_id d \<notin> sn_id ` set ss" "distinct (map sn_id ss)"
    and "\<And>s. s \<in> set ss \<Longrightarrow> \<not> ends_session (sn_id s) (c, Issued i)"
    and "is_token i = sd_token d" "is_csrf i = sd_csrf d" "issued_id i = sd_id d" "issued_at i = now"
  shows "auth_inv e P (es @ [(c, Issued i)]) db'"
proof -
  have "session_live e p (es @ [(c, Issued i)]) s" if s: "s \<in> set (ad_sessions db')" "sn_revoked s = None" for s
  proof (cases "s \<in> set ss")
    case True
    then show ?thesis using session_live_more [OF assms(7) assms(12)] assms(9) s(2) by blast
  next
    case False
    then have "s = issued_row e now d" using s(1) assms(8) by auto
    then show ?thesis using session_live_new [OF assms(3,13-16)] by simp
  qed
  moreover have "distinct (map sn_id (ad_sessions db'))" using assms(8,10,11) by (auto simp: issued_row_def)
  ultimately show ?thesis using assms(2-6) by (auto simp: auth_inv_def intro!: bexI [of _ p] exI [of _ salt])
qed


lemma distinct_ids_eq: "distinct (map sn_id ss) \<Longrightarrow> s \<in> set ss \<Longrightarrow> t \<in> set ss \<Longrightarrow> sn_id s = sn_id t \<Longrightarrow> s = t"
  by (meson distinct_key_unique)

lemma set_upd_rows_id:
  "distinct (map sn_id ss) \<Longrightarrow> s \<in> set ss \<Longrightarrow> t \<in> set (upd_rows (\<lambda>x. sn_id x = sn_id s) f ss) \<Longrightarrow> t = f s \<or> t \<in> set ss \<and> sn_id t \<noteq> sn_id s"
  by (auto simp: upd_rows_def dest: distinct_ids_eq split: if_split_asm)

lemma set_upd_rows_cases: "t \<in> set (upd_rows Q f ss) \<Longrightarrow> \<exists>s \<in> set ss. t = (if Q s then f s else s)"
  by (induction ss) (auto split: if_split_asm)

lemma auth_inv_authenticate:
  assumes "auth_inv e P es db" "authenticate e now t db = (Some a, db')"
  shows "auth_inv e P (es @ [(Authenticate now t, Session_answer (Some a))]) db'"
proof -
  obtain token s where s: "find_token (token_digest e token) db = Some s" "sn_revoked s = None"
    "a = authentication_from_record e now (s\<lparr>sn_seen := now, sn_expires := min (now + ae_idle e) (sn_absolute s)\<rparr>)"
    "db' = update_session (\<lambda>_. s\<lparr>sn_seen := now, sn_expires := min (now + ae_idle e) (sn_absolute s)\<rparr>) (sn_id s) db"
    using assms(2) by (auto simp: authenticate_def Let_def split: option.split_asm if_split_asm)
  let ?s = "s\<lparr>sn_seen := now, sn_expires := min (now + ae_idle e) (sn_absolute s)\<rparr>" and ?x = "(Authenticate now t, Session_answer (Some a))"
  have m: "s \<in> set (ad_sessions db)" using s(1) by (auto simp: find_token_def find_Some_iff)
  have d: "distinct (map sn_id (ad_sessions db))" using assms(1) by (simp add: auth_inv_def)
  have an: "an_session a = sn_id s" "an_evaluated a = now" unfolding s(3) by (simp_all add: authentication_from_record_def Let_def)
  have sess: "ad_sessions db' = upd_rows (\<lambda>x. sn_id x = sn_id s) (\<lambda>_. ?s) (ad_sessions db)" unfolding s(4) by simp
  have ids: "map sn_id (ad_sessions db') = map sn_id (ad_sessions db)"
    unfolding sess upd_rows_def by auto
  show ?thesis
  proof (rule auth_inv_moved [OF assms(1)])
    show "ad_user db' = ad_user db" unfolding s(4) by simp
    show "session_live e p (es @ [?x]) u" if "u \<in> set (ad_sessions db')" "sn_revoked u = None"
      "\<And>s. s \<in> set (ad_sessions db) \<Longrightarrow> sn_revoked s = None \<Longrightarrow> session_live e p es s" for p u
    proof (cases "u = ?s")
      case True
      have "session_live e p (es @ [?x]) (s\<lparr>sn_seen := now, sn_expires := min (an_evaluated a + ae_idle e) (sn_absolute s)\<rparr>)"
        by (rule session_live_used [OF that(3) [OF m s(2)] an(1)])
      then show ?thesis using True an(2) by simp
    next
      case False
      then have "u \<in> set (ad_sessions db)" using set_upd_rows_id [OF d m that(1) [unfolded sess]] by blast
      then show ?thesis by (rule session_live_more [OF that(3) [OF _ that(2)]]) (simp add: ends_session_def)
    qed
  qed (use ids m in auto)
qed

lemma auth_inv_rotate:
  assumes "auth_inv e P es db" "rotate_csrf e now token sid db = (Inr t, db')"
  shows "auth_inv e P (es @ [(Rotate_csrf now token sid, Rotated t)]) db'"
proof -
  have u: "db' = update_session (\<lambda>x. x\<lparr>sn_csrf := token_digest e token\<rparr>) sid db" "t = token"
    using assms(2) by (auto simp: rotate_csrf_def split: option.split_asm if_split_asm)
  show ?thesis
  proof (rule auth_inv_moved [OF assms(1)])
    show "session_live e p (es @ [(Rotate_csrf now token sid, Rotated t)]) s" if "s \<in> set (ad_sessions db')" "sn_revoked s = None"
      "\<And>s. s \<in> set (ad_sessions db) \<Longrightarrow> sn_revoked s = None \<Longrightarrow> session_live e p es s" for p s
    proof -
      have "\<exists>s0 \<in> set (ad_sessions db). s = (if sn_id s0 = sid then s0\<lparr>sn_csrf := token_digest e token\<rparr> else s0)"
        by (rule set_upd_rows_cases) (use that(1) in \<open>simp add: u\<close>)
      then obtain s0 where s0: "s0 \<in> set (ad_sessions db)"
        "s = (if sn_id s0 = sid then s0\<lparr>sn_csrf := token_digest e token\<rparr> else s0)" by blast
      have "sn_revoked s0 = None" using s0(2) that(2) by (auto split: if_split_asm)
      then have l: "session_live e p es s0" by (rule that(3) [OF s0(1)])
      show ?thesis
      proof (cases "sn_id s0 = sid")
        case True
        then show ?thesis using session_live_csrf [OF l, of now token token] s0(2) u(2) by simp
      next
        case False
        then show ?thesis using session_live_more [OF l] s0(2) by (simp add: ends_session_def)
      qed
    qed
  qed (use u ids_update [of "\<lambda>x::session_row. x\<lparr>sn_csrf := token_digest e token\<rparr>"] in auto)
qed

lemma auth_inv_logout:
  assumes "auth_inv e P es db"
  shows "auth_inv e P (es @ [(Logout now sid, Auth_done)]) (logout now sid db)"
proof (rule auth_inv_moved [OF assms])
  have d: "distinct (map sn_id (ad_sessions db))" using assms by (simp add: auth_inv_def)
  have l: "logout now sid db = db \<or> logout now sid db = update_session (revoke_session now) sid db"
    by (simp add: logout_def split: option.split)
  have gone: "s \<in> set (ad_sessions db) \<and> sn_id s \<noteq> sid" if "s \<in> set (ad_sessions (logout now sid db))" "sn_revoked s = None" for s
  proof (cases "find_session sid db")
    case None
    have "logout now sid db = db" by (simp add: logout_def None)
    then show ?thesis using that None by (auto simp: find_session_def find_None_iff)
  next
    case (Some x)
    then have x: "x \<in> set (ad_sessions db)" "sn_id x = sid" by (auto simp: find_session_def find_Some_iff)
    show ?thesis
    proof (cases "sn_revoked x = None")
      case True
      then show ?thesis using that Some by (auto simp: logout_def upd_rows_def revoke_session_def split: if_split_asm)
    next
      case False
      then show ?thesis using that Some x distinct_ids_eq [OF d, of s x] by (auto simp: logout_def)
    qed
  qed
  show "session_live e p (es @ [(Logout now sid, Auth_done)]) s" if "s \<in> set (ad_sessions (logout now sid db))" "sn_revoked s = None"
    "\<And>s. s \<in> set (ad_sessions db) \<Longrightarrow> sn_revoked s = None \<Longrightarrow> session_live e p es s" for p s
  proof (rule session_live_more [OF that(3) [OF conjunct1 [OF gone [OF that(1,2)]] that(2)]])
    show "\<not> ends_session (sn_id s) (Logout now sid, Auth_done)" using gone [OF that(1,2)] by (auto simp: ends_session_def)
  qed
  show "ad_user (logout now sid db) = ad_user db" using l by auto
  show "ad_sessions (logout now sid db) = []" if "map sn_id (ad_sessions db) = []" using l that by auto
  show "distinct (map sn_id (ad_sessions (logout now sid db)))" using l d ids_update [of "revoke_session now"] by (auto simp: revoke_session_def)
qed simp

text \<open>Every step: a password that verifies is the one the user was bootstrapped with.\<close>

lemma verifies_eq: "verifies e P \<Longrightarrow> p \<in> P \<Longrightarrow> q \<in> P \<Longrightarrow> ae_verify e (ae_hash e salt p) q \<Longrightarrow> q = p"
  by (simp add: verifies_def)

lemma rehashed_eq: "stored = ae_hash e salt0 p \<Longrightarrow> \<exists>salt1. rehashed e salt p stored = ae_hash e salt1 p"
  by (auto simp: rehashed_def)

lemma auth_inv_readmitted:
  assumes "auth_inv e P es db" "verifies e P" "password_of c = Some q" "q \<in> P"
    and "ad_user db = Some stored" "ae_verify e stored q" "ad_user db' = Some (rehashed e salt q stored)"
    and "bootstrapped [(c, Issued i)] = []"
    and "ad_sessions db' = ss @ [issued_row e now d]" "set ss \<subseteq> set (ad_sessions db)" "sd_id d \<notin> sn_id ` set ss"
    and "distinct (map sn_id (ad_sessions db)) \<longrightarrow> distinct (map sn_id ss)"
    and "\<And>s. s \<in> set ss \<Longrightarrow> \<not> ends_session (sn_id s) (c, Issued i)"
    and "is_token i = sd_token d" "is_csrf i = sd_csrf d" "issued_id i = sd_id d" "issued_at i = now"
  shows "auth_inv e P (es @ [(c, Issued i)]) db'"
proof -
  obtain p salt0 where p: "p \<in> P" "bootstrapped es = [p]" "stored = ae_hash e salt0 p"
    "\<And>c i. (c, Issued i) \<in> set es \<Longrightarrow> password_of c = Some p"
    "\<And>s. s \<in> set (ad_sessions db) \<Longrightarrow> sn_revoked s = None \<Longrightarrow> session_live e p es s"
    using auth_inv_Some [OF assms(1,5)] by blast
  have q: "q = p" by (rule verifies_eq [OF assms(2) p(1) assms(4) assms(6) [unfolded p(3)]])
  obtain salt1 where u: "ad_user db' = Some (ae_hash e salt1 p)" using assms(7) rehashed_eq [OF p(3)] unfolding q by auto
  have d: "distinct (map sn_id ss)" using assms(1,12) by (simp add: auth_inv_def)
  have b: "bootstrapped (es @ [(c, Issued i)]) = [p]" using p(2) assms(8) by simp
  show ?thesis
    by (rule auth_inv_issued [OF assms(1) p(1) assms(3) [unfolded q] u b p(4) p(5) assms(9-11) d assms(13-17)])
qed

lemma auth_inv_none:
  assumes "auth_inv e P es db" "ad_user db = None"
  shows "bootstrapped es = []" "ad_sessions db = []" "(c, Issued i) \<notin> set es"
  using assms by (auto simp: auth_inv_def)

lemma get_or_create_kept: "get_or_create_state db = (s, db1) \<Longrightarrow> sessions_kept db db1 \<and> sessions_kept db (save_login s' db1)"
  using get_or_create_frame [of db s db1] by (auto intro!: sessions_kept_same)

lemma generate_kept: "sessions_kept db (snd (generate_bootstrap_token e token db))"
  using get_or_create_kept by (auto simp: generate_bootstrap_token_def sessions_kept_def split: prod.split)

lemma status_kept: "sessions_kept db (snd (bootstrap_status db))"
  using get_or_create_kept by (auto simp: bootstrap_status_def sessions_kept_def split: prod.split)

lemma cleanup_kept: "sessions_kept db (cleanup_stale_sessions now db)"
  by (rule sessions_kept_filter) (simp_all add: cleanup_stale_sessions_def delete_stale_sessions_def)

lemma authenticate_none: "authenticate e now t db = (None, db') \<Longrightarrow> sessions_kept db db'"
  by (auto simp: authenticate_def delete_session_def Let_def intro: sessions_kept_same sessions_kept_filter
      split: option.split_asm if_split_asm)

lemma rotate_kept: "rotate_csrf e now token sid db = (Inl x, db') \<Longrightarrow> sessions_kept db db'"
  by (auto simp: rotate_csrf_def intro: sessions_kept_same split: option.split_asm if_split_asm)

lemma bootstrapped_answers [simp]:
  "bootstrapped [(c, Generated t)] = []" "bootstrapped [(c, Status_answer x y)] = []" "bootstrapped [(c, Session_answer a)] = []"
  "bootstrapped [(c, Rotated t)] = []" "bootstrapped [(c, Auth_done)] = []" "bootstrapped [(c, Auth_failed er)] = []"
  "bootstrapped [(Bootstrap_user now d salt t p, Issued i)] = [p]"
  "bootstrapped [(Login now d salt p o', Issued i)] = []" "bootstrapped [(Reauthenticate now d salt sid p, Issued i)] = []"
  by (simp_all add: bootstrapped_def List.map_filter_def split: auth_command.split)

lemma auth_inv_bootstrap:
  assumes "auth_inv e P es db" "password \<in> P" "bootstrap e now d salt token password db = (Inr i, db')"
  shows "auth_inv e P (es @ [(Bootstrap_user now d salt token password, Issued i)]) db'"
proof -
  note b = bootstrap_Inr [OF assms(3)]
  note n = auth_inv_none [OF assms(1) conjunct1 [OF b]]
  have s: "ad_sessions db' = [] @ [issued_row e now d]" using b n(2) by (auto simp: sessions_join_def)
  show ?thesis
    by (rule auth_inv_issued [OF assms(1,2) _ _ _ _ _ s]) (use b n in \<open>auto simp: password_of_def\<close>)
qed

lemma auth_inv_login:
  assumes "auth_inv e P es db" "verifies e P" "password \<in> P" "login e now d salt password existing db = (Inr i, db')"
  shows "auth_inv e P (es @ [(Login now d salt password existing, Issued i)]) db'"
proof -
  obtain stored ss where l: "ad_user db = Some stored" "ae_verify e stored password" "ad_user db' = Some (rehashed e salt password stored)"
    "ad_sessions db' = ss @ [issued_row e now d]" "set ss \<subseteq> set (ad_sessions db)" "sd_id d \<notin> sn_id ` set ss"
    "distinct (map sn_id (ad_sessions db)) \<longrightarrow> distinct (map sn_id ss)" "is_token i = sd_token d" "is_csrf i = sd_csrf d" "issued_id i = sd_id d" "issued_at i = now"
    using login_Inr [OF assms(4)] unfolding sessions_join_def by blast
  show ?thesis
    by (rule auth_inv_readmitted [OF assms(1,2) _ assms(3) l(1-3) _ l(4-7) _ l(8-11)])
      (simp_all add: password_of_def ends_session_def)
qed

lemma auth_inv_reauthenticate:
  assumes "auth_inv e P es db" "verifies e P" "password \<in> P" "reauthenticate e now d salt sid password db = (Inr i, db')"
  shows "auth_inv e P (es @ [(Reauthenticate now d salt sid password, Issued i)]) db'"
proof -
  obtain stored ss where l: "ad_user db = Some stored" "ae_verify e stored password" "ad_user db' = Some (rehashed e salt password stored)"
    "ad_sessions db' = ss @ [issued_row e now d]" "set ss \<subseteq> {s \<in> set (ad_sessions db). sn_id s \<noteq> sid}" "sd_id d \<notin> sn_id ` set ss"
    "distinct (map sn_id (ad_sessions db)) \<longrightarrow> distinct (map sn_id ss)" "is_token i = sd_token d" "is_csrf i = sd_csrf d" "issued_id i = sd_id d" "issued_at i = now"
    using reauthenticate_Inr [OF assms(4)] by blast
  have sub: "set ss \<subseteq> set (ad_sessions db)" using l(5) by blast
  show ?thesis
    by (rule auth_inv_readmitted [OF assms(1,2) _ assms(3) l(1-3) _ l(4) sub l(6,7) _ l(8-11)])
      (use l(5) in \<open>auto simp: password_of_def ends_session_def\<close>)
qed

lemma auth_inv_answered:
  assumes "auth_inv e P es db" "sessions_kept db db'" "\<And>i. a \<noteq> Issued i" "\<And>now sid. c \<noteq> Logout now sid"
  shows "auth_inv e P (es @ [(c, a)]) db'"
  by (rule auth_inv_kept [OF assms(1-3)])
    (use assms(3,4) in \<open>auto simp: ends_session_def split: auth_command.split auth_answer.split\<close>)

lemma auth_step_inv:
  assumes "auth_inv e P es db" "verifies e P" "\<And>p. password_of c = Some p \<Longrightarrow> p \<in> P"
  shows "auth_inv e P (es @ [(c, fst (auth_exec e c db))]) (snd (auth_exec e c db))"
proof (cases c)
  case (Generate_token t)
  then show ?thesis using auth_inv_answered [OF assms(1) generate_kept [of db e t]]
    by (auto split: prod.split sum.split simp: case_prod_beta)
next
  case Bootstrap_status
  then show ?thesis using auth_inv_answered [OF assms(1) status_kept] by (auto simp: case_prod_beta)
next
  case (Bootstrap_user now d salt t p)
  obtain r db' where r: "bootstrap e now d salt t p db = (r, db')" by force
  have p: "p \<in> P" using assms(3) Bootstrap_user by (simp add: password_of_def)
  show ?thesis
  proof (cases r)
    case (Inl x)
    then show ?thesis using Bootstrap_user r auth_inv_answered [OF assms(1) sessions_kept_same] bootstrap_Inl [of e now d salt t p db x db']
      by (auto simp: issued_answer_def)
  next
    case (Inr i)
    then show ?thesis using Bootstrap_user r auth_inv_bootstrap [OF assms(1) p] by (auto simp: issued_answer_def)
  qed
next
  case (Login now d salt p old)
  obtain r db' where r: "login e now d salt p old db = (r, db')" by force
  have p: "p \<in> P" using assms(3) Login by (simp add: password_of_def)
  show ?thesis
  proof (cases r)
    case (Inl x)
    then show ?thesis using Login r auth_inv_answered [OF assms(1) login_Inl [of e now d salt p old db x db']] by (auto simp: issued_answer_def)
  next
    case (Inr i)
    then show ?thesis using Login r auth_inv_login [OF assms(1,2) p] by (auto simp: issued_answer_def)
  qed
next
  case (Authenticate now t)
  obtain r db' where r: "authenticate e now t db = (r, db')" by force
  show ?thesis
  proof (cases r)
    case None
    then show ?thesis using Authenticate r auth_inv_answered [OF assms(1) authenticate_none [of e now t db db']] by auto
  next
    case (Some a)
    then show ?thesis using Authenticate r auth_inv_authenticate [OF assms(1)] by auto
  qed
next
  case (Reauthenticate now d salt sid p)
  obtain r db' where r: "reauthenticate e now d salt sid p db = (r, db')" by force
  have p: "p \<in> P" using assms(3) Reauthenticate by (simp add: password_of_def)
  show ?thesis
  proof (cases r)
    case (Inl x)
    then show ?thesis using Reauthenticate r auth_inv_answered [OF assms(1) reauthenticate_Inl [of e now d salt sid p db x db']]
      by (auto simp: issued_answer_def)
  next
    case (Inr i)
    then show ?thesis using Reauthenticate r auth_inv_reauthenticate [OF assms(1,2) p] by (auto simp: issued_answer_def)
  qed
next
  case (Logout now sid)
  then show ?thesis using auth_inv_logout [OF assms(1)] by simp
next
  case (Rotate_csrf now token sid)
  obtain r db' where r: "rotate_csrf e now token sid db = (r, db')" by force
  show ?thesis
  proof (cases r)
    case (Inl x)
    then show ?thesis using Rotate_csrf r auth_inv_answered [OF assms(1) rotate_kept [of e now token sid db x db']] by auto
  next
    case (Inr t)
    then show ?thesis using Rotate_csrf r auth_inv_rotate [OF assms(1)] by auto
  qed
next
  case (Cleanup now)
  then show ?thesis using auth_inv_answered [OF assms(1) cleanup_kept] by simp
qed

lemma auth_run_inv:
  assumes "verifies e (passwords cs)"
  shows "auth_inv e (passwords cs) (auth_trace e cs empty_auth) (auth_run e cs empty_auth)"
  by (rule auth_run_induct [where P = "auth_inv e (passwords cs)"])
    (use auth_step_inv [OF _ assms] in \<open>auto simp: auth_inv_def empty_auth_def passwords_def\<close>)

text \<open>Where the session of an admitted token comes from.\<close>

definition provenance :: "auth_env \<Rightarrow> instant \<Rightarrow> string \<Rightarrow> authenticated \<Rightarrow> (auth_command \<times> auth_answer) list \<Rightarrow> bool" where
  "provenance e now t a es \<longleftrightarrow> (\<exists>p es1 c i es2. es = es1 @ (c, Issued i) # es2 \<and> bootstrapped es = [p] \<and> password_of c = Some p \<and>
     token_digest e t = token_digest e (is_token i) \<and> an_session a = issued_id i \<and>
     (\<forall>x \<in> set es2. \<not> ends_session (issued_id i) x) \<and> an_csrf a \<in> token_digest e ` csrf_tokens i es2 \<and>
     now < issued_at i + ae_absolute e \<and> (\<exists>u \<in> session_uses i es2. now < u + ae_idle e) \<and>
     (an_recent a \<longrightarrow> issued_at i \<le> now \<and> now < issued_at i + ae_reauth e))"

lemma authenticate_provenance:
  assumes "auth_inv e P es db" "authenticate e now (Some t) db = (Some a, db')"
  shows "provenance e now t a es"
proof -
  let ?used = "\<lambda>s. s\<lparr>sn_seen := now, sn_expires := min (now + ae_idle e) (sn_absolute s)\<rparr>"
  obtain s where s: "find_token (token_digest e t) db = Some s" "sn_revoked s = None" "now < sn_expires s" "now < sn_absolute s"
    "a = authentication_from_record e now (?used s)"
    using assms(2) by (auto simp: authenticate_def Let_def not_le split: option.split_asm if_split_asm)
  have m: "s \<in> set (ad_sessions db)" "sn_token s = token_digest e t" using s(1) by (auto simp: find_token_def find_Some_iff)
  obtain h where h: "ad_user db = Some h" using m(1) assms(1) by (cases "ad_user db") (auto simp: auth_inv_def)
  obtain p where p: "bootstrapped es = [p]" "session_live e p es s" using auth_inv_Some [OF assms(1) h] m(1) s(2) by metis
  obtain es1 c i es2 where f: "session_from e p es s es1 c i es2" using p(2) by (auto simp: session_live_def)
  obtain u where u: "u \<in> session_uses i es2" "sn_expires s \<le> u + ae_idle e" using f by (auto simp: session_from_def)
  have an: "an_session a = sn_id s" "an_csrf a = sn_csrf s" "an_recent a = (sn_reauth s \<le> now \<and> now < sn_reauth s + ae_reauth e)"
    unfolding s(5) by (simp_all add: authentication_from_record_def Let_def)
  have "now < u + ae_idle e" using u(2) s(3) by simp
  then have "\<exists>u \<in> session_uses i es2. now < u + ae_idle e" using u(1) by blast
  then show ?thesis unfolding provenance_def
    using f p(1) m(2) s(4) an by (intro exI [of _ p] exI [of _ es1] exI [of _ c] exI [of _ i] exI [of _ es2]) (simp add: session_from_def)
qed

text \<open>
  Throughout any run of the service, a token that is admitted belongs to a session that was issued, earlier
  in the run, to the password of the one bootstrapped user.
\<close>

theorem session_provenance:
  assumes "verifies e (passwords cs)" "authenticate e now (Some t) (auth_run e cs empty_auth) = (Some a, db)"
  shows "provenance e now t a (auth_trace e cs empty_auth)"
  by (rule authenticate_provenance [OF auth_run_inv [OF assms(1)] assms(2)])

subsection \<open>Guessing\<close>

text \<open>The commands that check a password, when it is checked, and the times of the wrong ones.\<close>

definition login_state :: "auth_db \<Rightarrow> login_row" where
  "login_state db = fst (get_or_create_state db)"

definition matches_user :: "auth_env \<Rightarrow> auth_db \<Rightarrow> string \<Rightarrow> bool" where
  "matches_user e db p = (case ad_user db of None \<Rightarrow> False | Some h \<Rightarrow> ae_verify e h p)"

definition wrong_guess :: "auth_env \<Rightarrow> auth_command \<Rightarrow> auth_db \<Rightarrow> instant option" where
  "wrong_guess e c db = (case c of
      Login now d salt p old \<Rightarrow>
        if authentication_input_is_bounded p \<and> \<not> login_blocked now (login_state db) \<and> \<not> matches_user e db p then Some now else None
    | Reauthenticate now d salt sid p \<Rightarrow>
        if authentication_input_is_bounded p \<and> \<not> login_blocked now (login_state db) \<and> \<not> matches_user e db p \<and>
           (case find_session sid db of None \<Rightarrow> False | Some s \<Rightarrow> \<not> stale_session now s) then Some now else None
    | _ \<Rightarrow> None)"

fun wrong_guesses :: "auth_env \<Rightarrow> auth_command list \<Rightarrow> auth_db \<Rightarrow> instant list" where
  "wrong_guesses e [] db = []"
| "wrong_guesses e (c # cs) db = (case wrong_guess e c db of None \<Rightarrow> [] | Some now \<Rightarrow> [now]) @ wrong_guesses e cs (snd (auth_exec e c db))"

lemma login_state_frame [simp]:
  "login_state (db\<lparr>ad_sessions := ss\<rparr>) = login_state db" "login_state (update_session f i db) = login_state db"
  "login_state (delete_session i db) = login_state db" "login_state (save_login s db) = s"
  "login_state (db\<lparr>ad_user := u\<rparr>) = login_state db"
  by (simp_all add: login_state_def get_or_create_state_def update_session_def delete_session_def save_login_def split: option.split)

lemma login_state_created: "get_or_create_state db = (s, db1) \<Longrightarrow> login_state db = s \<and> login_state db1 = s \<and> ad_user db1 = ad_user db \<and>
    ad_sessions db1 = ad_sessions db"
  by (auto simp: login_state_def get_or_create_state_def split: option.split_asm)

text \<open>A wrong guess is recorded as a failure; nothing else but a session that is issued touches the throttle.\<close>

lemma wrong_guess_recorded:
  assumes "wrong_guess e c db = Some now"
  shows "login_state (snd (auth_exec e c db)) = record_login_failure now (login_state db) \<and> \<not> login_blocked now (login_state db)"
proof -
  obtain s db1 where g: "get_or_create_state db = (s, db1)" by force
  show ?thesis using assms login_state_created [OF g]
    by (auto simp: wrong_guess_def login_def reauthenticate_def g issued_answer_def matches_user_def find_session_def stale_session_def
        split: auth_command.split_asm if_split_asm option.split_asm option.split)
qed

definition same_throttle :: "login_row \<Rightarrow> login_row \<Rightarrow> bool" where
  "same_throttle s t \<longleftrightarrow> lg_failures s = lg_failures t \<and> lg_blocked s = lg_blocked t"

lemma no_guess_keeps:
  assumes "wrong_guess e c db = None" "\<nexists>i. fst (auth_exec e c db) = Issued i"
  shows "same_throttle (login_state (snd (auth_exec e c db))) (login_state db)"
proof -
  obtain s db1 where g: "get_or_create_state db = (s, db1)" by force
  show ?thesis
  proof (cases c)
    case (Login now d salt p old)
    then show ?thesis using assms login_state_created [OF g]
      by (auto simp: same_throttle_def wrong_guess_def login_def g issued_answer_def matches_user_def
          split: if_split_asm option.split_asm sum.split_asm prod.split_asm option.split sum.split)
  next
    case (Reauthenticate now d salt sid p)
    then show ?thesis using assms login_state_created [OF g]
      by (auto simp: same_throttle_def wrong_guess_def reauthenticate_def g issued_answer_def matches_user_def find_session_def stale_session_def
          split: if_split_asm option.split_asm sum.split_asm prod.split_asm option.split sum.split)
  next
    case (Bootstrap_user now d salt t p)
    then show ?thesis using assms(2) bootstrap_Inl [of e now d salt t p db]
      by (cases "bootstrap e now d salt t p db") (auto simp: same_throttle_def issued_answer_def split: sum.split sum.split_asm)
  next
    case (Authenticate now t)
    then show ?thesis by (auto simp: same_throttle_def authenticate_def Let_def split: option.split prod.split)
  qed (use login_state_created [OF g] in \<open>auto simp: same_throttle_def generate_bootstrap_token_def bootstrap_status_def logout_def rotate_csrf_def
      cleanup_stale_sessions_def delete_stale_sessions_def g split: option.split\<close>)
qed

lemma issued_resets:
  assumes "fst (auth_exec e c db) = Issued i"
  shows "lg_failures (login_state (snd (auth_exec e c db))) = 0"
proof -
  have r: "login_state db' = login_state db0" if "issue_session e now d db0 = Inr (j, db')" for now d db0 j db'
    using issue_session_Inr(7) [OF that] by (simp add: login_state_def get_or_create_state_def split: option.split)
  obtain s db1 where g: "get_or_create_state db = (s, db1)" by force
  have rt: "login_state (revoke_token e now t x) = login_state x" for now t x
    by (simp add: login_state_def get_or_create_state_def revoke_token_frame split: option.split)
  show ?thesis
  proof (cases c)
    case (Login now d salt p old)
    then show ?thesis using assms login_state_created [OF g]
      by (auto simp: login_def g issued_answer_def login_passed_def rt dest!: r split: if_split_asm option.split_asm sum.split_asm)
  next
    case (Reauthenticate now d salt sid p)
    then show ?thesis using assms login_state_created [OF g]
      by (auto simp: reauthenticate_def g issued_answer_def login_passed_def dest!: r split: if_split_asm option.split_asm sum.split_asm)
  next
    case (Bootstrap_user now d salt t p)
    then show ?thesis using assms login_state_created [OF g]
      by (auto simp: bootstrap_def g issued_answer_def login_passed_def dest!: r split: if_split_asm option.split_asm sum.split_asm)
  qed (use assms in \<open>auto split: prod.split_asm sum.split_asm\<close>)
qed

lemma failures_nonneg: "0 \<le> lg_failures (login_state (auth_run e cs empty_auth))"
proof (induction cs rule: rev_induct)
  case Nil
  then show ?case by (simp add: login_state_def get_or_create_state_def empty_auth_def fresh_login_def)
next
  case (snoc c cs)
  let ?db = "auth_run e cs empty_auth"
  consider now where "wrong_guess e c ?db = Some now" | i where "fst (auth_exec e c ?db) = Issued i"
    | "wrong_guess e c ?db = None" "\<nexists>i. fst (auth_exec e c ?db) = Issued i" by (cases "wrong_guess e c ?db") auto
  then show ?case
  proof cases
    case 1
    then show ?thesis using snoc.IH wrong_guess_recorded [OF 1] by (simp add: auth_run_snoc record_login_failure_def Let_def)
  next
    case 2
    then show ?thesis using issued_resets by (simp add: auth_run_snoc)
  next
    case 3
    then show ?thesis using snoc.IH no_guess_keeps [OF 3] by (simp add: auth_run_snoc same_throttle_def)
  qed
qed

text \<open>The pace the throttle imposes.\<close>

fun paced :: "login_row \<Rightarrow> instant list \<Rightarrow> bool" where
  "paced s [] = True"
| "paced s (w # ws) = (\<not> login_blocked w s \<and> paced (record_login_failure w s) ws)"

lemma paced_same: "same_throttle s t \<Longrightarrow> paced s ws = paced t ws"
proof (induction ws arbitrary: s t)
  case (Cons w ws)
  have "same_throttle (record_login_failure w s) (record_login_failure w t)"
    using Cons.prems by (simp add: same_throttle_def record_login_failure_def Let_def)
  then have "paced (record_login_failure w s) ws = paced (record_login_failure w t) ws" by (rule Cons.IH)
  moreover have "login_blocked w s = login_blocked w t" using Cons.prems by (simp add: same_throttle_def login_blocked_def)
  ultimately show ?case by simp
qed simp

lemma paced_run: "(\<And>x i. x \<in> set (auth_trace e cs db) \<Longrightarrow> snd x \<noteq> Issued i) \<Longrightarrow> paced (login_state db) (wrong_guesses e cs db)"
proof (induction cs arbitrary: db)
  case (Cons c cs)
  let ?db = "snd (auth_exec e c db)"
  have n: "\<nexists>i. fst (auth_exec e c db) = Issued i" using Cons.prems by fastforce
  have p: "paced (login_state ?db) (wrong_guesses e cs ?db)" by (rule Cons.IH) (use Cons.prems in auto)
  show ?case
  proof (cases "wrong_guess e c db")
    case None
    then show ?thesis using p paced_same [OF no_guess_keeps [OF None n]] by simp
  next
    case (Some now)
    then show ?thesis using p wrong_guess_recorded [OF Some] by simp
  qed
qed simp

lemma paced_append: "paced s (us @ ws) = (paced s us \<and> paced (fold record_login_failure us s) ws)"
  by (induction us arbitrary: s) auto

lemma fold_failures: "0 \<le> lg_failures s \<Longrightarrow> min (int (length us)) 16 \<le> lg_failures (fold record_login_failure us s)"
  by (induction us rule: rev_induct) (auto simp: record_login_failure_def Let_def)

lemma long_block: "12 \<le> lg_failures s \<Longrightarrow> lg_blocked (record_login_failure w s) = Some (w + 300000000)"
proof -
  assume f: "12 \<le> lg_failures s"
  have "(2::int) ^ 9 \<le> 2 ^ nat (min (lg_failures s + 1) 16 - 5 + 1)" by (rule power_increasing) (use f in auto)
  then show ?thesis using f by (simp add: record_login_failure_def Let_def)
qed

lemma paced_long:
  "paced s ws \<Longrightarrow> 13 \<le> lg_failures s \<Longrightarrow> lg_blocked s = Some b \<Longrightarrow> (\<And>w. w \<in> set ws \<Longrightarrow> w \<le> t1) \<Longrightarrow> ws \<noteq> [] \<Longrightarrow>
   b + 300000000 * (int (length ws) - 1) \<le> t1"
proof (induction ws arbitrary: s b)
  case (Cons w ws)
  have w: "b \<le> w" "w \<le> t1" using Cons.prems by (auto simp: login_blocked_def)
  have l: "13 \<le> lg_failures (record_login_failure w s)" "lg_blocked (record_login_failure w s) = Some (w + 300000000)"
    using Cons.prems(2) long_block [of s w] by (auto simp: record_login_failure_def Let_def)
  show ?case
  proof (cases "ws = []")
    case False
    have "w + 300000000 + 300000000 * (int (length ws) - 1) \<le> t1" by (rule Cons.IH [OF _ l _ False]) (use Cons.prems in auto)
    then show ?thesis using w by simp
  qed (use w in simp)
qed simp

lemma paced_bound:
  assumes "paced s ws" "0 \<le> lg_failures s" "t0 \<le> t1" "\<And>w. w \<in> set ws \<Longrightarrow> t0 \<le> w \<and> w \<le> t1"
  shows "int (length ws) \<le> 13 + (t1 - t0) div 300000000"
proof (cases "length ws \<le> 13")
  case True
  have "0 \<le> (t1 - t0) div 300000000" using assms(3) by simp
  then show ?thesis using True by linarith
next
  case False
  let ?us = "take 12 ws" and ?w = "ws ! 12" and ?vs = "drop 13 ws"
  have ws: "ws = ?us @ ?w # ?vs" using False id_take_nth_drop [of 12 ws] by simp
  let ?s = "fold record_login_failure ?us s"
  have f: "12 \<le> lg_failures ?s" using fold_failures [OF assms(2), of ?us] False by simp
  have p: "paced (record_login_failure ?w ?s) ?vs" using assms(1) by (subst (asm) ws) (simp add: paced_append)
  have "13 \<le> lg_failures (record_login_failure ?w ?s)" using f by (simp add: record_login_failure_def Let_def)
  then have "?w + 300000000 + 300000000 * (int (length ?vs) - 1) \<le> t1"
    by (rule paced_long [OF p _ long_block [OF f]]) (use assms(4) False in \<open>auto dest: in_set_dropD\<close>)
  moreover have "t0 \<le> ?w" using assms(4) False by simp
  ultimately have "300000000 * (int (length ws) - 13) \<le> t1 - t0" using False by (simp add: of_nat_diff)
  then have "int (length ws) - 13 \<le> (t1 - t0) div 300000000" using zdiv_mono1 [of "300000000 * (int (length ws) - 13)" _ 300000000] by simp
  then show ?thesis by simp
qed


definition sample_auth :: auth_env where
  "sample_auth = \<lparr>ae_H = \<lambda>s. s, ae_hash = \<lambda>salt p. p, ae_verify = \<lambda>h p. h = p, ae_rehash = \<lambda>_. False, ae_dummy = '''',
     ae_idle = 1800000000, ae_absolute = 28800000000, ae_reauth = 300000000\<rparr>"

definition sample_token :: string where
  "sample_token = replicate 43 (CHR ''A'')"

definition sample_seed :: session_seed where
  "sample_seed = \<lparr>sd_id = 1, sd_token = replicate 43 (CHR ''B''), sd_csrf = replicate 43 (CHR ''C'')\<rparr>"

definition sample_setup :: "auth_command list" where
  "sample_setup = [Generate_token sample_token, Bootstrap_user 1 sample_seed '''' sample_token ''correct horse battery'']"

definition sample_guesses :: "auth_command list" where
  "sample_guesses = map (\<lambda>t. Login t sample_seed '''' ''guess'' None) [2, 3, 4, 5, 6, 7]"

lemma sample_guessed: "wrong_guesses sample_auth sample_guesses (auth_run sample_auth sample_setup empty_auth) = [2, 3, 4, 5, 6]"
  by code_simp

lemma sample_refused: "map snd (auth_trace sample_auth sample_guesses (auth_run sample_auth sample_setup empty_auth)) =
    replicate 6 (Auth_failed Invalid_credentials)"
  by code_simp


end
