(* ===== verification/Authentication_Gateway_Properties.thy ===== *)
theory Authentication_Gateway_Properties
  imports Authentication_Gateway Authentication_Properties
begin

text \<open>
  The server runs the operations of the service, in the order \<open>server_commands\<close> lists, so that what holds of
  every run of the service holds behind the middleware: a protected route is only reached with a session
  that the user's password was given for, and, where the method is unsafe, from the trusted origin with the
  CSRF token of that session.
\<close>

subsection \<open>The operations a request runs\<close>

definition rotation_commands :: "auth_env \<Rightarrow> instant \<Rightarrow> string \<Rightarrow> http_request \<Rightarrow> authenticated \<Rightarrow> auth_command list" where
  "rotation_commands e now token rq a = (if csrf_cookie_is_bound e a (rq_csrf rq) then [] else [Rotate_csrf now token (an_session a)])"

definition status_commands :: "auth_env \<Rightarrow> auth_draws \<Rightarrow> http_request \<Rightarrow> auth_db \<Rightarrow> auth_command list" where
  "status_commands e w rq db = [Authenticate (dw_first w) (rq_session rq)] @
     (case fst (authenticate e (dw_first w) (rq_session rq) db) of None \<Rightarrow> []
       | Some a \<Rightarrow> rotation_commands e (dw_second w) (dw_token w) rq a) @ [Bootstrap_status]"

definition bootstrap_commands :: "auth_draws \<Rightarrow> http_request \<Rightarrow> auth_command list" where
  "bootstrap_commands w rq = (case rq_body rq of Bootstrap_body t p \<Rightarrow> [Bootstrap_user (dw_first w) (dw_seed w) (dw_salt w) t p] | _ \<Rightarrow> [])"

definition login_commands :: "auth_draws \<Rightarrow> http_request \<Rightarrow> auth_command list" where
  "login_commands w rq = (case rq_body rq of Password_body p \<Rightarrow> [Login (dw_first w) (dw_seed w) (dw_salt w) p (rq_session rq)] | _ \<Rightarrow> [])"

definition reauthenticate_commands :: "auth_draws \<Rightarrow> http_request \<Rightarrow> authenticated \<Rightarrow> auth_command list" where
  "reauthenticate_commands w rq a = (case rq_body rq of
     Password_body p \<Rightarrow> [Reauthenticate (dw_first w) (dw_seed w) (dw_salt w) (an_session a) p] | _ \<Rightarrow> [])"

definition route_commands :: "auth_env \<Rightarrow> auth_draws \<Rightarrow> http_request \<Rightarrow> authenticated option \<Rightarrow> auth_db \<Rightarrow> auth_command list" where
  "route_commands e w rq s db = (let endpoint = (rq_method rq, rq_path rq);
       own = \<lambda>f. case s of None \<Rightarrow> [] | Some a \<Rightarrow> f a in
     if endpoint = (''GET'', ''/api/auth/status'') then status_commands e w rq db
     else if endpoint = (''POST'', ''/api/auth/bootstrap'') then bootstrap_commands w rq
     else if endpoint = (''POST'', ''/api/auth/login'') then login_commands w rq
     else if endpoint = (''GET'', ''/api/auth/session'') then own (rotation_commands e (dw_first w) (dw_token w) rq)
     else if endpoint = (''POST'', ''/api/auth/reauthenticate'') then own (reauthenticate_commands w rq)
     else if endpoint = (''POST'', ''/api/auth/logout'') then own (\<lambda>a. [Logout (dw_first w) (an_session a)])
     else [])"

definition request_commands :: "auth_env \<Rightarrow> string \<Rightarrow> auth_draws \<Rightarrow> http_request \<Rightarrow> auth_db \<Rightarrow> auth_command list" where
  "request_commands e origin w rq db = (let endpoint = (rq_method rq, rq_path rq); unsafe = (rq_method rq \<notin> set safe_methods) in
     if endpoint \<in> set external_endpoints then route_commands e w rq None db
     else if unsafe \<and> rq_origin rq \<noteq> Some (strip_slashes origin) then []
     else if endpoint \<in> set public_endpoints then
       (if endpoint \<in> set public_unsafe_endpoints \<and> \<not> verify_double_submit_csrf (rq_csrf rq) (rq_header rq) then []
        else route_commands e w rq None db)
     else Authenticate (dw_gate w) (rq_session rq) # (case authenticate e (dw_gate w) (rq_session rq) db of
         (None, db1) \<Rightarrow> []
       | (Some a, db1) \<Rightarrow> if unsafe \<and> \<not> verify_bound_csrf e a (rq_csrf rq) (rq_header rq) then []
           else route_commands e w rq (Some a) db1))"

fun event_commands :: "auth_env \<Rightarrow> string \<Rightarrow> http_event \<Rightarrow> auth_db \<Rightarrow> auth_command list" where
  "event_commands e origin (Bootstrap_token_main t) db = [Generate_token t]"
| "event_commands e origin (Served w rq) db = request_commands e origin w rq db"
| "event_commands e origin (Cleanup_event now) db = [Cleanup now]"

fun server_commands :: "auth_env \<Rightarrow> string \<Rightarrow> http_event list \<Rightarrow> auth_db \<Rightarrow> auth_command list" where
  "server_commands e origin [] db = []"
| "server_commands e origin (x # xs) db = (let cs = event_commands e origin x db in cs @ server_commands e origin xs (auth_run e cs db))"

subsection \<open>The server refines the service\<close>

lemma auth_run_append [simp]: "auth_run e (cs @ ds) db = auth_run e ds (auth_run e cs db)"
  by (induction cs arbitrary: db) simp_all

lemma exec_snd [simp]:
  "snd (auth_exec e (Authenticate now t) db) = snd (authenticate e now t db)"
  "snd (auth_exec e (Rotate_csrf now token sid) db) = snd (rotate_csrf e now token sid db)"
  "snd (auth_exec e Bootstrap_status db) = snd (bootstrap_status db)"
  "snd (auth_exec e (Generate_token token) db) = snd (generate_bootstrap_token e token db)"
  "snd (issued_answer r) = snd r" "snd (issue_route n r) = snd r" "snd (prevent_authentication_caching b y) = snd y"
  by (auto simp: issued_answer_def issue_route_def prevent_authentication_caching_def split: prod.split sum.split)

lemma status_refines: "snd (status_route e w rq db) = auth_run e (status_commands e w rq db) db"
  by (cases "authenticate e (dw_first w) (rq_session rq) db")
    (auto simp: status_route_def status_commands_def rotation_commands_def split: option.split sum.split prod.split simp del: auth_exec.simps)

lemma session_refines: "snd (session_route e w rq a db) = auth_run e (rotation_commands e (dw_first w) (dw_token w) rq a) db"
  by (auto simp: session_route_def rotation_commands_def split: sum.split prod.split simp del: auth_exec.simps)

lemma route_refines: "snd (authentication_router e other w rq s db) = auth_run e (route_commands e w rq s db) db"
  by (auto simp: authentication_router_def route_commands_def Let_def status_refines session_refines require_authenticated_session_def
      bootstrap_route_def bootstrap_commands_def login_route_def login_commands_def reauthenticate_route_def reauthenticate_commands_def
      logout_route_def split: option.split auth_body.split)

lemma request_refines: "snd (serve e origin other w rq db) = auth_run e (request_commands e origin w rq db) db"
  by (cases "authenticate e (dw_gate w) (rq_session rq) db")
    (auto simp: serve_def auth_dispatch_def request_commands_def Let_def route_refines split: option.split simp del: auth_exec.simps)

lemma event_refines: "server_step e origin other x db = auth_run e (event_commands e origin x db) db"
  by (cases x) (simp_all add: request_refines del: auth_exec.simps(1-8))

theorem server_refines: "server_run e origin other xs db = auth_run e (server_commands e origin xs db) db"
  by (induction xs arbitrary: db) (simp_all add: event_refines Let_def)

subsection \<open>Protected routes\<close>

lemma dispatch_protected:
  assumes "(rq_method rq, rq_path rq) \<notin> set public_endpoints" "(rq_method rq, rq_path rq) \<notin> set external_endpoints"
  shows "auth_dispatch e origin now f rq db = prevent_authentication_caching True
    (if rq_method rq \<notin> set safe_methods \<and> rq_origin rq \<noteq> Some (strip_slashes origin) then (http_answer 403 (Detail ''trusted origin required'') [], db)
     else (case authenticate e now (rq_session rq) db of
         (None, db1) \<Rightarrow> (http_answer 401 (Detail ''authentication required'') clear_authentication_cookies, db1)
       | (Some a, db1) \<Rightarrow>
           if rq_method rq \<notin> set safe_methods \<and> \<not> verify_bound_csrf e a (rq_csrf rq) (rq_header rq)
           then (http_answer 403 (Detail ''CSRF validation failed'') [], db1) else f (Some a) db1))"
  using assms by (simp add: auth_dispatch_def Let_def split: prod.split option.split)

lemma dispatch_admits:
  assumes "(rq_method rq, rq_path rq) \<notin> set public_endpoints" "(rq_method rq, rq_path rq) \<notin> set external_endpoints"
    and "auth_dispatch e origin now f rq db \<noteq> auth_dispatch e origin now g rq db"
  obtains t a db1 where "rq_session rq = Some t" "authenticate e now (Some t) db = (Some a, db1)"
    "auth_dispatch e origin now f rq db = prevent_authentication_caching True (f (Some a) db1)"
    "rq_method rq \<notin> set safe_methods \<Longrightarrow> rq_origin rq = Some (strip_slashes origin) \<and> verify_bound_csrf e a (rq_csrf rq) (rq_header rq)"
proof -
  let ?unsafe = "rq_method rq \<notin> set safe_methods"
  note dp = dispatch_protected [OF assms(1,2)]
  obtain s db1 where s: "authenticate e now (rq_session rq) db = (s, db1)" by force
  have o: "\<not> (?unsafe \<and> rq_origin rq \<noteq> Some (strip_slashes origin))" by (rule notI) (use assms(3) in \<open>simp add: dp\<close>)
  obtain a where a: "s = Some a" using assms(3) s by (cases s) (simp_all only: dp option.case prod.case simp_thms)
  have c: "\<not> (?unsafe \<and> \<not> verify_bound_csrf e a (rq_csrf rq) (rq_header rq))"
    using assms(3) unfolding dp s a by (auto split: if_split_asm)
  have d: "auth_dispatch e origin now f rq db = prevent_authentication_caching True (f (Some a) db1)"
    unfolding dp s a using o c by auto
  obtain t where t: "rq_session rq = Some t" using s a by (cases "rq_session rq") (auto simp: authenticate_def)
  show thesis by (rule that [OF t _ d]) (use s a t o c in auto)
qed

subsection \<open>The body limit\<close>

fun message_bytes :: "asgi_message \<Rightarrow> nat" where
  "message_bytes (Http_request n again) = n"
| "message_bytes m = 0"

lemma captured: "capture_body limit r ms = Some cs \<Longrightarrow> r \<le> limit \<Longrightarrow> cs = take (length cs) ms \<and> r + sum_list (map message_bytes cs) \<le> limit"
  by (induction limit r ms arbitrary: cs rule: capture_body.induct) (auto split: if_split_asm)

text \<open>What reaches the application of a credential request is within the limit, and nothing of it is lost or reordered.\<close>

theorem body_limit_bounded:
  assumes "(verb, path) \<in> set body_endpoints" "body_limit limit (\<lambda>cs rest. Some (cs, rest)) None declared verb path ms = Some (cs, rest)"
  shows "sum_list (map message_bytes cs) \<le> limit \<and> cs @ rest = ms"
proof -
  have c: "capture_body limit 0 ms = Some cs" "rest = drop (length cs) ms"
    using assms by (auto simp: body_limit_def split: if_split_asm option.split_asm)
  have "cs @ rest = ms" using captured [OF c(1)] c(2) by (metis append_take_drop_id le0)
  then show ?thesis using captured [OF c(1)] by simp
qed

text \<open>C25. Protected routes.  In every run of the server (bootstrap tokens printed by the command, requests,
  clean-ups), whatever a request outside the public and the webhook endpoints brings about in the application
  behind the middleware is brought about with a session whose token was issued earlier in the run for the
  password of the one bootstrapped user, in a session that nobody has ended since, within its absolute
  lifetime and within the idle time of its last use; the application sees that session, marked as recent only
  within the reauthentication time of the password.  If the method is unsafe, the request also came from the trusted
  origin with the CSRF token of that session in cookie and header.  The answer is never cached.  (Of the
  passwords that are tried, only the one that was hashed verifies.)\<close>

theorem protected_route_guarded:
  assumes "verifies e (passwords (server_commands e origin xs empty_auth))"
    and "(rq_method rq, rq_path rq) \<notin> set public_endpoints" "(rq_method rq, rq_path rq) \<notin> set external_endpoints"
    and "auth_dispatch e origin now f rq (server_run e origin other xs empty_auth) \<noteq> auth_dispatch e origin now g rq (server_run e origin other xs empty_auth)"
  shows "\<exists>t a db1. rq_session rq = Some t \<and> provenance e now t a (auth_trace e (server_commands e origin xs empty_auth) empty_auth) \<and>
    auth_dispatch e origin now f rq (server_run e origin other xs empty_auth) = prevent_authentication_caching True (f (Some a) db1) \<and>
    (rq_method rq \<notin> set safe_methods \<longrightarrow> rq_origin rq = Some (strip_slashes origin) \<and>
      (\<exists>c. rq_csrf rq = Some c \<and> rq_header rq = Some c \<and> token_digest e c = an_csrf a))"
proof -
  obtain t a db1 where d: "rq_session rq = Some t" "authenticate e now (Some t) (server_run e origin other xs empty_auth) = (Some a, db1)"
    "auth_dispatch e origin now f rq (server_run e origin other xs empty_auth) = prevent_authentication_caching True (f (Some a) db1)"
    "rq_method rq \<notin> set safe_methods \<Longrightarrow> rq_origin rq = Some (strip_slashes origin) \<and> verify_bound_csrf e a (rq_csrf rq) (rq_header rq)"
    by (rule dispatch_admits [OF assms(2-4)]) blast
  have p: "provenance e now t a (auth_trace e (server_commands e origin xs empty_auth) empty_auth)"
    by (rule session_provenance [OF assms(1) d(2) [unfolded server_refines]])
  have "\<exists>c. rq_csrf rq = Some c \<and> rq_header rq = Some c \<and> token_digest e c = an_csrf a" if "verify_bound_csrf e a (rq_csrf rq) (rq_header rq)"
    using that by (auto simp: verify_bound_csrf_def verify_double_submit_csrf_def split: option.split_asm)
  then show ?thesis using d p by blast
qed

definition sample_draws :: auth_draws where
  "sample_draws = \<lparr>dw_gate = 1, dw_first = 1, dw_second = 1, dw_seed = sample_seed, dw_salt = '''', dw_token = replicate 43 (CHR ''D'')\<rparr>"

definition sample_bootstrap :: http_request where
  "sample_bootstrap = \<lparr>rq_method = ''POST'', rq_path = ''/api/auth/bootstrap'', rq_origin = Some ''https://local'', rq_session = None,
     rq_csrf = Some sample_token, rq_header = Some sample_token, rq_body = Bootstrap_body sample_token ''correct horse battery''\<rparr>"

definition sample_request :: http_request where
  "sample_request = \<lparr>rq_method = ''POST'', rq_path = ''/api/tasks'', rq_origin = Some ''https://local'', rq_session = Some (sd_token sample_seed),
     rq_csrf = Some (sd_csrf sample_seed), rq_header = Some (sd_csrf sample_seed), rq_body = Other_body\<rparr>"

definition sample_events :: "http_event list" where
  "sample_events = [Bootstrap_token_main sample_token, Served sample_draws sample_bootstrap]"

definition sample_app :: "int \<Rightarrow> authenticated option \<Rightarrow> auth_db \<Rightarrow> http_response \<times> auth_db" where
  "sample_app n s db = (http_answer n Empty_body [], db)"

abbreviation sample_server :: auth_db where
  "sample_server \<equiv> server_run sample_auth ''https://local/'' (\<lambda>_ _. http_answer 404 Empty_body []) sample_events empty_auth"

lemma sample_admitted: "rp_status (fst (auth_dispatch sample_auth ''https://local/'' 2 (sample_app n) sample_request sample_server)) = n"
  by code_simp

theorem protected_route_guarded_witness:
  "\<exists>t a db1 c. rq_session sample_request = Some t \<and>
     provenance sample_auth 2 t a (auth_trace sample_auth (server_commands sample_auth ''https://local/'' sample_events empty_auth) empty_auth) \<and>
     auth_dispatch sample_auth ''https://local/'' 2 (sample_app 200) sample_request sample_server =
       prevent_authentication_caching True (sample_app 200 (Some a) db1) \<and>
     rq_csrf sample_request = Some c \<and> token_digest sample_auth c = an_csrf a"
proof -
  have "auth_dispatch sample_auth ''https://local/'' 2 (sample_app 200) sample_request sample_server \<noteq>
      auth_dispatch sample_auth ''https://local/'' 2 (sample_app 500) sample_request sample_server"
    using sample_admitted [of 200] sample_admitted [of 500] by (metis numeral_eq_iff num.distinct num.inject)
  moreover have "verifies sample_auth P" for P by (simp add: verifies_def sample_auth_def eq_commute)
  moreover have "(rq_method sample_request, rq_path sample_request) \<notin> set public_endpoints"
    "(rq_method sample_request, rq_path sample_request) \<notin> set external_endpoints" "rq_method sample_request \<notin> set safe_methods"
    by (simp_all add: sample_request_def public_endpoints_def external_endpoints_def safe_methods_def)
  ultimately show ?thesis using protected_route_guarded [of sample_auth "''https://local/''" sample_events sample_request 2 "sample_app 200"
      "\<lambda>_ _. http_answer 404 Empty_body []" "sample_app 500"] by blast
qed

end
