(* ===== verification/Spec2Isabelle.thy ===== *)
theory Spec2Isabelle
  imports Task_Run_Properties Job_Queue_Properties Job_Attempt_Properties Job_Effect_Properties
    Database_Guards Host_Journal_Ledger Preflight_Report Host_Delivery
    Authentication_Gateway_Properties
begin

text \<open>
  A verification development for Mathews, a control plane that drives coding tasks from intake to
  a human merge.  It models the Python services that keep the durable state: the task state
  machine and the job queue of \<open>services/control-plane\<close>, the signed protocol between the control
  plane and the host agent, the agent's dispatcher and journal, and the gateway that calls it.

  Parts of the program and how they interact.  A task (\<open>domain_models.Task\<close>) moves only through
  \<open>task_state_machine._transition_task\<close>, which appends an event and projects it onto the task
  row.  Work on a task is a background job: \<open>background_jobs.BackgroundJobService\<close> schedules it,
  hands it to one worker at a time under a lease with a fencing token, and lets the worker write
  checkpoints, prepare and settle external effects, and move the task, only while its lease is
  current.  An effect on the host is a signed request (\<open>host_protocol.HostRequestMessage\<close>) that
  carries the lease of the job (\<open>host_gateway.authority_for_job_lease\<close>); the host agent
  (\<open>dispatch.HostRequestDispatcher\<close>) verifies it, lets it through the fence of its
  journal (\<open>journal.HostOperationJournal\<close>), reserves the operation, runs its handler and stores the result,
  from which every repetition is answered; the gateway accepts an answer only if it matches the request.

  Theories.
  \<^item> \<open>Prelude\<close>: errors as sums (\<open>bindE\<close>), Python text operations, SQL tables as lists.
  \<^item> \<open>Json\<close>: JSON values, Python equality on them, the canonical text and its fingerprint.
  \<^item> \<open>Domain_Models\<close>: the enumerations and rows of \<open>domain_models.py\<close> and the database state
    \<open>task_db\<close>, \<open>job_db\<close>, with the CHECK and UNIQUE constraints as predicates.
  \<^item> \<open>Task_State_Machine\<close>: \<open>task_state_machine.py\<close>, from the pure engine
    \<open>evaluate_task_transition\<close> to the service \<open>transition_service\<close>.
  \<^item> \<open>Background_Jobs\<close>: \<open>background_jobs.py\<close>, one definition per operation of the service.
  \<^item> \<open>Services\<close>: the contracts of a durable service as locales (a transactional service keeps an
    invariant over every run, a monotone one never lowers a mark, an idempotent one answers a
    repeated command from its record), and \<open>run_service\<close>, a run of commands in which a raised
    command changes nothing.
  \<^item> \<open>Task_Transition_Properties\<close>, \<open>Task_Run_Properties\<close>: the abstract state machine of a task, the
    refinement of the engine to it, event sourcing, idempotency, the exact-head gates.
  \<^item> \<open>Job_Lease_Properties\<close>, \<open>Job_Run_Properties\<close>, \<open>Job_Log_Properties\<close>: the invariant of the queue,
    the moves every operation is made of, and the interpretations of the service contracts on the
    model's own operations.
  \<^item> \<open>Job_Samples\<close>: a concrete queue for the witnesses.
  \<^item> \<open>Job_Queue_Properties\<close>, \<open>Job_Attempt_Properties\<close>, \<open>Job_Effect_Properties\<close>: exclusion and
    fencing, attempts and recovery, checkpoints and effects.
  \<^item> \<open>Identifiers\<close>, \<open>Job_Claim_Properties\<close>: the text of a UUID and of a number determines it, so the
    keys of leases never collide, and a claim makes progress.
  \<^item> \<open>Database_Guards\<close>: the triggers that the migrations put on the tables of the queue, which writes
    of the service they let through (claims, failures, recovery), and the one they abort: every
    pause of a job (\<open>pause_rejected\<close>).
  \<^item> \<open>Json_Text\<close>: UTF-8 and \<open>json.loads\<close> with its hooks, on code points, and the round trip of the
    canonical text (\<open>loads_dumps\<close>).
  \<^item> \<open>Host_Protocol\<close>: \<open>host_protocol.py\<close>, from the message classes to HMAC, encoding and decoding;
    \<open>Host_Messages\<close>: its lemma library; \<open>Host_Protocol_Properties\<close>: delivery of requests and
    responses, well-formedness of what is decoded, what signatures and fingerprints bind.
  \<^item> \<open>Host_Journal\<close>: \<open>journal.py\<close>, one definition per transaction; \<open>Host_Journal_Properties\<close>: the
    fence as a monotone service; \<open>Host_Journal_Ledger\<close>: the journal as the refinement of a ledger of
    operations, and what follows for execution, replay, stale leases and the status query.
  \<^item> \<open>Config_Text\<close>, \<open>Config_Settings\<close>, \<open>Repository_Configuration\<close>: \<open>repository.py\<close> of the configuration
    library and the secret references of \<open>secrets.py\<close>: the patterns and paths, each dataclass as a
    record with its checks (\<open>_ok\<close>), \<open>to_dict\<close> (\<open>_json\<close>) and \<open>from_dict\<close> (\<open>_from\<close>), and the checks
    across the parts of a configuration.  \<open>Config_Roundtrip\<close>: the round trip of every class;
    \<open>Config_Sample\<close>: the configuration of the repository's own contract test;
    \<open>Config_Properties\<close>: what an accepted configuration promises; \<open>Preflight_Report\<close>: the report of the
    host about a configuration, with Python's lenient reading of UUIDs.

  \<^item> \<open>Host_Arguments\<close>, \<open>Host_Dispatch\<close>, \<open>Host_Agent\<close>: \<open>dispatch.py\<close>: the validators, the operation
    context and the handlers, the registry, and the agent as a state (journal, host, threads) with its steps:
    a connection is served, a handler runs, the renewable handler starts and ends, a request is finished,
    the agent stops and loses its threads.  The services a handler calls (workspaces, execution, artifacts,
    keychain) are the functions \<open>host_services\<close> over a host state of any type.
    \<open>Host_Agent_Runs\<close>: what every run keeps (an operation is handed out once, starts its effect once, the
    fence of a job moves forward).
  \<^item> \<open>Host_Transport\<close>: \<open>server.py\<close>: frames, and the send and receive loops for any division of the bytes
    into calls; \<open>Host_Gateway\<close>: \<open>host_gateway.py\<close>, with the float arithmetic of a lease's expiry;
    \<open>Host_Gateway_Properties\<close>: effects happen once, superseded leases of the queue are fenced on the host, and
    the expiry sent to the host is never late (\<open>expiry_bounds\<close>); \<open>Host_Delivery\<close>: every answer of the
    agent is accepted by the gateway.
  \<^item> \<open>Authentication\<close>: \<open>authentication.py\<close> over its three tables (\<open>auth_db\<close>): bootstrap, login with its throttle,
    sessions and CSRF tokens; \<open>Authentication_Gateway\<close>: the middleware in front of every route, the body limit,
    the cookies and the routes under \<open>/api/auth\<close>.  \<open>Authentication_Properties\<close>: every live session goes back
    to the password of the bootstrapped user, and the bound on guesses; \<open>Authentication_Gateway_Properties\<close>:
    the server as a run of the service (\<open>server_refines\<close>), and what a protected route can rely on.

  Parameters.  The SHA-256 digest, the redaction of payloads and the stored-envelope check of
  evidence are the fields of \<open>env\<close>, and the argument \<open>H\<close> of the host theories (that its digests have 32
  bytes is \<open>digest_length\<close>; where a property needs texts to be told apart it names these texts); the gate evaluator (a \<open>Protocol\<close> in the code) and the task
  validator of a schedule are function arguments; clock readings and fresh UUIDs are arguments of
  the commands; what the host's services return and what the kernel moves per socket call are arguments of the
  steps.  No property assumes anything about them beyond what its statement names.

  Bounds.  There is no fuel: the only loop that is not structural, that of \<open>claim_next\<close>, ends
  because every turn that continues fails one RUNNING job (\<open>claim_step_exhausts\<close>).
  The JSON scanner descends at most \<open>limit\<close> containers, the recursion limit of the interpreter; 20 are
  enough for every message that the checks accept (\<open>protocol_nesting\<close>), CPython allows about a thousand.

  Text is modelled over code points below 256; the scanner answers \<open>Beyond_text\<close> for a string outside.  Columns that no modelled operation reads or writes
  are left out of the rows.

  Not modelled.  Ignored results, dependency outages and the worker loop of \<open>background_jobs.py\<close>
  (they go through the evidence and approval services), and the other services of the control
  plane, the host agent and the configuration library, which are listed with the reason in the
  manifest.  Row locks are not needed in the model: every operation is one serialised transaction
  (\<open>BEGIN IMMEDIATE\<close>, or row locks on PostgreSQL), so a run is a sequence of them.
\<close>

end
